(* ===== verification/Prelude.thy ===== *)
theory Prelude imports Complex_Main "HOL-Library.AList" "HOL-Library.Sublist" begin

text \<open>
  Shared vocabulary of the development: Go maps, Go strings and the handful of
  \<open>fmt\<close>, \<open>strings\<close> and \<open>strconv\<close> functions that the modelled
  packages call, with the lemmas the component theories rewrite with.

  A Go map that the code only reads and writes by key is a HOL map
  \<open>'k \<rightharpoonup> 'v\<close>; one that the code ranges over or whose length it takes is an
  association list (\<open>gomap\<close>), whose order stands for the order in which the Go
  runtime happens to range over it: a lemma that holds for every list holds for
  every such order. Strings are the bytes of the Go string. \<open>ToLower\<close> and
  \<open>TrimSpace\<close> act on ASCII and leave other bytes alone.
\<close>

named_theorems gomap_simps "lookups in updated Go maps"
named_theorems status_guards "the guards of the decision functions"

section \<open>Go maps\<close>

type_synonym ('k, 'v) gomap = "('k \<times> 'v) list"

definition mput :: "('k, 'v) gomap \<Rightarrow> 'k \<Rightarrow> 'v \<Rightarrow> ('k, 'v) gomap" where
  "mput m k v = AList.update k v m"

definition mdel :: "('k, 'v) gomap \<Rightarrow> 'k \<Rightarrow> ('k, 'v) gomap" where
  "mdel m k = AList.delete k m"

definition mget :: "'v \<Rightarrow> ('k, 'v) gomap \<Rightarrow> 'k \<Rightarrow> 'v" where
  "mget zero m k = (case map_of m k of None \<Rightarrow> zero | Some v \<Rightarrow> v)"

definition mkeys :: "('k, 'v) gomap \<Rightarrow> 'k list" where
  "mkeys m = map fst m"

text \<open>Reading a plain map with Go's zero value for an absent key.\<close>

definition vget :: "'v \<Rightarrow> ('k \<rightharpoonup> 'v) \<Rightarrow> 'k \<Rightarrow> 'v" where
  "vget zero m k = (case m k of None \<Rightarrow> zero | Some v \<Rightarrow> v)"

abbreviation isset :: "('k \<rightharpoonup> bool) \<Rightarrow> 'k \<Rightarrow> bool" where
  "isset m k \<equiv> vget False m k"

text \<open>Deleting every key whose value satisfies a test (a delete inside a range loop).\<close>

definition drop_vals :: "('v \<Rightarrow> bool) \<Rightarrow> ('k \<rightharpoonup> 'v) \<Rightarrow> ('k \<rightharpoonup> 'v)" where
  "drop_vals P m = (\<lambda>k. case m k of None \<Rightarrow> None | Some v \<Rightarrow> if P v then None else Some v)"

lemma map_of_mput [simp, gomap_simps]: "map_of (mput m k v) = (map_of m)(k \<mapsto> v)"
  by (simp add: mput_def update_conv')

lemma map_of_mdel [simp, gomap_simps]: "map_of (mdel m k) = (map_of m)(k := None)"
  by (simp add: mdel_def delete_conv')

lemma mget_mput [simp, gomap_simps]:
  "mget z (mput m k v) k' = (if k' = k then v else mget z m k')"
  by (simp add: mget_def)

lemma mget_mdel [simp, gomap_simps]:
  "mget z (mdel m k) k' = (if k' = k then z else mget z m k')"
  by (simp add: mget_def)

lemma mget_Nil [simp]: "mget z [] k = z"
  by (simp add: mget_def)

lemma set_mkeys: "set (mkeys m) = dom (map_of m)"
  by (simp add: mkeys_def dom_map_of_conv_image_fst)

lemma mkeys_mput [simp]: "set (mkeys (mput m k v)) = insert k (set (mkeys m))"
  by (simp add: set_mkeys)

lemma mkeys_mdel [simp]: "set (mkeys (mdel m k)) = set (mkeys m) - {k}"
  by (auto simp: set_mkeys)

lemma distinct_mput [simp]: "distinct (mkeys m) \<Longrightarrow> distinct (mkeys (mput m k v))"
  by (simp add: mkeys_def mput_def distinct_update)

lemma distinct_mdel [simp]: "distinct (mkeys m) \<Longrightarrow> distinct (mkeys (mdel m k))"
  by (simp add: mkeys_def mdel_def distinct_delete)

lemma length_mkeys [simp]: "length (mkeys m) = length m"
  by (simp add: mkeys_def)

lemma length_eq_card: "distinct (mkeys m) \<Longrightarrow> length m = card (set (mkeys m))"
  using distinct_card [of "mkeys m"] by simp

lemma length_mput_le: "distinct (mkeys m) \<Longrightarrow> length (mput m k v) \<le> Suc (length m)"
  using length_eq_card [of m] length_eq_card [of "mput m k v"] by (simp add: card_insert_if)

lemma length_mput_in: "distinct (mkeys m) \<Longrightarrow> k \<in> set (mkeys m) \<Longrightarrow> length (mput m k v) = length m"
  using length_eq_card [of m] length_eq_card [of "mput m k v"] by (simp add: card_insert_if)

lemma length_mput_notin:
  "distinct (mkeys m) \<Longrightarrow> k \<notin> set (mkeys m) \<Longrightarrow> length (mput m k v) = Suc (length m)"
  using length_eq_card [of m] length_eq_card [of "mput m k v"] by (simp add: card_insert_if)

lemma length_mdel_in:
  "distinct (mkeys m) \<Longrightarrow> k \<in> set (mkeys m) \<Longrightarrow> Suc (length (mdel m k)) = length m"
  using length_eq_card [of m] length_eq_card [of "mdel m k"]
    card_Suc_Diff1 [of "set (mkeys m)" k] by simp

lemma length_mdel_le: "length (mdel m k) \<le> length m"
  by (simp add: mdel_def length_delete_le)

lemma vget_upd [simp, gomap_simps]: "vget z (m(k \<mapsto> v)) k' = (if k' = k then v else vget z m k')"
  by (simp add: vget_def)

lemma vget_del [simp, gomap_simps]: "vget z (m(k := None)) k' = (if k' = k then z else vget z m k')"
  by (simp add: vget_def)

lemma vget_empty [simp]: "vget z Map.empty k = z"
  by (simp add: vget_def)

lemma drop_vals_apply [simp, gomap_simps]:
  "drop_vals P m k = (case m k of None \<Rightarrow> None | Some v \<Rightarrow> if P v then None else Some v)"
  by (simp add: drop_vals_def)

lemma isset_iff: "isset m k \<longleftrightarrow> m k = Some True"
  by (simp add: vget_def split: option.splits)

section \<open>Go strings\<close>

definition has_prefix :: "string \<Rightarrow> string \<Rightarrow> bool" where
  "has_prefix s p \<longleftrightarrow> take (length p) s = p"

lemma has_prefix_iff: "has_prefix s p \<longleftrightarrow> (\<exists>t. s = p @ t)"
  by (metis append_eq_conv_conj append_take_drop_id has_prefix_def)

lemma has_prefix_append [simp]: "has_prefix (p @ t) p"
  by (auto simp: has_prefix_iff)

text \<open>\<open>strings.Index\<close>: the first position at which the needle occurs.\<close>

fun str_index :: "string \<Rightarrow> string \<Rightarrow> nat option" where
  "str_index [] needle = (if needle = [] then Some 0 else None)"
| "str_index (c # s) needle =
     (if has_prefix (c # s) needle then Some 0 else map_option Suc (str_index s needle))"

definition str_contains :: "string \<Rightarrow> string \<Rightarrow> bool" where
  "str_contains s needle \<longleftrightarrow> str_index s needle \<noteq> None"

lemma str_index_Some:
  "str_index s needle = Some i \<Longrightarrow> i \<le> length s \<and> has_prefix (drop i s) needle"
proof (induction s arbitrary: i)
  case Nil
  then show ?case by (auto simp: has_prefix_def split: if_splits)
next
  case (Cons c s)
  then show ?case by (auto split: if_splits)
qed

lemma str_contains_Cons:
  "(\<exists>a b. c # s = a @ needle @ b) \<longleftrightarrow> has_prefix (c # s) needle \<or> (\<exists>a b. s = a @ needle @ b)"
proof
  assume "\<exists>a b. c # s = a @ needle @ b"
  then obtain a b where ab: "c # s = a @ needle @ b" by blast
  show "has_prefix (c # s) needle \<or> (\<exists>a b. s = a @ needle @ b)"
  proof (cases a)
    case Nil
    with ab show ?thesis by (auto simp: has_prefix_iff)
  next
    case (Cons d a')
    with ab show ?thesis by auto
  qed
next
  assume "has_prefix (c # s) needle \<or> (\<exists>a b. s = a @ needle @ b)"
  then show "\<exists>a b. c # s = a @ needle @ b"
  proof
    assume "has_prefix (c # s) needle"
    then obtain t where "c # s = [] @ needle @ t" by (auto simp: has_prefix_iff)
    then show ?thesis by blast
  next
    assume "\<exists>a b. s = a @ needle @ b"
    then obtain a b where "s = a @ needle @ b" by blast
    then have "c # s = (c # a) @ needle @ b" by simp
    then show ?thesis by blast
  qed
qed

lemma str_contains_iff: "str_contains s needle \<longleftrightarrow> (\<exists>a b. s = a @ needle @ b)"
proof (induction s)
  case Nil
  then show ?case by (simp add: str_contains_def)
next
  case (Cons c s)
  then show ?case by (simp add: str_contains_def str_contains_Cons)
qed

text \<open>\<open>strings.ToLower\<close> and \<open>strings.TrimSpace\<close> on ASCII.\<close>

definition lower_char :: "char \<Rightarrow> char" where
  "lower_char c = (let n = of_char c :: nat in if 65 \<le> n \<and> n \<le> 90 then char_of (n + 32) else c)"

definition to_lower :: "string \<Rightarrow> string" where
  "to_lower s = map lower_char s"

lemma length_to_lower [simp]: "length (to_lower s) = length s"
  by (simp add: to_lower_def)

definition is_space :: "char \<Rightarrow> bool" where
  "is_space c = (let n = of_char c :: nat in n = 32 \<or> (9 \<le> n \<and> n \<le> 13))"

definition trim_space :: "string \<Rightarrow> string" where
  "trim_space s = rev (dropWhile is_space (rev (dropWhile is_space s)))"

lemma length_trim_space: "length (trim_space s) \<le> length s"
  by (metis trim_space_def length_rev length_dropWhile_le le_trans)

text \<open>\<open>strings.Join\<close>.\<close>

fun str_join :: "string list \<Rightarrow> string \<Rightarrow> string" where
  "str_join [] sep = []"
| "str_join [x] sep = x"
| "str_join (x # y # zs) sep = x @ sep @ str_join (y # zs) sep"

section \<open>Formatting\<close>

text \<open>\<open>%d\<close> (\<open>strconv.Itoa\<close>): decimal digits of an integer.\<close>

fun nat_digits :: "nat \<Rightarrow> string" where
  "nat_digits n = (if n < 10 then [char_of (48 + n)]
     else nat_digits (n div 10) @ [char_of (48 + n mod 10)])"

declare nat_digits.simps [simp del]

definition itoa :: "int \<Rightarrow> string" where
  "itoa i = (if i < 0 then ''-'' @ nat_digits (nat (- i)) else nat_digits (nat i))"

text \<open>\<open>strconv.Atoi\<close> on a 64-bit platform: an optional sign, digits only, in the range of int.\<close>

definition digit_val :: "char \<Rightarrow> nat option" where
  "digit_val c = (let n = of_char c :: nat in if 48 \<le> n \<and> n \<le> 57 then Some (n - 48) else None)"

fun digits_val :: "nat \<Rightarrow> string \<Rightarrow> nat option" where
  "digits_val acc [] = Some acc"
| "digits_val acc (c # cs) =
     (case digit_val c of None \<Rightarrow> None | Some d \<Rightarrow> digits_val (10 * acc + d) cs)"

definition atoi :: "string \<Rightarrow> int option" where
  "atoi s = (let (neg, ds) = (case s of [] \<Rightarrow> (False, [])
        | c # cs \<Rightarrow> if c = CHR ''-'' then (True, cs) else if c = CHR ''+'' then (False, cs) else (False, s))
     in if ds = [] then None else (case digits_val 0 ds of None \<Rightarrow> None
        | Some n \<Rightarrow> let i = (if neg then - int n else int n)
            in if - (2 ^ 63) \<le> i \<and> i < 2 ^ 63 then Some i else None))"

text \<open>\<open>%q\<close> (\<open>strconv.Quote\<close>) on ASCII; bytes from 128 on are kept as they are.\<close>

definition hex_digit :: "nat \<Rightarrow> char" where
  "hex_digit n = (if n < 10 then char_of (48 + n) else char_of (87 + n))"

definition quote_char :: "char \<Rightarrow> string" where
  "quote_char c = (let n = of_char c :: nat; bs = char_of (92 :: nat) in
     if n = 34 \<or> n = 92 then [bs, c]
     else if n = 7 then [bs, CHR ''a''] else if n = 8 then [bs, CHR ''b'']
     else if n = 9 then [bs, CHR ''t''] else if n = 10 then [bs, CHR ''n'']
     else if n = 11 then [bs, CHR ''v''] else if n = 12 then [bs, CHR ''f'']
     else if n = 13 then [bs, CHR ''r'']
     else if n < 32 \<or> n = 127 then [bs, CHR ''x'', hex_digit (n div 16), hex_digit (n mod 16)]
     else [c])"

definition go_quote :: "string \<Rightarrow> string" where
  "go_quote s = [char_of (34 :: nat)] @ concat (map quote_char s) @ [char_of (34 :: nat)]"

text \<open>The UTF-8 bytes of the em dash that several messages contain.\<close>

definition em_dash :: string where
  "em_dash = [char_of (226 :: nat), char_of (128 :: nat), char_of (148 :: nat)]"

text \<open>\<open>%v\<close> of a string slice.\<close>

definition fmt_slice :: "string list \<Rightarrow> string" where
  "fmt_slice xs = ''['' @ str_join xs '' '' @ '']''"

text \<open>
  \<open>%.2f\<close> of a finite float64, given as the rational number it is: the nearest
  multiple of 1/100, ties to even, printed with two digits.
\<close>

definition round_half_even :: "rat \<Rightarrow> int" where
  "round_half_even x = (let f = \<lfloor>x\<rfloor>; d = x - of_int f in
     if d < 1 / 2 then f else if 1 / 2 < d then f + 1 else if even f then f else f + 1)"

definition fmt_2f :: "rat \<Rightarrow> string" where
  "fmt_2f x = (let n = round_half_even (100 * \<bar>x\<bar>);
      digits = itoa (n div 100) @ ''.'' @ itoa (n mod 100 div 10) @ itoa (n mod 10)
    in if x < 0 then ''-'' @ digits else digits)"

section \<open>Lists\<close>

text \<open>The last element satisfying a test, as the code's forward scans with overwriting find it.\<close>

definition last_match :: "('a \<Rightarrow> bool) \<Rightarrow> 'a list \<Rightarrow> 'a option" where
  "last_match P xs = foldl (\<lambda>best x. if P x then Some x else best) None xs"

lemma last_match_Nil [simp]: "last_match P [] = None"
  by (simp add: last_match_def)

lemma last_match_snoc [simp]:
  "last_match P (xs @ [x]) = (if P x then Some x else last_match P xs)"
  by (simp add: last_match_def)

lemma last_match_None: "last_match P xs = None \<longleftrightarrow> (\<forall>z \<in> set xs. \<not> P z)"
  by (induction xs rule: rev_induct) auto

lemma last_match_Some:
  "last_match P xs = Some x \<Longrightarrow> \<exists>ys zs. xs = ys @ x # zs \<and> P x \<and> (\<forall>z \<in> set zs. \<not> P z)"
proof (induction xs rule: rev_induct)
  case Nil
  then show ?case by simp
next
  case (snoc y xs)
  show ?case
  proof (cases "P y")
    case True
    with snoc.prems have "xs @ [y] = xs @ x # [] \<and> P x" by simp
    then show ?thesis by fastforce
  next
    case False
    with snoc obtain ys zs where "xs = ys @ x # zs" "P x" "\<forall>z \<in> set zs. \<not> P z" by auto
    with False have "xs @ [y] = ys @ x # (zs @ [y]) \<and> P x \<and> (\<forall>z \<in> set (zs @ [y]). \<not> P z)" by simp
    then show ?thesis by blast
  qed
qed

lemma last_match_in: "last_match P xs = Some x \<Longrightarrow> x \<in> set xs \<and> P x"
  using last_match_Some by fastforce

text \<open>The last and the first element of a list with a property, without naming a scan.\<close>

definition last_such :: "('a \<Rightarrow> bool) \<Rightarrow> 'a list \<Rightarrow> 'a \<Rightarrow> bool" where
  "last_such P xs x \<longleftrightarrow> (\<exists>us vs. xs = us @ x # vs \<and> P x \<and> (\<forall>z \<in> set vs. \<not> P z))"

definition first_such :: "('a \<Rightarrow> bool) \<Rightarrow> 'a list \<Rightarrow> 'a \<Rightarrow> bool" where
  "first_such P xs x \<longleftrightarrow> (\<exists>us vs. xs = us @ x # vs \<and> P x \<and> (\<forall>z \<in> set us. \<not> P z))"

lemma last_match_iff: "last_match P xs = Some x \<longleftrightarrow> last_such P xs x"
proof
  assume "last_such P xs x"
  then obtain us vs where xs: "xs = us @ x # vs" "P x" "\<forall>z \<in> set vs. \<not> P z" by (auto simp: last_such_def)
  from xs(3) have "last_match P (us @ x # vs) = last_match P (us @ [x])"
    by (induction vs rule: rev_induct) (simp_all flip: append_assoc append_Cons)
  with xs show "last_match P xs = Some x" by simp
qed (auto simp: last_such_def dest: last_match_Some)

lemma find_iff: "List.find P xs = Some x \<longleftrightarrow> first_such P xs x"
proof (induction xs)
  case (Cons y xs)
  then show ?case
    by (auto simp: first_such_def Cons_eq_append_conv) (metis append_Cons set_ConsD)+
qed (simp add: first_such_def)

lemma foldl_invariant:
  "(\<And>s x. x \<in> set xs \<Longrightarrow> I s \<Longrightarrow> I (f s x)) \<Longrightarrow> I s \<Longrightarrow> I (foldl f s xs)"
  by (induction xs arbitrary: s) auto

text \<open>
  A flag that some elements set and others clear holds after a scan exactly when a setting
  element was seen with no clearing one behind it, or it held at first and was never cleared.
\<close>

lemma latch_history:
  assumes step: "\<And>s x. I s \<Longrightarrow> P (f s x) \<longleftrightarrow> on x \<or> P s \<and> \<not> off x"
    and inv: "\<And>s x. I s \<Longrightarrow> I (f s x)" and start: "I s"
  shows "P (foldl f s xs) \<longleftrightarrow> P s \<and> (\<forall>x \<in> set xs. \<not> off x) \<or>
     (\<exists>pre x post. xs = pre @ x # post \<and> on x \<and> (\<forall>y \<in> set post. \<not> off y))"
proof (induction xs rule: rev_induct)
  case Nil
  then show ?case by simp
next
  case (snoc y xs)
  have split: "(\<exists>pre x post. xs @ [y] = pre @ x # post \<and> on x \<and> (\<forall>z \<in> set post. \<not> off z)) \<longleftrightarrow>
      on y \<or> \<not> off y \<and> (\<exists>pre x post. xs = pre @ x # post \<and> on x \<and> (\<forall>z \<in> set post. \<not> off z))"
    (is "?L \<longleftrightarrow> ?R")
  proof
    assume ?L
    then obtain pre x post where "xs @ [y] = pre @ x # post" "on x" "\<forall>z \<in> set post. \<not> off z" by blast
    then show ?R by (cases post rule: rev_cases) auto
  next
    assume ?R
    then show ?L
    proof
      assume "on y"
      then show ?L by (intro exI [of _ xs] exI [of _ y] exI [of _ "[]"]) simp
    next
      assume "\<not> off y \<and> (\<exists>pre x post. xs = pre @ x # post \<and> on x \<and> (\<forall>z \<in> set post. \<not> off z))"
      then obtain pre x post where "\<not> off y" "xs = pre @ x # post" "on x" "\<forall>z \<in> set post. \<not> off z" by blast
      then show ?L by (intro exI [of _ pre] exI [of _ x] exI [of _ "post @ [y]"]) auto
    qed
  qed
  have last: "P (foldl f s (xs @ [y])) \<longleftrightarrow> on y \<or> P (foldl f s xs) \<and> \<not> off y"
  proof -
    have "I (foldl f s xs)" by (rule foldl_invariant) (use inv start in auto)
    then show ?thesis using step by simp
  qed
  define Q where "Q \<longleftrightarrow> (\<exists>pre x post. xs = pre @ x # post \<and> on x \<and> (\<forall>z \<in> set post. \<not> off z))"
  have all: "(\<forall>x \<in> set (xs @ [y]). \<not> off x) \<longleftrightarrow> (\<forall>x \<in> set xs. \<not> off x) \<and> \<not> off y" by auto
  show ?case unfolding last split snoc.IH all Q_def [symmetric] by blast
qed

end
