(* ===== verification/Events.thy ===== *)
theory Events imports Prelude begin

text \<open>
  Package \<open>internal/event\<close>: event types, payload structs and the envelope.
  An event type is a constructor of \<open>etype\<close>, named like the Go constant;
  \<open>type_name\<close> gives the Go string and \<open>etype_of\<close> reads one back.
  A payload is the struct that was marshalled into the envelope, one constructor per
  struct, or \<open>Malformed\<close> for bytes that \<open>json.Unmarshal\<close> refuses; the decoders
  return \<open>None\<close> where Go returns an error.
  The \<open>env\<close> builders are \<open>New\<close>, \<open>WithAggregate\<close>, and so on.
\<close>

section \<open>Event types\<close>

datatype etype =
    WorkflowRequested | WorkflowStarted | WorkflowStartedFor string
  | WorkflowCompleted | WorkflowFailed | WorkflowCancelled
  | AIRequestSent | AIRequestStarted | AIResponseReceived | AIStructuredOutput
  | VerdictRendered | FeedbackGenerated | FeedbackConsumed | TokenBudgetExceeded
  | PersonaCompleted | PersonaFailed | PersonaTracked | PersonaFailedTracked | VerdictTracked
  | CompensationStarted | CompensationCompleted | WorkspaceReady
  | WorkflowPaused | WorkflowResumed | WorkflowRetried | OperatorGuidance
  | HintEmitted | HintApproved | HintRejected | WorkflowRerouted | UnhandledEventDetected
  | DispatchDropped | DispatchStarted | KnowledgeUnavailable | VerdictGroundingSummary
  | ContextCodebase | ContextSchema | ContextGit | ContextEnrichment
  | ChildWorkflowCompleted | PRCommentPosted
  | OtherType string

definition WorkflowStartedPrefix :: string where
  "WorkflowStartedPrefix = ''workflow.started.''"

text \<open>The fixed-name constants with their strings, in the order of the const block.\<close>

definition core_types :: "(etype \<times> string) list" where
  "core_types = [
    (WorkflowRequested, ''workflow.requested''), (WorkflowStarted, ''workflow.started''),
    (WorkflowCompleted, ''workflow.completed''), (WorkflowFailed, ''workflow.failed''),
    (WorkflowCancelled, ''workflow.cancelled''),
    (AIRequestSent, ''ai.request.sent''), (AIRequestStarted, ''ai.request.started''),
    (AIResponseReceived, ''ai.response.received''), (AIStructuredOutput, ''ai.structured_output''),
    (VerdictRendered, ''verdict.rendered''), (FeedbackGenerated, ''feedback.generated''),
    (FeedbackConsumed, ''feedback.consumed''), (TokenBudgetExceeded, ''token.budget.exceeded''),
    (PersonaCompleted, ''persona.completed''), (PersonaFailed, ''persona.failed''),
    (PersonaTracked, ''persona.tracked''), (PersonaFailedTracked, ''persona.failed.tracked''),
    (VerdictTracked, ''verdict.tracked''),
    (CompensationStarted, ''compensation.started''),
    (CompensationCompleted, ''compensation.completed''),
    (WorkspaceReady, ''workspace.ready''),
    (WorkflowPaused, ''workflow.paused''), (WorkflowResumed, ''workflow.resumed''),
    (WorkflowRetried, ''workflow.retried''), (OperatorGuidance, ''operator.guidance''),
    (HintEmitted, ''hint.emitted''), (HintApproved, ''hint.approved''),
    (HintRejected, ''hint.rejected''), (WorkflowRerouted, ''workflow.rerouted''),
    (UnhandledEventDetected, ''sentinel.unhandled''),
    (DispatchDropped, ''dispatch.dropped''), (DispatchStarted, ''dispatch.started''),
    (KnowledgeUnavailable, ''knowledge.unavailable''),
    (VerdictGroundingSummary, ''verdict.grounding.summary''),
    (ContextCodebase, ''context.codebase''), (ContextSchema, ''context.schema''),
    (ContextGit, ''context.git''), (ContextEnrichment, ''context.enrichment''),
    (ChildWorkflowCompleted, ''child.workflow.completed''),
    (PRCommentPosted, ''pr.comment.posted'')]"

definition type_name :: "etype \<Rightarrow> string" where
  "type_name t = (case t of
      WorkflowStartedFor i \<Rightarrow> WorkflowStartedPrefix @ i
    | OtherType s \<Rightarrow> s
    | _ \<Rightarrow> the (map_of core_types t))"

text \<open>Reading a type string back: \<open>strings.HasPrefix\<close> decides the started family.\<close>

definition etype_of :: "string \<Rightarrow> etype" where
  "etype_of s = (case map_of (map (\<lambda>(t, n). (n, t)) core_types) s of
      Some t \<Rightarrow> t
    | None \<Rightarrow> if has_prefix s WorkflowStartedPrefix
        then WorkflowStartedFor (drop (length WorkflowStartedPrefix) s) else OtherType s)"

fun IsWorkflowStarted :: "etype \<Rightarrow> bool" where
  "IsWorkflowStarted WorkflowStarted = True"
| "IsWorkflowStarted (WorkflowStartedFor i) = True"
| "IsWorkflowStarted (OtherType s) = (s = ''workflow.started'' \<or> has_prefix s WorkflowStartedPrefix)"
| "IsWorkflowStarted _ = False"

section \<open>Payload structs\<close>

record workflow_requested =
  wr_Prompt :: string
  wr_WorkflowID :: string
  wr_Source :: string
  wr_Repo :: string
  wr_Ticket :: string
  wr_RepoBranch :: string
  wr_BaseBranch :: string
  wr_Isolate :: bool

record workflow_started =
  ws_WorkflowID :: string
  ws_Phases :: "string list"
  ws_Source :: string
  ws_Ticket :: string
  ws_Prompt :: string

text \<open>\<open>FailureKind\<close>: the classes of a persona failure.\<close>

datatype failure_kind =
    FailureKindUnspecified | FailureKindIdleTimeout | FailureKindProgressTimeout
  | FailureKindWallTimeout | FailureKindCancelled | FailureKindBackendError
  | FailureKindHandlerError | FailureKindOutputTruncated | FailureKindStalled
  | FailureKindRateLimited

fun failure_kind_name :: "failure_kind \<Rightarrow> string" where
  "failure_kind_name FailureKindUnspecified = ''''"
| "failure_kind_name FailureKindIdleTimeout = ''idle_timeout''"
| "failure_kind_name FailureKindProgressTimeout = ''progress_timeout''"
| "failure_kind_name FailureKindWallTimeout = ''wall_timeout''"
| "failure_kind_name FailureKindCancelled = ''cancelled''"
| "failure_kind_name FailureKindBackendError = ''backend_error''"
| "failure_kind_name FailureKindHandlerError = ''handler_error''"
| "failure_kind_name FailureKindOutputTruncated = ''output_truncated''"
| "failure_kind_name FailureKindStalled = ''stalled''"
| "failure_kind_name FailureKindRateLimited = ''rate_limited''"

record workflow_failed =
  wf_Reason :: string
  wf_Persona :: string
  wf_FailureKind :: failure_kind
  wf_Backend :: string
  wf_Stderr :: string

record workflow_paused =
  wp_Reason :: string
  wp_Source :: string
  wp_RetargetPersona :: string
  wp_RetargetSource :: string
  wp_RetryFromPhase :: string
  wp_RateLimitResetHint :: string
  wp_RateLimitBackend :: string

record workflow_retried =
  wt_FromPhase :: string
  wt_InvalidatedPersonas :: "string list"
  wt_Reason :: string
  wt_Automatic :: bool

datatype verdict_outcome = VerdictPass | VerdictFail | VerdictUnknown

record issue =
  is_Severity :: string
  is_Category :: string
  is_Description :: string
  is_File :: string
  is_Line :: int

record verdict =
  v_Persona :: string
  v_SourcePersona :: string
  v_Outcome :: verdict_outcome
  v_Issues :: "issue list"
  v_Summary :: string
  v_Advisory :: bool
  v_Source :: string
  v_RawDiagnostics :: string
  v_DevTriggerID :: string

record feedback_generated =
  fb_TargetPersona :: string
  fb_SourcePersona :: string
  fb_Iteration :: int
  fb_Issues :: "issue list"
  fb_Summary :: string
  fb_RawDiagnostics :: string

record ai_response =
  ar_Persona :: string
  ar_Backend :: string
  ar_TokensUsed :: int
  ar_DurationMS :: int
  ar_Structured :: bool
  ar_Output :: string
  ar_OutputRaw :: string

record persona_completed =
  pc_Persona :: string
  pc_TriggerEvent :: string
  pc_TriggerID :: string
  pc_Reactive :: bool
  pc_OutputRef :: string
  pc_DurationMS :: int
  pc_ChainDepth :: int

record persona_failed =
  pf_Persona :: string
  pf_TriggerEvent :: string
  pf_TriggerID :: string
  pf_Reactive :: bool
  pf_Error :: string
  pf_FailureKind :: failure_kind
  pf_Backend :: string
  pf_Stderr :: string
  pf_DurationMS :: int
  pf_ChainDepth :: int
  pf_HandlerVersion :: string

text \<open>A JSON number decoded into a float64 is finite, so it is a rational number.\<close>

record hint_emitted =
  he_Persona :: string
  he_TriggerEvent :: string
  he_TriggerID :: string
  he_Confidence :: rat
  he_Plan :: string
  he_Blockers :: "string list"
  he_TokenEstimate :: int

record hint_approved =
  ha_Persona :: string
  ha_TriggerID :: string
  ha_Guidance :: string

record hint_rejected =
  hr_Persona :: string
  hr_Reason :: string
  hr_Action :: string

record workspace_ready =
  wy_Path :: string
  wy_Branch :: string
  wy_Base :: string
  wy_Isolated :: bool

record dispatch_dropped =
  dd_Handler :: string
  dd_DroppedEventID :: string
  dd_DroppedEventType :: string
  dd_DropReason :: string
  dd_MissingPredecessors :: "string list"
  dd_Fingerprint :: string
  dd_Detail :: string

record dispatch_started =
  ds_Persona :: string
  ds_TriggerEvent :: string
  ds_TriggerID :: string
  ds_ChainDepth :: int
  ds_SpawnUnixNano :: int

text \<open>An enrichment snapshot; the items are read by prompts only and left out.\<close>

record context_enrichment =
  ce_Source :: string
  ce_Kind :: string
  ce_Summary :: string

record grounding_summary =
  gs_Reviewer :: string
  gs_OriginalCount :: int
  gs_GroundedCount :: int
  gs_DropReasons :: "(string \<times> int) list"
  gs_RescuedCount :: int
  gs_OriginalOutcome :: verdict_outcome
  gs_FinalOutcome :: verdict_outcome

record comment_posted =
  cm_Repo :: string
  cm_PRNumber :: int
  cm_Kind :: string
  cm_CommentID :: int
  cm_InReplyToID :: int
  cm_BodyHash :: string
  cm_Skipped :: bool

datatype payload =
    PWorkflowRequested workflow_requested
  | PWorkflowStarted workflow_started
  | PWorkflowCompleted string
  | PWorkflowFailed workflow_failed
  | PWorkflowPaused workflow_paused
  | PWorkflowRetried workflow_retried
  | PVerdict verdict
  | PFeedbackGenerated feedback_generated
  | PAIResponse ai_response
  | PPersonaCompleted persona_completed
  | PPersonaFailed persona_failed
  | PHintEmitted hint_emitted
  | PHintApproved hint_approved
  | PHintRejected hint_rejected
  | PWorkspaceReady workspace_ready
  | PDispatchDropped dispatch_dropped
  | PDispatchStarted dispatch_started
  | PContextEnrichment context_enrichment
  | PGroundingSummary grounding_summary
  | PCommentPosted comment_posted
  | POther string
  | Malformed

section \<open>Decoding\<close>

text \<open>\<open>json.Unmarshal\<close> into a struct variable: the error case leaves the zero struct.\<close>

definition zero_requested :: workflow_requested where
  "zero_requested = \<lparr>wr_Prompt = [], wr_WorkflowID = [], wr_Source = [], wr_Repo = [], wr_Ticket = [],
     wr_RepoBranch = [], wr_BaseBranch = [], wr_Isolate = False\<rparr>"

definition zero_paused :: workflow_paused where
  "zero_paused = \<lparr>wp_Reason = [], wp_Source = [], wp_RetargetPersona = [], wp_RetargetSource = [],
     wp_RetryFromPhase = [], wp_RateLimitResetHint = [], wp_RateLimitBackend = []\<rparr>"

definition zero_retried :: workflow_retried where
  "zero_retried = \<lparr>wt_FromPhase = [], wt_InvalidatedPersonas = [], wt_Reason = [], wt_Automatic = False\<rparr>"

text \<open>The zero outcome is the empty string, which equals neither pass nor fail: it behaves as unknown.\<close>

definition zero_verdict :: verdict where
  "zero_verdict = \<lparr>v_Persona = [], v_SourcePersona = [], v_Outcome = VerdictUnknown, v_Issues = [],
     v_Summary = [], v_Advisory = False, v_Source = [], v_RawDiagnostics = [], v_DevTriggerID = []\<rparr>"

definition zero_feedback :: feedback_generated where
  "zero_feedback = \<lparr>fb_TargetPersona = [], fb_SourcePersona = [], fb_Iteration = 0, fb_Issues = [],
     fb_Summary = [], fb_RawDiagnostics = []\<rparr>"

definition zero_completed :: persona_completed where
  "zero_completed = \<lparr>pc_Persona = [], pc_TriggerEvent = [], pc_TriggerID = [], pc_Reactive = False,
     pc_OutputRef = [], pc_DurationMS = 0, pc_ChainDepth = 0\<rparr>"

definition zero_failed :: persona_failed where
  "zero_failed = \<lparr>pf_Persona = [], pf_TriggerEvent = [], pf_TriggerID = [], pf_Reactive = False,
     pf_Error = [], pf_FailureKind = FailureKindUnspecified, pf_Backend = [], pf_Stderr = [],
     pf_DurationMS = 0, pf_ChainDepth = 0, pf_HandlerVersion = []\<rparr>"

definition zero_hint :: hint_emitted where
  "zero_hint = \<lparr>he_Persona = [], he_TriggerEvent = [], he_TriggerID = [], he_Confidence = 0,
     he_Plan = [], he_Blockers = [], he_TokenEstimate = 0\<rparr>"

definition zero_rejected :: hint_rejected where
  "zero_rejected = \<lparr>hr_Persona = [], hr_Reason = [], hr_Action = []\<rparr>"

definition as_requested :: "payload \<Rightarrow> workflow_requested option" where
  "as_requested p = (case p of PWorkflowRequested r \<Rightarrow> Some r | _ \<Rightarrow> None)"

definition as_started :: "payload \<Rightarrow> workflow_started option" where
  "as_started p = (case p of PWorkflowStarted r \<Rightarrow> Some r | _ \<Rightarrow> None)"

definition as_wf_failed :: "payload \<Rightarrow> workflow_failed option" where
  "as_wf_failed p = (case p of PWorkflowFailed r \<Rightarrow> Some r | _ \<Rightarrow> None)"

definition as_paused :: "payload \<Rightarrow> workflow_paused option" where
  "as_paused p = (case p of PWorkflowPaused r \<Rightarrow> Some r | _ \<Rightarrow> None)"

definition as_retried :: "payload \<Rightarrow> workflow_retried option" where
  "as_retried p = (case p of PWorkflowRetried r \<Rightarrow> Some r | _ \<Rightarrow> None)"

definition as_verdict :: "payload \<Rightarrow> verdict option" where
  "as_verdict p = (case p of PVerdict r \<Rightarrow> Some r | _ \<Rightarrow> None)"

definition as_feedback :: "payload \<Rightarrow> feedback_generated option" where
  "as_feedback p = (case p of PFeedbackGenerated r \<Rightarrow> Some r | _ \<Rightarrow> None)"

definition as_ai_response :: "payload \<Rightarrow> ai_response option" where
  "as_ai_response p = (case p of PAIResponse r \<Rightarrow> Some r | _ \<Rightarrow> None)"

definition as_completed :: "payload \<Rightarrow> persona_completed option" where
  "as_completed p = (case p of PPersonaCompleted r \<Rightarrow> Some r | _ \<Rightarrow> None)"

definition as_failed :: "payload \<Rightarrow> persona_failed option" where
  "as_failed p = (case p of PPersonaFailed r \<Rightarrow> Some r | _ \<Rightarrow> None)"

definition as_hint :: "payload \<Rightarrow> hint_emitted option" where
  "as_hint p = (case p of PHintEmitted r \<Rightarrow> Some r | _ \<Rightarrow> None)"

definition as_approved :: "payload \<Rightarrow> hint_approved option" where
  "as_approved p = (case p of PHintApproved r \<Rightarrow> Some r | _ \<Rightarrow> None)"

definition as_rejected :: "payload \<Rightarrow> hint_rejected option" where
  "as_rejected p = (case p of PHintRejected r \<Rightarrow> Some r | _ \<Rightarrow> None)"

definition as_workspace :: "payload \<Rightarrow> workspace_ready option" where
  "as_workspace p = (case p of PWorkspaceReady r \<Rightarrow> Some r | _ \<Rightarrow> None)"

definition as_enrichment :: "payload \<Rightarrow> context_enrichment option" where
  "as_enrichment p = (case p of PContextEnrichment r \<Rightarrow> Some r | _ \<Rightarrow> None)"

definition as_comment :: "payload \<Rightarrow> comment_posted option" where
  "as_comment p = (case p of PCommentPosted r \<Rightarrow> Some r | _ \<Rightarrow> None)"

lemmas decode_defs = as_requested_def as_started_def as_wf_failed_def as_paused_def as_retried_def
  as_verdict_def as_feedback_def as_ai_response_def as_completed_def as_failed_def as_hint_def
  as_approved_def as_rejected_def as_workspace_def as_enrichment_def as_comment_def

text \<open>The struct each payload-carrying event type is marshalled from.\<close>

definition payload_fits :: "etype \<Rightarrow> payload \<Rightarrow> bool" where
  "payload_fits ty p = (case ty of
      WorkflowRequested \<Rightarrow> as_requested p \<noteq> None
    | WorkflowStarted \<Rightarrow> as_started p \<noteq> None
    | WorkflowStartedFor i \<Rightarrow> as_started p \<noteq> None
    | WorkflowFailed \<Rightarrow> as_wf_failed p \<noteq> None
    | WorkflowPaused \<Rightarrow> as_paused p \<noteq> None
    | WorkflowRetried \<Rightarrow> as_retried p \<noteq> None
    | VerdictRendered \<Rightarrow> as_verdict p \<noteq> None
    | VerdictTracked \<Rightarrow> as_verdict p \<noteq> None
    | FeedbackGenerated \<Rightarrow> as_feedback p \<noteq> None
    | AIResponseReceived \<Rightarrow> as_ai_response p \<noteq> None
    | PersonaCompleted \<Rightarrow> as_completed p \<noteq> None
    | PersonaTracked \<Rightarrow> as_completed p \<noteq> None
    | PersonaFailed \<Rightarrow> as_failed p \<noteq> None
    | PersonaFailedTracked \<Rightarrow> as_failed p \<noteq> None
    | HintEmitted \<Rightarrow> as_hint p \<noteq> None
    | HintApproved \<Rightarrow> as_approved p \<noteq> None
    | HintRejected \<Rightarrow> as_rejected p \<noteq> None
    | WorkspaceReady \<Rightarrow> as_workspace p \<noteq> None
    | _ \<Rightarrow> True)"

definition or_zero :: "'a \<Rightarrow> 'a option \<Rightarrow> 'a" where
  "or_zero z x = (case x of None \<Rightarrow> z | Some r \<Rightarrow> r)"

lemma or_zero_simps [simp]: "or_zero z None = z" "or_zero z (Some r) = r"
  by (simp_all add: or_zero_def)

section \<open>Envelopes\<close>

record envelope =
  e_ID :: string
  e_Type :: etype
  e_AggregateID :: string
  e_Version :: int
  e_SchemaVersion :: int
  e_Timestamp :: int
  e_CausationID :: string
  e_CorrelationID :: string
  e_Source :: string
  e_Payload :: payload

text \<open>
  What an operation takes from its surroundings: the values \<open>NewID\<close> returns (one per
  call site, numbered in the order of the calls), the clock, and the process environment.
\<close>

record runtime =
  rt_uid :: "nat \<Rightarrow> string"
  rt_now :: int
  rt_getenv :: "string \<Rightarrow> string"

definition NewEnv :: "runtime \<Rightarrow> nat \<Rightarrow> etype \<Rightarrow> int \<Rightarrow> payload \<Rightarrow> envelope" where
  "NewEnv rt k ty sv p = \<lparr>e_ID = rt_uid rt k, e_Type = ty, e_AggregateID = [], e_Version = 0,
     e_SchemaVersion = sv, e_Timestamp = rt_now rt, e_CausationID = [], e_CorrelationID = [],
     e_Source = [], e_Payload = p\<rparr>"

definition WithAggregate :: "string \<Rightarrow> int \<Rightarrow> envelope \<Rightarrow> envelope" where
  "WithAggregate a v e = e\<lparr>e_AggregateID := a, e_Version := v\<rparr>"

definition WithCausation :: "string \<Rightarrow> envelope \<Rightarrow> envelope" where
  "WithCausation c e = e\<lparr>e_CausationID := c\<rparr>"

definition WithCorrelation :: "string \<Rightarrow> envelope \<Rightarrow> envelope" where
  "WithCorrelation c e = e\<lparr>e_CorrelationID := c\<rparr>"

definition WithSource :: "string \<Rightarrow> envelope \<Rightarrow> envelope" where
  "WithSource s e = e\<lparr>e_Source := s\<rparr>"

lemmas env_builders = NewEnv_def WithAggregate_def WithCausation_def WithCorrelation_def WithSource_def

section \<open>Lemmas\<close>

lemma core_names_distinct: "distinct (map snd core_types)"
  by code_simp

lemma core_types_distinct: "distinct (map fst core_types)"
  by (simp add: core_types_def)

lemma core_not_family: "(WorkflowStartedFor i, n) \<notin> set core_types" "(OtherType s, n) \<notin> set core_types"
  by (simp_all add: core_types_def)

lemma type_name_core:
  "(\<forall>i. t \<noteq> WorkflowStartedFor i) \<Longrightarrow> (\<forall>s. t \<noteq> OtherType s) \<Longrightarrow> type_name t = the (map_of core_types t)"
  by (cases t) (simp_all add: type_name_def)

lemma core_type_name:
  assumes "(t, n) \<in> set core_types"
  shows "type_name t = n"
proof -
  have "type_name t = the (map_of core_types t)"
    using assms core_not_family by (intro type_name_core) auto
  then show ?thesis using assms core_types_distinct by simp
qed

lemma type_name_started: "type_name (WorkflowStartedFor i) = WorkflowStartedPrefix @ i"
  by (simp add: type_name_def)

lemma type_name_other: "type_name (OtherType s) = s"
  by (simp add: type_name_def)

lemma etype_of_core: "(t, n) \<in> set core_types \<Longrightarrow> etype_of n = t"
proof -
  assume "(t, n) \<in> set core_types"
  moreover have "distinct (map fst (map (\<lambda>(t, n). (n, t)) core_types))"
    using core_names_distinct by (simp add: comp_def split_def)
  ultimately have "map_of (map (\<lambda>(t, n). (n, t)) core_types) n = Some t"
    by (force intro: map_of_is_SomeI)
  then show ?thesis by (simp add: etype_of_def)
qed

text \<open>Every type string is the name of the type it is read as.\<close>

lemma type_name_etype_of: "type_name (etype_of s) = s"
proof (cases "map_of (map (\<lambda>(t, n). (n, t)) core_types) s")
  case None
  then show ?thesis
    by (auto simp: etype_of_def type_name_started type_name_other has_prefix_iff)
next
  case (Some t)
  then have "(t, s) \<in> set core_types" by (auto dest: map_of_SomeD)
  then show ?thesis using Some by (simp add: etype_of_def core_type_name)
qed

lemma started_prefix_not_core: "(t, WorkflowStartedPrefix @ i) \<notin> set core_types"
  by (simp add: core_types_def WorkflowStartedPrefix_def)

lemma etype_of_started: "etype_of (WorkflowStartedPrefix @ i) = WorkflowStartedFor i"
proof -
  have "map_of (map (\<lambda>(t, n). (n, t)) core_types) (WorkflowStartedPrefix @ i) = None"
    using started_prefix_not_core by (auto simp: map_of_eq_None_iff)
  then show ?thesis by (simp add: etype_of_def)
qed

lemma core_total:
  "(\<forall>i. t \<noteq> WorkflowStartedFor i) \<Longrightarrow> (\<forall>s. t \<noteq> OtherType s) \<Longrightarrow> t \<in> set (map fst core_types)"
  by (cases t) (simp_all add: core_types_def)

lemma core_exhaust:
  assumes "\<forall>i. t \<noteq> WorkflowStartedFor i" and "\<forall>s. t \<noteq> OtherType s"
  shows "(t, type_name t) \<in> set core_types"
  using core_total [OF assms] core_type_name by auto

text \<open>Among the fixed names only \<open>workflow.started\<close> itself belongs to the started family.\<close>

lemma core_started_names:
  "list_all (\<lambda>(t, n). (n = ''workflow.started'' \<or> has_prefix n WorkflowStartedPrefix)
     \<longleftrightarrow> IsWorkflowStarted t) core_types"
  by code_simp

lemma IsWorkflowStarted_name:
  "IsWorkflowStarted t \<longleftrightarrow>
     type_name t = ''workflow.started'' \<or> has_prefix (type_name t) WorkflowStartedPrefix"
proof (cases "(\<forall>i. t \<noteq> WorkflowStartedFor i) \<and> (\<forall>s. t \<noteq> OtherType s)")
  case True
  then have "(t, type_name t) \<in> set core_types" using core_exhaust by blast
  then show ?thesis using core_started_names by (auto simp: list_all_iff)
next
  case False
  then show ?thesis by (auto simp: type_name_started type_name_other)
qed

text \<open>The workflow an event belongs to: every subscriber falls back on the aggregate.\<close>

definition corr_or_aggregate :: "envelope \<Rightarrow> string" where
  "corr_or_aggregate env = (if e_CorrelationID env = [] then e_AggregateID env else e_CorrelationID env)"

end
