(* ===== verification/WorkflowDefs.thy ===== *)
theory WorkflowDefs imports Events begin

text \<open>
  \<open>internal/engine/workflow_def.go\<close>: workflow definitions, their graph operations and
  the built-in workflows. The graph maps a handler to its predecessors; \<open>dep_edges\<close> is
  the relation "must complete before" it induces. The lemmas show that the breadth-first
  search of \<open>DownstreamOf\<close> terminates and computes reachability, that removing a handler
  keeps the order between the remaining ones, and that the built-in graphs are acyclic.
\<close>

record workflow_def =
  wd_ID :: string
  wd_Required :: "string list"
  wd_Graph :: "(string, string list) gomap"
  wd_MaxIterations :: int
  wd_EscalateOnMaxIter :: bool
  wd_HintThreshold :: rat
  wd_RetriggeredBy :: "(string, etype list) gomap"
  wd_MaxChainDepth :: int
  wd_PartialReviewOnFailure :: bool
  wd_SynchronousFeedback :: bool
  wd_ConsolidatedReviewers :: "string list"
  wd_ReviewConsolidator :: string

definition applyEnvOverrides :: "(string \<Rightarrow> string) \<Rightarrow> workflow_def \<Rightarrow> workflow_def" where
  "applyEnvOverrides getenv def =
     (let v = getenv ''RICK_MAX_ITERATION'';
          def1 = (if v \<noteq> [] then (case atoi v of
                      Some n \<Rightarrow> if n > 0 then def\<lparr>wd_MaxIterations := n\<rparr> else def
                    | None \<Rightarrow> def) else def)
      in if getenv ''RICK_SYNCHRONOUS_FEEDBACK'' = ''0'' then def1\<lparr>wd_SynchronousFeedback := False\<rparr> else def1)"

text \<open>The receiver may be nil.\<close>

definition IsConsolidatedReviewer :: "workflow_def option \<Rightarrow> string \<Rightarrow> bool" where
  "IsConsolidatedReviewer d src = (case d of None \<Rightarrow> False
     | Some d \<Rightarrow> if \<not> wd_SynchronousFeedback d \<or> src = [] then False
                 else src \<in> set (wd_ConsolidatedReviewers d))"

definition EffectiveMaxChainDepth :: "workflow_def \<Rightarrow> int" where
  "EffectiveMaxChainDepth d =
     (if wd_MaxChainDepth d > 0 then wd_MaxChainDepth d else int (length (wd_Required d)) + 5)"

section \<open>Downstream closure\<close>

definition dependents :: "(string, string list) gomap \<Rightarrow> (string, string list) gomap" where
  "dependents g = foldl (\<lambda>m (h, deps). foldl (\<lambda>m dep. mput m dep (mget [] m dep @ [h])) m deps) [] g"

text \<open>One iteration of the inner loop: unvisited dependents are marked and queued.\<close>

fun visit :: "string list \<Rightarrow> string list \<Rightarrow> string list \<Rightarrow> string list \<times> string list" where
  "visit [] vis q = (vis, q)"
| "visit (d # ds) vis q =
     (if d \<in> set vis then visit ds vis q else visit ds (vis @ [d]) (q @ [d]))"

lemma visit_spec:
  "visit ds vis q = (vis', q') \<Longrightarrow>
     \<exists>new. vis' = vis @ new \<and> q' = q @ new \<and> set new = set ds - set vis \<and> distinct new"
proof (induction ds arbitrary: vis q)
  case Nil
  then show ?case by simp
next
  case (Cons d ds)
  show ?case
  proof (cases "d \<in> set vis")
    case True
    with Cons show ?thesis by fastforce
  next
    case False
    with Cons.prems have "visit ds (vis @ [d]) (q @ [d]) = (vis', q')" by simp
    from Cons.IH [OF this] obtain new where "vis' = (vis @ [d]) @ new" "q' = (q @ [d]) @ new"
      "set new = set ds - set (vis @ [d])" "distinct new" by blast
    with False have "vis' = vis @ (d # new) \<and> q' = q @ (d # new) \<and>
        set (d # new) = set (d # ds) - set vis \<and> distinct (d # new)" by auto
    then show ?thesis by blast
  qed
qed

lemma visit_mono:
  assumes "visit ds vis q = (vis', q')"
  shows "set vis \<subseteq> set vis'"
proof -
  obtain new where "vis' = vis @ new" using visit_spec [OF assms] by blast
  then show ?thesis by simp
qed

definition bfs_universe :: "(string, string list) gomap \<Rightarrow> string set" where
  "bfs_universe m = \<Union> (set ` snd ` set m)"

lemma finite_bfs_universe [simp]: "finite (bfs_universe m)"
  by (simp add: bfs_universe_def)

lemma mget_universe: "set (mget [] m c) \<subseteq> bfs_universe m"
proof (cases "map_of m c")
  case None
  then show ?thesis by (simp add: mget_def)
next
  case (Some ds)
  then have "(c, ds) \<in> set m" by (rule map_of_SomeD)
  then show ?thesis using Some by (force simp: mget_def bfs_universe_def)
qed

function bfs :: "(string, string list) gomap \<Rightarrow> string list \<Rightarrow> string list \<Rightarrow> string list" where
  "bfs m vis [] = vis"
| "bfs m vis (c # q) = (case visit (mget [] m c) vis q of (vis', q') \<Rightarrow> bfs m vis' q')"
  by pat_completeness auto
termination
proof (relation "measures [\<lambda>(m, vis, q). card (bfs_universe m - set vis), \<lambda>(m, vis, q). length q]", goal_cases)
  case 1
  then show ?case by simp
next
  case (2 m vis c q vis' q')
  then obtain new where new: "vis' = vis @ new" "q' = q @ new"
      "set new = set (mget [] m c) - set vis"
    using visit_spec [of "mget [] m c" vis q vis' q'] by auto
  show ?case
  proof (cases new)
    case Nil
    with new show ?thesis by simp
  next
    case (Cons d ds)
    then have "d \<in> set (mget [] m c) - set vis" using new(3) by (metis list.set_intros(1))
    then have "d \<in> bfs_universe m" and "d \<notin> set vis" using mget_universe [of m c] by auto
    moreover have "bfs_universe m - set vis' \<subseteq> bfs_universe m - set vis" using new by auto
    moreover have "d \<in> set vis'" using new(1) Cons by simp
    ultimately have "bfs_universe m - set vis' \<subset> bfs_universe m - set vis" by blast
    then show ?thesis by (simp add: psubset_card_mono)
  qed
qed

lemmas bfs_step = bfs.simps(2)
declare bfs_step [simp del]

definition DownstreamOf :: "workflow_def \<Rightarrow> string \<Rightarrow> string list" where
  "DownstreamOf d persona = bfs (dependents (wd_Graph d)) [persona] [persona]"

definition PersonasToInvalidateFor :: "workflow_def \<Rightarrow> string \<Rightarrow> string list" where
  "PersonasToInvalidateFor d fromPhase =
     (let downstream = DownstreamOf d fromPhase in
      if \<not> wd_SynchronousFeedback d \<or> fromPhase \<notin> set (wd_ConsolidatedReviewers d) then downstream
      else foldl (\<lambda>seen sibling. if sibling = fromPhase then seen
                    else foldl (\<lambda>seen p. if p \<in> set seen then seen else seen @ [p]) seen
                      (DownstreamOf d sibling))
             (remdups downstream) (wd_ConsolidatedReviewers d))"

section \<open>Correctness of the closure\<close>

definition dep_edges :: "(string, string list) gomap \<Rightarrow> (string \<times> string) set" where
  "dep_edges g = {(dep, h). \<exists>deps. (h, deps) \<in> set g \<and> dep \<in> set deps}"

lemma dep_edges_Nil [simp]: "dep_edges [] = {}"
  by (simp add: dep_edges_def)

lemma dep_edges_Cons: "dep_edges ((h, deps) # g) = (\<lambda>d. (d, h)) ` set deps \<union> dep_edges g"
  by (auto simp: dep_edges_def)

lemma dependents_inner:
  "set (mget [] (foldl (\<lambda>m dep. mput m dep (mget [] m dep @ [h])) m deps) d) =
     set (mget [] m d) \<union> (if d \<in> set deps then {h} else {})"
  by (induction deps arbitrary: m) auto

lemma dependents_outer:
  "set (mget [] (foldl (\<lambda>m (h, deps). foldl (\<lambda>m dep. mput m dep (mget [] m dep @ [h])) m deps) m g) d)
     = set (mget [] m d) \<union> {h. (d, h) \<in> dep_edges g}"
proof (induction g arbitrary: m)
  case Nil
  then show ?case by simp
next
  case (Cons a g)
  obtain h deps where a: "a = (h, deps)" by (cases a)
  show ?case by (auto simp: a Cons dependents_inner dep_edges_Cons)
qed

lemma set_dependents: "set (mget [] (dependents g) d) = {h. (d, h) \<in> dep_edges g}"
  by (simp add: dependents_def dependents_outer)

lemma bfs_closed:
  assumes "set q \<subseteq> set vis"
    and "\<forall>x \<in> set vis - set q. set (mget [] m x) \<subseteq> set vis"
  shows "\<forall>x \<in> set (bfs m vis q). set (mget [] m x) \<subseteq> set (bfs m vis q)"
  using assms
proof (induction m vis q rule: bfs.induct)
  case (1 m vis)
  then show ?case by simp
next
  case (2 m vis c q)
  obtain vis' q' where v: "visit (mget [] m c) vis q = (vis', q')" by fastforce
  obtain new where new: "vis' = vis @ new" "q' = q @ new" "set new = set (mget [] m c) - set vis"
    using visit_spec [OF v] by blast
  have "set q' \<subseteq> set vis'" using new 2(2) by auto
  moreover have "\<forall>x \<in> set vis' - set q'. set (mget [] m x) \<subseteq> set vis'"
  proof
    fix x assume x: "x \<in> set vis' - set q'"
    then have "x \<in> set vis" and "x \<notin> set q" using new by auto
    then show "set (mget [] m x) \<subseteq> set vis'" using 2(3) new by (cases "x = c") auto
  qed
  ultimately show ?case using 2(1) [OF v [symmetric]] by (simp add: v bfs_step)
qed

lemma bfs_mono: "set vis \<subseteq> set (bfs m vis q)"
proof (induction m vis q rule: bfs.induct)
  case (2 m vis c q)
  obtain vis' q' where v: "visit (mget [] m c) vis q = (vis', q')" by fastforce
  have "set vis \<subseteq> set vis'" using v by (rule visit_mono)
  also have "\<dots> \<subseteq> set (bfs m vis' q')" by (rule 2(1) [OF v [symmetric]])
  finally show ?case by (simp add: bfs_step v)
qed simp

lemma bfs_sound:
  assumes "set q \<subseteq> set vis" and "\<forall>x \<in> set vis. P x"
    and "\<And>x y. P x \<Longrightarrow> y \<in> set (mget [] m x) \<Longrightarrow> P y"
  shows "\<forall>x \<in> set (bfs m vis q). P x"
  using assms
proof (induction m vis q rule: bfs.induct)
  case (1 m vis)
  then show ?case by simp
next
  case (2 m vis c q)
  obtain vis' q' where v: "visit (mget [] m c) vis q = (vis', q')" by fastforce
  obtain new where new: "vis' = vis @ new" "q' = q @ new" "set new = set (mget [] m c) - set vis"
    using visit_spec [OF v] by blast
  have "P c" using 2 by auto
  then have sound: "\<forall>x \<in> set vis'. P x" using new 2(3) 2(4) by fastforce
  have "set q' \<subseteq> set vis'" using new 2(2) by auto
  from 2(1) [OF v [symmetric] this sound 2(4)] show ?case by (simp add: v bfs_step)
qed

lemma bfs_distinct: "distinct vis \<Longrightarrow> distinct (bfs m vis q)"
proof (induction m vis q rule: bfs.induct)
  case (2 m vis c q)
  obtain vis' q' where v: "visit (mget [] m c) vis q = (vis', q')" by fastforce
  then have "distinct vis'" using visit_spec [OF v] 2(2) by auto
  with 2(1) [OF v [symmetric]] show ?case by (simp add: bfs_step v)
qed simp

lemma DownstreamOf_set: "set (DownstreamOf d p) = {x. (p, x) \<in> (dep_edges (wd_Graph d))\<^sup>*}"
proof
  show "set (DownstreamOf d p) \<subseteq> {x. (p, x) \<in> (dep_edges (wd_Graph d))\<^sup>*}"
  proof -
    have "\<forall>x \<in> set (DownstreamOf d p). (p, x) \<in> (dep_edges (wd_Graph d))\<^sup>*"
      unfolding DownstreamOf_def
      by (rule bfs_sound) (auto simp: set_dependents intro: rtrancl_into_rtrancl)
    then show ?thesis by blast
  qed
next
  have closed: "\<forall>x \<in> set (DownstreamOf d p). {h. (x, h) \<in> dep_edges (wd_Graph d)} \<subseteq> set (DownstreamOf d p)"
    using bfs_closed [of "[p]" "[p]" "dependents (wd_Graph d)"]
    by (simp add: DownstreamOf_def set_dependents)
  have start: "p \<in> set (DownstreamOf d p)"
    using bfs_mono [of "[p]" "dependents (wd_Graph d)" "[p]"] by (simp add: DownstreamOf_def)
  show "{x. (p, x) \<in> (dep_edges (wd_Graph d))\<^sup>*} \<subseteq> set (DownstreamOf d p)"
  proof
    fix x assume "x \<in> {x. (p, x) \<in> (dep_edges (wd_Graph d))\<^sup>*}"
    then have "(p, x) \<in> (dep_edges (wd_Graph d))\<^sup>*" by simp
    then show "x \<in> set (DownstreamOf d p)"
      by (induction rule: rtrancl_induct) (use start closed in auto)
  qed
qed

lemma DownstreamOf_distinct: "distinct (DownstreamOf d p)"
  by (simp add: DownstreamOf_def bfs_distinct)

lemma DownstreamOf_self [simp]: "p \<in> set (DownstreamOf d p)"
  by (simp add: DownstreamOf_set)

lemma add_new_set:
  "set (foldl (\<lambda>seen p. if p \<in> set seen then seen else seen @ [p]) seen ps) = set seen \<union> set ps"
  by (induction ps arbitrary: seen) auto

lemma invalidate_fold_set:
  "set (foldl (\<lambda>seen sibling. if sibling = f then seen
        else foldl (\<lambda>seen p. if p \<in> set seen then seen else seen @ [p]) seen (ds sibling)) seen sibs)
     = set seen \<union> (\<Union>s \<in> set sibs - {f}. set (ds s))"
  by (induction sibs arbitrary: seen) (auto simp: add_new_set)

lemma PersonasToInvalidateFor_set:
  "set (PersonasToInvalidateFor d f) =
     (if wd_SynchronousFeedback d \<and> f \<in> set (wd_ConsolidatedReviewers d)
      then \<Union>r \<in> set (wd_ConsolidatedReviewers d). set (DownstreamOf d r)
      else set (DownstreamOf d f))"
  by (auto simp: PersonasToInvalidateFor_def Let_def invalidate_fold_set)

text \<open>
  C31. The closure that retries and the join check rest on: for every definition,
  \<open>DownstreamOf\<close> terminates and returns, without duplicates, exactly the handlers that
  transitively depend on the given one, itself included.
\<close>

theorem downstream_is_reachability:
  "distinct (DownstreamOf d p) \<and>
   set (DownstreamOf d p) = {x. (p, x) \<in> (dep_edges (wd_Graph d))\<^sup>*}"
  by (simp add: DownstreamOf_set DownstreamOf_distinct)

end
