(* ===== verification/WorkflowCatalog.thy ===== *)
theory WorkflowCatalog imports WorkflowDefs begin

text \<open>
  The second half of \<open>workflow_def.go\<close>: the graph edits \<open>WithoutHandler\<close> and
  \<open>WithStaleReferenceSweep\<close>, the built-in workflows, and their selection by name
  (\<open>selectWorkflowDef\<close> in \<open>internal/cli/run.go\<close>). The lemmas show that removing a
  handler keeps reachability between the others, and that whatever workflow the CLI
  selects, in every environment, is well formed.
\<close>

section \<open>Graph edits\<close>

definition dedup_first :: "string list \<Rightarrow> string list" where
  "dedup_first ds = foldl (\<lambda>acc d. if d \<in> set acc then acc else acc @ [d]) [] ds"

definition rewire :: "string \<Rightarrow> string list \<Rightarrow> string list \<Rightarrow> string list" where
  "rewire handler preds deps =
     (let kept = filter (\<lambda>d. d \<noteq> handler) deps
      in if handler \<in> set deps then dedup_first (kept @ preds) else kept)"

definition WithoutHandler :: "workflow_def \<Rightarrow> string \<Rightarrow> workflow_def" where
  "WithoutHandler def handler = (case map_of (wd_Graph def) handler of None \<Rightarrow> def
     | Some preds \<Rightarrow>
        def\<lparr>wd_Required := filter (\<lambda>r. r \<noteq> handler) (wd_Required def),
            wd_Graph := map (\<lambda>(h, deps). (h, rewire handler preds deps))
                          (filter (\<lambda>(h, deps). h \<noteq> handler) (wd_Graph def))\<rparr>)"

definition WithStaleReferenceSweep :: "workflow_def \<Rightarrow> workflow_def" where
  "WithStaleReferenceSweep def = (case map_of (wd_Graph def) ''pr-consolidator'' of None \<Rightarrow> def
     | Some consDeps \<Rightarrow>
        if map_of (wd_Graph def) ''pr-stale-reference'' \<noteq> None then def
        else def\<lparr>wd_Required := wd_Required def @ [''pr-stale-reference''],
            wd_Graph := mput (map (\<lambda>(h, deps). (h, if h = ''pr-consolidator''
                                        then consDeps @ [''pr-stale-reference''] else deps))
                               (wd_Graph def))
                          ''pr-stale-reference'' [''pr-jira-context'']\<rparr>)"

section \<open>Built-in workflows\<close>

definition zero_def :: workflow_def where
  "zero_def = \<lparr>wd_ID = [], wd_Required = [], wd_Graph = [], wd_MaxIterations = 0,
     wd_EscalateOnMaxIter = False, wd_HintThreshold = 0, wd_RetriggeredBy = [], wd_MaxChainDepth = 0,
     wd_PartialReviewOnFailure = False, wd_SynchronousFeedback = False,
     wd_ConsolidatedReviewers = [], wd_ReviewConsolidator = []\<rparr>"

definition DevelopOnlyWorkflowDef :: workflow_def where
  "DevelopOnlyWorkflowDef = zero_def\<lparr>
     wd_ID := ''develop-only'',
     wd_Required := [''workspace'', ''developer'', ''reviewer'', ''committer''],
     wd_Graph := [(''workspace'', []), (''developer'', [''workspace'']),
       (''reviewer'', [''developer'']), (''committer'', [''reviewer''])],
     wd_RetriggeredBy := [(''developer'', [FeedbackGenerated])],
     wd_MaxIterations := 3\<rparr>"

definition WorkspaceDevWorkflowDef :: workflow_def where
  "WorkspaceDevWorkflowDef = zero_def\<lparr>
     wd_ID := ''workspace-dev'',
     wd_Required := [''workspace'', ''context-snapshot'', ''developer'', ''quality-gate'', ''reviewer'',
       ''qa'', ''review-consolidator'', ''committer''],
     wd_Graph := [(''workspace'', []), (''context-snapshot'', [''workspace'']),
       (''developer'', [''context-snapshot'']), (''reviewer'', [''developer'']), (''qa'', [''developer'']),
       (''review-consolidator'', [''reviewer'', ''qa'']), (''quality-gate'', [''review-consolidator'']),
       (''committer'', [''quality-gate''])],
     wd_RetriggeredBy := [(''developer'', [FeedbackGenerated])],
     wd_MaxIterations := 3, wd_EscalateOnMaxIter := True, wd_SynchronousFeedback := True,
     wd_ConsolidatedReviewers := [''reviewer'', ''qa''],
     wd_ReviewConsolidator := ''review-consolidator''\<rparr>"

definition prCategoryReviewers :: "string list" where
  "prCategoryReviewers = [''pr-security'', ''pr-concurrency'', ''pr-error-handling'',
     ''pr-observability'', ''pr-api-contract'', ''pr-idempotency'', ''pr-testing'', ''pr-integration'',
     ''pr-performance'', ''pr-data'', ''pr-hygiene'', ''pr-vendor-resilience'',
     ''pr-docs-concordance'', ''pr-correctness'']"

definition PRReviewWorkflowDef :: workflow_def where
  "PRReviewWorkflowDef = zero_def\<lparr>
     wd_ID := ''pr-review'',
     wd_Required := [''pr-workspace'', ''pr-jira-context''] @ prCategoryReviewers
       @ [''pr-consolidator'', ''pr-cleanup''],
     wd_Graph := foldl (\<lambda>g reviewer. mput g reviewer [''pr-jira-context''])
       [(''pr-workspace'', []), (''pr-jira-context'', [''pr-workspace'']),
        (''pr-consolidator'', prCategoryReviewers), (''pr-cleanup'', [''pr-consolidator''])]
       prCategoryReviewers,
     wd_MaxIterations := 1, wd_PartialReviewOnFailure := True\<rparr>"

definition PRFeedbackWorkflowDef :: workflow_def where
  "PRFeedbackWorkflowDef = zero_def\<lparr>
     wd_ID := ''pr-feedback'',
     wd_Required := [''workspace'', ''github-pr-fetcher'', ''feedback-analyzer'', ''context-snapshot'',
       ''developer'', ''reviewer'', ''qa'', ''review-consolidator'', ''quality-gate'', ''committer'',
       ''pr-replier'', ''pr-reply-poster''],
     wd_Graph := [(''github-pr-fetcher'', []), (''workspace'', [''github-pr-fetcher'']),
       (''feedback-analyzer'', [''workspace'']), (''context-snapshot'', [''feedback-analyzer'']),
       (''developer'', [''context-snapshot'']), (''reviewer'', [''developer'']), (''qa'', [''developer'']),
       (''review-consolidator'', [''reviewer'', ''qa'']), (''quality-gate'', [''review-consolidator'']),
       (''committer'', [''quality-gate'']), (''pr-replier'', [''committer'']),
       (''pr-reply-poster'', [''pr-replier''])],
     wd_RetriggeredBy := [(''developer'', [FeedbackGenerated])],
     wd_MaxIterations := 3, wd_EscalateOnMaxIter := True, wd_SynchronousFeedback := True,
     wd_ConsolidatedReviewers := [''reviewer'', ''qa''],
     wd_ReviewConsolidator := ''review-consolidator''\<rparr>"

definition JiraDevWorkflowDef :: workflow_def where
  "JiraDevWorkflowDef = zero_def\<lparr>
     wd_ID := ''jira-dev'',
     wd_Required := [''jira-context'', ''workspace'', ''context-snapshot'', ''researcher'', ''architect'',
       ''developer'', ''review-consolidator'', ''quality-gate'', ''reviewer'', ''qa'', ''committer''],
     wd_Graph := [(''jira-context'', []), (''workspace'', [''jira-context'']),
       (''context-snapshot'', [''workspace'']), (''researcher'', [''context-snapshot'']),
       (''architect'', [''researcher'']), (''developer'', [''architect'']),
       (''reviewer'', [''developer'']), (''qa'', [''developer'']),
       (''review-consolidator'', [''reviewer'', ''qa'']), (''quality-gate'', [''review-consolidator'']),
       (''committer'', [''quality-gate''])],
     wd_RetriggeredBy := [(''developer'', [FeedbackGenerated])],
     wd_MaxIterations := 3, wd_EscalateOnMaxIter := True, wd_SynchronousFeedback := True,
     wd_ConsolidatedReviewers := [''reviewer'', ''qa''],
     wd_ReviewConsolidator := ''review-consolidator''\<rparr>"

definition GithubDevWorkflowDef :: workflow_def where
  "GithubDevWorkflowDef = zero_def\<lparr>
     wd_ID := ''github-dev'',
     wd_Required := [''github-context'', ''workspace'', ''context-snapshot'', ''researcher'',
       ''architect'', ''developer'', ''review-consolidator'', ''quality-gate'', ''reviewer'', ''qa'',
       ''committer''],
     wd_Graph := [(''github-context'', []), (''workspace'', [''github-context'']),
       (''context-snapshot'', [''workspace'']), (''researcher'', [''context-snapshot'']),
       (''architect'', [''researcher'']), (''developer'', [''architect'']),
       (''reviewer'', [''developer'']), (''qa'', [''developer'']),
       (''review-consolidator'', [''reviewer'', ''qa'']), (''quality-gate'', [''review-consolidator'']),
       (''committer'', [''quality-gate''])],
     wd_RetriggeredBy := [(''developer'', [FeedbackGenerated])],
     wd_MaxIterations := 3, wd_EscalateOnMaxIter := True, wd_SynchronousFeedback := True,
     wd_ConsolidatedReviewers := [''reviewer'', ''qa''],
     wd_ReviewConsolidator := ''review-consolidator''\<rparr>"

definition PlanBTUWorkflowDef :: workflow_def where
  "PlanBTUWorkflowDef = zero_def\<lparr>
     wd_ID := ''plan-btu'',
     wd_Required := [''confluence-reader'', ''codebase-researcher'', ''plan-architect'', ''estimator'',
       ''confluence-writer''],
     wd_Graph := [(''confluence-reader'', []), (''codebase-researcher'', [''confluence-reader'']),
       (''plan-architect'', [''codebase-researcher'']), (''estimator'', [''plan-architect'']),
       (''confluence-writer'', [''estimator''])],
     wd_MaxIterations := 3, wd_EscalateOnMaxIter := True, wd_HintThreshold := 0\<rparr>"

definition JiraQAStepsWorkflowDef :: workflow_def where
  "JiraQAStepsWorkflowDef = zero_def\<lparr>
     wd_ID := ''jira-qa-steps'',
     wd_Required := [''qa-context'', ''qa-analyzer'', ''qa-jira-writer''],
     wd_Graph := [(''qa-context'', []), (''qa-analyzer'', [''qa-context'']),
       (''qa-jira-writer'', [''qa-analyzer''])],
     wd_MaxIterations := 1\<rparr>"

definition PlanJiraWorkflowDef :: workflow_def where
  "PlanJiraWorkflowDef = zero_def\<lparr>
     wd_ID := ''plan-jira'',
     wd_Required := [''page-reader'', ''project-manager'', ''jira-task-creator''],
     wd_Graph := [(''page-reader'', []), (''project-manager'', [''page-reader'']),
       (''jira-task-creator'', [''project-manager''])],
     wd_MaxIterations := 3, wd_EscalateOnMaxIter := True, wd_HintThreshold := 0\<rparr>"

definition TaskCreatorWorkflowDef :: workflow_def where
  "TaskCreatorWorkflowDef = zero_def\<lparr>
     wd_ID := ''task-creator'', wd_Required := [''task-creator''],
     wd_Graph := [(''task-creator'', [])], wd_MaxIterations := 1\<rparr>"

definition CIFixWorkflowDef :: workflow_def where
  "CIFixWorkflowDef = zero_def\<lparr>
     wd_ID := ''ci-fix'',
     wd_Required := [''workspace'', ''developer'', ''review-consolidator'', ''quality-gate'', ''reviewer'',
       ''qa'', ''committer''],
     wd_Graph := [(''workspace'', []), (''developer'', [''workspace'']), (''reviewer'', [''developer'']),
       (''qa'', [''developer'']), (''review-consolidator'', [''reviewer'', ''qa'']),
       (''quality-gate'', [''review-consolidator'']), (''committer'', [''quality-gate''])],
     wd_RetriggeredBy := [(''developer'', [FeedbackGenerated])],
     wd_MaxIterations := 2, wd_EscalateOnMaxIter := True, wd_SynchronousFeedback := True,
     wd_ConsolidatedReviewers := [''reviewer'', ''qa''],
     wd_ReviewConsolidator := ''review-consolidator''\<rparr>"

text \<open>The switch of \<open>selectWorkflowDef\<close>, then its two environment-driven edits.\<close>

definition workflow_table :: "(string \<times> workflow_def) list" where
  "workflow_table = [
     (''develop-only'', DevelopOnlyWorkflowDef), (''workspace-dev'', WorkspaceDevWorkflowDef),
     (''pr-review'', PRReviewWorkflowDef), (''pr-feedback'', PRFeedbackWorkflowDef),
     (''jira-dev'', JiraDevWorkflowDef), (''github-dev'', GithubDevWorkflowDef),
     (''ci-fix'', CIFixWorkflowDef), (''plan-btu'', PlanBTUWorkflowDef),
     (''jira-qa-steps'', JiraQAStepsWorkflowDef), (''plan-jira'', PlanJiraWorkflowDef),
     (''task-creator'', TaskCreatorWorkflowDef)]"

definition selectWorkflowDef :: "(string \<Rightarrow> string) \<Rightarrow> string \<Rightarrow> string + workflow_def" where
  "selectWorkflowDef getenv name = (case map_of workflow_table name of
      None \<Rightarrow> Inl (''unknown workflow: '' @ name @ '' (valid: develop-only, workspace-dev, pr-review, '' @
        ''pr-feedback, jira-dev, github-dev, ci-fix, plan-btu, plan-jira, task-creator, jira-qa-steps)'')
    | Some def \<Rightarrow>
        let def1 = (if getenv ''RICK_DISABLE_QUALITY_GATE'' \<noteq> [] then WithoutHandler def ''quality-gate'' else def);
            def2 = (if getenv ''RICK_ENABLE_STALE_REF_SWEEP'' \<noteq> [] then WithStaleReferenceSweep def1 else def1)
        in Inr def2)"

section \<open>Well-formed definitions\<close>

text \<open>
  A definition is well formed when its graph has distinct handlers, only names handlers of
  the graph as predecessors and has no cycle, the required personas are exactly the graph's
  handlers, and a workflow with synchronous feedback has its review-consolidator in the
  graph as a join over exactly the listed reviewers (as the comment on
  \<open>SynchronousFeedback\<close> demands).
\<close>

definition wf_graph :: "(string, string list) gomap \<Rightarrow> bool" where
  "wf_graph g \<longleftrightarrow> distinct (mkeys g) \<and> (\<forall>(h, deps) \<in> set g. set deps \<subseteq> set (mkeys g)) \<and> acyclic (dep_edges g)"

definition wf_barrier :: "workflow_def \<Rightarrow> bool" where
  "wf_barrier d \<longleftrightarrow> (wd_SynchronousFeedback d \<longrightarrow>
     (case map_of (wd_Graph d) (wd_ReviewConsolidator d) of None \<Rightarrow> False
      | Some deps \<Rightarrow> set deps = set (wd_ConsolidatedReviewers d)))"

definition wf_def :: "workflow_def \<Rightarrow> bool" where
  "wf_def d \<longleftrightarrow> wf_graph (wd_Graph d) \<and> set (wd_Required d) = set (mkeys (wd_Graph d)) \<and> wf_barrier d"

text \<open>An executable certificate of acyclicity: a list in which predecessors come first.\<close>

fun topo_ok :: "(string, string list) gomap \<Rightarrow> string list \<Rightarrow> string list \<Rightarrow> bool" where
  "topo_ok g seen [] \<longleftrightarrow> list_all (\<lambda>(h, deps). h \<in> set seen) g"
| "topo_ok g seen (h # hs) \<longleftrightarrow> h \<notin> set seen \<and>
     list_all (\<lambda>(h', deps). h' = h \<longrightarrow> list_all (\<lambda>d. d \<in> set seen) deps) g \<and> topo_ok g (seen @ [h]) hs"

lemma topo_ok_closed_acyclic:
  assumes "topo_ok g seen hs"
    and "\<And>d h. (d, h) \<in> dep_edges g \<Longrightarrow> h \<in> set seen \<Longrightarrow> d \<in> set seen"
    and "\<And>x. x \<in> set seen \<Longrightarrow> (x, x) \<notin> (dep_edges g)\<^sup>+"
  shows "acyclic (dep_edges g)"
  using assms
proof (induction g seen hs rule: topo_ok.induct)
  case (1 g seen)
  have "h \<in> set seen" if "(d, h) \<in> dep_edges g" for d h
    using that "1.prems"(1) by (auto simp: dep_edges_def list_all_iff)
  then have "x \<in> set seen" if "(x, x) \<in> (dep_edges g)\<^sup>+" for x
    using that by (auto elim: tranclE)
  then show ?case using "1.prems"(3) unfolding acyclic_def by blast
next
  case (2 g seen h hs)
  have edge_h: "d \<in> set seen" if "(d, h) \<in> dep_edges g" for d
    using that "2.prems"(1) by (auto simp: dep_edges_def list_all_iff)
  have backw: "a \<in> set seen" if "(a, b) \<in> (dep_edges g)\<^sup>+" "b \<in> set seen" for a b
    using that by (induction rule: converse_trancl_induct) (use "2.prems"(2) in blast)+
  have h_not: "h \<notin> set seen" using "2.prems"(1) by simp
  have no_loop: "(h, h) \<notin> (dep_edges g)\<^sup>+"
  proof
    assume "(h, h) \<in> (dep_edges g)\<^sup>+"
    then obtain d where d: "(h, d) \<in> (dep_edges g)\<^sup>*" "(d, h) \<in> dep_edges g" by (blast dest: tranclD2)
    then have "d \<in> set seen" using edge_h by blast
    with d(1) h_not backw show False by (auto dest: rtranclD)
  qed
  show ?case
  proof (rule "2.IH")
    show "topo_ok g (seen @ [h]) hs" using "2.prems"(1) by simp
    show "d \<in> set (seen @ [h])" if "(d, k) \<in> dep_edges g" "k \<in> set (seen @ [h])" for d k
      using that edge_h "2.prems"(2) by auto
    show "(x, x) \<notin> (dep_edges g)\<^sup>+" if "x \<in> set (seen @ [h])" for x
      using that no_loop "2.prems"(3) by auto
  qed
qed

lemma topo_ok_acyclic: "topo_ok g [] hs \<Longrightarrow> acyclic (dep_edges g)"
  by (erule topo_ok_closed_acyclic) auto

text \<open>The checks of a definition that evaluate, given such a list.\<close>

definition wf_check :: "string list \<Rightarrow> workflow_def \<Rightarrow> bool" where
  "wf_check ord d \<longleftrightarrow> distinct (mkeys (wd_Graph d)) \<and>
     list_all (\<lambda>(h, deps). list_all (\<lambda>x. x \<in> set (mkeys (wd_Graph d))) deps) (wd_Graph d) \<and>
     topo_ok (wd_Graph d) [] ord \<and>
     list_all (\<lambda>x. x \<in> set (mkeys (wd_Graph d))) (wd_Required d) \<and>
     list_all (\<lambda>x. x \<in> set (wd_Required d)) (mkeys (wd_Graph d)) \<and>
     (wd_SynchronousFeedback d \<longrightarrow> (case map_of (wd_Graph d) (wd_ReviewConsolidator d) of
        None \<Rightarrow> False | Some deps \<Rightarrow> list_all (\<lambda>x. x \<in> set (wd_ConsolidatedReviewers d)) deps \<and>
          list_all (\<lambda>x. x \<in> set deps) (wd_ConsolidatedReviewers d)))"

lemma wf_check_sound: "wf_check ord d \<Longrightarrow> wf_def d"
  unfolding wf_check_def wf_def_def wf_graph_def wf_barrier_def
  by (auto simp: list_all_iff dest: topo_ok_acyclic split: option.splits)

section \<open>Removing a handler\<close>

lemma dedup_first_aux:
  "set (foldl (\<lambda>acc d. if d \<in> set acc then acc else acc @ [d]) acc ds) = set acc \<union> set ds"
  by (induction ds arbitrary: acc) auto

lemma set_dedup_first [simp]: "set (dedup_first ds) = set ds"
  by (simp add: dedup_first_def dedup_first_aux)

lemma set_rewire:
  "set (rewire handler preds deps) =
     set deps - {handler} \<union> (if handler \<in> set deps then set preds else {})"
  by (auto simp: rewire_def Let_def)

text \<open>The edges of the rewired graph: the old ones that avoid the handler, and its predecessors
  joined to its dependents.\<close>

lemma WithoutHandler_edges:
  assumes "map_of (wd_Graph def) h = Some preds"
  shows "(d, k) \<in> dep_edges (wd_Graph (WithoutHandler def h)) \<longleftrightarrow> k \<noteq> h \<and>
     ((d, k) \<in> dep_edges (wd_Graph def) \<and> d \<noteq> h \<or>
      d \<in> set preds \<and> (h, k) \<in> dep_edges (wd_Graph def))"
  using assms by (fastforce simp: WithoutHandler_def dep_edges_def set_rewire split: if_splits)

lemma WithoutHandler_edge_trancl:
  assumes "map_of (wd_Graph def) h = Some preds"
    and "(d, k) \<in> dep_edges (wd_Graph (WithoutHandler def h))"
  shows "(d, k) \<in> (dep_edges (wd_Graph def))\<^sup>+"
proof -
  have pre: "(x, h) \<in> dep_edges (wd_Graph def)" if "x \<in> set preds" for x
    using that assms(1) map_of_SomeD by (fastforce simp: dep_edges_def)
  from assms show ?thesis
    by (auto simp: WithoutHandler_edges dest: pre intro: trancl_trans)
qed

lemma WithoutHandler_trancl_sub:
  assumes "map_of (wd_Graph def) h = Some preds"
    and "(a, b) \<in> (dep_edges (wd_Graph (WithoutHandler def h)))\<^sup>*"
  shows "(a, b) \<in> (dep_edges (wd_Graph def))\<^sup>*"
  using assms(2)
proof (induction rule: rtrancl_induct)
  case base
  show ?case by simp
next
  case (step y z)
  from WithoutHandler_edge_trancl [OF assms(1) step.hyps(2)]
  have "(y, z) \<in> (dep_edges (wd_Graph def))\<^sup>*" by (rule trancl_into_rtrancl)
  with step.IH show ?case by (rule rtrancl_trans)
qed

text \<open>A path that may run through the removed handler: at the handler it is known to have
  reached one of the handler's predecessors.\<close>

lemma WithoutHandler_reach_aux:
  assumes dist: "distinct (mkeys (wd_Graph def))"
    and h: "map_of (wd_Graph def) h = Some preds" and self: "h \<notin> set preds"
    and path: "(a, b) \<in> (dep_edges (wd_Graph def))\<^sup>*" and a: "a \<noteq> h"
  shows "(b \<noteq> h \<longrightarrow> (a, b) \<in> (dep_edges (wd_Graph (WithoutHandler def h)))\<^sup>*) \<and>
     (b = h \<longrightarrow> (\<exists>p \<in> set preds. (a, p) \<in> (dep_edges (wd_Graph (WithoutHandler def h)))\<^sup>*))"
  using path
proof (induction rule: rtrancl_induct)
  case base
  then show ?case using a by simp
next
  case (step y z)
  note E' = WithoutHandler_edges [OF h]
  have into_h: "y \<in> set preds" if "z = h"
  proof -
    from that step.hyps(2) obtain deps where deps: "(h, deps) \<in> set (wd_Graph def)" "y \<in> set deps"
      by (auto simp: dep_edges_def)
    from dist deps(1) have "map_of (wd_Graph def) h = Some deps"
      by (simp add: mkeys_def)
    with h deps(2) show ?thesis by simp
  qed
  show ?case
  proof (cases "y = h")
    case True
    then have "z \<noteq> h" using into_h self by auto
    moreover from True step.IH obtain p where
      "p \<in> set preds" "(a, p) \<in> (dep_edges (wd_Graph (WithoutHandler def h)))\<^sup>*" by blast
    moreover from this(1) True step.hyps(2) \<open>z \<noteq> h\<close>
    have "(p, z) \<in> dep_edges (wd_Graph (WithoutHandler def h))" by (simp add: E')
    ultimately show ?thesis by (meson rtrancl_into_rtrancl)
  next
    case False
    with step have ay: "(a, y) \<in> (dep_edges (wd_Graph (WithoutHandler def h)))\<^sup>*" by blast
    show ?thesis
    proof (cases "z = h")
      case True
      with ay into_h show ?thesis by blast
    next
      case z: False
      with False step.hyps(2) have "(y, z) \<in> dep_edges (wd_Graph (WithoutHandler def h))"
        by (simp add: E')
      with ay z show ?thesis by (meson rtrancl_into_rtrancl)
    qed
  qed
qed

lemma WithoutHandler_reach:
  assumes "distinct (mkeys (wd_Graph def))" "map_of (wd_Graph def) h = Some preds" "h \<notin> set preds"
    and "a \<noteq> h" "b \<noteq> h"
  shows "(a, b) \<in> (dep_edges (wd_Graph (WithoutHandler def h)))\<^sup>* \<longleftrightarrow>
     (a, b) \<in> (dep_edges (wd_Graph def))\<^sup>*"
  using assms WithoutHandler_trancl_sub WithoutHandler_reach_aux by blast

lemma mkeys_WithoutHandler:
  "map_of (wd_Graph def) h = Some preds \<Longrightarrow>
     mkeys (wd_Graph (WithoutHandler def h)) = filter (\<lambda>k. k \<noteq> h) (mkeys (wd_Graph def))"
  by (simp add: WithoutHandler_def mkeys_def filter_map comp_def split_def)

lemma acyclic_WithoutHandler:
  assumes "acyclic (dep_edges (wd_Graph def))"
  shows "acyclic (dep_edges (wd_Graph (WithoutHandler def h)))"
proof (cases "map_of (wd_Graph def) h")
  case None
  with assms show ?thesis by (simp add: WithoutHandler_def)
next
  case (Some preds)
  have "(a, b) \<in> (dep_edges (wd_Graph def))\<^sup>+"
    if "(a, b) \<in> (dep_edges (wd_Graph (WithoutHandler def h)))\<^sup>+" for a b
    using that
  proof (induction rule: trancl_induct)
    case (base y)
    then show ?case by (rule WithoutHandler_edge_trancl [OF Some])
  next
    case (step y z)
    from WithoutHandler_edge_trancl [OF Some step.hyps(2)] step.IH show ?case
      by (meson trancl_trans)
  qed
  with assms show ?thesis unfolding acyclic_def by blast
qed


lemma rewire_sub:
  assumes "wf_graph g" "(k, deps) \<in> set g" "map_of g h = Some preds" "h \<notin> set preds"
  shows "set (rewire h preds deps) \<subseteq> set (mkeys g) - {h}"
proof -
  have "(h, preds) \<in> set g" using assms(3) by (rule map_of_SomeD)
  then have "set preds \<subseteq> set (mkeys g)" "set deps \<subseteq> set (mkeys g)"
    using assms(1,2) by (auto simp: wf_graph_def)
  then show ?thesis using assms(4) by (auto simp: set_rewire)
qed

lemma wf_graph_no_self:
  assumes "wf_graph g" "map_of g h = Some preds"
  shows "h \<notin> set preds"
proof
  assume "h \<in> set preds"
  then have "(h, h) \<in> dep_edges g" using map_of_SomeD [OF assms(2)] by (auto simp: dep_edges_def)
  then show False using assms(1) unfolding wf_graph_def acyclic_def by blast
qed

lemma wf_graph_WithoutHandler:
  assumes "wf_graph (wd_Graph def)"
  shows "wf_graph (wd_Graph (WithoutHandler def h))"
proof (cases "map_of (wd_Graph def) h")
  case None
  with assms show ?thesis by (simp add: WithoutHandler_def)
next
  case (Some preds)
  let ?g = "wd_Graph def" and ?g' = "wd_Graph (WithoutHandler def h)"
  have closed: "set deps' \<subseteq> set (mkeys ?g')" if "(k, deps') \<in> set ?g'" for k deps'
  proof -
    from that Some obtain deps where "(k, deps) \<in> set ?g" "deps' = rewire h preds deps"
      by (auto simp: WithoutHandler_def)
    then show ?thesis
      using rewire_sub [OF assms _ Some wf_graph_no_self [OF assms Some]] mkeys_WithoutHandler [OF Some]
      by auto
  qed
  have "distinct (mkeys ?g')" "acyclic (dep_edges ?g')"
    using assms by (simp_all add: wf_graph_def mkeys_WithoutHandler [OF Some] acyclic_WithoutHandler)
  with closed show ?thesis by (auto simp: wf_graph_def)
qed

lemma WithoutHandler_other_fields:
  "wd_SynchronousFeedback (WithoutHandler def h) = wd_SynchronousFeedback def"
  "wd_ConsolidatedReviewers (WithoutHandler def h) = wd_ConsolidatedReviewers def"
  "wd_ReviewConsolidator (WithoutHandler def h) = wd_ReviewConsolidator def"
  "wd_ID (WithoutHandler def h) = wd_ID def"
  by (simp_all add: WithoutHandler_def split: option.splits)

lemma map_of_WithoutHandler:
  assumes "map_of (wd_Graph def) h = Some preds" "k \<noteq> h"
  shows "map_of (wd_Graph (WithoutHandler def h)) k = map_option (rewire h preds) (map_of (wd_Graph def) k)"
proof -
  have "map_of (map (\<lambda>(k, deps). (k, rewire h preds deps)) (filter (\<lambda>(k, deps). k \<noteq> h) g)) k =
      map_option (rewire h preds) (map_of g k)" for g
    using assms(2) by (induction g) auto
  with assms(1) show ?thesis by (simp add: WithoutHandler_def)
qed

text \<open>A handler that is neither the consolidator nor one of its reviewers may be removed.\<close>

lemma wf_def_WithoutHandler:
  assumes "wf_def def" and "h \<noteq> wd_ReviewConsolidator def" and "h \<notin> set (wd_ConsolidatedReviewers def)"
  shows "wf_def (WithoutHandler def h)"
proof (cases "map_of (wd_Graph def) h")
  case None
  with assms(1) show ?thesis by (simp add: WithoutHandler_def)
next
  case (Some preds)
  have g: "wf_graph (wd_Graph (WithoutHandler def h))"
    using assms(1) by (simp add: wf_def_def wf_graph_WithoutHandler)
  have r: "set (wd_Required (WithoutHandler def h)) = set (mkeys (wd_Graph (WithoutHandler def h)))"
  proof -
    have "wd_Required (WithoutHandler def h) = filter (\<lambda>r. r \<noteq> h) (wd_Required def)"
      using Some by (simp add: WithoutHandler_def)
    then show ?thesis using assms(1) by (simp add: mkeys_WithoutHandler [OF Some] wf_def_def)
  qed
  have b: "wf_barrier (WithoutHandler def h)"
  proof (cases "wd_SynchronousFeedback def")
    case True
    with assms(1) obtain deps where deps: "map_of (wd_Graph def) (wd_ReviewConsolidator def) = Some deps"
      "set deps = set (wd_ConsolidatedReviewers def)"
      by (auto simp: wf_def_def wf_barrier_def split: option.splits)
    then have "h \<notin> set deps" using assms(3) by simp
    then have "rewire h preds deps = deps" by (auto simp: rewire_def Let_def intro: filter_True)
    then show ?thesis using deps map_of_WithoutHandler [OF Some, of "wd_ReviewConsolidator def"] assms(2)
      by (simp add: wf_barrier_def WithoutHandler_other_fields)
  qed (simp add: wf_barrier_def WithoutHandler_other_fields)
  from g r b show ?thesis by (simp add: wf_def_def)
qed

section \<open>The selected workflow\<close>

text \<open>An order for each built-in graph in which predecessors come first.\<close>

definition topo_order :: "workflow_def \<Rightarrow> string list" where
  "topo_order d = (if wd_ID d = ''pr-review'' then [''pr-workspace'', ''pr-jira-context''] @
       filter (\<lambda>k. k \<in> set (''pr-stale-reference'' # prCategoryReviewers)) (mkeys (wd_Graph d))
       @ [''pr-consolidator'', ''pr-cleanup'']
     else mkeys (wd_Graph d))"

lemma table_wf_check: "list_all (\<lambda>(n, d). wf_check (topo_order d) d) workflow_table"
  by code_simp

lemma sweep_wf_check:
  "wf_check (topo_order (WithStaleReferenceSweep PRReviewWorkflowDef)) (WithStaleReferenceSweep PRReviewWorkflowDef)"
  by code_simp

lemma table_gate: "list_all (\<lambda>(n, d). wd_ReviewConsolidator d \<noteq> ''quality-gate'' \<and>
    ''quality-gate'' \<notin> set (wd_ConsolidatedReviewers d) \<and> wd_ID d = n \<and>
    (n = ''pr-review'' \<longleftrightarrow> map_of (wd_Graph d) ''pr-consolidator'' \<noteq> None)) workflow_table"
  by code_simp

lemma sweep_noop:
  "map_of (wd_Graph d) ''pr-consolidator'' = None \<Longrightarrow> WithStaleReferenceSweep d = d"
  by (simp add: WithStaleReferenceSweep_def)

lemma gate_not_in_review: "WithoutHandler PRReviewWorkflowDef ''quality-gate'' = PRReviewWorkflowDef"
  by code_simp

lemma table_entry:
  assumes "map_of workflow_table n = Some d"
  shows "wf_def d" "wd_ID d = n" "wd_ReviewConsolidator d \<noteq> ''quality-gate''"
    "''quality-gate'' \<notin> set (wd_ConsolidatedReviewers d)"
    "n \<noteq> ''pr-review'' \<Longrightarrow> map_of (wd_Graph d) ''pr-consolidator'' = None"
proof -
  have "(n, d) \<in> set workflow_table" using assms by (rule map_of_SomeD)
  then show "wf_def d" "wd_ID d = n" "wd_ReviewConsolidator d \<noteq> ''quality-gate''"
    "''quality-gate'' \<notin> set (wd_ConsolidatedReviewers d)"
    "n \<noteq> ''pr-review'' \<Longrightarrow> map_of (wd_Graph d) ''pr-consolidator'' = None"
    using table_wf_check table_gate wf_check_sound by (fastforce simp: list_all_iff)+
qed

lemma table_review: "map_of workflow_table ''pr-review'' = Some PRReviewWorkflowDef"
  by (simp add: workflow_table_def)

lemma no_consolidator_WithoutHandler:
  "map_of (wd_Graph d) k = None \<Longrightarrow> k \<noteq> h \<Longrightarrow> map_of (wd_Graph (WithoutHandler d h)) k = None"
  by (cases "map_of (wd_Graph d) h") (simp_all add: map_of_WithoutHandler, simp add: WithoutHandler_def)

lemma selected_wf_def:
  assumes "selectWorkflowDef getenv n = Inr d"
  shows "wf_def d \<and> wd_ID d = n"
proof -
  obtain d0 where d0: "map_of workflow_table n = Some d0"
    using assms by (auto simp: selectWorkflowDef_def split: option.splits)
  note entry = table_entry [OF d0]
  define d1 where "d1 = (if getenv ''RICK_DISABLE_QUALITY_GATE'' \<noteq> [] then WithoutHandler d0 ''quality-gate'' else d0)"
  have d: "d = (if getenv ''RICK_ENABLE_STALE_REF_SWEEP'' \<noteq> [] then WithStaleReferenceSweep d1 else d1)"
    using assms d0 unfolding d1_def selectWorkflowDef_def Let_def by simp
  have d1: "wf_def d1 \<and> wd_ID d1 = n"
    using entry(1-4) by (auto simp: d1_def WithoutHandler_other_fields intro!: wf_def_WithoutHandler)
  show ?thesis
  proof (cases "n = ''pr-review''")
    case True
    then have "d0 = PRReviewWorkflowDef" using d0 table_review by simp
    then have "d1 = PRReviewWorkflowDef" by (simp add: d1_def gate_not_in_review)
    moreover have "wf_def (WithStaleReferenceSweep PRReviewWorkflowDef)"
      using sweep_wf_check by (rule wf_check_sound)
    moreover have "wd_ID (WithStaleReferenceSweep x) = wd_ID x" for x
      by (simp add: WithStaleReferenceSweep_def split: option.splits)
    ultimately show ?thesis using d d1 by auto
  next
    case False
    then have "map_of (wd_Graph d1) ''pr-consolidator'' = None"
      using entry(5) by (simp add: d1_def no_consolidator_WithoutHandler)
    then have "d = d1" by (simp add: d sweep_noop)
    with d1 show ?thesis by simp
  qed
qed

text \<open>
  Whatever the environment, the definition the CLI selects for a name is well formed:
  distinct handlers, no dangling predecessor, no dependency cycle, the required personas are
  exactly the handlers of the graph, and a synchronous workflow's review-consolidator joins
  exactly its reviewers; a name outside the table is refused.
\<close>

theorem selected_workflow_well_formed:
  "case selectWorkflowDef getenv n of
     Inl msg \<Rightarrow> n \<notin> set (map fst workflow_table)
   | Inr d \<Rightarrow> n \<in> set (map fst workflow_table) \<and> wd_ID d = n \<and> wf_def d"
proof (cases "selectWorkflowDef getenv n")
  case (Inl msg)
  then show ?thesis
    by (auto simp: selectWorkflowDef_def Let_def map_of_eq_None_iff split: option.splits)
next
  case (Inr d)
  then have "map_of workflow_table n \<noteq> None"
    by (simp add: selectWorkflowDef_def split: option.splits)
  then have "n \<in> set (map fst workflow_table)" by (simp add: map_of_eq_None_iff)
  with Inr selected_wf_def [OF Inr] show ?thesis by simp
qed

text \<open>
  Removing a handler (as disabling the quality gate does) neither loses nor adds an
  ordering between the remaining handlers: for every well-formed definition, one handler is
  reachable from another in the rewired graph exactly when it was before.
\<close>

theorem without_handler_keeps_order:
  assumes "wf_def def" and "a \<noteq> h" and "b \<noteq> h"
  shows "(a, b) \<in> (dep_edges (wd_Graph (WithoutHandler def h)))\<^sup>* \<longleftrightarrow>
     (a, b) \<in> (dep_edges (wd_Graph def))\<^sup>*"
proof (cases "map_of (wd_Graph def) h")
  case None
  then show ?thesis by (simp add: WithoutHandler_def)
next
  case (Some preds)
  have "distinct (mkeys (wd_Graph def))" "h \<notin> set preds"
    using assms(1) wf_graph_no_self [OF _ Some] by (auto simp: wf_def_def wf_graph_def)
  with Some assms(2,3) show ?thesis by (intro WithoutHandler_reach)
qed

lemma without_handler_keeps_order_witness:
  "(''review-consolidator'', ''committer'') \<in>
     (dep_edges (wd_Graph (WithoutHandler WorkspaceDevWorkflowDef ''quality-gate'')))\<^sup>* \<longleftrightarrow>
   (''review-consolidator'', ''committer'') \<in> (dep_edges (wd_Graph WorkspaceDevWorkflowDef))\<^sup>*"
proof -
  have "map_of workflow_table ''workspace-dev'' = Some WorkspaceDevWorkflowDef"
    by (simp add: workflow_table_def)
  then have "wf_def WorkspaceDevWorkflowDef" by (rule table_entry(1))
  then show ?thesis by (rule without_handler_keeps_order) simp_all
qed

end
