(* ===== verification/FairDispatcher.thy ===== *)
theory FairDispatcher imports Prelude "HOL-Library.Multiset" begin

text \<open>
  \<open>internal/engine/fair_dispatcher.go\<close>: the admission controller that bounds the number
  of handler executions in flight and shares the slots among the active correlations.

  A \<open>*fairWaiter\<close> is an address in \<open>fd_mem\<close>, so that the identity test of
  \<open>removeWaiter\<close> is the equality of addresses; \<open>fd_cond\<close> is the notify list of
  the condition variable. One critical section of the code is one definition; the steps of the
  system (\<open>fair_step\<close>) interleave them, and keep apart the check of \<open>ctx.Err()\<close>
  and the call of \<open>cond.Wait()\<close> behind it, between which the mutex is held but the
  cancellation goroutine, which takes no mutex, can run.
\<close>

record fairWaiter =
  fw_corrID :: string
  fw_admitted :: bool

record fairDispatcher =
  fd_cap :: int
  fd_total :: int
  fd_inflight :: "(string, int) gomap"
  fd_waiters :: "nat list"
  fd_cond :: "nat list"
  fd_mem :: "nat \<rightharpoonup> fairWaiter"

definition newFairDispatcher :: "int \<Rightarrow> fairDispatcher" where
  "newFairDispatcher c = \<lparr>fd_cap = c, fd_total = 0, fd_inflight = [], fd_waiters = [], fd_cond = [],
     fd_mem = Map.empty\<rparr>"

definition waiter_corr :: "fairDispatcher \<Rightarrow> nat \<Rightarrow> string" where
  "waiter_corr fd a = (case fd_mem fd a of None \<Rightarrow> [] | Some w \<Rightarrow> fw_corrID w)"

definition waiter_admitted :: "fairDispatcher \<Rightarrow> nat \<Rightarrow> bool" where
  "waiter_admitted fd a = (case fd_mem fd a of None \<Rightarrow> False | Some w \<Rightarrow> fw_admitted w)"

definition atOrUnderFairShare :: "fairDispatcher \<Rightarrow> string \<Rightarrow> bool" where
  "atOrUnderFairShare fd c = (
     let active = int (length (fd_inflight fd));
         active = (if map_of (fd_inflight fd) c = None then active + 1 else active);
         active = (if active < 1 then 1 else active);
         fairShare = fd_cap fd div active;
         fairShare = (if fairShare < 1 then 1 else fairShare)
     in mget 0 (fd_inflight fd) c < fairShare)"

text \<open>\<open>fd.total++; fd.inflight[c]++\<close>\<close>

definition take_slot :: "string \<Rightarrow> fairDispatcher \<Rightarrow> fairDispatcher" where
  "take_slot c fd = fd\<lparr>fd_total := fd_total fd + 1,
     fd_inflight := mput (fd_inflight fd) c (mget 0 (fd_inflight fd) c + 1)\<rparr>"

definition free_slot :: "string \<Rightarrow> fairDispatcher \<Rightarrow> fairDispatcher" where
  "free_slot c fd = (let n = mget 0 (fd_inflight fd) c - 1; m = mput (fd_inflight fd) c n
     in fd\<lparr>fd_total := fd_total fd - 1, fd_inflight := (if n = 0 then mdel m c else m)\<rparr>)"

fun removeWaiter :: "nat \<Rightarrow> nat list \<Rightarrow> nat list" where
  "removeWaiter a [] = []"
| "removeWaiter a (b # bs) = (if b = a then bs else b # removeWaiter a bs)"

text \<open>Marks the waiter, hands it the slot, and wakes every sleeper (\<open>cond.Broadcast\<close>).\<close>

definition admit :: "nat \<Rightarrow> fairDispatcher \<Rightarrow> fairDispatcher" where
  "admit a fd = (let fd' = take_slot (waiter_corr fd a) fd in
     fd'\<lparr>fd_mem := (fd_mem fd')(a \<mapsto> \<lparr>fw_corrID = waiter_corr fd a, fw_admitted = True\<rparr>),
         fd_waiters := removeWaiter a (fd_waiters fd'), fd_cond := []\<rparr>)"

definition candidate :: "fairDispatcher \<Rightarrow> nat option" where
  "candidate fd = (case find (\<lambda>a. \<not> waiter_admitted fd a \<and> atOrUnderFairShare fd (waiter_corr fd a)) (fd_waiters fd) of
      Some a \<Rightarrow> Some a
    | None \<Rightarrow> find (\<lambda>a. \<not> waiter_admitted fd a) (fd_waiters fd))"

definition admitOne :: "fairDispatcher \<Rightarrow> fairDispatcher" where
  "admitOne fd = (if fd_total fd \<ge> fd_cap fd \<or> length (fd_waiters fd) = 0 then fd
     else case candidate fd of None \<Rightarrow> fd | Some a \<Rightarrow> admit a fd)"

definition release :: "string \<Rightarrow> fairDispatcher \<Rightarrow> fairDispatcher" where
  "release c fd = admitOne (free_slot c fd)"

text \<open>The fast path of \<open>acquire\<close>; \<open>None\<close> when the caller has to register.\<close>

definition acquire_fast :: "string \<Rightarrow> fairDispatcher \<Rightarrow> fairDispatcher option" where
  "acquire_fast c fd = (if fd_total fd < fd_cap fd \<and> atOrUnderFairShare fd c
     then Some (take_slot c fd) else None)"

definition acquire_register :: "nat \<Rightarrow> string \<Rightarrow> fairDispatcher \<Rightarrow> fairDispatcher" where
  "acquire_register a c fd = fd\<lparr>fd_mem := (fd_mem fd)(a \<mapsto> \<lparr>fw_corrID = c, fw_admitted = False\<rparr>),
     fd_waiters := fd_waiters fd @ [a]\<rparr>"

text \<open>One pass of the wait loop: the value \<open>acquire\<close> returns, or \<open>None\<close> to go to sleep.\<close>

definition acquire_loop :: "nat \<Rightarrow> bool \<Rightarrow> fairDispatcher \<Rightarrow> bool option \<times> fairDispatcher" where
  "acquire_loop a err fd = (if waiter_admitted fd a then (Some True, fd)
     else if err then (Some False, fd\<lparr>fd_waiters := removeWaiter a (fd_waiters fd)\<rparr>)
     else (None, fd))"

definition cond_wait :: "nat \<Rightarrow> fairDispatcher \<Rightarrow> fairDispatcher" where
  "cond_wait a fd = fd\<lparr>fd_cond := fd_cond fd @ [a]\<rparr>"

definition cond_broadcast :: "fairDispatcher \<Rightarrow> fairDispatcher" where
  "cond_broadcast fd = fd\<lparr>fd_cond := []\<rparr>"

section \<open>The interleaved system\<close>

text \<open>
  \<open>fs_held\<close> are the slots whose holders were told so and have not called \<open>release\<close>;
  \<open>fs_live\<close> the goroutines inside the wait loop; \<open>fs_lock\<close> the one that has
  checked its context and holds the mutex up to \<open>cond.Wait\<close>; \<open>fs_err\<close> the waiters
  whose context is done and \<open>fs_cast\<close> those whose cancellation goroutine has broadcast.
\<close>

record fair_sys =
  fs_fd :: fairDispatcher
  fs_held :: "string list"
  fs_live :: "nat list"
  fs_lock :: "nat option"
  fs_err :: "nat list"
  fs_cast :: "nat list"

definition fair_start :: "int \<Rightarrow> fair_sys" where
  "fair_start c = \<lparr>fs_fd = newFairDispatcher c, fs_held = [], fs_live = [], fs_lock = None,
     fs_err = [], fs_cast = []\<rparr>"

definition after_loop :: "nat \<Rightarrow> fair_sys \<Rightarrow> fair_sys" where
  "after_loop a s = (case acquire_loop a (a \<in> set (fs_err s)) (fs_fd s) of
      (None, fd) \<Rightarrow> s\<lparr>fs_fd := fd, fs_lock := Some a\<rparr>
    | (Some ok, fd) \<Rightarrow> s\<lparr>fs_fd := fd, fs_live := removeAll a (fs_live s),
        fs_held := (if ok then waiter_corr fd a # fs_held s else fs_held s)\<rparr>)"

inductive fair_step :: "fair_sys \<Rightarrow> fair_sys \<Rightarrow> bool" where
  fair_fast: "fs_lock s = None \<Longrightarrow> acquire_fast c (fs_fd s) = Some fd \<Longrightarrow>
     fair_step s (s\<lparr>fs_fd := fd, fs_held := c # fs_held s\<rparr>)"
| fair_slow: "fs_lock s = None \<Longrightarrow> acquire_fast c (fs_fd s) = None \<Longrightarrow> fd_mem (fs_fd s) a = None \<Longrightarrow>
     fair_step s (after_loop a (s\<lparr>fs_fd := acquire_register a c (fs_fd s), fs_live := fs_live s @ [a],
       fs_err := (if done then a # fs_err s else fs_err s)\<rparr>))"
| fair_sleep: "fs_lock s = Some a \<Longrightarrow>
     fair_step s (s\<lparr>fs_fd := cond_wait a (fs_fd s), fs_lock := None\<rparr>)"
| fair_wake: "fs_lock s = None \<Longrightarrow> a \<in> set (fs_live s) \<Longrightarrow> a \<notin> set (fd_cond (fs_fd s)) \<Longrightarrow>
     fair_step s (after_loop a s)"
| fair_release: "fs_lock s = None \<Longrightarrow> c \<in> set (fs_held s) \<Longrightarrow>
     fair_step s (s\<lparr>fs_fd := release c (fs_fd s), fs_held := remove1 c (fs_held s)\<rparr>)"
| fair_cancel: "a \<in> set (fs_live s) \<Longrightarrow> fair_step s (s\<lparr>fs_err := a # fs_err s\<rparr>)"
| fair_cast: "a \<in> set (fs_err s) \<Longrightarrow> a \<in> set (fs_live s) \<Longrightarrow> a \<notin> set (fs_cast s) \<Longrightarrow>
     fair_step s (s\<lparr>fs_fd := cond_broadcast (fs_fd s), fs_cast := a # fs_cast s\<rparr>)"

inductive fair_reach :: "int \<Rightarrow> fair_sys \<Rightarrow> bool" for c where
  fair_reach_start: "fair_reach c (fair_start c)"
| fair_reach_step: "fair_reach c s \<Longrightarrow> fair_step s s' \<Longrightarrow> fair_reach c s'"

section \<open>Slot accounting\<close>

text \<open>The counters of the dispatcher are those of the multiset of slots taken.\<close>

definition accounts :: "fairDispatcher \<Rightarrow> string multiset \<Rightarrow> bool" where
  "accounts fd G \<longleftrightarrow> distinct (mkeys (fd_inflight fd)) \<and> fd_total fd = int (size G) \<and>
     (\<forall>c. map_of (fd_inflight fd) c = (if c \<in># G then Some (int (count G c)) else None))"

lemma accounts_mget: "accounts fd G \<Longrightarrow> mget 0 (fd_inflight fd) c = int (count G c)"
  by (simp add: accounts_def mget_def count_eq_zero_iff)

lemma accounts_take: "accounts fd G \<Longrightarrow> accounts (take_slot c fd) (add_mset c G)"
  using accounts_mget [of fd G c] by (auto simp: accounts_def take_slot_def)

lemma accounts_free: "accounts fd (add_mset c G) \<Longrightarrow> accounts (free_slot c fd) G"
  using accounts_mget [of fd "add_mset c G" c]
  by (auto simp: accounts_def free_slot_def Let_def count_eq_zero_iff)

lemma accounts_cong:
  "fd_total fd' = fd_total fd \<Longrightarrow> fd_inflight fd' = fd_inflight fd \<Longrightarrow> accounts fd' G = accounts fd G"
  by (simp add: accounts_def)

lemma removeWaiter_remove1 [simp]: "removeWaiter a bs = remove1 a bs"
  by (induction bs) auto

lemma slot_frames [simp]:
  "fd_cap (take_slot c fd) = fd_cap fd" "fd_waiters (take_slot c fd) = fd_waiters fd"
  "fd_mem (take_slot c fd) = fd_mem fd" "fd_cond (take_slot c fd) = fd_cond fd"
  "fd_total (take_slot c fd) = fd_total fd + 1"
  "fd_cap (free_slot c fd) = fd_cap fd" "fd_waiters (free_slot c fd) = fd_waiters fd"
  "fd_mem (free_slot c fd) = fd_mem fd" "fd_cond (free_slot c fd) = fd_cond fd"
  "fd_total (free_slot c fd) = fd_total fd - 1"
  by (simp_all add: take_slot_def free_slot_def Let_def)

lemma waiter_mem_cong:
  "fd_mem fd' = fd_mem fd \<Longrightarrow> waiter_corr fd' = waiter_corr fd"
  "fd_mem fd' = fd_mem fd \<Longrightarrow> waiter_admitted fd' = waiter_admitted fd"
  by (simp_all add: fun_eq_iff waiter_corr_def waiter_admitted_def)

lemma waiter_slot [simp]:
  "waiter_corr (take_slot c fd) = waiter_corr fd" "waiter_admitted (take_slot c fd) = waiter_admitted fd"
  "waiter_corr (free_slot c fd) = waiter_corr fd" "waiter_admitted (free_slot c fd) = waiter_admitted fd"
  by (simp_all add: fun_eq_iff waiter_corr_def waiter_admitted_def)

lemma admit_simps [simp]:
  "fd_cap (admit a fd) = fd_cap fd" "fd_waiters (admit a fd) = remove1 a (fd_waiters fd)"
  "fd_cond (admit a fd) = []" "fd_total (admit a fd) = fd_total fd + 1"
  "waiter_corr (admit a fd) = waiter_corr fd"
  "waiter_admitted (admit a fd) = (waiter_admitted fd)(a := True)"
  by (auto simp: admit_def Let_def fun_eq_iff waiter_corr_def waiter_admitted_def split: option.splits)

lemma fd_mem_admit: "fd_mem (admit a fd) b \<noteq> None \<longleftrightarrow> b = a \<or> fd_mem fd b \<noteq> None"
  by (auto simp: admit_def Let_def)

lemma accounts_admit: "accounts fd G \<Longrightarrow> accounts (admit a fd) (add_mset (waiter_corr fd a) G)"
  using accounts_take [of fd G "waiter_corr fd a"]
  by (simp add: admit_def Let_def accounts_def)

lemma under_share_zero: "mget 0 (fd_inflight fd) c = 0 \<Longrightarrow> atOrUnderFairShare fd c"
  by (simp add: atOrUnderFairShare_def Let_def)

lemma find_split:
  "find P xs = Some x \<Longrightarrow> \<exists>ys zs. xs = ys @ x # zs \<and> P x \<and> (\<forall>y \<in> set ys. \<not> P y)"
proof (induction xs)
  case Nil
  then show ?case by simp
next
  case (Cons z zs)
  show ?case
  proof (cases "P z")
    case True
    with Cons.prems have "z # zs = [] @ x # zs \<and> P x" by simp
    then show ?thesis by fastforce
  next
    case False
    with Cons obtain ys us where "zs = ys @ x # us" "P x" "\<forall>y \<in> set ys. \<not> P y" by auto
    with False have "z # zs = (z # ys) @ x # us \<and> P x \<and> (\<forall>y \<in> set (z # ys). \<not> P y)" by simp
    then show ?thesis by blast
  qed
qed

text \<open>
  The waiter that \<open>admitOne\<close> picks: the oldest under its share, and only when there is
  none the oldest of all.
\<close>

definition fair_choice :: "fairDispatcher \<Rightarrow> nat \<Rightarrow> bool" where
  "fair_choice fd a \<longleftrightarrow> (\<exists>pre post. fd_waiters fd = pre @ a # post \<and>
     (atOrUnderFairShare fd (waiter_corr fd a) \<and> (\<forall>b \<in> set pre. \<not> atOrUnderFairShare fd (waiter_corr fd b)) \<or>
      pre = [] \<and> (\<forall>b \<in> set (fd_waiters fd). \<not> atOrUnderFairShare fd (waiter_corr fd b))))"

lemma candidate_choice:
  assumes "fd_waiters fd \<noteq> []" and un: "\<forall>b \<in> set (fd_waiters fd). \<not> waiter_admitted fd b"
  shows "\<exists>a. candidate fd = Some a \<and> fair_choice fd a"
proof (cases "find (\<lambda>a. \<not> waiter_admitted fd a \<and> atOrUnderFairShare fd (waiter_corr fd a)) (fd_waiters fd)")
  case (Some a)
  from find_split [OF this] obtain pre post where
    w: "fd_waiters fd = pre @ a # post" "atOrUnderFairShare fd (waiter_corr fd a)"
    "\<forall>b \<in> set pre. \<not> (\<not> waiter_admitted fd b \<and> atOrUnderFairShare fd (waiter_corr fd b))" by blast
  then have "fair_choice fd a" using un unfolding fair_choice_def by auto
  with Some show ?thesis by (simp add: candidate_def)
next
  case None
  from assms obtain a rest where w: "fd_waiters fd = a # rest" by (cases "fd_waiters fd") auto
  have "\<forall>b \<in> set (fd_waiters fd). \<not> atOrUnderFairShare fd (waiter_corr fd b)"
    using None un by (auto simp: find_None_iff)
  then have "fair_choice fd a" using w unfolding fair_choice_def by auto
  with None w un show ?thesis by (simp add: candidate_def)
qed

lemma fair_choice_in: "fair_choice fd a \<Longrightarrow> a \<in> set (fd_waiters fd)"
  by (auto simp: fair_choice_def)

section \<open>The invariant of the system\<close>

definition fs_granted :: "fair_sys \<Rightarrow> string list" where
  "fs_granted s = fs_held s @
     map (waiter_corr (fs_fd s)) (filter (waiter_admitted (fs_fd s)) (fs_live s))"

definition fair_ok :: "int \<Rightarrow> fair_sys \<Rightarrow> bool" where
  "fair_ok c s \<longleftrightarrow> fd_cap (fs_fd s) = c \<and> accounts (fs_fd s) (mset (fs_granted s)) \<and>
     fd_total (fs_fd s) \<le> c \<and> distinct (fd_waiters (fs_fd s)) \<and> distinct (fs_live s) \<and>
     set (fd_waiters (fs_fd s)) = {a \<in> set (fs_live s). \<not> waiter_admitted (fs_fd s) a} \<and>
     (\<forall>a \<in> set (fs_live s). fd_mem (fs_fd s) a \<noteq> None) \<and>
     (fd_waiters (fs_fd s) \<noteq> [] \<longrightarrow> 0 < fd_total (fs_fd s)) \<and>
     set (fd_cond (fs_fd s)) \<subseteq> set (fd_waiters (fs_fd s)) \<and>
     (\<forall>a. fs_lock s = Some a \<longrightarrow> a \<in> set (fd_waiters (fs_fd s)))"

lemma fair_ok_start: "0 < c \<Longrightarrow> fair_ok c (fair_start c)"
  by (simp add: fair_ok_def fair_start_def newFairDispatcher_def fs_granted_def accounts_def mkeys_def)

lemma mset_filter_gain:
  "distinct xs \<Longrightarrow> a \<in> set xs \<Longrightarrow> \<not> P a \<Longrightarrow>
     mset (map f (filter (P(a := True)) xs)) = add_mset (f a) (mset (map f (filter P xs)))"
proof (induction xs)
  case Nil
  then show ?case by simp
next
  case (Cons x xs)
  show ?case
  proof (cases "x = a")
    case True
    with Cons.prems have "filter (P(a := True)) xs = filter P xs" by (intro filter_cong) auto
    with True Cons.prems show ?thesis
      by (simp add: fun_upd_same del: mset_filter mset_map fun_upd_apply)
  next
    case False
    with Cons show ?thesis by (auto simp del: mset_filter mset_map)
  qed
qed

lemma mset_filter_drop:
  "distinct xs \<Longrightarrow> a \<in> set xs \<Longrightarrow> P a \<Longrightarrow>
     add_mset (f a) (mset (map f (filter P (removeAll a xs)))) = mset (map f (filter P xs))"
proof (induction xs)
  case Nil
  then show ?case by simp
next
  case (Cons x xs)
  show ?case
  proof (cases "x = a")
    case True
    with Cons.prems show ?thesis by (simp add: removeAll_id del: mset_filter mset_map)
  next
    case False
    with Cons show ?thesis by (auto simp del: mset_filter mset_map)
  qed
qed

lemma fair_okD:
  assumes "fair_ok c s"
  shows "fd_cap (fs_fd s) = c" "accounts (fs_fd s) (mset (fs_granted s))" "fd_total (fs_fd s) \<le> c"
    "distinct (fd_waiters (fs_fd s))" "distinct (fs_live s)"
    "set (fd_waiters (fs_fd s)) = {a \<in> set (fs_live s). \<not> waiter_admitted (fs_fd s) a}"
    "\<And>a. a \<in> set (fs_live s) \<Longrightarrow> fd_mem (fs_fd s) a \<noteq> None"
    "fd_waiters (fs_fd s) \<noteq> [] \<Longrightarrow> 0 < fd_total (fs_fd s)"
    "set (fd_cond (fs_fd s)) \<subseteq> set (fd_waiters (fs_fd s))"
    "\<And>a. fs_lock s = Some a \<Longrightarrow> a \<in> set (fd_waiters (fs_fd s))"
  using assms unfolding fair_ok_def by blast+

lemma fair_ok_fast:
  assumes ok: "fair_ok c s" and f: "acquire_fast k (fs_fd s) = Some fd"
  shows "fair_ok c (s\<lparr>fs_fd := fd, fs_held := k # fs_held s\<rparr>)"
proof -
  from f have fd: "fd = take_slot k (fs_fd s)" and lt: "fd_total (fs_fd s) < fd_cap (fs_fd s)"
    by (auto simp: acquire_fast_def split: if_splits)
  have "accounts fd (add_mset k (mset (fs_granted s)))"
    unfolding fd using fair_okD(2) [OF ok] by (rule accounts_take)
  then show ?thesis using ok lt unfolding fair_ok_def fd by (auto simp: fs_granted_def)
qed

lemma no_fast_taken:
  assumes ok: "fair_ok c s" and c: "0 < c" and f: "acquire_fast k (fs_fd s) = None"
  shows "0 < fd_total (fs_fd s)"
proof (cases "fd_total (fs_fd s) < fd_cap (fs_fd s)")
  case False
  with fair_okD(1) [OF ok] c show ?thesis by simp
next
  case True
  with f have "\<not> atOrUnderFairShare (fs_fd s) k" by (simp add: acquire_fast_def split: if_splits)
  then have "mget 0 (fd_inflight (fs_fd s)) k \<noteq> 0" using under_share_zero by blast
  then have "count (mset (fs_granted s)) k \<noteq> 0" using accounts_mget [OF fair_okD(2) [OF ok]] by simp
  then have "mset (fs_granted s) \<noteq> {#}" by auto
  then have "size (mset (fs_granted s)) \<noteq> 0" by (simp only: size_eq_0_iff_empty not_False_eq_True)
  then show ?thesis using fair_okD(2) [OF ok] unfolding accounts_def by linarith
qed

lemma fair_ok_register:
  assumes ok: "fair_ok c s" and c: "0 < c" and f: "acquire_fast k (fs_fd s) = None"
    and fresh: "fd_mem (fs_fd s) a = None"
  shows "fair_ok c (s\<lparr>fs_fd := acquire_register a k (fs_fd s), fs_live := fs_live s @ [a], fs_err := E\<rparr>)"
proof -
  let ?fd = "acquire_register a k (fs_fd s)"
  have new: "a \<notin> set (fs_live s)" using fair_okD(7) [OF ok] fresh by blast
  have adm: "waiter_admitted ?fd = waiter_admitted (fs_fd s)"
    using fresh by (auto simp: fun_eq_iff waiter_admitted_def acquire_register_def)
  have corr: "map (waiter_corr ?fd) (filter P (fs_live s)) = map (waiter_corr (fs_fd s)) (filter P (fs_live s))" for P
    using new by (auto simp: waiter_corr_def acquire_register_def)
  have na: "\<not> waiter_admitted (fs_fd s) a" using fresh by (simp add: waiter_admitted_def)
  have g: "fs_granted (s\<lparr>fs_fd := ?fd, fs_live := fs_live s @ [a], fs_err := E\<rparr>) = fs_granted s"
    using na corr by (simp add: fs_granted_def adm)
  have w: "fd_waiters ?fd = fd_waiters (fs_fd s) @ [a]" "fd_total ?fd = fd_total (fs_fd s)"
    "fd_cap ?fd = fd_cap (fs_fd s)" "fd_inflight ?fd = fd_inflight (fs_fd s)" "fd_cond ?fd = fd_cond (fs_fd s)"
    "fd_mem ?fd = (fd_mem (fs_fd s))(a \<mapsto> \<lparr>fw_corrID = k, fw_admitted = False\<rparr>)"
    by (auto simp: acquire_register_def)
  have acc: "accounts ?fd G = accounts (fs_fd s) G" for G by (rule accounts_cong) (simp_all add: w)
  show ?thesis unfolding fair_ok_def
  proof (intro conjI)
    show "accounts (fs_fd (s\<lparr>fs_fd := ?fd, fs_live := fs_live s @ [a], fs_err := E\<rparr>))
        (mset (fs_granted (s\<lparr>fs_fd := ?fd, fs_live := fs_live s @ [a], fs_err := E\<rparr>)))"
      unfolding g using fair_okD(2) [OF ok] by (simp add: acc)
  qed (use fair_okD [OF ok] no_fast_taken [OF ok c f] new na in \<open>auto simp: w adm\<close>)
qed

lemma fair_ok_after_loop:
  assumes ok: "fair_ok c s" and a: "a \<in> set (fs_live s)" and sl: "a \<notin> set (fd_cond (fs_fd s))"
    and lock: "fs_lock s = None"
  shows "fair_ok c (after_loop a s)"
proof -
  let ?fd = "fs_fd s"
  consider (adm) "waiter_admitted ?fd a" | (err) "\<not> waiter_admitted ?fd a" "a \<in> set (fs_err s)"
    | (wait) "\<not> waiter_admitted ?fd a" "a \<notin> set (fs_err s)" by blast
  then show ?thesis
  proof cases
    case adm
    have "mset (fs_granted (after_loop a s)) = mset (fs_granted s)"
      using mset_filter_drop [OF fair_okD(5) [OF ok] a, of "waiter_admitted ?fd" "waiter_corr ?fd"] adm
      by (simp add: after_loop_def acquire_loop_def fs_granted_def del: mset_filter mset_map)
    moreover have "fs_fd (after_loop a s) = ?fd" "fs_live (after_loop a s) = removeAll a (fs_live s)"
      "fs_lock (after_loop a s) = None" using adm lock by (simp_all add: after_loop_def acquire_loop_def)
    ultimately show ?thesis using fair_okD [OF ok] adm unfolding fair_ok_def
      by (auto simp: distinct_removeAll)
  next
    case err
    let ?fd' = "?fd\<lparr>fd_waiters := remove1 a (fd_waiters ?fd)\<rparr>"
    have s': "after_loop a s = s\<lparr>fs_fd := ?fd', fs_live := removeAll a (fs_live s)\<rparr>"
      using err by (simp add: after_loop_def acquire_loop_def)
    have same: "waiter_admitted ?fd' = waiter_admitted ?fd" "waiter_corr ?fd' = waiter_corr ?fd"
      by (simp_all add: fun_eq_iff waiter_corr_def waiter_admitted_def)
    have "filter (waiter_admitted ?fd) (removeAll a (fs_live s)) = filter (waiter_admitted ?fd) (fs_live s)"
      using err(1) by (induction "fs_live s" rule: list.induct) (auto simp: removeAll_filter_not_eq intro!: filter_cong)
    then have g: "fs_granted (after_loop a s) = fs_granted s" unfolding s' by (simp add: fs_granted_def same)
    have acc: "accounts ?fd' G = accounts ?fd G" for G by (rule accounts_cong) simp_all
    have "fd_waiters ?fd \<noteq> []" if "remove1 a (fd_waiters ?fd) \<noteq> []" using that by auto
    then show ?thesis using fair_okD [OF ok] err sl lock unfolding fair_ok_def g unfolding s'
      by (auto simp: same acc distinct_removeAll)
  next
    case wait
    then have "after_loop a s = s\<lparr>fs_lock := Some a\<rparr>" by (simp add: after_loop_def acquire_loop_def)
    moreover have "a \<in> set (fd_waiters ?fd)" using fair_okD(6) [OF ok] a wait by simp
    moreover have "fs_granted (s\<lparr>fs_lock := Some a\<rparr>) = fs_granted s" by (simp add: fs_granted_def)
    ultimately show ?thesis using ok unfolding fair_ok_def by auto
  qed
qed

lemma release_cases:
  assumes ok: "fair_ok c s" and k: "k \<in> set (fs_held s)"
  shows "fd_waiters (fs_fd s) = [] \<and> release k (fs_fd s) = free_slot k (fs_fd s) \<or>
    (\<exists>a. fair_choice (free_slot k (fs_fd s)) a \<and> release k (fs_fd s) = admit a (free_slot k (fs_fd s)))"
proof (cases "fd_waiters (fs_fd s) = []")
  case True
  then show ?thesis by (simp add: release_def admitOne_def)
next
  case False
  have "\<forall>b \<in> set (fd_waiters (free_slot k (fs_fd s))). \<not> waiter_admitted (free_slot k (fs_fd s)) b"
    using fair_okD(6) [OF ok] by simp
  with False obtain a where "candidate (free_slot k (fs_fd s)) = Some a" "fair_choice (free_slot k (fs_fd s)) a"
    using candidate_choice [of "free_slot k (fs_fd s)"] by auto
  moreover have "fd_total (free_slot k (fs_fd s)) < fd_cap (free_slot k (fs_fd s))"
    using fair_okD(1,3) [OF ok] by simp
  ultimately have "release k (fs_fd s) = admit a (free_slot k (fs_fd s))"
    using False by (simp add: release_def admitOne_def)
  with \<open>fair_choice _ a\<close> show ?thesis by blast
qed

lemma held_accounts:
  assumes ok: "fair_ok c s" and k: "k \<in> set (fs_held s)"
  shows "accounts (free_slot k (fs_fd s)) (mset (fs_granted (s\<lparr>fs_held := remove1 k (fs_held s)\<rparr>)))"
proof -
  have "mset (fs_granted s) = add_mset k (mset (fs_granted (s\<lparr>fs_held := remove1 k (fs_held s)\<rparr>)))"
    using k by (simp add: fs_granted_def)
  then show ?thesis using fair_okD(2) [OF ok] by (intro accounts_free) simp
qed

lemma fair_ok_release:
  assumes ok: "fair_ok c s" and k: "k \<in> set (fs_held s)" and lock: "fs_lock s = None"
  shows "fair_ok c (s\<lparr>fs_fd := release k (fs_fd s), fs_held := remove1 k (fs_held s)\<rparr>)"
proof -
  let ?f = "free_slot k (fs_fd s)" and ?h = "remove1 k (fs_held s)"
  note acc = held_accounts [OF ok k]
  from release_cases [OF ok k] show ?thesis
  proof (elim disjE exE conjE)
    assume w: "fd_waiters (fs_fd s) = []" and r: "release k (fs_fd s) = ?f"
    have "fs_granted (s\<lparr>fs_fd := ?f, fs_held := ?h\<rparr>) = fs_granted (s\<lparr>fs_held := ?h\<rparr>)"
      by (simp add: fs_granted_def)
    then show ?thesis using acc w lock fair_okD [OF ok] unfolding fair_ok_def r by auto
  next
    fix a assume ch: "fair_choice ?f a" and r: "release k (fs_fd s) = admit a ?f"
    have a: "a \<in> set (fs_live s)" "\<not> waiter_admitted (fs_fd s) a" and aw: "a \<in> set (fd_waiters (fs_fd s))"
      using fair_choice_in [OF ch] fair_okD(6) [OF ok] by auto
    have "mset (fs_granted (s\<lparr>fs_fd := admit a ?f, fs_held := ?h\<rparr>)) =
        add_mset (waiter_corr ?f a) (mset (fs_granted (s\<lparr>fs_held := ?h\<rparr>)))"
      using mset_filter_gain [OF fair_okD(5) [OF ok] a(1), of "waiter_admitted (fs_fd s)" "waiter_corr (fs_fd s)"] a(2)
      by (simp add: fs_granted_def del: mset_filter mset_map)
    with accounts_admit [OF acc] have "accounts (admit a ?f) (mset (fs_granted (s\<lparr>fs_fd := admit a ?f, fs_held := ?h\<rparr>)))"
      by simp
    moreover have "0 < fd_total (fs_fd s)" using fair_okD(8) [OF ok] aw by (cases "fd_waiters (fs_fd s)") simp_all
    ultimately show ?thesis using lock a fair_okD [OF ok] unfolding fair_ok_def r
      by (auto simp: fd_mem_admit simp del: not_None_eq)
  qed
qed

lemma fair_ok_cancel: "fair_ok c s \<Longrightarrow> fair_ok c (s\<lparr>fs_err := E\<rparr>)"
  unfolding fair_ok_def fs_granted_def by auto

lemma fair_ok_cond:
  assumes "fair_ok c s" and "set C \<subseteq> set (fd_waiters (fs_fd s))"
    and "\<And>a. l = Some a \<Longrightarrow> a \<in> set (fd_waiters (fs_fd s))"
  shows "fair_ok c (s\<lparr>fs_fd := (fs_fd s)\<lparr>fd_cond := C\<rparr>, fs_lock := l, fs_cast := B\<rparr>)"
proof -
  let ?fd = "(fs_fd s)\<lparr>fd_cond := C\<rparr>"
  have same: "waiter_admitted ?fd = waiter_admitted (fs_fd s)" "waiter_corr ?fd = waiter_corr (fs_fd s)"
    by (simp_all add: fun_eq_iff waiter_corr_def waiter_admitted_def)
  have "accounts ?fd G = accounts (fs_fd s) G" for G by (rule accounts_cong) simp_all
  then show ?thesis using assms unfolding fair_ok_def by (simp add: fs_granted_def same)
qed

lemma fair_ok_step: "fair_step s s' \<Longrightarrow> fair_ok c s \<Longrightarrow> 0 < c \<Longrightarrow> fair_ok c s'"
proof (induction rule: fair_step.induct)
  case (fair_fast s k fd)
  then show ?case using fair_ok_fast by blast
next
  case (fair_slow s k a d)
  let ?s = "s\<lparr>fs_fd := acquire_register a k (fs_fd s), fs_live := fs_live s @ [a],
      fs_err := if d then a # fs_err s else fs_err s\<rparr>"
  have "fair_ok c ?s" using fair_slow fair_ok_register by blast
  moreover have "a \<notin> set (fd_cond (fs_fd ?s))"
    using fair_okD(6,7,9) [OF fair_slow.prems(1)] fair_slow.hyps by (fastforce simp: acquire_register_def)
  ultimately show ?case using fair_slow.hyps by (intro fair_ok_after_loop) auto
next
  case (fair_sleep s a)
  have "fair_ok c (s\<lparr>fs_fd := (fs_fd s)\<lparr>fd_cond := fd_cond (fs_fd s) @ [a]\<rparr>, fs_lock := None, fs_cast := fs_cast s\<rparr>)"
    using fair_okD(9,10) [OF fair_sleep.prems(1)] fair_sleep.hyps by (intro fair_ok_cond fair_sleep) auto
  then show ?case by (simp add: cond_wait_def)
next
  case (fair_wake s a)
  then show ?case using fair_ok_after_loop by blast
next
  case (fair_release s k)
  then show ?case using fair_ok_release by blast
next
  case (fair_cancel a s)
  then show ?case using fair_ok_cancel by blast
next
  case (fair_cast a s)
  have "fair_ok c (s\<lparr>fs_fd := (fs_fd s)\<lparr>fd_cond := []\<rparr>, fs_lock := fs_lock s, fs_cast := a # fs_cast s\<rparr>)"
    using fair_okD(10) [OF fair_cast.prems(1)] by (intro fair_ok_cond fair_cast) auto
  then show ?case by (simp add: cond_broadcast_def)
qed

lemma fair_reach_ok: "fair_reach c s \<Longrightarrow> 0 < c \<Longrightarrow> fair_ok c s"
  by (induction rule: fair_reach.induct) (auto intro: fair_ok_start fair_ok_step)

section \<open>Executing schedules\<close>

datatype fair_act = FAcquire string nat bool | FSleep | FWake nat | FRelease string | FCancel nat | FCast nat

fun fair_do :: "fair_act \<Rightarrow> fair_sys \<Rightarrow> fair_sys option" where
  "fair_do (FAcquire k a d) s = (if fs_lock s \<noteq> None then None else case acquire_fast k (fs_fd s) of
      Some fd \<Rightarrow> Some (s\<lparr>fs_fd := fd, fs_held := k # fs_held s\<rparr>)
    | None \<Rightarrow> if fd_mem (fs_fd s) a \<noteq> None then None
        else Some (after_loop a (s\<lparr>fs_fd := acquire_register a k (fs_fd s), fs_live := fs_live s @ [a],
          fs_err := (if d then a # fs_err s else fs_err s)\<rparr>)))"
| "fair_do FSleep s = (case fs_lock s of None \<Rightarrow> None
    | Some a \<Rightarrow> Some (s\<lparr>fs_fd := cond_wait a (fs_fd s), fs_lock := None\<rparr>))"
| "fair_do (FWake a) s = (if fs_lock s = None \<and> a \<in> set (fs_live s) \<and> a \<notin> set (fd_cond (fs_fd s))
     then Some (after_loop a s) else None)"
| "fair_do (FRelease k) s = (if fs_lock s = None \<and> k \<in> set (fs_held s)
     then Some (s\<lparr>fs_fd := release k (fs_fd s), fs_held := remove1 k (fs_held s)\<rparr>) else None)"
| "fair_do (FCancel a) s = (if a \<in> set (fs_live s) then Some (s\<lparr>fs_err := a # fs_err s\<rparr>) else None)"
| "fair_do (FCast a) s = (if a \<in> set (fs_err s) \<and> a \<in> set (fs_live s) \<and> a \<notin> set (fs_cast s)
     then Some (s\<lparr>fs_fd := cond_broadcast (fs_fd s), fs_cast := a # fs_cast s\<rparr>) else None)"

fun fair_run :: "fair_act list \<Rightarrow> fair_sys \<Rightarrow> fair_sys option" where
  "fair_run [] s = Some s"
| "fair_run (x # xs) s = (case fair_do x s of None \<Rightarrow> None | Some s' \<Rightarrow> fair_run xs s')"

lemma fair_do_step:
  assumes "fair_do x s = Some s'"
  shows "fair_step s s'"
proof (cases x)
  case (FAcquire k a d)
  show ?thesis
  proof (cases "acquire_fast k (fs_fd s)")
    case None
    with assms FAcquire fair_slow [of s k a d] show ?thesis by (auto split: if_splits)
  next
    case (Some fd)
    with assms FAcquire fair_fast [of s k fd] show ?thesis by (auto split: if_splits)
  qed
qed (use assms in \<open>auto split: if_splits option.splits
      intro: fair_sleep fair_wake fair_release fair_cancel fair_cast\<close>)

lemma fair_run_reach: "fair_run xs s = Some s' \<Longrightarrow> fair_reach c s \<Longrightarrow> fair_reach c s'"
proof (induction xs arbitrary: s)
  case Nil
  then show ?case by simp
next
  case (Cons x xs)
  then obtain t where "fair_do x s = Some t" "fair_run xs t = Some s'" by (auto split: option.splits)
  with Cons show ?case using fair_do_step fair_reach_step by blast
qed

lemmas fair_run_start = fair_run_reach [OF _ fair_reach_start]

text \<open>Two waiters of one workflow behind a third slot; then the other workflow finishes.\<close>

definition idle_schedule :: "fair_act list" where
  "idle_schedule = [FAcquire ''A'' 0 False, FAcquire ''A'' 0 False, FAcquire ''B'' 0 False,
     FAcquire ''A'' 1 False, FSleep, FAcquire ''A'' 2 False, FSleep,
     FRelease ''B'', FWake 1, FWake 2, FSleep]"

text \<open>The cancellation goroutine runs between the check of the context and the wait.\<close>

definition lost_schedule :: "fair_act list" where
  "lost_schedule = [FAcquire ''A'' 0 False, FAcquire ''B'' 1 False, FCancel 1, FCast 1, FSleep]"

definition contended_schedule :: "fair_act list" where
  "contended_schedule = [FAcquire ''A'' 0 False, FAcquire ''A'' 0 False, FAcquire ''A'' 1 False, FSleep,
     FAcquire ''B'' 2 False, FSleep]"

definition after_schedule :: "fair_act list \<Rightarrow> int \<Rightarrow> fair_sys" where
  "after_schedule xs c = (case fair_run xs (fair_start c) of Some s \<Rightarrow> s | None \<Rightarrow> fair_start c)"

lemma after_schedule_reach: "fair_reach c (after_schedule xs c)"
  by (auto simp: after_schedule_def intro: fair_reach_start fair_run_start split: option.splits)

text \<open>
  An admission is never lost: a waiter that was handed a slot is not asleep, so as soon as
  the mutex is free it can run, and then it leaves the wait loop and holds the slot.
\<close>

lemma admitted_waiter_can_return:
  assumes "fair_reach c s" and "0 < c" and "a \<in> set (fs_live s)"
    and "waiter_admitted (fs_fd s) a" and "fs_lock s = None"
  shows "fair_step s (after_loop a s) \<and> a \<notin> set (fs_live (after_loop a s)) \<and>
    fs_held (after_loop a s) = waiter_corr (fs_fd s) a # fs_held s"
proof -
  note ok = fair_reach_ok [OF assms(1,2)]
  have "a \<notin> set (fd_cond (fs_fd s))" using fair_okD(6,9) [OF ok] assms(4) by auto
  then have "fair_step s (after_loop a s)" using assms by (intro fair_wake)
  then show ?thesis using assms(4) by (simp add: after_loop_def acquire_loop_def)
qed

lemma admitted_waiter_can_return_witness:
  "fair_step (after_schedule (contended_schedule @ [FRelease ''A'']) 2)
     (after_loop 1 (after_schedule (contended_schedule @ [FRelease ''A'']) 2))"
proof -
  let ?s = "after_schedule (contended_schedule @ [FRelease ''A'']) 2"
  have "1 \<in> set (fs_live ?s)" "waiter_admitted (fs_fd ?s) 1" "fs_lock ?s = None" by code_simp+
  with admitted_waiter_can_return [OF after_schedule_reach, of 2 1 "contended_schedule @ [FRelease ''A'']"]
  show ?thesis by simp
qed

text \<open>
  A release admits a single waiter even when it frees more than one slot's worth of fair
  share: with four slots, a workflow alone in the system can have a caller asleep although a
  slot is free and the workflow is under its share, against the policy the header of the file
  states.
\<close>

lemma rebalance_can_leave_slot_idle:
  "\<exists>s a. fair_reach 4 s \<and> fs_lock s = None \<and> fd_waiters (fs_fd s) = [a] \<and> fd_cond (fs_fd s) = [a] \<and>
     fd_total (fs_fd s) < fd_cap (fs_fd s) \<and> atOrUnderFairShare (fs_fd s) (waiter_corr (fs_fd s) a)"
proof (intro exI conjI)
  let ?s = "after_schedule idle_schedule 4"
  show "fair_reach 4 ?s" by (rule after_schedule_reach)
  show "fs_lock ?s = None" by code_simp
  show "fd_waiters (fs_fd ?s) = [2]" by code_simp
  show "fd_cond (fs_fd ?s) = [2]" by code_simp
  show "fd_total (fs_fd ?s) < fd_cap (fs_fd ?s)" by code_simp
  show "atOrUnderFairShare (fs_fd ?s) (waiter_corr (fs_fd ?s) 2)" by code_simp
qed

text \<open>What a monopolist's share is after one of its releases.\<close>

lemma monopoly_free:
  assumes "set (fs_granted s) = {k}"
  shows "x \<in> set (fs_granted (s\<lparr>fs_held := remove1 k (fs_held s)\<rparr>)) \<Longrightarrow> x = k"
  using assms set_remove1_subset [of k "fs_held s"] by (auto simp: fs_granted_def)

lemma monopoly_under_share:
  assumes ok: "fair_ok c s" and k: "k \<in> set (fs_held s)" "set (fs_granted s) = {k}"
  shows "atOrUnderFairShare (free_slot k (fs_fd s)) k"
proof -
  let ?f = "free_slot k (fs_fd s)" and ?G = "fs_granted (s\<lparr>fs_held := remove1 k (fs_held s)\<rparr>)"
  note acc = held_accounts [OF ok k(1)]
  have only: "set (mkeys (fd_inflight ?f)) \<subseteq> {k}"
  proof
    fix x assume "x \<in> set (mkeys (fd_inflight ?f))"
    then have "map_of (fd_inflight ?f) x \<noteq> None" by (auto simp: set_mkeys)
    then have "x \<in> set ?G" using acc unfolding accounts_def by (metis set_mset_mset)
    with monopoly_free [OF k(2)] show "x \<in> {k}" by blast
  qed
  have "length (fd_inflight ?f) \<le> 1"
    using acc length_eq_card [of "fd_inflight ?f"] card_mono [OF _ only] by (simp add: accounts_def)
  moreover have "map_of (fd_inflight ?f) k = None \<longleftrightarrow> fd_inflight ?f = []"
    using only by (cases "fd_inflight ?f") (auto simp: mkeys_def)
  ultimately have one: "int (length (fd_inflight ?f)) + (if map_of (fd_inflight ?f) k = None then 1 else 0) = 1"
    by (cases "fd_inflight ?f") simp_all
  have "mget 0 (fd_inflight ?f) k \<le> fd_total ?f"
    using accounts_mget [OF acc] acc by (simp add: accounts_def count_mset count_le_length)
  then have "mget 0 (fd_inflight ?f) k < fd_cap ?f" using fair_okD(1,3) [OF ok] by simp
  with one show ?thesis by (cases "map_of (fd_inflight ?f) k = None") (auto simp: atOrUnderFairShare_def Let_def)
qed

text \<open>
  C10. The admission controller never runs more handlers than its capacity, its counters are
  exactly the slots taken (in total and per correlation), and nobody waits while every slot
  is free: whatever the interleaving of \<open>acquire\<close>, \<open>release\<close>, sleeping, waking and
  context cancellation, a waiting caller implies a slot in use, whose release will serve it.
\<close>

theorem slots_never_exceed_capacity:
  assumes "fair_reach c s" and "0 < c"
  shows "int (length (fs_granted s)) \<le> c \<and> fd_total (fs_fd s) = int (length (fs_granted s)) \<and>
    (\<forall>k. mget 0 (fd_inflight (fs_fd s)) k = int (count (mset (fs_granted s)) k)) \<and>
    (fs_granted s = [] \<longrightarrow> fd_waiters (fs_fd s) = [])"
proof -
  note ok = fair_reach_ok [OF assms]
  from fair_okD(2) [OF ok] have "fd_total (fs_fd s) = int (length (fs_granted s))"
    by (simp add: accounts_def)
  with fair_okD(3,8) [OF ok] accounts_mget [OF fair_okD(2) [OF ok]] show ?thesis by auto
qed

theorem slots_never_exceed_capacity_witness:
  "int (length (fs_granted (after_schedule contended_schedule 2))) \<le> 2 \<and>
   length (fs_granted (after_schedule contended_schedule 2)) = 2"
proof
  show "int (length (fs_granted (after_schedule contended_schedule 2))) \<le> 2"
    using slots_never_exceed_capacity [OF after_schedule_reach, of 2 contended_schedule] by simp
  show "length (fs_granted (after_schedule contended_schedule 2)) = 2" by code_simp
qed

text \<open>
  A release with callers waiting is handed on at once, to exactly one of them: the oldest
  whose correlation is under its fair share, and only when there is none the oldest of all.
  The number of slots in use stays the same, the chosen waiter is marked and taken off the
  list, and every sleeper is woken.
\<close>

theorem release_hands_slot_on:
  assumes "fair_reach c s" and "0 < c" and "k \<in> set (fs_held s)" and "fd_waiters (fs_fd s) \<noteq> []"
  shows "\<exists>a. fair_choice (free_slot k (fs_fd s)) a \<and>
    waiter_admitted (release k (fs_fd s)) = (waiter_admitted (fs_fd s))(a := True) \<and>
    fd_waiters (release k (fs_fd s)) = remove1 a (fd_waiters (fs_fd s)) \<and>
    fd_total (release k (fs_fd s)) = fd_total (fs_fd s) \<and> fd_cond (release k (fs_fd s)) = []"
proof -
  from release_cases [OF fair_reach_ok [OF assms(1,2)] assms(3)] assms(4) obtain a where
    "fair_choice (free_slot k (fs_fd s)) a" "release k (fs_fd s) = admit a (free_slot k (fs_fd s))" by blast
  then show ?thesis by (intro exI [of _ a]) simp
qed

theorem release_hands_slot_on_witness:
  "\<exists>a. fair_choice (free_slot ''A'' (fs_fd (after_schedule contended_schedule 2))) a"
proof -
  have "''A'' \<in> set (fs_held (after_schedule contended_schedule 2))"
    "fd_waiters (fs_fd (after_schedule contended_schedule 2)) \<noteq> []" by code_simp+
  with release_hands_slot_on [OF after_schedule_reach, of 2 "''A''" contended_schedule]
  show ?thesis by auto
qed

text \<open>
  While one correlation holds every slot in use, its releases are served strictly in order
  of arrival: the share of a waiter counts only the correlations that hold slots, so the
  waiters of the monopolist count as under their share and those of a newcomer that arrived
  later are not preferred, however many of the monopolist are in front.
\<close>

theorem monopoly_is_served_in_order:
  assumes "fair_reach c s" and "0 < c" and k: "k \<in> set (fs_held s)" "set (fs_granted s) = {k}"
    and w: "fd_waiters (fs_fd s) = a # rest"
  shows "waiter_admitted (release k (fs_fd s)) a \<and> fd_waiters (release k (fs_fd s)) = rest"
proof -
  note ok = fair_reach_ok [OF assms(1,2)]
  let ?f = "free_slot k (fs_fd s)"
  have "atOrUnderFairShare ?f (waiter_corr ?f a)"
  proof (cases "waiter_corr ?f a = k")
    case False
    have "mget 0 (fd_inflight ?f) (waiter_corr ?f a) = 0"
      using accounts_mget [OF held_accounts [OF ok k(1)]] monopoly_free [OF k(2)] False
      by (auto simp: count_eq_zero_iff)
    then show ?thesis by (rule under_share_zero)
  next
    case True
    then show ?thesis using monopoly_under_share [OF ok k] by simp
  qed
  then have "\<And>b. fair_choice ?f b \<Longrightarrow> b = a"
    using w by (auto simp: fair_choice_def Cons_eq_append_conv)
  with release_cases [OF ok k(1)] w show ?thesis by auto
qed

theorem monopoly_is_served_in_order_witness:
  "fd_waiters (release ''A'' (fs_fd (after_schedule contended_schedule 2))) = [2] \<and>
   waiter_corr (fs_fd (after_schedule contended_schedule 2)) 2 = ''B'' \<and>
   waiter_corr (fs_fd (after_schedule contended_schedule 2)) 1 = ''A''"
proof -
  let ?s = "after_schedule contended_schedule 2"
  have "''A'' \<in> set (fs_held ?s)" "set (fs_granted ?s) = {''A''}" "fd_waiters (fs_fd ?s) = [1, 2]"
    "waiter_corr (fs_fd ?s) 2 = ''B''" "waiter_corr (fs_fd ?s) 1 = ''A''" by code_simp+
  with monopoly_is_served_in_order [OF after_schedule_reach, of 2 "''A''" contended_schedule 1 "[2]"]
  show ?thesis by simp
qed

text \<open>
  A cancellation can be slept through: the cancellation goroutine broadcasts without
  holding the mutex, so its only broadcast can fall between the waiter's check of its context
  and its wait, and the waiter then sleeps although its context is done and nothing but the
  next admission will wake it.
\<close>

theorem cancellation_wakeup_can_be_lost:
  "\<exists>s a. fair_reach 1 s \<and> fs_lock s = None \<and> a \<in> set (fs_err s) \<and> a \<in> set (fs_cast s) \<and>
     a \<in> set (fd_cond (fs_fd s))"
proof (intro exI conjI)
  let ?s = "after_schedule lost_schedule 1"
  show "fair_reach 1 ?s" by (rule after_schedule_reach)
  show "fs_lock ?s = None" by code_simp
  show "1 \<in> set (fs_err ?s)" by code_simp
  show "1 \<in> set (fs_cast ?s)" by code_simp
  show "1 \<in> set (fd_cond (fs_fd ?s))" by code_simp
qed

end
