(* ===== verification/FailureClassify.thy ===== *)
theory FailureClassify imports Events begin

text \<open>
  \<open>internal/engine/failure_classify.go\<close> and the error values of
  \<open>internal/backend\<close> it inspects: how a dispatch error becomes a typed
  \<open>FailureKind\<close>, and which kinds are retried automatically. A Go error is the chain
  that \<open>errors.Is\<close> and \<open>errors.As\<close> walk: the sentinels, a text without a cause,
  a \<open>%w\<close> wrapping, and \<open>BackendError\<close>.
\<close>

section \<open>Error chains\<close>

datatype sentinel = ErrIdleTimeout | ErrProgressTimeout | DeadlineExceeded | Canceled

datatype go_error =
    Sentinel sentinel
  | ErrorText string
  | Wrapped string go_error
  | BackendError (be_Backend: string) (be_Inner: go_error) (be_Duration: int) (be_Stderr: string)

fun errors_Is :: "go_error \<Rightarrow> sentinel \<Rightarrow> bool" where
  "errors_Is (Sentinel s) t = (s = t)"
| "errors_Is (ErrorText msg) t = False"
| "errors_Is (Wrapped msg e) t = errors_Is e t"
| "errors_Is (BackendError b e d st) t = errors_Is e t"

text \<open>\<open>errors.As(err, &backendErr)\<close>: backend name and stderr of the outermost \<open>BackendError\<close>.\<close>

fun errors_As_backend :: "go_error \<Rightarrow> (string \<times> string) option" where
  "errors_As_backend (Sentinel s) = None"
| "errors_As_backend (ErrorText msg) = None"
| "errors_As_backend (Wrapped msg e) = errors_As_backend e"
| "errors_As_backend (BackendError b e d st) = Some (b, st)"

section \<open>Captured output\<close>

definition MaxStderrCapture :: nat where
  "MaxStderrCapture = 4096"

definition truncated_marker :: string where
  "truncated_marker = ''...[truncated]...'' @ [char_of (10 :: nat)]"

definition tailBytes :: "string \<Rightarrow> nat \<Rightarrow> string" where
  "tailBytes s n = (if length s \<le> n then s
     else if n \<le> length truncated_marker then drop (length s - n) s
     else truncated_marker @ drop (length s - (n - length truncated_marker)) s)"

definition stdoutFallbackPrefix :: string where
  "stdoutFallbackPrefix = ''[no stderr; stdout tail]'' @ [char_of (10 :: nat)]"

definition captureErrorTail :: "string \<Rightarrow> string \<Rightarrow> string" where
  "captureErrorTail stderr stdout =
     (let tail = tailBytes stderr MaxStderrCapture in if tail \<noteq> [] then tail
      else let tail = tailBytes stdout MaxStderrCapture in if tail \<noteq> [] then stdoutFallbackPrefix @ tail
      else [])"

section \<open>Error texts\<close>

definition sentinel_text :: "sentinel \<Rightarrow> string" where
  "sentinel_text s = (case s of
      ErrIdleTimeout \<Rightarrow> ''backend: idle timeout exceeded''
    | ErrProgressTimeout \<Rightarrow> ''backend: completion-progress timeout exceeded''
    | DeadlineExceeded \<Rightarrow> ''context deadline exceeded''
    | Canceled \<Rightarrow> ''context canceled'')"

text \<open>\<open>Duration.Round(time.Millisecond).String()\<close> of a positive duration in nanoseconds.\<close>

definition frac_digits :: "int \<Rightarrow> string" where
  "frac_digits ms = (if ms = 0 then []
     else ''.'' @ rev (dropWhile (\<lambda>c. c = CHR ''0'') (rev (itoa (ms div 100) @ itoa (ms mod 100 div 10) @ itoa (ms mod 10)))))"

definition duration_text :: "int \<Rightarrow> string" where
  "duration_text ns = (let ms = (ns + 500000) div 1000000; secs = ms div 1000 in
     if ms = 0 then ''0s'' else if ms < 1000 then itoa ms @ ''ms''
     else (if secs \<ge> 3600 then itoa (secs div 3600) @ ''h'' else []) @
          (if secs \<ge> 60 then itoa (secs div 60 mod 60) @ ''m'' else []) @
          itoa (secs mod 60) @ frac_digits (ms mod 1000) @ ''s'')"

text \<open>\<open>err.Error()\<close>; the text of a \<open>%w\<close> wrapping is the formatted message itself.\<close>

fun error_text :: "go_error \<Rightarrow> string" where
  "error_text (Sentinel s) = sentinel_text s"
| "error_text (ErrorText msg) = msg"
| "error_text (Wrapped msg e) = msg"
| "error_text (BackendError b e d stderr) =
     b @ '': '' @ error_text e @ (if d > 0 then '' (after '' @ duration_text d @ '')'' else []) @
     (let snippet = trim_space stderr in if snippet = [] then []
      else '': '' @ (if length snippet > 256 then drop (length snippet - 256) snippet else snippet))"

section \<open>Classification\<close>

definition rateLimitStderrPatterns :: "string list" where
  "rateLimitStderrPatterns = [''you've hit your limit'', ''hit your usage limit'',
     ''rate_limit_exceeded'', ''resource_exhausted'', ''quota exceeded'', ''too many requests'']"

definition looksLikeRateLimit :: "string \<Rightarrow> bool" where
  "looksLikeRateLimit stderr = (if stderr = [] then False
     else let lower = to_lower stderr in list_ex (\<lambda>pat. str_contains lower pat) rateLimitStderrPatterns)"

text \<open>\<open>ctxErr\<close> is \<open>dispatchCtx.Err()\<close>: \<open>None\<close> for a nil or live context.\<close>

definition classifyDispatchFailure ::
    "go_error option \<Rightarrow> go_error option \<Rightarrow> failure_kind \<times> string \<times> string" where
  "classifyDispatchFailure ctxErr err = (case err of
      None \<Rightarrow> (FailureKindUnspecified, [], [])
    | Some e \<Rightarrow>
        let backendErr = errors_As_backend e;
            hasBackendErr = (backendErr \<noteq> None);
            stderr = (case backendErr of None \<Rightarrow> [] | Some (b, st) \<Rightarrow> st);
            backendName = (case backendErr of None \<Rightarrow> [] | Some (b, st) \<Rightarrow> b)
        in if errors_Is e ErrProgressTimeout then (FailureKindProgressTimeout, stderr, backendName)
           else if errors_Is e ErrIdleTimeout then (FailureKindIdleTimeout, stderr, backendName)
           else if errors_Is e DeadlineExceeded then (FailureKindWallTimeout, stderr, backendName)
           else if errors_Is e Canceled then (FailureKindCancelled, stderr, backendName)
           else if hasBackendErr \<and> looksLikeRateLimit stderr then (FailureKindRateLimited, stderr, backendName)
           else if hasBackendErr then (FailureKindBackendError, stderr, backendName)
           else (case ctxErr of
               None \<Rightarrow> (FailureKindHandlerError, stderr, backendName)
             | Some c \<Rightarrow> if errors_Is c DeadlineExceeded then (FailureKindWallTimeout, stderr, backendName)
                 else if errors_Is c Canceled then (FailureKindCancelled, stderr, backendName)
                 else (FailureKindHandlerError, stderr, backendName)))"

definition HasIdleWatchdog :: "string \<Rightarrow> bool" where
  "HasIdleWatchdog name = (name \<noteq> ''antigravity'')"

definition failureKindIsAutoRetryable :: "persona_failed \<Rightarrow> bool" where
  "failureKindIsAutoRetryable p = (case pf_FailureKind p of
      FailureKindIdleTimeout \<Rightarrow> True
    | FailureKindWallTimeout \<Rightarrow> \<not> HasIdleWatchdog (pf_Backend p)
    | _ \<Rightarrow> False)"

section \<open>Lemmas\<close>

lemma length_tailBytes: "length (tailBytes s n) \<le> n"
  by (auto simp: tailBytes_def)

lemma tailBytes_suffix: "length s > n \<Longrightarrow> n > length truncated_marker \<Longrightarrow>
    \<exists>t. tailBytes s n = truncated_marker @ t \<and> suffix t s \<and> length t = n - length truncated_marker"
  by (auto simp: tailBytes_def suffix_drop)

lemma tailBytes_empty: "n > length truncated_marker \<Longrightarrow> tailBytes s n = [] \<longleftrightarrow> s = []"
  by (auto simp: tailBytes_def)

lemma length_marker: "length truncated_marker = 18"
  by (simp add: truncated_marker_def)

lemma capture_bound: "length (captureErrorTail stderr stdout) \<le> MaxStderrCapture + length stdoutFallbackPrefix"
  using length_tailBytes [of stderr MaxStderrCapture] length_tailBytes [of stdout MaxStderrCapture]
  by (simp add: captureErrorTail_def Let_def)

lemma capture_silent: "captureErrorTail stderr stdout = [] \<longleftrightarrow> stderr = [] \<and> stdout = []"
proof -
  have "tailBytes s MaxStderrCapture = [] \<longleftrightarrow> s = []" for s
    by (rule tailBytes_empty) (simp add: length_marker MaxStderrCapture_def)
  then show ?thesis by (auto simp: captureErrorTail_def Let_def)
qed

text \<open>
  The kind is decided by what the runner did to the subprocess before what the provider
  said: a timeout or a cancellation in the chain wins over a rate-limit text.
\<close>

lemma classify_sentinel:
  assumes "errors_Is e s"
  shows "fst (classifyDispatchFailure c (Some e)) \<in>
    {FailureKindProgressTimeout, FailureKindIdleTimeout, FailureKindWallTimeout, FailureKindCancelled}"
  using assms by (cases s) (auto simp: classifyDispatchFailure_def Let_def)

lemma classify_rate_limited:
  "fst (classifyDispatchFailure c (Some e)) = FailureKindRateLimited \<longleftrightarrow>
     (\<forall>s. \<not> errors_Is e s) \<and> (\<exists>b st. errors_As_backend e = Some (b, st) \<and> looksLikeRateLimit st)"
proof -
  have "(\<forall>s. \<not> errors_Is e s) \<longleftrightarrow> \<not> errors_Is e ErrProgressTimeout \<and> \<not> errors_Is e ErrIdleTimeout \<and>
      \<not> errors_Is e DeadlineExceeded \<and> \<not> errors_Is e Canceled"
    by (metis sentinel.exhaust)
  then show ?thesis
    by (auto simp: classifyDispatchFailure_def Let_def split: option.splits)
qed

text \<open>
  A failure is labelled rate-limited, which pauses the workflow instead of failing it,
  exactly when the error chain carries no timeout and no cancellation and its outermost
  backend error captured one of the known rate-limit messages, whatever the letter case;
  the captured text and the backend it is attributed to are then that error's.
\<close>

theorem rate_limited_exactly_when:
  "classifyDispatchFailure ctx (Some e) = (FailureKindRateLimited, st, b) \<longleftrightarrow>
     (\<forall>s. \<not> errors_Is e s) \<and> errors_As_backend e = Some (b, st) \<and>
     (\<exists>pat \<in> set rateLimitStderrPatterns. \<exists>pre post. to_lower st = pre @ pat @ post)"
proof -
  have like: "looksLikeRateLimit st \<longleftrightarrow>
      (\<exists>pat \<in> set rateLimitStderrPatterns. \<exists>pre post. to_lower st = pre @ pat @ post)"
    by (cases st) (auto simp: looksLikeRateLimit_def Let_def list_ex_iff str_contains_iff
        rateLimitStderrPatterns_def to_lower_def)
  have "classifyDispatchFailure ctx (Some e) = (FailureKindRateLimited, st, b)"
    if "\<forall>s. \<not> errors_Is e s" "errors_As_backend e = Some (b, st)" "looksLikeRateLimit st"
    using that by (simp add: classifyDispatchFailure_def)
  moreover have "errors_As_backend e = Some (b, st)"
    if "classifyDispatchFailure ctx (Some e) = (FailureKindRateLimited, st, b)"
    using that by (auto simp: classifyDispatchFailure_def Let_def split: option.splits if_splits)
  ultimately show ?thesis
    using classify_rate_limited [of ctx e] unfolding like [symmetric]
    by (metis fst_conv option.inject prod.inject)
qed

end
