(* ===== verification/Aggregate.thy ===== *)
theory Aggregate
  imports WorkflowCatalog FailureClassify Sha256 "HOL-Library.Multiset" "HOL-Library.List_Lexorder" "HOL-Library.Char_ord"
begin

text \<open>
  The state half of \<open>internal/engine/aggregate.go\<close>: the workflow aggregate and
  \<open>Apply\<close>, which folds one persisted event into it. The lemmas show what a replay
  computes: the version is the last event's, the counters count the events they are named
  after, and a persona cleared by feedback stays gated until its target completes. The counters
  and the token sum are unbounded where Go's \<open>int\<close> has 64 bits.
\<close>

section \<open>State\<close>

datatype workflow_status = StatusRequested | StatusRunning | StatusCompleted | StatusFailed
  | StatusCancelled | StatusPaused

record cached_verdict =
  cv_SourcePersona :: string
  cv_RawDiagnostics :: string

definition zero_cached :: cached_verdict where
  "zero_cached = \<lparr>cv_SourcePersona = [], cv_RawDiagnostics = []\<rparr>"

record aggregate =
  w_ID :: string
  w_Version :: int
  w_Status :: workflow_status
  w_WorkflowDef :: "workflow_def option"
  w_CompletedPersonas :: "string \<rightharpoonup> bool"
  w_SkippedPersonas :: "(string, bool) gomap"
  w_FeedbackCount :: "(string, int) gomap"
  w_FeedbackPending :: "string \<rightharpoonup> string"
  w_AutoRetries :: "string \<rightharpoonup> int"
  w_TokensUsed :: int
  w_TokenBudget :: int
  w_MaxIterations :: int
  w_Prompt :: string
  w_WorkflowID :: string
  w_Source :: string
  w_Ticket :: string
  w_LastVerdictFingerprint :: "string \<rightharpoonup> string"
  w_LastFailingVerdict :: "string \<rightharpoonup> cached_verdict"
  w_PendingResumeRetarget :: string
  w_PendingResumeRetargetSource :: string
  w_PendingResumeRetryFromPhase :: string

definition MaxAutoRetriesPerPersona :: int where
  "MaxAutoRetriesPerPersona = 1"

definition NewWorkflowAggregate :: "string \<Rightarrow> aggregate" where
  "NewWorkflowAggregate i = \<lparr>w_ID = i, w_Version = 0, w_Status = StatusRequested, w_WorkflowDef = None,
     w_CompletedPersonas = Map.empty, w_SkippedPersonas = [], w_FeedbackCount = [],
     w_FeedbackPending = Map.empty, w_AutoRetries = Map.empty, w_TokensUsed = 0, w_TokenBudget = 0,
     w_MaxIterations = 3, w_Prompt = [], w_WorkflowID = [], w_Source = [], w_Ticket = [],
     w_LastVerdictFingerprint = Map.empty, w_LastFailingVerdict = Map.empty,
     w_PendingResumeRetarget = [], w_PendingResumeRetargetSource = [],
     w_PendingResumeRetryFromPhase = []\<rparr>"

section \<open>Helpers\<close>

definition isStaleAfterFeedback :: "aggregate \<Rightarrow> string \<Rightarrow> bool" where
  "isStaleAfterFeedback w persona = (case w_FeedbackPending w persona of
      None \<Rightarrow> False
    | Some target \<Rightarrow> \<not> isset (w_CompletedPersonas w) target)"

definition isRequiredPersona :: "aggregate \<Rightarrow> string \<Rightarrow> bool" where
  "isRequiredPersona w persona = (case w_WorkflowDef w of
      None \<Rightarrow> False
    | Some d \<Rightarrow> list_ex (\<lambda>req. req = persona) (wd_Required d))"

definition isCategoryReviewer :: "string \<Rightarrow> bool" where
  "isCategoryReviewer persona \<longleftrightarrow> persona \<in> set [''pr-security'', ''pr-concurrency'', ''pr-error-handling'',
     ''pr-observability'', ''pr-api-contract'', ''pr-idempotency'', ''pr-testing'', ''pr-integration'',
     ''pr-performance'', ''pr-data'', ''pr-hygiene'', ''pr-vendor-resilience'',
     ''pr-docs-concordance'', ''pr-stale-reference'']"

definition verdictFingerprint :: "verdict \<Rightarrow> string" where
  "verdictFingerprint v =
     (let descs = sort (map is_Description (v_Issues v));
          nul = [char_of (0 :: nat)]
      in hex_encode (sha256 (v_Summary v @ nul @ concat (map (\<lambda>d. d @ nul) descs))))"

text \<open>One round of the loop over the invalidated personas of a \<open>WorkflowRetried\<close>.\<close>

definition invalidate_persona :: "aggregate \<Rightarrow> string \<Rightarrow> aggregate" where
  "invalidate_persona w persona =
     w\<lparr>w_CompletedPersonas := (w_CompletedPersonas w)(persona := None),
       w_FeedbackPending := drop_vals (\<lambda>target. target = persona) ((w_FeedbackPending w)(persona := None))\<rparr>"

section \<open>Apply, one event type at a time\<close>

definition apply_requested :: "aggregate \<Rightarrow> envelope \<Rightarrow> aggregate" where
  "apply_requested w env = (let p = or_zero zero_requested (as_requested (e_Payload env)) in
     w\<lparr>w_Prompt := wr_Prompt p, w_WorkflowID := wr_WorkflowID p, w_Source := wr_Source p,
       w_Ticket := wr_Ticket p, w_Status := StatusRequested\<rparr>)"

definition apply_paused :: "aggregate \<Rightarrow> envelope \<Rightarrow> aggregate" where
  "apply_paused w env = (let p = or_zero zero_paused (as_paused (e_Payload env)) in
     w\<lparr>w_PendingResumeRetarget := wp_RetargetPersona p, w_PendingResumeRetargetSource := wp_RetargetSource p,
       w_PendingResumeRetryFromPhase := wp_RetryFromPhase p, w_Status := StatusPaused\<rparr>)"

definition apply_retried :: "aggregate \<Rightarrow> envelope \<Rightarrow> aggregate" where
  "apply_retried w env = (let p = or_zero zero_retried (as_retried (e_Payload env));
      w1 = foldl invalidate_persona w (wt_InvalidatedPersonas p);
      w2 = (if wt_Automatic p \<and> wt_FromPhase p \<noteq> []
            then w1\<lparr>w_AutoRetries := (w_AutoRetries w1)(wt_FromPhase p \<mapsto> vget 0 (w_AutoRetries w1) (wt_FromPhase p) + 1)\<rparr>
            else w1)
    in w2\<lparr>w_Status := StatusRunning\<rparr>)"

definition apply_completed :: "aggregate \<Rightarrow> envelope \<Rightarrow> aggregate" where
  "apply_completed w env = (let p = or_zero zero_completed (as_completed (e_Payload env)) in
     w\<lparr>w_CompletedPersonas := (w_CompletedPersonas w)(pc_Persona p \<mapsto> True),
       w_FeedbackPending := drop_vals (\<lambda>target. target = pc_Persona p) (w_FeedbackPending w)\<rparr>)"

definition apply_failed_tracked :: "aggregate \<Rightarrow> envelope \<Rightarrow> aggregate" where
  "apply_failed_tracked w env = (case w_WorkflowDef w of
      None \<Rightarrow> w
    | Some d \<Rightarrow> if wd_PartialReviewOnFailure d then
        (let p = or_zero zero_failed (as_failed (e_Payload env)) in
          if pf_Persona p \<noteq> [] \<and> isCategoryReviewer (pf_Persona p) then
            w\<lparr>w_CompletedPersonas := (w_CompletedPersonas w)(pf_Persona p \<mapsto> True),
              w_SkippedPersonas := mput (w_SkippedPersonas w) (pf_Persona p) True\<rparr>
          else w)
      else w)"

definition ai_tokens :: "envelope \<Rightarrow> int" where
  "ai_tokens env = (case as_ai_response (e_Payload env) of None \<Rightarrow> 0 | Some p \<Rightarrow> ar_TokensUsed p)"

definition apply_feedback :: "aggregate \<Rightarrow> envelope \<Rightarrow> aggregate" where
  "apply_feedback w env = (let p = or_zero zero_feedback (as_feedback (e_Payload env));
      target = fb_TargetPersona p; src = fb_SourcePersona p;
      w1 = w\<lparr>w_FeedbackCount := mput (w_FeedbackCount w) target (mget 0 (w_FeedbackCount w) target + 1),
             w_CompletedPersonas := (w_CompletedPersonas w)(target := None)\<rparr>
    in if src \<noteq> [] then
         w1\<lparr>w_CompletedPersonas := (w_CompletedPersonas w1)(src := None),
            w_FeedbackPending := (w_FeedbackPending w1)(src \<mapsto> target)\<rparr>
       else w1)"

definition apply_verdict_tracked :: "aggregate \<Rightarrow> envelope \<Rightarrow> aggregate" where
  "apply_verdict_tracked w env = (let vp = or_zero zero_verdict (as_verdict (e_Payload env)) in
     if v_SourcePersona vp = [] \<or> v_Persona vp = [] then w
     else let key = v_SourcePersona vp @ ''|'' @ v_Persona vp in
       if v_Outcome vp = VerdictFail then
         w\<lparr>w_LastVerdictFingerprint := (w_LastVerdictFingerprint w)(key \<mapsto> verdictFingerprint vp),
           w_LastFailingVerdict := (w_LastFailingVerdict w)(v_Persona vp \<mapsto>
             \<lparr>cv_SourcePersona = v_SourcePersona vp, cv_RawDiagnostics = v_RawDiagnostics vp\<rparr>)\<rparr>
       else
         w\<lparr>w_LastVerdictFingerprint := (w_LastVerdictFingerprint w)(key := None),
           w_LastFailingVerdict := (w_LastFailingVerdict w)(v_Persona vp := None)\<rparr>)"

definition Apply :: "aggregate \<Rightarrow> envelope \<Rightarrow> aggregate" where
  "Apply w0 env = (let w = w0\<lparr>w_Version := e_Version env\<rparr> in
     case e_Type env of
       WorkflowRequested \<Rightarrow> apply_requested w env
     | WorkflowCompleted \<Rightarrow> w\<lparr>w_Status := StatusCompleted\<rparr>
     | WorkflowFailed \<Rightarrow> w\<lparr>w_Status := StatusFailed\<rparr>
     | WorkflowCancelled \<Rightarrow> w\<lparr>w_Status := StatusCancelled\<rparr>
     | WorkflowPaused \<Rightarrow> apply_paused w env
     | WorkflowResumed \<Rightarrow> w\<lparr>w_Status := StatusRunning\<rparr>
     | WorkflowRetried \<Rightarrow> apply_retried w env
     | PersonaCompleted \<Rightarrow> apply_completed w env
     | PersonaTracked \<Rightarrow> apply_completed w env
     | PersonaFailedTracked \<Rightarrow> apply_failed_tracked w env
     | AIResponseReceived \<Rightarrow> w\<lparr>w_TokensUsed := w_TokensUsed w + ai_tokens env\<rparr>
     | FeedbackGenerated \<Rightarrow> apply_feedback w env
     | VerdictTracked \<Rightarrow> apply_verdict_tracked w env
     | ty \<Rightarrow> if IsWorkflowStarted ty then w\<lparr>w_Status := StatusRunning\<rparr> else w)"

text \<open>Replaying a stream, oldest event first.\<close>

definition replay :: "aggregate \<Rightarrow> envelope list \<Rightarrow> aggregate" where
  "replay w evs = foldl Apply w evs"

lemma replay_Nil [simp]: "replay w [] = w"
  by (simp add: replay_def)

lemma replay_Cons [simp]: "replay w (e # evs) = replay (Apply w e) evs"
  by (simp add: replay_def)

lemma replay_append [simp]: "replay w (xs @ ys) = replay (replay w xs) ys"
  by (simp add: replay_def)

section \<open>What the single steps leave alone\<close>

named_theorems frame "fields an operation of the aggregate does not touch"

lemmas apply_steps = apply_requested_def apply_paused_def apply_completed_def apply_feedback_def
  apply_failed_tracked_def apply_verdict_tracked_def

lemma invalidate_frame [simp, frame]:
  "w_ID (foldl invalidate_persona w ps) = w_ID w"
  "w_Version (foldl invalidate_persona w ps) = w_Version w"
  "w_WorkflowDef (foldl invalidate_persona w ps) = w_WorkflowDef w"
  "w_FeedbackCount (foldl invalidate_persona w ps) = w_FeedbackCount w"
  "w_AutoRetries (foldl invalidate_persona w ps) = w_AutoRetries w"
  "w_TokensUsed (foldl invalidate_persona w ps) = w_TokensUsed w"
  "w_MaxIterations (foldl invalidate_persona w ps) = w_MaxIterations w"
  "w_SkippedPersonas (foldl invalidate_persona w ps) = w_SkippedPersonas w"
  by (induction ps arbitrary: w) (simp_all add: invalidate_persona_def)

lemma apply_retried_frame [simp, frame]:
  "w_ID (apply_retried w e) = w_ID w"
  "w_Version (apply_retried w e) = w_Version w"
  "w_WorkflowDef (apply_retried w e) = w_WorkflowDef w"
  "w_FeedbackCount (apply_retried w e) = w_FeedbackCount w"
  "w_TokensUsed (apply_retried w e) = w_TokensUsed w"
  "w_MaxIterations (apply_retried w e) = w_MaxIterations w"
  "w_SkippedPersonas (apply_retried w e) = w_SkippedPersonas w"
  by (simp_all add: apply_retried_def Let_def)

lemma Apply_frame [simp, frame]:
  "w_ID (Apply w e) = w_ID w"
  "w_Version (Apply w e) = e_Version e"
  "w_WorkflowDef (Apply w e) = w_WorkflowDef w"
  "w_MaxIterations (Apply w e) = w_MaxIterations w"
  by (cases "e_Type e"; simp add: Apply_def Let_def; simp add: apply_steps Let_def split: option.split)+

lemma replay_frame [simp, frame]:
  "w_ID (replay w evs) = w_ID w"
  "w_WorkflowDef (replay w evs) = w_WorkflowDef w"
  "w_MaxIterations (replay w evs) = w_MaxIterations w"
  by (induction evs arbitrary: w) simp_all

lemma replay_Version: "w_Version (replay w evs) = (if evs = [] then w_Version w else e_Version (last evs))"
  by (induction evs rule: rev_induct) simp_all

section \<open>Counters\<close>

lemma Apply_tokens:
  "w_TokensUsed (Apply w e) = w_TokensUsed w + (if e_Type e = AIResponseReceived then ai_tokens e else 0)"
  by (cases "e_Type e"; simp add: Apply_def Let_def; simp add: apply_steps Let_def split: option.split)

lemma replay_tokens:
  "w_TokensUsed (replay w evs) =
     w_TokensUsed w + sum_list (map ai_tokens (filter (\<lambda>e. e_Type e = AIResponseReceived) evs))"
  by (induction evs arbitrary: w) (simp_all add: Apply_tokens)

definition feedback_for :: "string \<Rightarrow> envelope \<Rightarrow> bool" where
  "feedback_for t e \<longleftrightarrow> e_Type e = FeedbackGenerated \<and>
     fb_TargetPersona (or_zero zero_feedback (as_feedback (e_Payload e))) = t"

lemma Apply_FeedbackCount:
  "mget 0 (w_FeedbackCount (Apply w e)) t = mget 0 (w_FeedbackCount w) t + (if feedback_for t e then 1 else 0)"
  by (cases "e_Type e"; simp add: Apply_def Let_def feedback_for_def; simp add: apply_steps Let_def split: option.split)

lemma replay_FeedbackCount:
  "mget 0 (w_FeedbackCount (replay w evs)) t =
     mget 0 (w_FeedbackCount w) t + int (length (filter (feedback_for t) evs))"
  by (induction evs arbitrary: w) (simp_all add: Apply_FeedbackCount)

definition auto_retry_of :: "string \<Rightarrow> envelope \<Rightarrow> bool" where
  "auto_retry_of p e \<longleftrightarrow> e_Type e = WorkflowRetried \<and>
     (let r = or_zero zero_retried (as_retried (e_Payload e)) in
       wt_Automatic r \<and> wt_FromPhase r \<noteq> [] \<and> wt_FromPhase r = p)"

lemma Apply_AutoRetries:
  "vget 0 (w_AutoRetries (Apply w e)) p = vget 0 (w_AutoRetries w) p + (if auto_retry_of p e then 1 else 0)"
  by (cases "e_Type e"; simp add: Apply_def Let_def auto_retry_of_def;
      simp add: apply_steps apply_retried_def Let_def split: option.split)

lemma replay_AutoRetries:
  "vget 0 (w_AutoRetries (replay w evs)) p =
     vget 0 (w_AutoRetries w) p + int (length (filter (auto_retry_of p) evs))"
  by (induction evs arbitrary: w) (simp_all add: Apply_AutoRetries)

section \<open>Status\<close>

text \<open>What an event type does to the status, if anything.\<close>

definition status_effect :: "etype \<Rightarrow> workflow_status option" where
  "status_effect ty = (case ty of
      WorkflowRequested \<Rightarrow> Some StatusRequested
    | WorkflowCompleted \<Rightarrow> Some StatusCompleted
    | WorkflowFailed \<Rightarrow> Some StatusFailed
    | WorkflowCancelled \<Rightarrow> Some StatusCancelled
    | WorkflowPaused \<Rightarrow> Some StatusPaused
    | WorkflowResumed \<Rightarrow> Some StatusRunning
    | WorkflowRetried \<Rightarrow> Some StatusRunning
    | ty \<Rightarrow> if IsWorkflowStarted ty then Some StatusRunning else None)"

lemma Apply_Status:
  "w_Status (Apply w e) = (case status_effect (e_Type e) of None \<Rightarrow> w_Status w | Some s \<Rightarrow> s)"
  by (cases "e_Type e"; simp add: Apply_def Let_def status_effect_def;
      simp add: apply_steps apply_retried_def Let_def split: option.split)

lemma replay_Status:
  "w_Status (replay w evs) = (case last_match (\<lambda>e. status_effect (e_Type e) \<noteq> None) evs of
      None \<Rightarrow> w_Status w | Some e \<Rightarrow> the (status_effect (e_Type e)))"
  by (induction evs rule: rev_induct) (auto simp: Apply_Status split: option.split)

section \<open>The feedback gate\<close>

definition fb_of :: "envelope \<Rightarrow> feedback_generated" where
  "fb_of e = or_zero zero_feedback (as_feedback (e_Payload e))"

definition feedback_from :: "string \<Rightarrow> envelope \<Rightarrow> bool" where
  "feedback_from p e \<longleftrightarrow> e_Type e = FeedbackGenerated \<and> p \<noteq> [] \<and> fb_SourcePersona (fb_of e) = p"

definition completes :: "string \<Rightarrow> envelope \<Rightarrow> bool" where
  "completes p e \<longleftrightarrow> (e_Type e = PersonaCompleted \<or> e_Type e = PersonaTracked) \<and>
     pc_Persona (or_zero zero_completed (as_completed (e_Payload e))) = p"

definition invalidates :: "string \<Rightarrow> envelope \<Rightarrow> bool" where
  "invalidates p e \<longleftrightarrow> e_Type e = WorkflowRetried \<and>
     p \<in> set (wt_InvalidatedPersonas (or_zero zero_retried (as_retried (e_Payload e))))"

definition skips :: "workflow_def option \<Rightarrow> string \<Rightarrow> envelope \<Rightarrow> bool" where
  "skips d p e \<longleftrightarrow> e_Type e = PersonaFailedTracked \<and> (\<exists>d'. d = Some d' \<and> wd_PartialReviewOnFailure d') \<and>
     p \<noteq> [] \<and> isCategoryReviewer p \<and> pf_Persona (or_zero zero_failed (as_failed (e_Payload e))) = p"

definition clears :: "string \<Rightarrow> envelope \<Rightarrow> bool" where
  "clears p e \<longleftrightarrow> feedback_for p e \<or> feedback_from p e \<or> invalidates p e"

lemmas history_defs = feedback_for_def feedback_from_def completes_def invalidates_def skips_def
  clears_def fb_of_def

lemma invalidate_all_Completed:
  "isset (w_CompletedPersonas (foldl invalidate_persona w ps)) q \<longleftrightarrow>
     isset (w_CompletedPersonas w) q \<and> q \<notin> set ps"
  by (induction ps arbitrary: w) (auto simp: invalidate_persona_def)

lemma invalidate_all_Pending:
  "w_FeedbackPending (foldl invalidate_persona w ps) q =
     (case w_FeedbackPending w q of None \<Rightarrow> None
      | Some t \<Rightarrow> if q \<in> set ps \<or> t \<in> set ps then None else Some t)"
  by (induction ps arbitrary: w) (auto simp: invalidate_persona_def split: option.splits)

lemma Apply_Completed:
  "isset (w_CompletedPersonas (Apply w e)) p \<longleftrightarrow>
     completes p e \<or> skips (w_WorkflowDef w) p e \<or> isset (w_CompletedPersonas w) p \<and> \<not> clears p e"
  by (cases "e_Type e"; simp add: Apply_def Let_def history_defs;
      auto simp: history_defs apply_steps apply_retried_def Let_def invalidate_all_Completed split: option.splits)

lemma Apply_Pending:
  "w_FeedbackPending (Apply w e) p =
     (if feedback_from p e then Some (fb_TargetPersona (fb_of e))
      else case w_FeedbackPending w p of None \<Rightarrow> None
        | Some t \<Rightarrow> if completes t e \<or> invalidates p e \<or> invalidates t e then None else Some t)"
  by (cases "e_Type e"; simp add: Apply_def Let_def history_defs;
      auto simp: history_defs apply_steps apply_retried_def Let_def invalidate_all_Pending split: option.splits)

text \<open>The gate of a persona is closed exactly while its target has not completed.\<close>

definition gate_inv :: "aggregate \<Rightarrow> bool" where
  "gate_inv w \<longleftrightarrow> (\<forall>p t. w_FeedbackPending w p = Some t \<longrightarrow> \<not> isset (w_CompletedPersonas w) t)"

definition no_partial :: "workflow_def option \<Rightarrow> bool" where
  "no_partial d \<longleftrightarrow> (\<forall>d'. d = Some d' \<longrightarrow> \<not> wd_PartialReviewOnFailure d')"

lemma gate_inv_New: "gate_inv (NewWorkflowAggregate i)"
  by (simp add: gate_inv_def NewWorkflowAggregate_def)

lemma completes_not_clears: "completes p e \<Longrightarrow> \<not> feedback_from q e \<and> \<not> invalidates q e"
  by (auto simp: history_defs)

lemma gate_inv_Apply:
  assumes "gate_inv w" and "no_partial (w_WorkflowDef w)"
  shows "gate_inv (Apply w e)"
  unfolding gate_inv_def
proof (intro allI impI)
  fix p t assume t: "w_FeedbackPending (Apply w e) p = Some t"
  have noskip: "\<not> skips (w_WorkflowDef w) t e" using assms(2) by (auto simp: skips_def no_partial_def)
  show "\<not> isset (w_CompletedPersonas (Apply w e)) t"
  proof (cases "feedback_from p e")
    case True
    with t have "feedback_for t e" by (simp add: Apply_Pending feedback_for_def feedback_from_def fb_of_def)
    then show ?thesis using noskip True completes_not_clears by (auto simp: Apply_Completed clears_def)
  next
    case False
    with t have "w_FeedbackPending w p = Some t" "\<not> completes t e"
      by (auto simp: Apply_Pending split: option.splits if_splits)
    then show ?thesis using assms(1) noskip by (auto simp: Apply_Completed gate_inv_def)
  qed
qed

lemma gate_inv_replay:
  "gate_inv w \<Longrightarrow> no_partial (w_WorkflowDef w) \<Longrightarrow> gate_inv (replay w evs)"
  by (induction evs arbitrary: w) (simp_all add: gate_inv_Apply)

lemma stale_iff_pending: "gate_inv w \<Longrightarrow> isStaleAfterFeedback w p \<longleftrightarrow> w_FeedbackPending w p \<noteq> None"
  by (auto simp: gate_inv_def isStaleAfterFeedback_def split: option.splits)

text \<open>The feedback event that closed a gate, read off the history.\<close>

definition gated_by :: "string \<Rightarrow> envelope list \<Rightarrow> envelope \<Rightarrow> bool" where
  "gated_by p evs fb \<longleftrightarrow> (\<exists>pre post. evs = pre @ fb # post \<and> feedback_from p fb \<and>
     (\<forall>e \<in> set post. \<not> feedback_from p e \<and> \<not> completes (fb_TargetPersona (fb_of fb)) e \<and>
        \<not> invalidates p e \<and> \<not> invalidates (fb_TargetPersona (fb_of fb)) e))"

lemma gated_by_snoc:
  "gated_by p (evs @ [e]) fb \<longleftrightarrow> fb = e \<and> feedback_from p e \<or>
     gated_by p evs fb \<and> \<not> feedback_from p e \<and> \<not> completes (fb_TargetPersona (fb_of fb)) e \<and>
       \<not> invalidates p e \<and> \<not> invalidates (fb_TargetPersona (fb_of fb)) e"
  (is "?L \<longleftrightarrow> ?R")
proof
  assume ?L
  then obtain pre post where "evs @ [e] = pre @ fb # post" and fb: "feedback_from p fb"
    and post: "\<forall>e \<in> set post. \<not> feedback_from p e \<and> \<not> completes (fb_TargetPersona (fb_of fb)) e \<and>
        \<not> invalidates p e \<and> \<not> invalidates (fb_TargetPersona (fb_of fb)) e"
    by (auto simp: gated_by_def)
  then show ?R by (cases post rule: rev_cases) (auto simp: gated_by_def)
next
  assume R: ?R
  show ?L
  proof (cases "fb = e \<and> feedback_from p e")
    case True
    then show ?thesis unfolding gated_by_def by (intro exI [of _ evs] exI [of _ "[]"]) simp
  next
    case False
    with R obtain pre post where "evs = pre @ fb # post" "feedback_from p fb"
      "\<forall>e \<in> set post. \<not> feedback_from p e \<and> \<not> completes (fb_TargetPersona (fb_of fb)) e \<and>
        \<not> invalidates p e \<and> \<not> invalidates (fb_TargetPersona (fb_of fb)) e"
      by (auto simp: gated_by_def)
    with R False show ?thesis unfolding gated_by_def
      by (intro exI [of _ pre] exI [of _ "post @ [e]"]) auto
  qed
qed

lemma pending_history:
  assumes "w_FeedbackPending w p = None"
  shows "w_FeedbackPending (replay w evs) p = Some t \<longleftrightarrow>
     (\<exists>fb. gated_by p evs fb \<and> fb_TargetPersona (fb_of fb) = t)"
proof (induction evs arbitrary: t rule: rev_induct)
  case Nil
  then show ?case using assms by (simp add: gated_by_def)
next
  case (snoc e evs)
  have "w_FeedbackPending (Apply (replay w evs) e) p = Some t \<longleftrightarrow>
      feedback_from p e \<and> fb_TargetPersona (fb_of e) = t \<or>
      \<not> feedback_from p e \<and> w_FeedbackPending (replay w evs) p = Some t \<and>
        \<not> completes t e \<and> \<not> invalidates p e \<and> \<not> invalidates t e"
    by (auto simp: Apply_Pending split: option.splits)
  then show ?case unfolding gated_by_snoc snoc.IH replay_append replay_Cons replay_Nil by blast
qed

section \<open>Completion, read off the history\<close>

definition completed_in :: "workflow_def option \<Rightarrow> string \<Rightarrow> envelope list \<Rightarrow> bool" where
  "completed_in d p evs \<longleftrightarrow> (\<exists>pre e post. evs = pre @ e # post \<and> (completes p e \<or> skips d p e) \<and>
     (\<forall>x \<in> set post. \<not> clears p x))"

lemma replay_Completed:
  "isset (w_CompletedPersonas (replay w evs)) p \<longleftrightarrow>
     isset (w_CompletedPersonas w) p \<and> (\<forall>e \<in> set evs. \<not> clears p e) \<or> completed_in (w_WorkflowDef w) p evs"
  unfolding replay_def completed_in_def
  by (rule latch_history [where P = "\<lambda>s. isset (w_CompletedPersonas s) p"
        and I = "\<lambda>s. w_WorkflowDef s = w_WorkflowDef w"]) (auto simp: Apply_Completed)

section \<open>The fingerprint\<close>

lemma sorted_mset_eq: "mset xs = mset ys \<Longrightarrow> sort xs = sort (ys :: string list)"
  by (metis mset_sort properties_for_sort sorted_sort)

lemma length_verdictFingerprint: "length (verdictFingerprint v) = 64"
  by (simp add: verdictFingerprint_def Let_def length_hex_encode length_sha256)

lemma verdictFingerprint_nonempty [simp]: "verdictFingerprint v \<noteq> []"
  using length_verdictFingerprint [of v] by auto

section \<open>Properties\<close>

definition attached :: "string \<Rightarrow> workflow_def option \<Rightarrow> aggregate" where
  "attached i d = (NewWorkflowAggregate i)\<lparr>w_WorkflowDef := d\<rparr>"

lemma attached_simps [simp]:
  "w_WorkflowDef (attached i d) = d" "w_ID (attached i d) = i" "w_MaxIterations (attached i d) = 3"
  "w_FeedbackPending (attached i d) = Map.empty" "w_FeedbackCount (attached i d) = []"
  "w_AutoRetries (attached i d) = Map.empty" "w_TokensUsed (attached i d) = 0"
  "w_Status (attached i d) = StatusRequested" "w_Version (attached i d) = 0"
  "w_CompletedPersonas (attached i d) = Map.empty" "w_SkippedPersonas (attached i d) = []"
  by (simp_all add: attached_def NewWorkflowAggregate_def)

lemma gate_inv_attached: "gate_inv (attached i d)"
  by (simp add: gate_inv_def)

text \<open>
  Replaying any history yields the version of its last event, the sum of the reported
  tokens, and for every persona the number of feedback rounds it was the target of and of
  automatic retries it received; none of them depends on the definition attached or on the
  other events in between.
\<close>

theorem replay_counts_events:
  "w_Version (replay (attached i d) evs) = (if evs = [] then 0 else e_Version (last evs)) \<and>
   w_TokensUsed (replay (attached i d) evs) =
     sum_list (map ai_tokens (filter (\<lambda>e. e_Type e = AIResponseReceived) evs)) \<and>
   mget 0 (w_FeedbackCount (replay (attached i d) evs)) t = int (length (filter (feedback_for t) evs)) \<and>
   vget 0 (w_AutoRetries (replay (attached i d) evs)) p = int (length (filter (auto_retry_of p) evs))"
  by (simp add: replay_Version replay_tokens replay_FeedbackCount replay_AutoRetries)

text \<open>
  The replayed status is decided by the last lifecycle event of the history alone:
  requested, started, completed, failed, cancelled, paused, resumed or retried; persona,
  verdict, feedback and hint events never change it.
\<close>

theorem status_is_last_lifecycle_event:
  "w_Status (replay (attached i d) evs) =
     (case last_match (\<lambda>e. status_effect (e_Type e) \<noteq> None) evs of
        None \<Rightarrow> StatusRequested | Some e \<Rightarrow> the (status_effect (e_Type e)))"
  unfolding replay_Status by (simp split: option.split)

text \<open>
  The stale-event gate: in a workflow that does not absorb failures as skips, a persona
  counts as stale after a replay exactly when some feedback named it as the source and,
  since then, the feedback's target has not completed and neither of the two was invalidated
  by a retry. So a late completion of the source, already queued when the feedback was
  emitted, does not open the gate.
\<close>

theorem stale_exactly_while_gated:
  assumes "no_partial d"
  shows "isStaleAfterFeedback (replay (attached i d) evs) p \<longleftrightarrow> (\<exists>fb. gated_by p evs fb)"
proof -
  have "gate_inv (replay (attached i d) evs)"
    using assms by (simp add: gate_inv_replay gate_inv_attached)
  moreover have "(w_FeedbackPending (replay (attached i d) evs) p \<noteq> None) \<longleftrightarrow> (\<exists>fb. gated_by p evs fb)"
    using pending_history [of "attached i d" p evs] by (metis attached_simps(4) not_None_eq)
  ultimately show ?thesis by (simp add: stale_iff_pending)
qed

definition sample_env :: "etype \<Rightarrow> payload \<Rightarrow> envelope" where
  "sample_env ty p = \<lparr>e_ID = ''e1'', e_Type = ty, e_AggregateID = ''wf'', e_Version = 1, e_SchemaVersion = 1,
     e_Timestamp = 0, e_CausationID = [], e_CorrelationID = ''wf'', e_Source = [], e_Payload = p\<rparr>"

definition sample_feedback :: envelope where
  "sample_feedback = sample_env FeedbackGenerated (PFeedbackGenerated
     (zero_feedback\<lparr>fb_TargetPersona := ''developer'', fb_SourcePersona := ''reviewer''\<rparr>))"

definition sample_completed :: "string \<Rightarrow> envelope" where
  "sample_completed p = sample_env PersonaTracked (PPersonaCompleted (zero_completed\<lparr>pc_Persona := p\<rparr>))"

lemma stale_exactly_while_gated_witness:
  "isStaleAfterFeedback (replay (attached ''wf'' (Some WorkspaceDevWorkflowDef))
     [sample_feedback, sample_completed ''reviewer'']) ''reviewer''"
proof -
  have "no_partial (Some WorkspaceDevWorkflowDef)"
    by (simp add: no_partial_def WorkspaceDevWorkflowDef_def zero_def_def)
  moreover have "gated_by ''reviewer'' [sample_feedback, sample_completed ''reviewer''] sample_feedback"
    unfolding gated_by_def by (intro exI [of _ "[]"] exI [of _ "[sample_completed ''reviewer'']"])
      (simp add: history_defs sample_feedback_def sample_completed_def sample_env_def decode_defs
        zero_feedback_def zero_completed_def)
  ultimately show ?thesis by (subst stale_exactly_while_gated) auto
qed

text \<open>
  The failure fingerprint does not depend on the order in which the issues were listed,
  nor on their severity, category, file or line: two verdicts with the same summary and the
  same multiset of issue descriptions have the same fingerprint.
\<close>

theorem fingerprint_ignores_issue_order:
  assumes "v_Summary v = v_Summary v'"
    and "mset (map is_Description (v_Issues v)) = mset (map is_Description (v_Issues v'))"
  shows "verdictFingerprint v = verdictFingerprint v'"
  using assms sorted_mset_eq [OF assms(2)] by (simp add: verdictFingerprint_def)

definition sample_issue :: "string \<Rightarrow> string \<Rightarrow> issue" where
  "sample_issue sev desc = \<lparr>is_Severity = sev, is_Category = [], is_Description = desc, is_File = [], is_Line = 0\<rparr>"

lemma fingerprint_ignores_issue_order_witness:
  "verdictFingerprint (zero_verdict\<lparr>v_Issues := [sample_issue ''major'' ''a'', sample_issue ''minor'' ''b'']\<rparr>) =
   verdictFingerprint (zero_verdict\<lparr>v_Issues := [sample_issue ''minor'' ''b'', sample_issue ''minor'' ''a'']\<rparr>)"
  by (rule fingerprint_ignores_issue_order) (simp_all add: sample_issue_def)

end
