(* ===== verification/AggregateDecide.thy ===== *)
theory AggregateDecide imports Aggregate begin

text \<open>
  The decision half of \<open>internal/engine/aggregate.go\<close>: \<open>Decide\<close> and the
  \<open>decide*\<close> functions it dispatches to. A decision is the list of new envelopes; only
  resuming also updates the in-memory aggregate (\<open>MaxIterations\<close>), so \<open>Decide\<close>
  returns the aggregate with the list. The lemmas give each function's decision table and
  the shape of what it emits.
\<close>

section \<open>Emitting\<close>

text \<open>
  The builder chain all decisions share: \<open>event.New(ty, 1, p)\<close> with the aggregate's next
  version, the trigger as causation and the trigger's correlation. One id is drawn per
  decision, the second of the engine step (the first is the tracking event's).
\<close>

definition emit_src :: "runtime \<Rightarrow> aggregate \<Rightarrow> envelope \<Rightarrow> etype \<Rightarrow> payload \<Rightarrow> string \<Rightarrow> envelope" where
  "emit_src rt w env ty p src = WithSource src (WithCorrelation (e_CorrelationID env)
     (WithCausation (e_ID env) (WithAggregate (w_ID w) (w_Version w + 1) (NewEnv rt 1 ty 1 p))))"

abbreviation emit :: "runtime \<Rightarrow> aggregate \<Rightarrow> envelope \<Rightarrow> etype \<Rightarrow> payload \<Rightarrow> envelope" where
  "emit rt w env ty p \<equiv> emit_src rt w env ty p ''engine:aggregate''"

definition failed_because :: "string \<Rightarrow> string \<Rightarrow> payload" where
  "failed_because reason persona = PWorkflowFailed \<lparr>wf_Reason = reason, wf_Persona = persona,
     wf_FailureKind = FailureKindUnspecified, wf_Backend = [], wf_Stderr = []\<rparr>"

section \<open>Requested and completed\<close>

definition decideWorkflowRequested :: "runtime \<Rightarrow> aggregate \<Rightarrow> envelope \<Rightarrow> envelope list" where
  "decideWorkflowRequested rt w env = (case w_WorkflowDef w of
      None \<Rightarrow> [emit rt w env WorkflowFailed (failed_because
          (''engine: unknown workflow id '' @ go_quote (w_WorkflowID w) @ '' (not registered)'') [])]
    | Some d \<Rightarrow> if w_Status w \<noteq> StatusRequested then []
        else [emit rt w env (etype_of (WorkflowStartedPrefix @ w_WorkflowID w)) (PWorkflowStarted
          \<lparr>ws_WorkflowID = w_WorkflowID w, ws_Phases = wd_Required d, ws_Source = w_Source w,
           ws_Ticket = w_Ticket w, ws_Prompt = w_Prompt w\<rparr>)])"

definition maybeEmitWorkflowCompleted :: "runtime \<Rightarrow> aggregate \<Rightarrow> envelope \<Rightarrow> envelope list" where
  "maybeEmitWorkflowCompleted rt w env = (case w_WorkflowDef w of
      None \<Rightarrow> []
    | Some d \<Rightarrow> if w_Status w \<noteq> StatusRunning then []
        else if \<not> list_all (\<lambda>req. isset (w_CompletedPersonas w) req) (wd_Required d) then []
        else [emit rt w env WorkflowCompleted (PWorkflowCompleted
          (if length (w_SkippedPersonas w) > 0
           then ''completed with '' @ itoa (int (length (w_SkippedPersonas w))) @ '' skipped persona(s)''
           else ''all required personas completed''))])"

definition decidePersonaCompleted :: "runtime \<Rightarrow> aggregate \<Rightarrow> envelope \<Rightarrow> envelope list" where
  "decidePersonaCompleted rt w env = maybeEmitWorkflowCompleted rt w env"

section \<open>Failures\<close>

definition maybeAutoRetry :: "runtime \<Rightarrow> aggregate \<Rightarrow> workflow_def \<Rightarrow> envelope \<Rightarrow> persona_failed \<Rightarrow> envelope option" where
  "maybeAutoRetry rt w d env p =
     (if \<not> failureKindIsAutoRetryable p then None
      else if vget 0 (w_AutoRetries w) (pf_Persona p) \<ge> MaxAutoRetriesPerPersona then None
      else if map_of (wd_Graph d) (pf_Persona p) = None then None
      else Some (emit rt w env WorkflowRetried (PWorkflowRetried
        \<lparr>wt_FromPhase = pf_Persona p, wt_InvalidatedPersonas = PersonasToInvalidateFor d (pf_Persona p),
         wt_Reason = ''engine: auto-retry on transient '' @ failure_kind_name (pf_FailureKind p) @
           '' (attempt '' @ itoa (vget 0 (w_AutoRetries w) (pf_Persona p) + 1) @ ''/'' @
           itoa MaxAutoRetriesPerPersona @ '')'',
         wt_Automatic = True\<rparr>)))"

text \<open>The rest of the line after the marker; \<open>strings.IndexAny\<close> looks for CR or LF.\<close>

definition extractRateLimitResetHint :: "string \<Rightarrow> string" where
  "extractRateLimitResetHint stderr = (if stderr = [] then [] else
     case str_index (to_lower stderr) ''resets '' of
       None \<Rightarrow> []
     | Some idx \<Rightarrow>
         let tail = drop (idx + length ''resets '') stderr;
             tail = takeWhile (\<lambda>c. c \<noteq> char_of (10 :: nat) \<and> c \<noteq> char_of (13 :: nat)) tail;
             tail = trim_space tail
         in if tail = [] then [] else if length tail > 128 then take 128 tail else tail)"

definition maybeRateLimitPause :: "runtime \<Rightarrow> aggregate \<Rightarrow> envelope \<Rightarrow> persona_failed \<Rightarrow> envelope option" where
  "maybeRateLimitPause rt w env p =
     (if pf_FailureKind p \<noteq> FailureKindRateLimited then None
      else if rt_getenv rt ''RICK_RATE_LIMIT_AUTOPAUSE'' = ''0'' then None
      else case w_WorkflowDef w of None \<Rightarrow> None
        | Some d \<Rightarrow> if map_of (wd_Graph d) (pf_Persona p) = None then None
          else (let resetHint = extractRateLimitResetHint (pf_Stderr p);
              after = '' '' @ em_dash @ '' resume after limit window'';
              reason = (if pf_Backend p \<noteq> []
                then ''rate_limited: '' @ pf_Persona p @ '' on '' @ pf_Backend p @ after
                else ''rate_limited: '' @ pf_Persona p @ after);
              reason = (if resetHint \<noteq> [] then reason @ '' (resets '' @ resetHint @ '')'' else reason)
            in Some (emit rt w env WorkflowPaused (PWorkflowPaused
              \<lparr>wp_Reason = reason, wp_Source = ''auto:rate_limited'', wp_RetargetPersona = [],
               wp_RetargetSource = [], wp_RetryFromPhase = pf_Persona p,
               wp_RateLimitResetHint = resetHint, wp_RateLimitBackend = pf_Backend p\<rparr>))))"

definition decidePersonaFailed :: "runtime \<Rightarrow> aggregate \<Rightarrow> envelope \<Rightarrow> envelope list" where
  "decidePersonaFailed rt w env = (case w_WorkflowDef w of
      None \<Rightarrow> []
    | Some d \<Rightarrow> if w_Status w \<noteq> StatusRunning then []
        else (let p = or_zero zero_failed (as_failed (e_Payload env)) in
          if \<not> isRequiredPersona w (pf_Persona p) then []
          else case maybeAutoRetry rt w d env p of
            Some retry \<Rightarrow> [retry]
          | None \<Rightarrow> (case maybeRateLimitPause rt w env p of
              Some pause \<Rightarrow> [pause]
            | None \<Rightarrow> if wd_PartialReviewOnFailure d \<and> isCategoryReviewer (pf_Persona p)
                then maybeEmitWorkflowCompleted rt w env
                else [emit rt w env WorkflowFailed (PWorkflowFailed
                  \<lparr>wf_Reason = ''persona '' @ pf_Persona p @ '' failed: '' @ pf_Error p,
                   wf_Persona = pf_Persona p, wf_FailureKind = pf_FailureKind p,
                   wf_Backend = pf_Backend p, wf_Stderr = pf_Stderr p\<rparr>)])))"

definition decideTokenBudgetExceeded :: "runtime \<Rightarrow> aggregate \<Rightarrow> envelope \<Rightarrow> envelope list" where
  "decideTokenBudgetExceeded rt w env =
     [emit rt w env WorkflowFailed (failed_because ''token budget exceeded'' [])]"

section \<open>Verdicts\<close>

definition escalateVerdict :: "runtime \<Rightarrow> aggregate \<Rightarrow> envelope \<Rightarrow> string \<Rightarrow> string \<Rightarrow> string \<Rightarrow> envelope list" where
  "escalateVerdict rt w env reason retargetPersona retargetSource =
     [emit rt w env WorkflowPaused (PWorkflowPaused
       \<lparr>wp_Reason = reason, wp_Source = ''engine:auto-escalation'', wp_RetargetPersona = retargetPersona,
        wp_RetargetSource = retargetSource, wp_RetryFromPhase = [], wp_RateLimitResetHint = [],
        wp_RateLimitBackend = []\<rparr>)]"

definition identical_failure :: "aggregate \<Rightarrow> verdict \<Rightarrow> bool" where
  "identical_failure w v =
     (let fpKey = v_SourcePersona v @ ''|'' @ v_Persona v in
      mget 0 (w_FeedbackCount w) (v_Persona v) \<ge> 1 \<and>
      vget [] (w_LastVerdictFingerprint w) fpKey \<noteq> [] \<and>
      vget [] (w_LastVerdictFingerprint w) fpKey = verdictFingerprint v)"

definition decideVerdictRendered :: "runtime \<Rightarrow> aggregate \<Rightarrow> envelope \<Rightarrow> envelope list" where
  "decideVerdictRendered rt w env =
     (if w_Status w \<noteq> StatusRunning then []
      else let v = or_zero zero_verdict (as_verdict (e_Payload env)) in
        if v_Outcome v \<noteq> VerdictFail then []
        else let targetPersona = v_Persona v; sourcePersona = v_SourcePersona v in
          if \<not> isRequiredPersona w targetPersona then []
          else if v_Advisory v then escalateVerdict rt w env
            (sourcePersona @ '' emitted advisory failure '' @ em_dash @ '' '' @ v_Summary v @
             '' (pausing for operator review instead of re-triggering '' @ targetPersona @ '')'') [] []
          else if identical_failure w v then escalateVerdict rt w env
            (sourcePersona @ '' failed twice with byte-identical verdict '' @ em_dash @
             '' not converging (last summary: '' @ go_quote (v_Summary v) @ '')'') targetPersona sourcePersona
          else let iteration = mget 0 (w_FeedbackCount w) targetPersona + 1;
              maxed = ''max iterations ('' @ itoa (w_MaxIterations w) @ '') reached for '' @ targetPersona in
            if iteration > w_MaxIterations w then
              (case w_WorkflowDef w of
                 Some d \<Rightarrow> if wd_EscalateOnMaxIter d
                   then escalateVerdict rt w env (maxed @ '' '' @ em_dash @ '' escalated to operator'')
                          targetPersona sourcePersona
                   else [emit rt w env WorkflowFailed (failed_because maxed targetPersona)]
               | None \<Rightarrow> [emit rt w env WorkflowFailed (failed_because maxed targetPersona)])
            else if IsConsolidatedReviewer (w_WorkflowDef w) sourcePersona then []
            else [emit rt w env FeedbackGenerated (PFeedbackGenerated
              \<lparr>fb_TargetPersona = targetPersona, fb_SourcePersona = sourcePersona, fb_Iteration = iteration,
               fb_Issues = v_Issues v, fb_Summary = v_Summary v, fb_RawDiagnostics = v_RawDiagnostics v\<rparr>)])"

section \<open>Resuming\<close>

definition resume_feedback :: "runtime \<Rightarrow> aggregate \<Rightarrow> envelope \<Rightarrow> string \<Rightarrow> string \<Rightarrow> int \<Rightarrow> string \<Rightarrow> envelope" where
  "resume_feedback rt w env target src iteration raw = emit rt w env FeedbackGenerated (PFeedbackGenerated
     \<lparr>fb_TargetPersona = target, fb_SourcePersona = src, fb_Iteration = iteration, fb_Issues = [],
      fb_Summary = ''re-triggered after operator guidance'', fb_RawDiagnostics = raw\<rparr>)"

text \<open>The fallback loop takes the first exhausted persona in the order of the map.\<close>

definition resume_legacy :: "runtime \<Rightarrow> aggregate \<Rightarrow> envelope \<Rightarrow> aggregate \<times> envelope list" where
  "resume_legacy rt w env = (case List.find (\<lambda>(persona, n). n \<ge> w_MaxIterations w) (w_FeedbackCount w) of
      None \<Rightarrow> (w, [])
    | Some (persona, n) \<Rightarrow>
        let cached = vget zero_cached (w_LastFailingVerdict w) persona
        in (w\<lparr>w_MaxIterations := n + 1\<rparr>,
            [resume_feedback rt w env persona (cv_SourcePersona cached) (n + 1) (cv_RawDiagnostics cached)]))"

definition resume_retarget :: "runtime \<Rightarrow> aggregate \<Rightarrow> envelope \<Rightarrow> aggregate \<times> envelope list" where
  "resume_retarget rt w env = (let persona = w_PendingResumeRetarget w in
     if persona \<noteq> [] \<and> isRequiredPersona w persona then
       (let cached = vget zero_cached (w_LastFailingVerdict w) persona;
            src = (if w_PendingResumeRetargetSource w = [] then cv_SourcePersona cached
                   else w_PendingResumeRetargetSource w);
            iteration = mget 0 (w_FeedbackCount w) persona + 1;
            w1 = (if iteration > w_MaxIterations w then w\<lparr>w_MaxIterations := iteration\<rparr> else w)
        in (w1, [resume_feedback rt w env persona src iteration (cv_RawDiagnostics cached)]))
     else resume_legacy rt w env)"

definition decideWorkflowResumed :: "runtime \<Rightarrow> aggregate \<Rightarrow> envelope \<Rightarrow> aggregate \<times> envelope list" where
  "decideWorkflowResumed rt w env = (let persona = w_PendingResumeRetryFromPhase w in
     case w_WorkflowDef w of
       Some d \<Rightarrow> if persona \<noteq> [] \<and> map_of (wd_Graph d) persona \<noteq> None then
           (w, [emit rt w env WorkflowRetried (PWorkflowRetried
             \<lparr>wt_FromPhase = persona, wt_InvalidatedPersonas = PersonasToInvalidateFor d persona,
              wt_Reason = ''engine: resume after rate_limited pause'', wt_Automatic = False\<rparr>)])
         else resume_retarget rt w env
     | None \<Rightarrow> resume_retarget rt w env)"

section \<open>Hints\<close>

text \<open>The float64 nearest to 0.7.\<close>

definition default_threshold :: rat where
  "default_threshold = 3152519739159347 / 4503599627370496"

definition decideHintEmitted :: "runtime \<Rightarrow> aggregate \<Rightarrow> envelope \<Rightarrow> envelope list" where
  "decideHintEmitted rt w env =
     (if w_Status w \<noteq> StatusRunning then []
      else let h = or_zero zero_hint (as_hint (e_Payload env));
          threshold = (case w_WorkflowDef w of
              Some d \<Rightarrow> if wd_HintThreshold d > 0 then wd_HintThreshold d else default_threshold
            | None \<Rightarrow> default_threshold)
        in if he_Confidence h \<ge> threshold \<and> he_Blockers h = [] then
             [emit rt w env HintApproved (PHintApproved
               \<lparr>ha_Persona = he_Persona h, ha_TriggerID = he_TriggerID h, ha_Guidance = []\<rparr>)]
           else
             (let reason = ''hint from '' @ he_Persona h @ '': confidence='' @ fmt_2f (he_Confidence h);
                  reason = (if he_Blockers h \<noteq> [] then reason @ '', blockers='' @ fmt_slice (he_Blockers h)
                            else reason)
              in [emit rt w env WorkflowPaused (PWorkflowPaused
                \<lparr>wp_Reason = reason, wp_Source = ''engine:hint-review'', wp_RetargetPersona = [],
                 wp_RetargetSource = [], wp_RetryFromPhase = [], wp_RateLimitResetHint = [],
                 wp_RateLimitBackend = []\<rparr>)]))"

definition decideHintRejected :: "runtime \<Rightarrow> aggregate \<Rightarrow> envelope \<Rightarrow> envelope list" where
  "decideHintRejected rt w env =
     (if w_Status w \<noteq> StatusRunning \<and> w_Status w \<noteq> StatusPaused then []
      else let h = or_zero zero_rejected (as_rejected (e_Payload env)) in
        if hr_Action h = ''skip'' then
          [emit_src rt w env PersonaCompleted (PPersonaCompleted (zero_completed\<lparr>pc_Persona := hr_Persona h,
             pc_TriggerEvent := type_name HintRejected, pc_TriggerID := e_ID env\<rparr>)) ''engine:hint-skip'']
        else if hr_Action h = ''fail'' then
          [emit_src rt w env WorkflowFailed (failed_because
             (''hint rejected for '' @ hr_Persona h @ '': '' @ hr_Reason h) (hr_Persona h)) ''engine:hint-fail'']
        else [])"

section \<open>Decide\<close>

definition Decide :: "runtime \<Rightarrow> aggregate \<Rightarrow> envelope \<Rightarrow> aggregate \<times> envelope list" where
  "Decide rt w env = (case e_Type env of
      WorkflowRequested \<Rightarrow> (w, decideWorkflowRequested rt w env)
    | PersonaCompleted \<Rightarrow> (w, decidePersonaCompleted rt w env)
    | PersonaFailed \<Rightarrow> (w, decidePersonaFailed rt w env)
    | VerdictRendered \<Rightarrow> (w, decideVerdictRendered rt w env)
    | TokenBudgetExceeded \<Rightarrow> (w, decideTokenBudgetExceeded rt w env)
    | WorkflowResumed \<Rightarrow> decideWorkflowResumed rt w env
    | WorkflowRetried \<Rightarrow> (w, [])
    | HintEmitted \<Rightarrow> (w, decideHintEmitted rt w env)
    | HintRejected \<Rightarrow> (w, decideHintRejected rt w env)
    | _ \<Rightarrow> (w, []))"

section \<open>Shape of a decision\<close>

text \<open>A decision event is stamped for the aggregate it was decided on, right after its version.\<close>

definition stamped :: "runtime \<Rightarrow> aggregate \<Rightarrow> envelope \<Rightarrow> envelope \<Rightarrow> bool" where
  "stamped rt w env e \<longleftrightarrow> e_AggregateID e = w_ID w \<and> e_Version e = w_Version w + 1 \<and>
     e_CausationID e = e_ID env \<and> e_CorrelationID e = e_CorrelationID env \<and> e_ID e = rt_uid rt 1 \<and>
     payload_fits (e_Type e) (e_Payload e)"

lemma emit_simps [simp]:
  "e_Type (emit_src rt w env ty p src) = ty" "e_Payload (emit_src rt w env ty p src) = p"
  "e_AggregateID (emit_src rt w env ty p src) = w_ID w"
  "e_Version (emit_src rt w env ty p src) = w_Version w + 1"
  "e_CausationID (emit_src rt w env ty p src) = e_ID env"
  "e_CorrelationID (emit_src rt w env ty p src) = e_CorrelationID env"
  "e_ID (emit_src rt w env ty p src) = rt_uid rt 1" "e_Source (emit_src rt w env ty p src) = src"
  by (simp_all add: emit_src_def env_builders)

lemma stamped_emit: "payload_fits ty p \<Longrightarrow> stamped rt w env (emit_src rt w env ty p src)"
  by (simp add: stamped_def)

lemma payload_fits_started: "payload_fits (etype_of (WorkflowStartedPrefix @ i)) (PWorkflowStarted r)"
  by (simp add: etype_of_started payload_fits_def decode_defs)

lemmas decide_defs = decideWorkflowRequested_def decidePersonaCompleted_def decidePersonaFailed_def
  decideVerdictRendered_def decideTokenBudgetExceeded_def decideHintEmitted_def decideHintRejected_def
  maybeEmitWorkflowCompleted_def escalateVerdict_def

lemmas fits = payload_fits_def decode_defs failed_because_def

lemma maybeAutoRetry_Some:
  "maybeAutoRetry rt w d env p = Some e \<Longrightarrow> \<exists>r. e = emit rt w env WorkflowRetried (PWorkflowRetried r) \<and>
     wt_FromPhase r = pf_Persona p \<and> wt_Automatic r \<and> wt_InvalidatedPersonas r = PersonasToInvalidateFor d (pf_Persona p) \<and>
     failureKindIsAutoRetryable p \<and> vget 0 (w_AutoRetries w) (pf_Persona p) < MaxAutoRetriesPerPersona \<and>
     map_of (wd_Graph d) (pf_Persona p) \<noteq> None"
  by (auto simp: maybeAutoRetry_def split: if_splits)

lemma maybeRateLimitPause_Some:
  "maybeRateLimitPause rt w env p = Some e \<Longrightarrow> \<exists>r. e = emit rt w env WorkflowPaused (PWorkflowPaused r) \<and>
     wp_RetryFromPhase r = pf_Persona p \<and> wp_RetargetPersona r = [] \<and> pf_FailureKind p = FailureKindRateLimited"
  by (auto simp: maybeRateLimitPause_def Let_def split: if_splits option.splits)

lemma maybeEmit_cases:
  "maybeEmitWorkflowCompleted rt w env = [] \<or>
   (\<exists>s. maybeEmitWorkflowCompleted rt w env = [emit rt w env WorkflowCompleted (PWorkflowCompleted s)])"
  by (auto simp: maybeEmitWorkflowCompleted_def split: option.splits)

text \<open>The events each decision function can emit.\<close>

definition emits :: "runtime \<Rightarrow> aggregate \<Rightarrow> envelope \<Rightarrow> etype set \<Rightarrow> envelope list \<Rightarrow> bool" where
  "emits rt w env T es \<longleftrightarrow> es = [] \<or> (\<exists>e. es = [e] \<and> stamped rt w env e \<and> e_Type e \<in> T)"

lemma emits_Nil [simp, intro]: "emits rt w env T []"
  by (simp add: emits_def)

lemma emits_one [intro]:
  "payload_fits ty p \<Longrightarrow> ty \<in> T \<Longrightarrow> emits rt w env T [emit_src rt w env ty p src]"
  by (auto simp: emits_def stamped_emit)

lemma emits_requested:
  "emits rt w env {WorkflowFailed, WorkflowStartedFor (w_WorkflowID w)} (decideWorkflowRequested rt w env)"
  by (auto simp: decideWorkflowRequested_def etype_of_started fits split: option.split intro!: emits_one)

lemma emits_completed: "emits rt w env {WorkflowCompleted} (maybeEmitWorkflowCompleted rt w env)"
  using maybeEmit_cases [of rt w env] by (auto simp: fits intro!: emits_one)

lemma emits_failed:
  "emits rt w env {WorkflowRetried, WorkflowPaused, WorkflowCompleted, WorkflowFailed}
     (decidePersonaFailed rt w env)"
proof (cases "w_WorkflowDef w")
  case None
  then show ?thesis by (simp add: decidePersonaFailed_def)
next
  case (Some d)
  let ?p = "or_zero zero_failed (as_failed (e_Payload env))"
  have c: "emits rt w env {WorkflowRetried, WorkflowPaused, WorkflowCompleted, WorkflowFailed}
      (maybeEmitWorkflowCompleted rt w env)"
    using emits_completed [of rt w env] by (auto simp: emits_def)
  show ?thesis
    by (cases "maybeAutoRetry rt w d env ?p"; cases "maybeRateLimitPause rt w env ?p")
       (auto simp: decidePersonaFailed_def Some Let_def fits c
          dest!: maybeAutoRetry_Some maybeRateLimitPause_Some intro!: emits_one)
qed

lemma emits_verdict:
  "emits rt w env {WorkflowPaused, WorkflowFailed, FeedbackGenerated} (decideVerdictRendered rt w env)"
  by (auto simp: decideVerdictRendered_def escalateVerdict_def Let_def fits split: option.split intro!: emits_one)

lemma emits_resumed:
  "emits rt w env {WorkflowRetried, FeedbackGenerated} (snd (decideWorkflowResumed rt w env))"
  by (auto simp: decideWorkflowResumed_def resume_retarget_def resume_legacy_def resume_feedback_def
      Let_def fits split: option.split intro!: emits_one)

lemma emits_hint: "emits rt w env {HintApproved, WorkflowPaused} (decideHintEmitted rt w env)"
  by (auto simp: decideHintEmitted_def Let_def fits intro!: emits_one)

lemma emits_rejected: "emits rt w env {PersonaCompleted, WorkflowFailed} (decideHintRejected rt w env)"
  by (auto simp: decideHintRejected_def Let_def fits intro!: emits_one)

definition decision_types :: "aggregate \<Rightarrow> etype \<Rightarrow> etype set" where
  "decision_types w ty = (case ty of
      WorkflowRequested \<Rightarrow> {WorkflowFailed, WorkflowStartedFor (w_WorkflowID w)}
    | PersonaCompleted \<Rightarrow> {WorkflowCompleted}
    | PersonaFailed \<Rightarrow> {WorkflowRetried, WorkflowPaused, WorkflowCompleted, WorkflowFailed}
    | VerdictRendered \<Rightarrow> {WorkflowPaused, WorkflowFailed, FeedbackGenerated}
    | TokenBudgetExceeded \<Rightarrow> {WorkflowFailed}
    | WorkflowResumed \<Rightarrow> {WorkflowRetried, FeedbackGenerated}
    | HintEmitted \<Rightarrow> {HintApproved, WorkflowPaused}
    | HintRejected \<Rightarrow> {PersonaCompleted, WorkflowFailed}
    | _ \<Rightarrow> {})"

lemma Decide_emits: "emits rt w env (decision_types w (e_Type env)) (snd (Decide rt w env))"
  using emits_requested [of rt w env] emits_completed [of rt w env] emits_failed [of rt w env]
    emits_verdict [of rt w env] emits_resumed [of rt w env] emits_hint [of rt w env]
    emits_rejected [of rt w env]
  by (cases "e_Type env")
     (simp_all add: Decide_def decision_types_def decidePersonaCompleted_def
        decideTokenBudgetExceeded_def emits_one fits)

lemma Decide_length: "length (snd (Decide rt w env)) \<le> 1"
  using Decide_emits [of rt w env] by (auto simp: emits_def)

lemma Decide_stamped: "e \<in> set (snd (Decide rt w env)) \<Longrightarrow>
    stamped rt w env e \<and> e_Type e \<in> decision_types w (e_Type env)"
  using Decide_emits [of rt w env] by (auto simp: emits_def)

section \<open>Decision tables\<close>

lemma isRequired_iff: "isRequiredPersona w p \<longleftrightarrow> (\<exists>d. w_WorkflowDef w = Some d \<and> p \<in> set (wd_Required d))"
  by (auto simp: isRequiredPersona_def list_ex_iff split: option.splits)

text \<open>The conditions under which a failing verdict escalates instead of iterating.\<close>

definition budget_left :: "aggregate \<Rightarrow> verdict \<Rightarrow> bool" where
  "budget_left w v \<longleftrightarrow> mget 0 (w_FeedbackCount w) (v_Persona v) < w_MaxIterations w"

definition gating_verdict :: "aggregate \<Rightarrow> verdict \<Rightarrow> bool" where
  "gating_verdict w v \<longleftrightarrow> w_Status w = StatusRunning \<and> v_Outcome v = VerdictFail \<and> isRequiredPersona w (v_Persona v)"

definition escalates :: "aggregate \<Rightarrow> verdict \<Rightarrow> bool" where
  "escalates w v \<longleftrightarrow> v_Advisory v \<or> identical_failure w v \<or> \<not> budget_left w v"

lemma verdict_table:
  assumes "as_verdict (e_Payload env) = Some v"
  shows "map e_Type (decideVerdictRendered rt w env) =
    (if \<not> gating_verdict w v then []
     else if v_Advisory v \<or> identical_failure w v then [WorkflowPaused]
     else if \<not> budget_left w v then
       [if \<exists>d. w_WorkflowDef w = Some d \<and> wd_EscalateOnMaxIter d then WorkflowPaused else WorkflowFailed]
     else if IsConsolidatedReviewer (w_WorkflowDef w) (v_SourcePersona v) then []
     else [FeedbackGenerated])"
  using assms by (auto simp: decideVerdictRendered_def escalateVerdict_def Let_def gating_verdict_def
      budget_left_def split: option.splits)

lemma verdict_feedback:
  assumes "as_verdict (e_Payload env) = Some v" and "gating_verdict w v" and "\<not> escalates w v"
    and "\<not> IsConsolidatedReviewer (w_WorkflowDef w) (v_SourcePersona v)"
  shows "decideVerdictRendered rt w env = [emit rt w env FeedbackGenerated (PFeedbackGenerated
    \<lparr>fb_TargetPersona = v_Persona v, fb_SourcePersona = v_SourcePersona v,
     fb_Iteration = mget 0 (w_FeedbackCount w) (v_Persona v) + 1, fb_Issues = v_Issues v,
     fb_Summary = v_Summary v, fb_RawDiagnostics = v_RawDiagnostics v\<rparr>)]"
  using assms by (auto simp: decideVerdictRendered_def Let_def gating_verdict_def budget_left_def escalates_def)

lemma escalate_retarget:
  assumes "as_verdict (e_Payload env) = Some v" and "e \<in> set (decideVerdictRendered rt w env)"
    and "e_Type e = WorkflowPaused"
  shows "\<exists>r. as_paused (e_Payload e) = Some r \<and> wp_RetryFromPhase r = [] \<and>
     wp_RetargetPersona r = (if v_Advisory v then [] else v_Persona v) \<and>
     wp_RetargetSource r = (if v_Advisory v then [] else v_SourcePersona v) \<and> gating_verdict w v"
  using assms by (auto simp: decideVerdictRendered_def escalateVerdict_def Let_def gating_verdict_def
      decode_defs split: option.splits if_splits)

lemma failure_table:
  assumes "w_WorkflowDef w = Some d" and "w_Status w = StatusRunning" and "pf_Persona p \<in> set (wd_Required d)"
    and "as_failed (e_Payload env) = Some p" and "\<not> wd_PartialReviewOnFailure d"
  shows "map e_Type (decidePersonaFailed rt w env) =
    [if failureKindIsAutoRetryable p \<and> vget 0 (w_AutoRetries w) (pf_Persona p) < MaxAutoRetriesPerPersona \<and>
        pf_Persona p \<in> set (mkeys (wd_Graph d)) then WorkflowRetried
     else if pf_FailureKind p = FailureKindRateLimited \<and> rt_getenv rt ''RICK_RATE_LIMIT_AUTOPAUSE'' \<noteq> ''0'' \<and>
        pf_Persona p \<in> set (mkeys (wd_Graph d)) then WorkflowPaused
     else WorkflowFailed]"
  using assms by (auto simp: decidePersonaFailed_def maybeAutoRetry_def maybeRateLimitPause_def
      isRequired_iff Let_def set_mkeys domIff)

lemma completion_table:
  assumes "w_WorkflowDef w = Some d"
  shows "map e_Type (maybeEmitWorkflowCompleted rt w env) =
    (if w_Status w = StatusRunning \<and> (\<forall>req \<in> set (wd_Required d). isset (w_CompletedPersonas w) req)
     then [WorkflowCompleted] else [])"
  using assms by (auto simp: maybeEmitWorkflowCompleted_def list_all_iff)

text \<open>A persona that was retried automatically once is not retried automatically again.\<close>

lemma no_second_auto_retry:
  assumes "vget 0 (w_AutoRetries w) (pf_Persona p) \<ge> 1" and "as_failed (e_Payload env) = Some p"
  shows "\<forall>e \<in> set (decidePersonaFailed rt w env). e_Type e \<noteq> WorkflowRetried"
proof -
  have none: "maybeAutoRetry rt w d env p = None" for d
    using assms(1) by (simp add: maybeAutoRetry_def MaxAutoRetriesPerPersona_def)
  show ?thesis
    using assms(2) maybeEmit_cases [of rt w env]
    by (auto simp: decidePersonaFailed_def Let_def none dest!: maybeRateLimitPause_Some split: option.splits)
qed

lemma hint_reset_bound: "length (extractRateLimitResetHint s) \<le> 128"
  by (simp add: extractRateLimitResetHint_def Let_def split: option.split)

lemma Decide_simps [simp]:
  "e_Type env = VerdictRendered \<Longrightarrow> Decide rt w env = (w, decideVerdictRendered rt w env)"
  "e_Type env = PersonaFailed \<Longrightarrow> Decide rt w env = (w, decidePersonaFailed rt w env)"
  "e_Type env = PersonaCompleted \<Longrightarrow> Decide rt w env = (w, maybeEmitWorkflowCompleted rt w env)"
  "e_Type env = WorkflowResumed \<Longrightarrow> Decide rt w env = decideWorkflowResumed rt w env"
  by (simp_all add: Decide_def decidePersonaCompleted_def)

section \<open>Pending resume\<close>

lemma invalidate_pending [simp]:
  "w_PendingResumeRetarget (foldl invalidate_persona w ps) = w_PendingResumeRetarget w"
  "w_PendingResumeRetargetSource (foldl invalidate_persona w ps) = w_PendingResumeRetargetSource w"
  "w_PendingResumeRetryFromPhase (foldl invalidate_persona w ps) = w_PendingResumeRetryFromPhase w"
  by (induction ps arbitrary: w) (simp_all add: invalidate_persona_def)

lemma Apply_pending_frame:
  assumes "e_Type e \<noteq> WorkflowPaused"
  shows "w_PendingResumeRetarget (Apply w e) = w_PendingResumeRetarget w"
    "w_PendingResumeRetargetSource (Apply w e) = w_PendingResumeRetargetSource w"
    "w_PendingResumeRetryFromPhase (Apply w e) = w_PendingResumeRetryFromPhase w"
  using assms by (cases "e_Type e"; simp add: Apply_def Let_def;
    simp add: apply_steps apply_retried_def Let_def split: option.split)+

lemma replay_pending_frame:
  assumes "\<forall>e \<in> set evs. e_Type e \<noteq> WorkflowPaused"
  shows "w_PendingResumeRetarget (replay w evs) = w_PendingResumeRetarget w"
    "w_PendingResumeRetargetSource (replay w evs) = w_PendingResumeRetargetSource w"
    "w_PendingResumeRetryFromPhase (replay w evs) = w_PendingResumeRetryFromPhase w"
  using assms by (induction evs arbitrary: w) (simp_all add: Apply_pending_frame)

lemma Apply_paused:
  assumes "e_Type e = WorkflowPaused" and "as_paused (e_Payload e) = Some r"
  shows "w_PendingResumeRetarget (Apply w e) = wp_RetargetPersona r"
    "w_PendingResumeRetargetSource (Apply w e) = wp_RetargetSource r"
    "w_PendingResumeRetryFromPhase (Apply w e) = wp_RetryFromPhase r"
  using assms by (simp_all add: Apply_def apply_paused_def Let_def)

lemma resume_pending_retarget:
  assumes "w_PendingResumeRetryFromPhase w = []" and "w_PendingResumeRetarget w = p" and "p \<noteq> []"
    and "w_PendingResumeRetargetSource w = src" and "src \<noteq> []" and "isRequiredPersona w p"
  shows "\<exists>raw. decideWorkflowResumed rt w env =
     (w\<lparr>w_MaxIterations := max (w_MaxIterations w) (mget 0 (w_FeedbackCount w) p + 1)\<rparr>,
      [resume_feedback rt w env p src (mget 0 (w_FeedbackCount w) p + 1) raw])"
  using assms by (auto simp: decideWorkflowResumed_def resume_retarget_def Let_def max_def split: option.split)

lemma resume_pending_retry:
  assumes "w_PendingResumeRetryFromPhase w = p" and "p \<noteq> []" and "w_WorkflowDef w = Some d"
    and "p \<in> set (mkeys (wd_Graph d))"
  shows "decideWorkflowResumed rt w env = (w, [emit rt w env WorkflowRetried (PWorkflowRetried
      \<lparr>wt_FromPhase = p, wt_InvalidatedPersonas = PersonasToInvalidateFor d p,
       wt_Reason = ''engine: resume after rate_limited pause'', wt_Automatic = False\<rparr>)])"
  using assms by (auto simp: decideWorkflowResumed_def Let_def set_mkeys domIff)

section \<open>Properties\<close>

text \<open>Concrete inputs for the witnesses.\<close>

definition sample_rt :: runtime where
  "sample_rt = \<lparr>rt_uid = (\<lambda>k. ''id''), rt_now = 0, rt_getenv = (\<lambda>v. [])\<rparr>"

definition sample_started :: envelope where
  "sample_started = sample_env (WorkflowStartedFor ''develop-only'') (POther [])"

definition sample_verdict :: verdict where
  "sample_verdict = zero_verdict\<lparr>v_Persona := ''developer'', v_SourcePersona := ''reviewer'',
     v_Outcome := VerdictFail, v_Summary := ''broken''\<rparr>"

definition sample_verdict_env :: envelope where
  "sample_verdict_env = sample_env VerdictRendered (PVerdict sample_verdict)"

definition sample_running :: aggregate where
  "sample_running = replay (attached ''wf'' (Some DevelopOnlyWorkflowDef)) [sample_started]"

definition sample_failure :: "failure_kind \<Rightarrow> envelope" where
  "sample_failure k = sample_env PersonaFailed (PPersonaFailed
     (zero_failed\<lparr>pf_Persona := ''developer'', pf_FailureKind := k\<rparr>))"

lemma sample_running_simps [simp]:
  "w_Status sample_running = StatusRunning" "w_WorkflowDef sample_running = Some DevelopOnlyWorkflowDef"
  "w_FeedbackCount sample_running = []" "w_MaxIterations sample_running = 3"
  "w_AutoRetries sample_running = Map.empty"
  by (simp_all add: sample_running_def sample_started_def sample_env_def Apply_def Let_def)

lemmas sample_defs = sample_env_def sample_verdict_def sample_verdict_env_def sample_failure_def
  sample_started_def sample_completed_def decode_defs zero_verdict_def zero_failed_def zero_completed_def

text \<open>
  C39. Every decision is at most one event, stamped for the aggregate it was taken on: its id
  and next version, the trigger as causation, the trigger's correlation, a payload of the
  struct its type is read with, and a type from the trigger's row of the decision table.
\<close>

theorem decision_is_one_stamped_event:
  "case snd (Decide rt w env) of
     [] \<Rightarrow> True
   | [e] \<Rightarrow> stamped rt w env e \<and> e_Type e \<in> decision_types w (e_Type env)
   | _ \<Rightarrow> False"
  using Decide_emits [of rt w env] by (auto simp: emits_def split: list.split)

text \<open>
  C5. Completion: on any history, a completed persona makes the engine emit exactly a
  WorkflowCompleted when the last lifecycle event left the workflow running and every
  required persona has a completion (or an absorbed failure) that no later feedback or retry
  cleared; otherwise it makes it emit nothing.
\<close>

theorem completes_exactly_when_all_done:
  assumes "e_Type env = PersonaCompleted" and "w = replay (attached i (Some d)) evs"
  shows "map e_Type (snd (Decide rt w env)) =
    (if w_Status w = StatusRunning \<and> (\<forall>req \<in> set (wd_Required d). completed_in (Some d) req evs)
     then [WorkflowCompleted] else [])"
  using assms by (simp add: completion_table [of _ d] replay_Completed)

lemma completes_exactly_when_all_done_witness:
  "\<exists>w. map e_Type (snd (Decide sample_rt w (sample_env PersonaCompleted (POther [])))) = [WorkflowCompleted]"
proof -
  let ?evs = "[sample_started, sample_completed ''task-creator'']"
  let ?w = "replay (attached ''wf'' (Some TaskCreatorWorkflowDef)) ?evs"
  have "completed_in (Some TaskCreatorWorkflowDef) ''task-creator'' ?evs"
    unfolding completed_in_def by (intro exI [of _ "[sample_started]"]
        exI [of _ "sample_completed ''task-creator''"] exI [of _ "[]"])
      (simp add: completes_def sample_defs)
  moreover have "wd_Required TaskCreatorWorkflowDef = [''task-creator'']"
    by (simp add: TaskCreatorWorkflowDef_def)
  moreover have "w_Status ?w = StatusRunning"
    by (simp add: Apply_Status status_effect_def sample_defs)
  ultimately have "map e_Type (snd (Decide sample_rt ?w (sample_env PersonaCompleted (POther [])))) =
      [WorkflowCompleted]"
    by (subst completes_exactly_when_all_done [OF _ refl]) (simp_all add: sample_env_def)
  then show ?thesis by (rule exI [of _ ?w])
qed

text \<open>
  The conditions of the feedback loop, stated over the aggregate's fields alone: the verdict
  fails a persona the running workflow requires, it repeats the last failure recorded for the
  same source and target after at least one round, and its source leaves the round to the
  review-consolidator.
\<close>

definition fails_required :: "aggregate \<Rightarrow> verdict \<Rightarrow> bool" where
  "fails_required w v \<longleftrightarrow> w_Status w = StatusRunning \<and> v_Outcome v = VerdictFail \<and>
     (\<exists>d. w_WorkflowDef w = Some d \<and> v_Persona v \<in> set (wd_Required d))"

definition repeats_failure :: "aggregate \<Rightarrow> verdict \<Rightarrow> bool" where
  "repeats_failure w v \<longleftrightarrow> 1 \<le> mget 0 (w_FeedbackCount w) (v_Persona v) \<and>
     w_LastVerdictFingerprint w (v_SourcePersona v @ ''|'' @ v_Persona v) = Some (verdictFingerprint v)"

definition left_to_consolidator :: "aggregate \<Rightarrow> verdict \<Rightarrow> bool" where
  "left_to_consolidator w v \<longleftrightarrow> v_SourcePersona v \<noteq> [] \<and>
     (\<exists>d. w_WorkflowDef w = Some d \<and> wd_SynchronousFeedback d \<and>
        v_SourcePersona v \<in> set (wd_ConsolidatedReviewers d))"

lemma fails_required_iff: "gating_verdict w v = fails_required w v"
  by (auto simp: gating_verdict_def fails_required_def isRequired_iff)

lemma repeats_failure_iff: "identical_failure w v = repeats_failure w v"
  by (auto simp: identical_failure_def repeats_failure_def Let_def vget_def split: option.splits)

lemma left_to_consolidator_iff:
  "IsConsolidatedReviewer (w_WorkflowDef w) (v_SourcePersona v) = left_to_consolidator w v"
  by (auto simp: IsConsolidatedReviewer_def left_to_consolidator_def split: option.splits)

lemmas loop_conditions = fails_required_iff repeats_failure_iff left_to_consolidator_iff

lemma verdict_outcome:
  assumes "e_Type env = VerdictRendered" and "as_verdict (e_Payload env) = Some v"
  shows "map e_Type (snd (Decide rt w env)) =
    (if \<not> fails_required w v then []
     else if v_Advisory v \<or> repeats_failure w v then [WorkflowPaused]
     else if w_MaxIterations w \<le> mget 0 (w_FeedbackCount w) (v_Persona v) then
       [if \<exists>d. w_WorkflowDef w = Some d \<and> wd_EscalateOnMaxIter d then WorkflowPaused else WorkflowFailed]
     else if left_to_consolidator w v then []
     else [FeedbackGenerated])"
  using assms(1) verdict_table [OF assms(2), of rt w]
  by (simp add: loop_conditions budget_left_def not_less)

text \<open>
  C6. The feedback loop's guard: a verdict whose payload decodes makes the engine emit a
  FeedbackGenerated exactly when the workflow is running, the verdict fails a required
  persona, it is not advisory, it does not repeat the last recorded failure of the same
  source on the same target, fewer than MaxIterations rounds were spent on the target, and
  the source is not a reviewer of a synchronous workflow's consolidated set. Whenever a
  FeedbackGenerated is emitted it is the only event, it targets the verdict's persona on
  behalf of its source, carries its issues, summary and diagnostics, and is numbered as the
  target's next round, which never exceeds MaxIterations.
\<close>

theorem feedback_exactly_when_iterating:
  assumes "e_Type env = VerdictRendered" and "as_verdict (e_Payload env) = Some v"
  shows "((\<exists>e \<in> set (snd (Decide rt w env)). e_Type e = FeedbackGenerated) \<longleftrightarrow>
       w_Status w = StatusRunning \<and> v_Outcome v = VerdictFail \<and>
       (\<exists>d. w_WorkflowDef w = Some d \<and> v_Persona v \<in> set (wd_Required d)) \<and>
       \<not> v_Advisory v \<and> \<not> repeats_failure w v \<and>
       mget 0 (w_FeedbackCount w) (v_Persona v) < w_MaxIterations w \<and> \<not> left_to_consolidator w v) \<and>
    (\<forall>e \<in> set (snd (Decide rt w env)). e_Type e = FeedbackGenerated \<longrightarrow>
       snd (Decide rt w env) = [e] \<and>
       (\<exists>fb. as_feedback (e_Payload e) = Some fb \<and>
          fb_TargetPersona fb = v_Persona v \<and> fb_SourcePersona fb = v_SourcePersona v \<and>
          fb_Issues fb = v_Issues v \<and> fb_Summary fb = v_Summary v \<and>
          fb_RawDiagnostics fb = v_RawDiagnostics v \<and>
          fb_Iteration fb = mget 0 (w_FeedbackCount w) (v_Persona v) + 1 \<and>
          fb_Iteration fb \<le> w_MaxIterations w))"
    (is "((\<exists>e \<in> ?D. e_Type e = FeedbackGenerated) \<longleftrightarrow> ?R) \<and> ?emitted")
proof -
  have "(\<exists>e \<in> ?D. e_Type e = FeedbackGenerated) \<longleftrightarrow> FeedbackGenerated \<in> set (map e_Type (snd (Decide rt w env)))"
    by force
  also have "\<dots> \<longleftrightarrow> ?R" unfolding verdict_outcome [OF assms] by (auto simp: fails_required_def)
  finally have iff: "(\<exists>e \<in> ?D. e_Type e = FeedbackGenerated) \<longleftrightarrow> ?R" .
  have ?emitted if "?R"
  proof -
    from that have "gating_verdict w v" "\<not> escalates w v"
      "\<not> IsConsolidatedReviewer (w_WorkflowDef w) (v_SourcePersona v)"
      by (auto simp: loop_conditions fails_required_def escalates_def budget_left_def)
    from verdict_feedback [OF assms(2) this, of rt] that assms(1) show ?thesis by (simp add: decode_defs)
  qed
  with iff show ?thesis by blast
qed

lemma feedback_exactly_when_iterating_witness:
  "\<exists>e fb. snd (Decide sample_rt sample_running sample_verdict_env) = [e] \<and> as_feedback (e_Payload e) = Some fb \<and>
     fb_TargetPersona fb = ''developer'' \<and> fb_Iteration fb = 1"
proof -
  have "e_Type sample_verdict_env = VerdictRendered" "as_verdict (e_Payload sample_verdict_env) = Some sample_verdict"
    by (simp_all add: sample_defs)
  note T = feedback_exactly_when_iterating [OF this, of sample_rt sample_running]
  have "\<exists>e \<in> set (snd (Decide sample_rt sample_running sample_verdict_env)). e_Type e = FeedbackGenerated"
    unfolding conjunct1 [OF T]
    by (simp add: repeats_failure_def left_to_consolidator_def DevelopOnlyWorkflowDef_def zero_def_def sample_defs)
  then obtain e where "e \<in> set (snd (Decide sample_rt sample_running sample_verdict_env))"
    "e_Type e = FeedbackGenerated" by blast
  with conjunct2 [OF T] obtain fb where "snd (Decide sample_rt sample_running sample_verdict_env) = [e]"
    "as_feedback (e_Payload e) = Some fb" "fb_TargetPersona fb = v_Persona sample_verdict"
    "fb_Iteration fb = mget 0 (w_FeedbackCount sample_running) (v_Persona sample_verdict) + 1" by blast
  then show ?thesis by (intro exI [of _ e] exI [of _ fb]) (simp add: sample_defs)
qed

text \<open>
  C19. No failing verdict against a required persona of a running workflow is lost: an
  advisory verdict or one that repeats the last recorded failure pauses the workflow; a
  verdict beyond the iteration budget pauses it or fails it, as the definition says; a
  verdict within the budget is left to the review-consolidator, in silence, exactly when its
  source is a consolidated reviewer of a synchronous workflow; every other one starts a
  feedback round. Whichever case applies, it is the only event of the decision.
\<close>

theorem failing_verdict_never_lost:
  assumes "e_Type env = VerdictRendered" and "as_verdict (e_Payload env) = Some v"
    and "w_Status w = StatusRunning" and "v_Outcome v = VerdictFail"
    and "w_WorkflowDef w = Some d" and "v_Persona v \<in> set (wd_Required d)"
  shows "map e_Type (snd (Decide rt w env)) =
    (if v_Advisory v \<or>
        (1 \<le> mget 0 (w_FeedbackCount w) (v_Persona v) \<and>
         w_LastVerdictFingerprint w (v_SourcePersona v @ ''|'' @ v_Persona v) = Some (verdictFingerprint v))
     then [WorkflowPaused]
     else if w_MaxIterations w \<le> mget 0 (w_FeedbackCount w) (v_Persona v)
     then [if wd_EscalateOnMaxIter d then WorkflowPaused else WorkflowFailed]
     else if v_SourcePersona v \<noteq> [] \<and> wd_SynchronousFeedback d \<and>
        v_SourcePersona v \<in> set (wd_ConsolidatedReviewers d)
     then [] else [FeedbackGenerated])"
  using assms(3-) unfolding verdict_outcome [OF assms(1,2)]
  by (simp add: fails_required_def repeats_failure_def left_to_consolidator_def)

lemma failing_verdict_never_lost_witness:
  "map e_Type (snd (Decide sample_rt sample_running sample_verdict_env)) = [FeedbackGenerated]"
proof -
  have "e_Type sample_verdict_env = VerdictRendered" "as_verdict (e_Payload sample_verdict_env) = Some sample_verdict"
    "v_Outcome sample_verdict = VerdictFail" "v_Persona sample_verdict \<in> set (wd_Required DevelopOnlyWorkflowDef)"
    by (simp_all add: sample_defs DevelopOnlyWorkflowDef_def zero_def_def)
  note T = failing_verdict_never_lost [OF this(1,2) sample_running_simps(1) this(3) sample_running_simps(2) this(4)]
  show ?thesis unfolding T by (simp add: DevelopOnlyWorkflowDef_def zero_def_def sample_defs)
qed

text \<open>
  The failure of a required persona of a running workflow that does not absorb failures
  produces exactly one event: an automatic retry when the kind is retryable, the persona was
  not retried automatically before in this history and it is in the graph; else a pause when
  it was rate-limited, auto-pausing is not switched off and it is in the graph; else the
  workflow fails.
\<close>

theorem required_failure_outcome:
  assumes "e_Type env = PersonaFailed" and "as_failed (e_Payload env) = Some p"
    and "w = replay (attached i (Some d)) evs" and "w_Status w = StatusRunning"
    and "pf_Persona p \<in> set (wd_Required d)" and "\<not> wd_PartialReviewOnFailure d"
  shows "map e_Type (snd (Decide rt w env)) =
    [if failureKindIsAutoRetryable p \<and> (\<forall>e \<in> set evs. \<not> auto_retry_of (pf_Persona p) e) \<and>
        pf_Persona p \<in> set (mkeys (wd_Graph d)) then WorkflowRetried
     else if pf_FailureKind p = FailureKindRateLimited \<and> rt_getenv rt ''RICK_RATE_LIMIT_AUTOPAUSE'' \<noteq> ''0'' \<and>
        pf_Persona p \<in> set (mkeys (wd_Graph d)) then WorkflowPaused
     else WorkflowFailed]"
proof -
  have d: "w_WorkflowDef w = Some d" using assms(3) by simp
  have "vget 0 (w_AutoRetries w) (pf_Persona p) = int (length (filter (auto_retry_of (pf_Persona p)) evs))"
    using assms(3) by (simp add: replay_AutoRetries)
  then have "vget 0 (w_AutoRetries w) (pf_Persona p) < MaxAutoRetriesPerPersona \<longleftrightarrow>
      (\<forall>e \<in> set evs. \<not> auto_retry_of (pf_Persona p) e)"
    by (simp add: MaxAutoRetriesPerPersona_def filter_empty_conv)
  then show ?thesis using assms(1) failure_table [OF d assms(4,5,2,6)] by simp
qed

lemma required_failure_outcome_witness:
  "map e_Type (snd (Decide sample_rt sample_running (sample_failure FailureKindIdleTimeout))) = [WorkflowRetried] \<and>
   map e_Type (snd (Decide sample_rt sample_running (sample_failure FailureKindHandlerError))) = [WorkflowFailed]"
proof -
  let ?p = "\<lambda>k. zero_failed\<lparr>pf_Persona := ''developer'', pf_FailureKind := k\<rparr>"
  have T: "map e_Type (snd (Decide sample_rt sample_running (sample_failure k))) =
    [if failureKindIsAutoRetryable (?p k) \<and> (\<forall>e \<in> set [sample_started]. \<not> auto_retry_of (pf_Persona (?p k)) e) \<and>
        pf_Persona (?p k) \<in> set (mkeys (wd_Graph DevelopOnlyWorkflowDef)) then WorkflowRetried
     else if pf_FailureKind (?p k) = FailureKindRateLimited \<and> rt_getenv sample_rt ''RICK_RATE_LIMIT_AUTOPAUSE'' \<noteq> ''0'' \<and>
        pf_Persona (?p k) \<in> set (mkeys (wd_Graph DevelopOnlyWorkflowDef)) then WorkflowPaused
     else WorkflowFailed]" for k
    by (rule required_failure_outcome [OF _ _ sample_running_def])
       (simp_all add: sample_defs DevelopOnlyWorkflowDef_def zero_def_def)
  show ?thesis unfolding T by (simp add: failureKindIsAutoRetryable_def auto_retry_of_def sample_defs
      DevelopOnlyWorkflowDef_def zero_def_def mkeys_def)
qed

text \<open>
  A pause that escalates a non-advisory verdict remembers what to resume: whatever
  happens in between short of another pause, resuming emits a FeedbackGenerated for the
  verdict's target on behalf of its source, numbered as the target's next round, and raises
  MaxIterations so that the round is within it.
\<close>

theorem escalation_resumes_same_pair:
  assumes "e_Type env = VerdictRendered" and "as_verdict (e_Payload env) = Some v" and "\<not> v_Advisory v"
    and "v_Persona v \<noteq> []" and "v_SourcePersona v \<noteq> []"
    and "snd (Decide rt w env) = [pause]" and "e_Type pause = WorkflowPaused"
    and "\<forall>e \<in> set mid. e_Type e \<noteq> WorkflowPaused" and "e_Type resume = WorkflowResumed"
    and "w' = replay w (pause # mid)" and "Decide rt' w' resume = (w'', es)"
  shows "\<exists>e fb. es = [e] \<and> e_Type e = FeedbackGenerated \<and> as_feedback (e_Payload e) = Some fb \<and>
     fb_TargetPersona fb = v_Persona v \<and> fb_SourcePersona fb = v_SourcePersona v \<and>
     fb_Iteration fb = mget 0 (w_FeedbackCount w') (v_Persona v) + 1 \<and> fb_Iteration fb \<le> w_MaxIterations w''"
proof -
  have "pause \<in> set (decideVerdictRendered rt w env)" using assms(1,6) by simp
  from escalate_retarget [OF assms(2) this assms(7)] assms(3) obtain r where r:
    "as_paused (e_Payload pause) = Some r" "wp_RetryFromPhase r = []" "wp_RetargetPersona r = v_Persona v"
    "wp_RetargetSource r = v_SourcePersona v" "gating_verdict w v" by auto
  have "isRequiredPersona w' (v_Persona v)"
    using r(5) assms(10) by (simp add: gating_verdict_def isRequired_iff)
  moreover note Apply_paused [OF assms(7) r(1), of w] replay_pending_frame [OF assms(8), of "Apply w pause"]
  ultimately obtain raw where "decideWorkflowResumed rt' w' resume =
      (w'\<lparr>w_MaxIterations := max (w_MaxIterations w') (mget 0 (w_FeedbackCount w') (v_Persona v) + 1)\<rparr>,
       [resume_feedback rt' w' resume (v_Persona v) (v_SourcePersona v) (mget 0 (w_FeedbackCount w') (v_Persona v) + 1) raw])"
    using resume_pending_retarget [of w' "v_Persona v" "v_SourcePersona v" rt' resume] assms(4,5,10) r by auto
  then show ?thesis using assms(9,11) by (auto simp: resume_feedback_def decode_defs)
qed

definition sample_exhausted :: aggregate where
  "sample_exhausted = (attached ''wf'' (Some CIFixWorkflowDef))\<lparr>w_Status := StatusRunning, w_MaxIterations := 0\<rparr>"

lemma escalation_resumes_same_pair_witness:
  "\<exists>pause e. e_Type pause = WorkflowPaused \<and> e_Type e = FeedbackGenerated \<and>
     snd (Decide sample_rt (replay sample_exhausted [pause]) (sample_env WorkflowResumed (POther []))) = [e]"
proof -
  have v: "e_Type sample_verdict_env = VerdictRendered" "as_verdict (e_Payload sample_verdict_env) = Some sample_verdict"
    "\<not> v_Advisory sample_verdict" "v_Persona sample_verdict \<noteq> []" "v_SourcePersona sample_verdict \<noteq> []"
    by (simp_all add: sample_defs)
  have "map e_Type (decideVerdictRendered sample_rt sample_exhausted sample_verdict_env) = [WorkflowPaused]"
    unfolding verdict_table [OF v(2)]
    by (simp add: gating_verdict_def isRequiredPersona_def identical_failure_def
        budget_left_def sample_exhausted_def CIFixWorkflowDef_def zero_def_def sample_defs)
  then obtain pause where p: "snd (Decide sample_rt sample_exhausted sample_verdict_env) = [pause]"
    "e_Type pause = WorkflowPaused" using v(1) by auto
  have r: "e_Type (sample_env WorkflowResumed (POther [])) = WorkflowResumed" by (simp add: sample_env_def)
  obtain w'' es where D: "Decide sample_rt (replay sample_exhausted [pause]) (sample_env WorkflowResumed (POther [])) = (w'', es)"
    by fastforce
  have "\<forall>e \<in> set []. e_Type e \<noteq> WorkflowPaused" by simp
  from escalation_resumes_same_pair [OF v p this r refl D] obtain e where "es = [e]" "e_Type e = FeedbackGenerated"
    by blast
  with p D show ?thesis by (intro exI [of _ pause] exI [of _ e]) simp
qed

text \<open>
  A rate-limit pause remembers the persona to retry: whatever happens in between short
  of another pause, resuming emits a WorkflowRetried from that persona which invalidates the
  persona, everything downstream of it and, in a synchronous workflow, the same for its
  sibling reviewers, and does not count as an automatic retry.
\<close>

theorem rate_limit_resume_retries:
  assumes "e_Type env = PersonaFailed" and "as_failed (e_Payload env) = Some p" and "pf_Persona p \<noteq> []"
    and "w_WorkflowDef w = Some d" and "snd (Decide rt w env) = [pause]" and "e_Type pause = WorkflowPaused"
    and "\<forall>e \<in> set mid. e_Type e \<noteq> WorkflowPaused" and "e_Type resume = WorkflowResumed"
  shows "\<exists>e r. snd (Decide rt' (replay w (pause # mid)) resume) = [e] \<and> e_Type e = WorkflowRetried \<and>
     as_retried (e_Payload e) = Some r \<and> wt_FromPhase r = pf_Persona p \<and> \<not> wt_Automatic r \<and>
     set (wt_InvalidatedPersonas r) =
       (\<Union>s \<in> (if wd_SynchronousFeedback d \<and> pf_Persona p \<in> set (wd_ConsolidatedReviewers d)
              then set (wd_ConsolidatedReviewers d) else {pf_Persona p}).
          {x. (s, x) \<in> (dep_edges (wd_Graph d))\<^sup>*})"
proof -
  let ?w = "replay w (pause # mid)"
  have "pause \<in> set (decidePersonaFailed rt w env)" using assms(1,5) by simp
  then have "maybeRateLimitPause rt w env p = Some pause"
    using assms(2,4,6) maybeEmit_cases [of rt w env]
    by (auto simp: decidePersonaFailed_def Let_def dest: maybeAutoRetry_Some split: option.splits if_splits)
  moreover from this have "pf_Persona p \<in> set (mkeys (wd_Graph d))"
    using assms(4) by (auto simp: maybeRateLimitPause_def set_mkeys split: if_splits)
  ultimately obtain r where r: "as_paused (e_Payload pause) = Some r" "wp_RetryFromPhase r = pf_Persona p"
    "pf_Persona p \<in> set (mkeys (wd_Graph d))"
    using maybeRateLimitPause_Some by (fastforce simp: decode_defs)
  have "w_PendingResumeRetryFromPhase ?w = pf_Persona p"
    using Apply_paused(3) [OF assms(6) r(1), of w] replay_pending_frame(3) [OF assms(7), of "Apply w pause"] r(2)
    by simp
  note D = resume_pending_retry [OF this assms(3) _ r(3), of rt' resume]
  show ?thesis using D assms(4,8)
    by (simp add: decode_defs PersonasToInvalidateFor_set DownstreamOf_set)
qed

lemma rate_limit_resume_retries_witness:
  "\<exists>pause e. e_Type pause = WorkflowPaused \<and> e_Type e = WorkflowRetried \<and>
     snd (Decide sample_rt (replay sample_running [pause]) (sample_env WorkflowResumed (POther []))) = [e]"
proof -
  let ?f = "sample_failure FailureKindRateLimited"
  let ?p = "zero_failed\<lparr>pf_Persona := ''developer'', pf_FailureKind := FailureKindRateLimited\<rparr>"
  have f: "e_Type ?f = PersonaFailed" "as_failed (e_Payload ?f) = Some ?p" "pf_Persona ?p \<noteq> []"
    by (simp_all add: sample_defs)
  have "map e_Type (decidePersonaFailed sample_rt sample_running ?f) = [WorkflowPaused]"
    by (subst failure_table [OF sample_running_simps(2) sample_running_simps(1) _ f(2)])
      (simp_all add: sample_rt_def failureKindIsAutoRetryable_def DevelopOnlyWorkflowDef_def zero_def_def mkeys_def)
  then obtain pause where p: "snd (Decide sample_rt sample_running ?f) = [pause]" "e_Type pause = WorkflowPaused"
    using f(1) by auto
  have r: "e_Type (sample_env WorkflowResumed (POther [])) = WorkflowResumed" by (simp add: sample_env_def)
  have "\<forall>e \<in> set []. e_Type e \<noteq> WorkflowPaused" by simp
  from rate_limit_resume_retries [OF f sample_running_simps(2) p this r, of sample_rt] p
  show ?thesis by (metis (no_types, lifting))
qed

text \<open>
  In the pull-request review a reviewer's failure is absorbed as a skip for every
  category reviewer but one: the failure of pr-correctness, which the workflow fans out to
  like the others, fails the whole review.
\<close>

theorem correctness_reviewer_not_absorbed:
  assumes "w_WorkflowDef w = Some PRReviewWorkflowDef" and "w_Status w = StatusRunning"
    and "e_Type env = PersonaFailed" and "as_failed (e_Payload env) = Some p"
    and "pf_Persona p \<in> set prCategoryReviewers" and "pf_FailureKind p = FailureKindHandlerError"
  shows "WorkflowFailed \<in> set (map e_Type (snd (Decide rt w env))) \<longleftrightarrow> pf_Persona p = ''pr-correctness''"
proof -
  have req: "isRequiredPersona w (pf_Persona p)"
    using assms(1,5) by (auto simp: isRequired_iff PRReviewWorkflowDef_def zero_def_def)
  have "isCategoryReviewer (pf_Persona p) \<longleftrightarrow> pf_Persona p \<noteq> ''pr-correctness''"
  proof -
    have "list_all (\<lambda>r. isCategoryReviewer r \<longleftrightarrow> r \<noteq> ''pr-correctness'') prCategoryReviewers" by code_simp
    then show ?thesis using assms(5) by (simp add: list_all_iff)
  qed
  moreover have "wd_PartialReviewOnFailure PRReviewWorkflowDef"
    by (simp add: PRReviewWorkflowDef_def zero_def_def)
  moreover have "maybeAutoRetry rt w PRReviewWorkflowDef env p = None" "maybeRateLimitPause rt w env p = None"
    using assms(6) by (simp_all add: maybeAutoRetry_def failureKindIsAutoRetryable_def maybeRateLimitPause_def)
  ultimately show ?thesis using assms(1-4) req maybeEmit_cases [of rt w env]
    by (auto simp: decidePersonaFailed_def Let_def)
qed

lemma correctness_reviewer_not_absorbed_witness:
  "WorkflowFailed \<in> set (map e_Type (snd (Decide sample_rt
     ((attached ''wf'' (Some PRReviewWorkflowDef))\<lparr>w_Status := StatusRunning\<rparr>)
     (sample_env PersonaFailed (PPersonaFailed (zero_failed\<lparr>pf_Persona := ''pr-correctness'',
        pf_FailureKind := FailureKindHandlerError\<rparr>))))))"
proof -
  let ?p = "zero_failed\<lparr>pf_Persona := ''pr-correctness'', pf_FailureKind := FailureKindHandlerError\<rparr>"
  have "as_failed (e_Payload (sample_env PersonaFailed (PPersonaFailed ?p))) = Some ?p"
    and "e_Type (sample_env PersonaFailed (PPersonaFailed ?p)) = PersonaFailed"
    by (simp_all add: sample_env_def decode_defs)
  moreover have "pf_Persona ?p \<in> set prCategoryReviewers" "pf_FailureKind ?p = FailureKindHandlerError"
    by (simp_all add: prCategoryReviewers_def)
  ultimately show ?thesis
    by (subst correctness_reviewer_not_absorbed [where p = ?p]) simp_all
qed

end
