(* ===== verification/EventStore.thy ===== *)
theory EventStore imports Aggregate begin

text \<open>
  \<open>internal/eventstore\<close>: the SQLite store as the tables of its schema. A table is
  the list of its rows in rowid order; events are never deleted, so the position of an event
  is its index plus one. A statement that fails in the driver is the \<open>fault\<close> argument,
  whichever statement of the transaction it is: the transaction is rolled back by the deferred
  \<open>Rollback\<close> and the tables are unchanged. The locale \<open>event_log\<close>
  is what the engine relies on (optimistic, contiguous, append-only streams); the SQLite
  model is its interpretation.
\<close>

section \<open>Tables\<close>

datatype store_error =
  ErrConcurrencyConflict | ErrSnapshotNotFound | ErrEventNotFound | ErrNotFound | ErrDriver | ErrUnmarshal

text \<open>
  A snapshot's state is a JSON blob. It is represented by what \<open>json.Unmarshal\<close> makes
  of it: the aggregate that results from decoding it over a given one, or an error.
\<close>

record snapshot =
  sn_Version :: int
  sn_State :: "aggregate \<Rightarrow> aggregate option"

record dead_letter =
  dl_ID :: string
  dl_EventID :: string
  dl_Handler :: string
  dl_Error :: string
  dl_Attempts :: int
  dl_FailedAt :: string

record store =
  st_events :: "envelope list"
  st_snapshots :: "string \<rightharpoonup> snapshot"
  st_dead_letters :: "dead_letter list"
  st_tags :: "(string \<times> string \<times> string) list"
  st_queue :: "(string \<times> envelope \<times> int) list"

definition empty_store :: store where
  "empty_store = \<lparr>st_events = [], st_snapshots = Map.empty, st_dead_letters = [], st_tags = [], st_queue = []\<rparr>"

section \<open>Events\<close>

definition rows_of :: "store \<Rightarrow> string \<Rightarrow> envelope list" where
  "rows_of st a = filter (\<lambda>e. e_AggregateID e = a) (st_events st)"

text \<open>\<open>COALESCE(MAX(version), 0)\<close>.\<close>

definition current_version :: "store \<Rightarrow> string \<Rightarrow> int" where
  "current_version st a = (let vs = map e_Version (rows_of st a) in if vs = [] then 0 else Max (set vs))"

text \<open>The insert loop; both UNIQUE constraints are checked on every row.\<close>

fun insert_rows :: "string \<Rightarrow> int \<Rightarrow> envelope list \<Rightarrow> envelope list \<Rightarrow> store_error + envelope list" where
  "insert_rows a version [] rows = Inr rows"
| "insert_rows a version (e # es) rows =
     (if list_ex (\<lambda>r. e_ID r = e_ID e \<or> e_AggregateID r = a \<and> e_Version r = version) rows
      then Inl ErrConcurrencyConflict
      else insert_rows a (version + 1) es (rows @ [e\<lparr>e_AggregateID := a, e_Version := version\<rparr>]))"

definition Append :: "bool \<Rightarrow> string \<Rightarrow> int \<Rightarrow> envelope list \<Rightarrow> store \<Rightarrow> store_error + store" where
  "Append fault aggregateID expectedVersion events st =
     (if events = [] then Inr st
      else if fault then Inl ErrDriver
      else if current_version st aggregateID \<noteq> expectedVersion then Inl ErrConcurrencyConflict
      else case insert_rows aggregateID (expectedVersion + 1) events (st_events st) of
          Inl err \<Rightarrow> Inl err
        | Inr rows \<Rightarrow> Inr (st\<lparr>st_events := rows\<rparr>))"

definition Load :: "store \<Rightarrow> string \<Rightarrow> envelope list" where
  "Load st aggregateID = sort_key e_Version (rows_of st aggregateID)"

definition LoadFrom :: "store \<Rightarrow> string \<Rightarrow> int \<Rightarrow> envelope list" where
  "LoadFrom st aggregateID fromVersion =
     sort_key e_Version (filter (\<lambda>e. e_Version e \<ge> fromVersion) (rows_of st aggregateID))"

definition LoadByCorrelation :: "store \<Rightarrow> string \<Rightarrow> envelope list" where
  "LoadByCorrelation st c = filter (\<lambda>e. e_CorrelationID e = c) (st_events st)"

definition positioned :: "envelope list \<Rightarrow> (int \<times> envelope) list" where
  "positioned rows = zip (map int [1..<Suc (length rows)]) rows"

definition LoadAll :: "store \<Rightarrow> int \<Rightarrow> int \<Rightarrow> (int \<times> envelope) list" where
  "LoadAll st afterPosition limit =
     (let rows = filter (\<lambda>(pos, e). pos > afterPosition) (positioned (st_events st))
      in if limit > 0 then take (nat limit) rows else rows)"

definition LoadEvent :: "store \<Rightarrow> string \<Rightarrow> store_error + envelope" where
  "LoadEvent st i = (case List.find (\<lambda>e. e_ID e = i) (st_events st) of
      None \<Rightarrow> Inl ErrEventNotFound | Some e \<Rightarrow> Inr e)"

section \<open>Snapshots, dead letters and tags\<close>

definition SaveSnapshot :: "string \<Rightarrow> snapshot \<Rightarrow> store \<Rightarrow> store" where
  "SaveSnapshot a sn st = st\<lparr>st_snapshots := (st_snapshots st)(a \<mapsto> sn)\<rparr>"

definition LoadSnapshot :: "store \<Rightarrow> string \<Rightarrow> store_error + snapshot" where
  "LoadSnapshot st a = (case st_snapshots st a of None \<Rightarrow> Inl ErrSnapshotNotFound | Some sn \<Rightarrow> Inr sn)"

text \<open>\<open>id\<close> is the primary key of the table.\<close>

definition RecordDeadLetter :: "dead_letter \<Rightarrow> store \<Rightarrow> store_error + store" where
  "RecordDeadLetter dl st =
     (if list_ex (\<lambda>d. dl_ID d = dl_ID dl) (st_dead_letters st) then Inl ErrDriver
      else Inr (st\<lparr>st_dead_letters := st_dead_letters st @ [dl]\<rparr>))"

definition LoadDeadLetters :: "store \<Rightarrow> dead_letter list" where
  "LoadDeadLetters st = sort_key dl_FailedAt (st_dead_letters st)"

definition DeleteDeadLetter :: "string \<Rightarrow> store \<Rightarrow> store_error + store" where
  "DeleteDeadLetter i st =
     (if list_ex (\<lambda>d. dl_ID d = i) (st_dead_letters st)
      then Inr (st\<lparr>st_dead_letters := filter (\<lambda>d. dl_ID d \<noteq> i) (st_dead_letters st)\<rparr>)
      else Inl ErrNotFound)"

definition SaveTags :: "string \<Rightarrow> (string, string) gomap \<Rightarrow> store \<Rightarrow> store" where
  "SaveTags c tags st = (if tags = [] then st
     else st\<lparr>st_tags := foldl (\<lambda>rows (k, v). if (c, k, v) \<in> set rows then rows else rows @ [(c, k, v)])
              (st_tags st) tags\<rparr>)"

definition LoadByTag :: "store \<Rightarrow> string \<Rightarrow> string \<Rightarrow> string list" where
  "LoadByTag st key val = sort (remdups (map fst (filter (\<lambda>(c, k, v). k = key \<and> v = val) (st_tags st))))"

section \<open>The durable workflow queue\<close>

definition EnqueueWorkflow :: "envelope \<Rightarrow> store \<Rightarrow> store" where
  "EnqueueWorkflow env st =
     (if list_ex (\<lambda>(a, e, t). a = e_AggregateID env) (st_queue st) then st
      else st\<lparr>st_queue := st_queue st @ [(e_AggregateID env, env, e_Timestamp env)]\<rparr>)"

definition DequeueWorkflow :: "store \<Rightarrow> (envelope \<times> bool) option \<times> store" where
  "DequeueWorkflow st = (case sort_key (\<lambda>(a, e, t). t) (st_queue st) of
      [] \<Rightarrow> (None, st)
    | (a, e, t) # rest \<Rightarrow> (Some (e, True), st\<lparr>st_queue := filter (\<lambda>(a', e', t'). a' \<noteq> a) (st_queue st)\<rparr>))"

definition DeleteQueuedWorkflow :: "string \<Rightarrow> store \<Rightarrow> store" where
  "DeleteQueuedWorkflow a st = st\<lparr>st_queue := filter (\<lambda>(a', e, t). a' \<noteq> a) (st_queue st)\<rparr>"

definition LoadQueuedWorkflows_db :: "store \<Rightarrow> envelope list" where
  "LoadQueuedWorkflows_db st = map (\<lambda>(a, e, t). e) (sort_key (\<lambda>(a, e, t). t) (st_queue st))"

section \<open>The event log contract\<close>

text \<open>The rows an append of \<open>es\<close> at version \<open>v\<close> adds to the stream.\<close>

definition numbered :: "string \<Rightarrow> int \<Rightarrow> envelope list \<Rightarrow> envelope list" where
  "numbered a v es = map (\<lambda>(i, e). e\<lparr>e_AggregateID := a, e_Version := v + int i + 1\<rparr>)
     (zip [0..<length es] es)"

lemma numbered_Nil [simp]: "numbered a v [] = []"
  by (simp add: numbered_def)

lemma length_numbered [simp]: "length (numbered a v es) = length es"
  by (simp add: numbered_def)

lemma numbered_Cons: "numbered a v (e # es) = e\<lparr>e_AggregateID := a, e_Version := v + 1\<rparr> # numbered a (v + 1) es"
  by (simp add: numbered_def upt_conv_Cons zip_map1 map_Suc_upt [symmetric] comp_def split_def ac_simps
      del: upt_Suc)

lemma numbered_versions: "map e_Version (numbered a v es) = map (\<lambda>i. v + int i + 1) [0..<length es]"
  by (rule nth_equalityI) (simp_all add: numbered_def)

text \<open>The versions 1, 2, ..., n.\<close>

definition first_versions :: "nat \<Rightarrow> int list" where
  "first_versions n = map (\<lambda>i. int i + 1) [0..<n]"

lemma first_versions_append:
  "first_versions n @ map (\<lambda>i. int n + int i + 1) [0..<m] = first_versions (n + m)"
  by (rule nth_equalityI) (auto simp: first_versions_def nth_append)

lemma length_first_versions [simp]: "length (first_versions n) = n"
  by (simp add: first_versions_def)

lemma first_versions_Nil [simp]: "first_versions n = [] \<longleftrightarrow> n = 0"
  by (simp add: first_versions_def)

lemma last_first_versions: "n > 0 \<Longrightarrow> last (first_versions n) = int n"
  by (cases n) (simp_all add: first_versions_def)

lemma sorted_first_versions: "sorted (first_versions n)"
  by (simp add: first_versions_def sorted_iff_nth_mono)

lemma Max_first_versions: "n > 0 \<Longrightarrow> Max (set (first_versions n)) = int n"
  using last_first_versions [of n]
  by (intro Max_eqI) (auto simp: first_versions_def image_iff intro: bexI [of _ "n - 1"])

lemma numbered_aggregate: "e \<in> set (numbered a v es) \<Longrightarrow> e_AggregateID e = a"
  by (auto simp: numbered_def)

lemma numbered_ids [simp]: "map e_ID (numbered a v es) = map e_ID es"
  by (induction es arbitrary: v) (simp_all add: numbered_Cons)

text \<open>An event that already carries its slot is stored as it is.\<close>

lemma numbered_id:
  "\<forall>i < length es. e_AggregateID (es ! i) = a \<and> e_Version (es ! i) = v + int i + 1 \<Longrightarrow> numbered a v es = es"
proof (induction es arbitrary: v)
  case (Cons e es)
  have "numbered a (v + 1) es = es"
    using Cons.prems by (intro Cons.IH) (fastforce dest: spec [of _ "Suc _"])
  moreover have "e\<lparr>e_AggregateID := a, e_Version := v + 1\<rparr> = e"
    using Cons.prems by (cases e) fastforce
  ultimately show ?case by (simp add: numbered_Cons)
qed simp

locale event_log =
  fixes valid :: "'s \<Rightarrow> bool"
    and append :: "string \<Rightarrow> int \<Rightarrow> envelope list \<Rightarrow> 's \<Rightarrow> store_error + 's"
    and load :: "'s \<Rightarrow> string \<Rightarrow> envelope list"
  assumes valid_append: "valid s \<Longrightarrow> append a v es s = Inr s' \<Longrightarrow> valid s'"
    and append_load: "valid s \<Longrightarrow> append a v es s = Inr s' \<Longrightarrow>
      load s' b = (if b = a then load s a @ numbered a v es else load s b)"
    and append_at: "valid s \<Longrightarrow> es \<noteq> [] \<Longrightarrow> append a v es s = Inr s' \<Longrightarrow> v = int (length (load s a))"
    and load_versions: "valid s \<Longrightarrow> map e_Version (load s a) = first_versions (length (load s a))"
begin

lemma last_version: "valid s \<Longrightarrow> load s a \<noteq> [] \<Longrightarrow> e_Version (last (load s a)) = int (length (load s a))"
proof -
  assume "valid s" "load s a \<noteq> []"
  then have "e_Version (last (load s a)) = last (first_versions (length (load s a)))"
    using load_versions [of s a] by (metis last_map)
  then show ?thesis using \<open>load s a \<noteq> []\<close> by (simp add: last_first_versions)
qed

text \<open>Streams only grow, and a stream is a prefix of every later state of it.\<close>

lemma append_only: "valid s \<Longrightarrow> append a v es s = Inr s' \<Longrightarrow> prefix (load s b) (load s' b)"
  by (simp add: append_load)

text \<open>Of two writers that read the same version at most one succeeds.\<close>

lemma second_writer_conflicts:
  assumes "valid s" "es \<noteq> []" "es' \<noteq> []" "append a v es s = Inr s'" "append a v es' s' = Inr s''"
  shows False
proof -
  have "v = int (length (load s a))" using assms by (intro append_at)
  moreover have "v = int (length (load s' a))"
    using assms valid_append by (intro append_at) auto
  moreover have "length (load s' a) = length (load s a) + length es"
    using append_load [OF assms(1,4), of a] by simp
  ultimately show False using assms(2) by simp
qed

end

section \<open>The SQLite store implements it\<close>

text \<open>The invariant of the events table: per aggregate the versions are 1, 2, 3, ... in rowid order.\<close>

definition store_ok :: "store \<Rightarrow> bool" where
  "store_ok st \<longleftrightarrow> distinct (map e_ID (st_events st)) \<and>
     (\<forall>a. map e_Version (rows_of st a) = first_versions (length (rows_of st a)))"

lemma store_ok_empty: "store_ok empty_store"
  by (simp add: store_ok_def empty_store_def rows_of_def first_versions_def)

lemma insert_rows_Inr:
  "insert_rows a v es rows = Inr rows' \<Longrightarrow> rows' = rows @ numbered a (v - 1) es \<and>
     distinct (map e_ID es) \<and> set (map e_ID es) \<inter> set (map e_ID rows) = {}"
proof (induction es arbitrary: v rows)
  case Nil
  then show ?case by simp
next
  case (Cons e es)
  let ?rows = "rows @ [e\<lparr>e_AggregateID := a, e_Version := v\<rparr>]"
  from Cons.prems have fresh: "e_ID e \<notin> set (map e_ID rows)"
    and rec: "insert_rows a (v + 1) es ?rows = Inr rows'"
    by (auto simp: list_ex_iff split: if_splits)
  from Cons.IH [OF rec] fresh show ?case by (simp add: numbered_Cons)
qed

lemma insert_rows_succeeds:
  assumes "distinct (map e_ID es)" "set (map e_ID es) \<inter> set (map e_ID rows) = {}"
    and "\<forall>r \<in> set rows. e_AggregateID r = a \<longrightarrow> e_Version r < v"
  shows "\<exists>rows'. insert_rows a v es rows = Inr rows'"
  using assms
proof (induction es arbitrary: v rows)
  case (Cons e es)
  let ?rows = "rows @ [e\<lparr>e_AggregateID := a, e_Version := v\<rparr>]"
  have fresh: "e_ID r \<noteq> e_ID e \<and> (e_AggregateID r = a \<longrightarrow> e_Version r \<noteq> v)" if "r \<in> set rows" for r
  proof -
    have "e_ID e \<notin> set (map e_ID rows)" using Cons.prems(2) by auto
    with that have "e_ID r \<noteq> e_ID e" by (metis image_eqI list.set_map)
    with that Cons.prems(3) show ?thesis by fastforce
  qed
  have "\<exists>rows'. insert_rows a (v + 1) es ?rows = Inr rows'"
  proof (rule Cons.IH)
    show "distinct (map e_ID es)" using Cons.prems(1) by simp
    show "set (map e_ID es) \<inter> set (map e_ID ?rows) = {}" using Cons.prems(1,2) by auto
    show "\<forall>r \<in> set ?rows. e_AggregateID r = a \<longrightarrow> e_Version r < v + 1"
      using Cons.prems(3) by (auto intro: less_trans)
  qed
  then show ?case using fresh by (auto simp: list_ex_iff)
qed simp

lemma sorted_rows: "store_ok st \<Longrightarrow> sorted (map e_Version (rows_of st a))"
  by (simp add: store_ok_def sorted_first_versions)

lemma Load_rows: "store_ok st \<Longrightarrow> Load st a = rows_of st a"
  using sorted_rows [of st a] by (simp add: Load_def sort_key_id_if_sorted)

lemma current_version_length: "store_ok st \<Longrightarrow> current_version st a = int (length (rows_of st a))"
proof -
  assume "store_ok st"
  then have v: "map e_Version (rows_of st a) = first_versions (length (rows_of st a))"
    by (simp add: store_ok_def)
  show ?thesis
    by (cases "rows_of st a = []") (simp_all add: current_version_def Let_def v Max_first_versions)
qed

lemma rows_of_append:
  "rows_of (st\<lparr>st_events := st_events st @ numbered a v es\<rparr>) b =
     (if b = a then rows_of st a @ numbered a v es else rows_of st b)"
proof -
  have "filter (\<lambda>e. e_AggregateID e = b) (numbered a v es) = (if b = a then numbered a v es else [])"
    using numbered_aggregate [of _ a v es] by (auto simp: filter_empty_conv intro: filter_True)
  then show ?thesis by (simp add: rows_of_def)
qed

lemma Append_Inr:
  assumes "Append flt a v es st = Inr st'" and "store_ok st" and "es \<noteq> []"
  shows "st' = st\<lparr>st_events := st_events st @ numbered a v es\<rparr>" "v = int (length (rows_of st a))"
    "distinct (map e_ID es)" "set (map e_ID es) \<inter> set (map e_ID (st_events st)) = {}"
proof -
  have "v = current_version st a \<and> (\<exists>rows. insert_rows a (v + 1) es (st_events st) = Inr rows \<and>
      st' = st\<lparr>st_events := rows\<rparr>)"
    using assms(1,3) unfolding Append_def by (simp split: if_splits sum.splits)
  then obtain rows where rows: "insert_rows a (v + 1) es (st_events st) = Inr rows" "st' = st\<lparr>st_events := rows\<rparr>"
    "v = int (length (rows_of st a))"
    using current_version_length [OF assms(2)] by auto
  from insert_rows_Inr [OF rows(1)] rows(2,3)
  show "st' = st\<lparr>st_events := st_events st @ numbered a v es\<rparr>" "v = int (length (rows_of st a))"
    "distinct (map e_ID es)" "set (map e_ID es) \<inter> set (map e_ID (st_events st)) = {}" by simp_all
qed

lemma store_ok_Append:
  assumes "Append flt a v es st = Inr st'" and "store_ok st"
  shows "store_ok st'"
proof (cases "es = []")
  case True
  with assms show ?thesis by (simp add: Append_def)
next
  case False
  note A = Append_Inr [OF assms False]
  have "map e_Version (rows_of st' b) = first_versions (length (rows_of st' b))" for b
  proof (cases "b = a")
    case True
    have "map e_Version (rows_of st a) = first_versions (length (rows_of st a))"
      using assms(2) by (simp add: store_ok_def)
    then show ?thesis using True A(1,2)
      by (simp add: rows_of_append numbered_versions first_versions_append)
  next
    case False
    then show ?thesis using A(1) assms(2) by (simp add: rows_of_append store_ok_def)
  qed
  moreover have "distinct (map e_ID (st_events st'))"
    using A(1,3,4) assms(2) by (auto simp: store_ok_def)
  ultimately show ?thesis by (simp add: store_ok_def)
qed

interpretation sqlite: event_log store_ok "Append flt" Load
proof
  fix s a v es s' b
  assume ok: "store_ok s" and ap: "Append flt a v es s = Inr s'"
  show ok': "store_ok s'" using ap ok by (rule store_ok_Append)
  show "Load s' b = (if b = a then Load s a @ numbered a v es else Load s b)"
  proof (cases "es = []")
    case True
    with ap show ?thesis by (simp add: Append_def)
  next
    case False
    have "Load s' b = rows_of s' b" "Load s b = rows_of s b" "Load s a = rows_of s a"
      using ok ok' by (simp_all add: Load_rows)
    with Append_Inr(1) [OF ap ok False] show ?thesis by (simp add: rows_of_append)
  qed
next
  fix s a v es s'
  assume "store_ok s" "es \<noteq> []" "Append flt a v es s = Inr s'"
  then show "v = int (length (Load s a))" by (simp add: Load_rows Append_Inr(2))
next
  fix s a
  assume "store_ok s"
  then show "map e_Version (Load s a) = first_versions (length (Load s a))"
    by (simp add: Load_rows store_ok_def)
qed

section \<open>Reading part of a stream\<close>

lemma filter_from_versions:
  "map e_Version rows = first_versions (length rows) \<Longrightarrow>
     filter (\<lambda>e. e_Version e \<ge> int n + 1) rows = drop n rows"
proof (induction rows rule: rev_induct)
  case (snoc e rows)
  have split: "first_versions (Suc m) = first_versions m @ [int m + 1]" for m
    by (simp add: first_versions_def)
  from snoc.prems have "map e_Version rows = first_versions (length rows)" "e_Version e = int (length rows) + 1"
    by (simp_all add: split)
  with snoc.IH show ?case by simp
qed simp

lemma LoadFrom_drop: "store_ok st \<Longrightarrow> LoadFrom st a (int n + 1) = drop n (Load st a)"
proof -
  assume ok: "store_ok st"
  then have "map e_Version (rows_of st a) = first_versions (length (rows_of st a))" by (simp add: store_ok_def)
  then have F: "filter (\<lambda>e. e_Version e \<ge> int n + 1) (rows_of st a) = drop n (rows_of st a)"
    by (rule filter_from_versions)
  have "sorted (map e_Version (drop n (rows_of st a)))"
    using sorted_rows [OF ok, of a] by (simp add: drop_map [symmetric] sorted_wrt_drop)
  then show ?thesis by (simp add: LoadFrom_def F Load_rows ok sort_key_id_if_sorted)
qed

lemma positioned_filter:
  "filter (\<lambda>(pos, e). pos > int n) (positioned rows) = drop n (positioned rows)"
proof -
  have "filter (\<lambda>(pos, e). pos > int n) (zip (map int [Suc k..<Suc k + length rows]) rows) =
      drop (n - k) (zip (map int [Suc k..<Suc k + length rows]) rows)" for k
  proof (induction rows arbitrary: k)
    case (Cons r rows)
    have up: "[Suc k..<Suc k + length (r # rows)] = Suc k # [Suc (Suc k)..<Suc (Suc k) + length rows]"
      by (simp add: upt_conv_Cons del: upt_Suc)
    show ?case
    proof (cases "n \<le> k")
      case True
      then have "int n < int (Suc k)" and "n - k = 0" "n - Suc k = 0" by simp_all
      with Cons.IH [of "Suc k"] show ?thesis unfolding up by simp
    next
      case False
      then obtain m where m: "n - k = Suc m" "n - Suc k = m" by (metis Suc_diff_Suc not_le)
      from False have "\<not> int n < int (Suc k)" by simp
      with Cons.IH [of "Suc k"] m show ?thesis unfolding up by simp
    qed
  qed simp
  from this [of 0] show ?thesis by (simp add: positioned_def del: upt_Suc)
qed

lemma LoadAll_drop: "LoadAll st (int n) 0 = drop n (positioned (st_events st))"
  by (simp add: LoadAll_def positioned_filter)

lemma LoadAll_page: "l > 0 \<Longrightarrow> LoadAll st (int n) l = take (nat l) (drop n (positioned (st_events st)))"
  by (simp add: LoadAll_def positioned_filter)

section \<open>Properties\<close>

text \<open>
  C8. Append is atomic and optimistic: on a consistent store, appending events at an
  expected version either puts all of them, numbered from that version on, at the end of the
  aggregate's stream and leaves every other stream alone, which happens when the version is
  the stream's length and the ids are new; or it reports a concurrency conflict.
\<close>

theorem append_atomic_optimistic:
  assumes "store_ok st" and "es \<noteq> []"
  shows "case Append False a v es st of
     Inr st' \<Rightarrow> v = int (length (Load st a)) \<and> distinct (map e_ID es) \<and>
       set (map e_ID es) \<inter> set (map e_ID (st_events st)) = {} \<and> store_ok st' \<and>
       Load st' a = Load st a @ numbered a v es \<and> (\<forall>b. b \<noteq> a \<longrightarrow> Load st' b = Load st b)
   | Inl err \<Rightarrow> err = ErrConcurrencyConflict \<and> \<not> (v = int (length (Load st a)) \<and> distinct (map e_ID es) \<and>
       set (map e_ID es) \<inter> set (map e_ID (st_events st)) = {})"
proof (cases "Append False a v es st")
  case (Inr st')
  from sqlite.append_load [OF assms(1) Inr] Append_Inr(2-4) [OF Inr assms] store_ok_Append [OF Inr assms(1)]
    Load_rows [OF assms(1), of a]
  show ?thesis unfolding Inr sum.case by simp
next
  case (Inl err)
  have conflict: "insert_rows a n es rows \<noteq> Inl err \<or> err = ErrConcurrencyConflict" for n es rows
    by (induction a n es rows rule: insert_rows.induct) auto
  then have e: "err = ErrConcurrencyConflict"
    using Inl assms(2) by (auto simp: Append_def split: if_splits sum.splits)
  have "\<not> (v = int (length (Load st a)) \<and> distinct (map e_ID es) \<and>
       set (map e_ID es) \<inter> set (map e_ID (st_events st)) = {})"
  proof
    assume H: "v = int (length (Load st a)) \<and> distinct (map e_ID es) \<and>
       set (map e_ID es) \<inter> set (map e_ID (st_events st)) = {}"
    have "e_Version r < v + 1" if "r \<in> set (st_events st)" "e_AggregateID r = a" for r
    proof -
      from that have "r \<in> set (rows_of st a)" by (simp add: rows_of_def)
      then have "e_Version r \<in> set (first_versions (length (rows_of st a)))"
        using assms(1) by (metis image_eqI list.set_map store_ok_def)
      then show ?thesis using H assms(1) by (auto simp: first_versions_def Load_rows)
    qed
    then obtain rows' where "insert_rows a (v + 1) es (st_events st) = Inr rows'"
      using H insert_rows_succeeds [of es "st_events st" a "v + 1"] by blast
    then have "Append False a v es st = Inr (st\<lparr>st_events := rows'\<rparr>)"
      using H assms by (simp add: Append_def current_version_length Load_rows)
    with Inl show False by simp
  qed
  with e show ?thesis by (simp add: Inl)
qed

definition sample_store :: store where
  "sample_store = empty_store\<lparr>st_events := [(sample_env WorkflowRequested
     (PWorkflowRequested (zero_requested\<lparr>wr_WorkflowID := ''develop-only''\<rparr>)))\<lparr>e_ID := ''e0''\<rparr>]\<rparr>"

lemma sample_store_ok: "store_ok sample_store"
  by (simp add: store_ok_def sample_store_def rows_of_def first_versions_def sample_env_def empty_store_def)

lemma append_atomic_optimistic_witness:
  "\<exists>st'. Append False ''wf'' 1 [sample_feedback] sample_store = Inr st' \<and> length (Load st' ''wf'') = 2 \<and>
     Append False ''wf'' 0 [sample_feedback] sample_store = Inl ErrConcurrencyConflict"
proof -
  have L: "Load sample_store ''wf'' = st_events sample_store" and n: "length (st_events sample_store) = 1"
    by (simp_all add: Load_rows sample_store_ok, simp_all add: rows_of_def sample_store_def sample_env_def)
  note T = append_atomic_optimistic [OF sample_store_ok, where es = "[sample_feedback]" and a = "''wf''"]
  from T [where v = 1] L n obtain st' where st': "Append False ''wf'' 1 [sample_feedback] sample_store = Inr st'"
    by (cases "Append False ''wf'' 1 [sample_feedback] sample_store")
      (auto simp: sample_feedback_def sample_env_def sample_store_def empty_store_def)
  moreover have "length (Load st' ''wf'') = 2" using T [where v = 1] st' L n by simp
  moreover have "Append False ''wf'' 0 [sample_feedback] sample_store = Inl ErrConcurrencyConflict"
    using T [where v = 0] L n by (cases "Append False ''wf'' 0 [sample_feedback] sample_store") auto
  ultimately show ?thesis by blast
qed

text \<open>
  Of two writers that read the same version of a stream and append to it one after the
  other, the second one fails, whatever the aggregate, the events and the driver faults.
\<close>

theorem stale_writer_fails:
  assumes "store_ok st" and "es \<noteq> []" and "es' \<noteq> []" and "Append flt a v es st = Inr st'"
  shows "\<exists>err. Append flt a v es' st' = Inl err"
  using sqlite.second_writer_conflicts [OF assms] by (metis sum.exhaust)

lemma stale_writer_fails_witness:
  "\<exists>st' err. Append False ''wf'' 1 [sample_feedback] sample_store = Inr st' \<and>
     Append False ''wf'' 1 [sample_completed ''qa''] st' = Inl err"
proof -
  have "Append False ''wf'' 1 [sample_feedback] sample_store =
      Inr (sample_store\<lparr>st_events := st_events sample_store @ [sample_feedback\<lparr>e_AggregateID := ''wf'', e_Version := 2\<rparr>]\<rparr>)"
    by (simp add: Append_def current_version_def rows_of_def sample_store_def sample_feedback_def sample_env_def
        empty_store_def)
  from stale_writer_fails [OF sample_store_ok _ _ this, of "[sample_completed ''qa'']"] this
  show ?thesis by blast
qed

end
