(* ===== verification/Throttle.thy ===== *)
theory Throttle imports EventStore begin

text \<open>
  \<open>internal/engine/throttle.go\<close>: the limit on concurrently running workflows, its
  in-memory FIFO queue and the mirror of that queue in the \<open>workflow_queue\<close> table.
  Operations that touch the table take the store and return it; \<open>fault\<close> says that the
  driver call failed, which the code logs and passes over. \<open>now\<close> is \<open>time.Now()\<close>.
\<close>

record throttle =
  th_max :: int
  th_running :: "(string, unit) gomap"
  th_lastActivity :: "string \<rightharpoonup> int"
  th_queued :: "envelope list"
  th_durable :: bool
  th_stalledTotal :: int

definition newWorkflowThrottle :: "int \<Rightarrow> bool \<Rightarrow> throttle" where
  "newWorkflowThrottle m durable = \<lparr>th_max = m, th_running = [], th_lastActivity = Map.empty,
     th_queued = [], th_durable = durable, th_stalledTotal = 0\<rparr>"

definition shouldQueue :: "throttle \<Rightarrow> bool" where
  "shouldQueue t = (if th_max t \<le> 0 then False else int (length (th_running t)) \<ge> th_max t)"

definition enqueue :: "bool \<Rightarrow> envelope \<Rightarrow> throttle \<times> store \<Rightarrow> throttle \<times> store" where
  "enqueue fault env = (\<lambda>(t, st).
     (t\<lparr>th_queued := th_queued t @ [env]\<rparr>,
      if th_durable t \<and> \<not> fault then EnqueueWorkflow env st else st))"

definition dequeue :: "bool \<Rightarrow> throttle \<times> store \<Rightarrow> (envelope \<times> throttle \<times> store) option" where
  "dequeue fault = (\<lambda>(t, st). case th_queued t of
      [] \<Rightarrow> None
    | env # rest \<Rightarrow> Some (env, t\<lparr>th_queued := rest\<rparr>,
        if th_durable t \<and> \<not> fault then DeleteQueuedWorkflow (e_AggregateID env) st else st))"

definition addRunning :: "int \<Rightarrow> string \<Rightarrow> throttle \<Rightarrow> throttle" where
  "addRunning now a t = t\<lparr>th_running := mput (th_running t) a (),
     th_lastActivity := (th_lastActivity t)(a \<mapsto> now)\<rparr>"

definition removeRunning :: "string \<Rightarrow> throttle \<Rightarrow> bool \<times> throttle" where
  "removeRunning a t = (if map_of (th_running t) a \<noteq> None
     then (True, t\<lparr>th_running := mdel (th_running t) a, th_lastActivity := (th_lastActivity t)(a := None)\<rparr>)
     else (False, t))"

definition touchActivity :: "int \<Rightarrow> string \<Rightarrow> throttle \<Rightarrow> throttle" where
  "touchActivity now a t = (if map_of (th_running t) a = None then t
     else t\<lparr>th_lastActivity := (th_lastActivity t)(a \<mapsto> now)\<rparr>)"

text \<open>The zero \<open>time.Time\<close>, in Unix nanoseconds.\<close>

definition zero_time :: int where
  "zero_time = - 62135596800 * 10 ^ 9"

definition stalledEntries :: "int \<Rightarrow> int \<Rightarrow> throttle \<Rightarrow> string list" where
  "stalledEntries threshold now t = (if threshold \<le> 0 \<or> length (th_running t) = 0 then []
     else let cutoff = now - threshold
       in filter (\<lambda>i. vget zero_time (th_lastActivity t) i < cutoff) (mkeys (th_running t)))"

definition markStalled :: "string \<Rightarrow> throttle \<Rightarrow> throttle" where
  "markStalled a t = (case removeRunning a t of (freed, t') \<Rightarrow>
     if freed then t'\<lparr>th_stalledTotal := th_stalledTotal t' + 1\<rparr> else t')"

text \<open>Removes the first queued request of the aggregate.\<close>

fun remove_first :: "string \<Rightarrow> envelope list \<Rightarrow> envelope list" where
  "remove_first a [] = []"
| "remove_first a (e # es) = (if e_AggregateID e = a then es else e # remove_first a es)"

definition removeQueued :: "bool \<Rightarrow> string \<Rightarrow> throttle \<times> store \<Rightarrow> bool \<times> throttle \<times> store" where
  "removeQueued fault a = (\<lambda>(t, st).
     (list_ex (\<lambda>e. e_AggregateID e = a) (th_queued t),
      t\<lparr>th_queued := remove_first a (th_queued t)\<rparr>,
      if th_durable t \<and> \<not> fault then DeleteQueuedWorkflow a st else st))"

definition warmRunning :: "int \<Rightarrow> string list \<Rightarrow> throttle \<Rightarrow> throttle" where
  "warmRunning now ids t = foldl (\<lambda>t a. addRunning now a t) t ids"

definition warmQueued :: "envelope list \<Rightarrow> throttle \<Rightarrow> throttle" where
  "warmQueued envs t = t\<lparr>th_queued := envs\<rparr>"

definition runningCount :: "throttle \<Rightarrow> nat" where
  "runningCount t = length (th_running t)"

definition queuedCount :: "throttle \<Rightarrow> nat" where
  "queuedCount t = length (th_queued t)"

section \<open>The slots\<close>

text \<open>A running workflow has an activity stamp and only running ones do.\<close>

definition throttle_ok :: "throttle \<Rightarrow> bool" where
  "throttle_ok t \<longleftrightarrow> distinct (mkeys (th_running t)) \<and> dom (th_lastActivity t) = set (mkeys (th_running t))"

lemma throttle_ok_new: "throttle_ok (newWorkflowThrottle m d)"
  by (simp add: throttle_ok_def newWorkflowThrottle_def mkeys_def)

lemma throttle_ok_addRunning: "throttle_ok t \<Longrightarrow> throttle_ok (addRunning now a t)"
  by (simp add: throttle_ok_def addRunning_def)

lemma throttle_ok_removeRunning: "throttle_ok t \<Longrightarrow> throttle_ok (snd (removeRunning a t))"
  by (auto simp: throttle_ok_def removeRunning_def)

lemma throttle_ok_touch: "throttle_ok t \<Longrightarrow> throttle_ok (touchActivity now a t)"
  by (auto simp: throttle_ok_def touchActivity_def set_mkeys)

lemma throttle_ok_markStalled: "throttle_ok t \<Longrightarrow> throttle_ok (markStalled a t)"
  using throttle_ok_removeRunning [of t a]
  by (simp add: markStalled_def split_def throttle_ok_def)

lemma throttle_ok_warm: "throttle_ok t \<Longrightarrow> throttle_ok (warmRunning now ids t)"
  by (induction ids arbitrary: t) (simp_all add: warmRunning_def throttle_ok_addRunning)

lemma throttle_ok_queue [simp]: "throttle_ok (t\<lparr>th_queued := q\<rparr>) = throttle_ok t"
  by (simp add: throttle_ok_def)

lemma running_addRunning_le:
  "throttle_ok t \<Longrightarrow> length (th_running (addRunning now a t)) \<le> Suc (length (th_running t))"
  by (simp add: addRunning_def throttle_ok_def length_mput_le)

lemma running_removeRunning_le: "length (th_running (snd (removeRunning a t))) \<le> length (th_running t)"
  by (simp add: removeRunning_def length_mdel_le)

lemma running_touch [simp]: "th_running (touchActivity now a t) = th_running t"
  by (simp add: touchActivity_def)

lemma removeRunning_max [simp]: "th_max (snd (removeRunning a t)) = th_max t"
  by (simp add: removeRunning_def)

lemma removeRunning_queue [simp]: "th_queued (snd (removeRunning a t)) = th_queued t"
  "th_durable (snd (removeRunning a t)) = th_durable t"
  by (simp_all add: removeRunning_def)

lemma addRunning_frame [simp]: "th_max (addRunning now a t) = th_max t"
  "th_queued (addRunning now a t) = th_queued t" "th_durable (addRunning now a t) = th_durable t"
  by (simp_all add: addRunning_def)

lemma touch_frame [simp]: "th_max (touchActivity now a t) = th_max t"
  "th_queued (touchActivity now a t) = th_queued t" "th_durable (touchActivity now a t) = th_durable t"
  by (simp_all add: touchActivity_def)

text \<open>A stalled entry is a running workflow that has been silent for longer than the threshold.\<close>

lemma stalledEntries_sound:
  assumes "throttle_ok t" and "a \<in> set (stalledEntries threshold now t)"
  shows "a \<in> set (mkeys (th_running t)) \<and> (\<exists>last. th_lastActivity t a = Some last \<and> now - last > threshold)"
proof -
  have a: "a \<in> set (mkeys (th_running t))" "vget zero_time (th_lastActivity t) a < now - threshold"
    using assms(2) by (auto simp: stalledEntries_def Let_def split: if_splits)
  then obtain last where "th_lastActivity t a = Some last"
    using assms(1) by (auto simp: throttle_ok_def)
  with a show ?thesis by (auto simp: vget_def)
qed

section \<open>The durable mirror of the queue\<close>

text \<open>The table holds a row per queued request, in queue order, and every aggregate once.\<close>

definition queue_row :: "envelope \<Rightarrow> string \<times> envelope \<times> int" where
  "queue_row env = (e_AggregateID env, env, e_Timestamp env)"

definition queue_mirrored :: "throttle \<times> store \<Rightarrow> bool" where
  "queue_mirrored = (\<lambda>(t, st). th_durable t \<and> st_queue st = map queue_row (th_queued t) \<and>
     distinct (map e_AggregateID (th_queued t)))"

lemma queue_mirrored_new: "st_queue st = [] \<Longrightarrow> queue_mirrored (newWorkflowThrottle m True, st)"
  by (simp add: queue_mirrored_def newWorkflowThrottle_def)

lemma queue_mirrored_enqueue:
  assumes "queue_mirrored (t, st)" and "e_AggregateID env \<notin> set (map e_AggregateID (th_queued t))"
  shows "queue_mirrored (enqueue False env (t, st))"
proof -
  have "\<not> list_ex (\<lambda>(a, e, ts). a = e_AggregateID env) (map queue_row (th_queued t))"
    using assms(2) by (auto simp: list_ex_iff queue_row_def) (metis image_eqI)
  with assms show ?thesis by (auto simp: queue_mirrored_def enqueue_def EnqueueWorkflow_def queue_row_def)
qed

lemma filter_queue_rows:
  "filter (\<lambda>(a', e, t). a' \<noteq> a) (map queue_row es) = map queue_row (filter (\<lambda>e. e_AggregateID e \<noteq> a) es)"
  by (induction es) (simp_all add: queue_row_def)

lemma remove_first_filter:
  "distinct (map e_AggregateID es) \<Longrightarrow> remove_first a es = filter (\<lambda>e. e_AggregateID e \<noteq> a) es"
proof (induction es)
  case (Cons e es)
  then have "e_AggregateID x \<noteq> e_AggregateID e" if "x \<in> set es" for x
    using that Cons.prems by (metis distinct.simps(2) image_eqI list.set_map list.simps(9))
  with Cons show ?case by (auto intro!: filter_True [symmetric])
qed simp

lemma queue_mirrored_delete:
  "queue_mirrored (t, st) \<Longrightarrow> queue_mirrored (t\<lparr>th_queued := remove_first a (th_queued t)\<rparr>, DeleteQueuedWorkflow a st)"
  by (auto simp: queue_mirrored_def DeleteQueuedWorkflow_def filter_queue_rows remove_first_filter distinct_map_filter)

lemma queue_mirrored_removeQueued: "queue_mirrored (t, st) \<Longrightarrow> queue_mirrored (snd (removeQueued False a (t, st)))"
  using queue_mirrored_delete [of t st a] by (simp add: removeQueued_def queue_mirrored_def)

lemma queue_mirrored_dequeue:
  assumes "queue_mirrored (t, st)" and "dequeue False (t, st) = Some (env, t', st')"
  shows "queue_mirrored (t', st') \<and> th_queued t = env # th_queued t'"
proof -
  obtain rest where q: "th_queued t = env # rest" "t' = t\<lparr>th_queued := rest\<rparr>"
    "st' = DeleteQueuedWorkflow (e_AggregateID env) st"
    using assms by (auto simp: dequeue_def queue_mirrored_def split: list.splits)
  then show ?thesis using queue_mirrored_delete [OF assms(1), of "e_AggregateID env"] by simp
qed

text \<open>What a restart reads back: the queue, if the requests were stamped in arrival order.\<close>

lemma reload_mirrored:
  assumes "queue_mirrored (t, st)" and "sorted (map e_Timestamp (th_queued t))"
  shows "LoadQueuedWorkflows_db st = th_queued t"
proof -
  have "sorted (map (\<lambda>(a, e, ts). ts) (st_queue st))"
    using assms by (simp add: queue_mirrored_def queue_row_def comp_def)
  then have "sort_key (\<lambda>(a, e, ts). ts) (st_queue st) = st_queue st"
    by (rule sort_key_id_if_sorted)
  then show ?thesis using assms(1) by (simp add: LoadQueuedWorkflows_db_def queue_mirrored_def queue_row_def comp_def)
qed

section \<open>Surviving a restart\<close>

text \<open>
  The histories of a durable queue: requests arrive in the order of their timestamps, one per
  aggregate at a time; they are dequeued, or removed by a cancellation.
\<close>

inductive queue_history :: "throttle \<times> store \<Rightarrow> bool" where
  fresh: "st_queue st = [] \<Longrightarrow> queue_history (newWorkflowThrottle m True, st)"
| arrive: "queue_history (t, st) \<Longrightarrow> e_AggregateID env \<notin> set (map e_AggregateID (th_queued t)) \<Longrightarrow>
    \<forall>e \<in> set (th_queued t). e_Timestamp e \<le> e_Timestamp env \<Longrightarrow> queue_history (enqueue False env (t, st))"
| leave: "queue_history (t, st) \<Longrightarrow> dequeue False (t, st) = Some (env, t', st') \<Longrightarrow> queue_history (t', st')"
| cancelled: "queue_history (t, st) \<Longrightarrow> queue_history (snd (removeQueued False a (t, st)))"

inductive_cases queue_historyE: "queue_history (t, st)"

lemma sorted_remove_first: "sorted (map e_Timestamp es) \<Longrightarrow> sorted (map e_Timestamp (remove_first a es))"
proof (induction es)
  case (Cons e es)
  have "set (remove_first a es) \<subseteq> set es" for es by (induction es) auto
  with Cons show ?case by (auto simp: subset_iff)
qed simp

lemma queue_history_ok:
  "queue_history q \<Longrightarrow> queue_mirrored q \<and> sorted (map e_Timestamp (th_queued (fst q)))"
proof (induction rule: queue_history.induct)
  case (fresh st m)
  then show ?case by (simp add: queue_mirrored_new, simp add: newWorkflowThrottle_def)
next
  case (arrive t st env)
  have "sorted (map e_Timestamp (th_queued t @ [env]))"
    using arrive by (auto simp: sorted_append)
  then show ?case using arrive queue_mirrored_enqueue [of t st env] by (simp add: enqueue_def)
next
  case (leave t st env t' st')
  then show ?case using queue_mirrored_dequeue [of t st env t' st'] by auto
next
  case (cancelled t st a)
  then show ?case using queue_mirrored_removeQueued [of t st a] sorted_remove_first [of "th_queued t" a]
    by (simp add: removeQueued_def)
qed

text \<open>
  C20. The throttle queue survives a restart: after any history of arrivals, dequeues and
  cancellations without driver failures, in which requests arrive in timestamp order and an
  aggregate is queued once at a time, reading the table back gives the in-memory queue, in
  the same order.
\<close>

theorem queue_survives_restart:
  assumes "queue_history (t, st)"
  shows "LoadQueuedWorkflows_db st = th_queued t"
  using queue_history_ok [OF assms] reload_mirrored by simp

lemma queue_survives_restart_witness:
  "LoadQueuedWorkflows_db (snd (enqueue False sample_feedback (newWorkflowThrottle 2 True, empty_store))) = [sample_feedback]"
proof -
  obtain t st where q: "enqueue False sample_feedback (newWorkflowThrottle 2 True, empty_store) = (t, st)" by fastforce
  have "queue_history (newWorkflowThrottle 2 True, empty_store)"
    by (rule queue_history.fresh) (simp add: empty_store_def)
  then have "queue_history (enqueue False sample_feedback (newWorkflowThrottle 2 True, empty_store))"
    by (rule queue_history.arrive) (simp_all add: newWorkflowThrottle_def)
  then have "LoadQueuedWorkflows_db st = th_queued t" unfolding q by (rule queue_survives_restart)
  moreover have "th_queued t = [sample_feedback]" using q by (auto simp: enqueue_def newWorkflowThrottle_def)
  ultimately show ?thesis by (simp add: q)
qed

end
