(* ===== verification/EngineLoop.thy ===== *)
theory EngineLoop imports AggregateDecide Throttle begin

text \<open>
  \<open>internal/engine/engine.go\<close>: the lifecycle engine. One event at a time is taken
  from the FIFO channel and processed: the workflow aggregate is loaded, tracking copies are
  added, \<open>Decide\<close> runs, everything is appended in one transaction and the decided
  events are published; the throttle is updated and queued requests are drained into free
  slots. The goroutine that owns the loop is sequential, so a run of the engine is a sequence
  of these steps. \<open>world\<close> gives for the n-th decision its ids, clock and environment
  and which driver calls fail; the bus is the list of the events published so far.
\<close>

section \<open>State\<close>

record world =
  wo_rt :: "nat \<Rightarrow> runtime"
  wo_load_fault :: "nat \<Rightarrow> bool"
  wo_append_fault :: "nat \<Rightarrow> bool"
  wo_queue_fault :: "nat \<Rightarrow> bool"

record engine =
  en_store :: store
  en_workflows :: "(string, workflow_def) gomap"
  en_throttle :: "throttle option"
  en_published :: "envelope list"
  en_steps :: nat

text \<open>\<open>RegisterWorkflow\<close>.\<close>

definition RegisterWorkflow :: "(string \<Rightarrow> string) \<Rightarrow> workflow_def \<Rightarrow> engine \<Rightarrow> engine" where
  "RegisterWorkflow getenv def eng = (let def' = applyEnvOverrides getenv def in
     eng\<lparr>en_workflows := mput (en_workflows eng) (wd_ID def') def'\<rparr>)"

text \<open>\<open>initThrottleFromEnv\<close> and \<open>SetMaxConcurrentWorkflows\<close>; the SQLite store is a queue store.\<close>

definition initThrottleFromEnv :: "(string \<Rightarrow> string) \<Rightarrow> engine \<Rightarrow> engine" where
  "initThrottleFromEnv getenv eng = (let raw = getenv ''RICK_MAX_WORKFLOWS'' in
     if raw = [] then eng
     else case atoi raw of None \<Rightarrow> eng
       | Some n \<Rightarrow> if n > 0 then eng\<lparr>en_throttle := Some (newWorkflowThrottle n True)\<rparr> else eng)"

definition SetMaxConcurrentWorkflows :: "int \<Rightarrow> engine \<Rightarrow> engine" where
  "SetMaxConcurrentWorkflows n eng =
     eng\<lparr>en_throttle := (if n \<le> 0 then None else Some (newWorkflowThrottle n True))\<rparr>"

section \<open>Loading\<close>

definition resolveWorkflowAggregateID :: "envelope \<Rightarrow> string" where
  "resolveWorkflowAggregateID env =
     (if e_Type env \<in> {PersonaCompleted, PersonaFailed, VerdictRendered, WorkflowCancelled, WorkflowPaused,
           WorkflowResumed, WorkflowRetried, HintEmitted, HintRejected} \<and> e_CorrelationID env \<noteq> []
      then e_CorrelationID env else e_AggregateID env)"

definition attach_workflow :: "(string, workflow_def) gomap \<Rightarrow> string \<Rightarrow> aggregate \<Rightarrow> aggregate" where
  "attach_workflow ws wid w = (case map_of ws wid of None \<Rightarrow> w
     | Some def \<Rightarrow> w\<lparr>w_WorkflowDef := Some def, w_MaxIterations := wd_MaxIterations def\<rparr>)"

text \<open>The scan for the first WorkflowRequested envelope, which breaks at the first one.\<close>

definition pre_attach :: "(string, workflow_def) gomap \<Rightarrow> envelope list \<Rightarrow> aggregate \<Rightarrow> aggregate" where
  "pre_attach ws events w = (case List.find (\<lambda>e. e_Type e = WorkflowRequested) events of
      None \<Rightarrow> w
    | Some e \<Rightarrow> (case as_requested (e_Payload e) of None \<Rightarrow> w
        | Some p \<Rightarrow> if wr_WorkflowID p = [] then w else attach_workflow ws (wr_WorkflowID p) w))"

definition loadAggregate :: "bool \<Rightarrow> (string, workflow_def) gomap \<Rightarrow> store \<Rightarrow> string \<Rightarrow> store_error + aggregate" where
  "loadAggregate fault ws st aggregateID =
     (case (case LoadSnapshot st aggregateID of
          Inr snap \<Rightarrow> (case sn_State snap (NewWorkflowAggregate aggregateID) of
              None \<Rightarrow> Inl ErrUnmarshal
            | Some agg \<Rightarrow> Inr (agg, LoadFrom st aggregateID (sn_Version snap + 1)))
        | Inl err \<Rightarrow> Inr (NewWorkflowAggregate aggregateID, Load st aggregateID)) of
        Inl err \<Rightarrow> Inl err
      | Inr (agg, events) \<Rightarrow>
          if fault then Inl ErrDriver
          else let agg1 = replay (pre_attach ws events agg) events
            in Inr (if w_WorkflowID agg1 \<noteq> [] then attach_workflow ws (w_WorkflowID agg1) agg1 else agg1))"

section \<open>One decision\<close>

definition tracking_event :: "runtime \<Rightarrow> nat \<Rightarrow> aggregate \<Rightarrow> envelope \<Rightarrow> etype \<Rightarrow> int \<Rightarrow> envelope" where
  "tracking_event rt k agg env ty version = WithSource ''engine:tracking'' (WithCorrelation (e_CorrelationID env)
     (WithCausation (e_ID env) (WithAggregate (w_ID agg) version (NewEnv rt k ty 1 (e_Payload env)))))"

text \<open>The storage-only copies of persona completions and of required failures.\<close>

definition track :: "runtime \<Rightarrow> aggregate \<Rightarrow> string \<Rightarrow> envelope \<Rightarrow> envelope list" where
  "track rt agg aggID env =
     (if e_Type env = PersonaCompleted \<and> aggID \<noteq> e_AggregateID env then
        (case as_completed (e_Payload env) of None \<Rightarrow> []
         | Some p \<Rightarrow> if \<not> isset (w_CompletedPersonas agg) (pc_Persona p) \<and> \<not> isStaleAfterFeedback agg (pc_Persona p)
             then [tracking_event rt 0 agg env PersonaTracked (w_Version agg + 1)] else [])
      else if e_Type env = PersonaFailed \<and> aggID \<noteq> e_AggregateID env then
        (case as_failed (e_Payload env) of None \<Rightarrow> []
         | Some p \<Rightarrow> if w_Status agg = StatusRunning \<and> isRequiredPersona agg (pf_Persona p)
             then [tracking_event rt 0 agg env PersonaFailedTracked (w_Version agg + 1)] else [])
      else [])"

definition mirror_verdict :: "runtime \<Rightarrow> aggregate \<Rightarrow> string \<Rightarrow> envelope \<Rightarrow> nat \<Rightarrow> envelope list" where
  "mirror_verdict rt agg aggID env decided =
     (if e_Type env = VerdictRendered \<and> aggID \<noteq> e_AggregateID env
      then [tracking_event rt 2 agg env VerdictTracked (w_Version agg + int decided + 1)] else [])"

definition workflow_tags :: "workflow_requested \<Rightarrow> (string, string) gomap" where
  "workflow_tags p = concat [
     if wr_Source p \<noteq> [] then [(''source'', wr_Source p)] else [],
     if wr_WorkflowID p \<noteq> [] then [(''workflow_id'', wr_WorkflowID p)] else [],
     if wr_Ticket p \<noteq> [] then [(''ticket'', wr_Ticket p)] else [],
     if wr_Repo p \<noteq> [] then [(''repo'', wr_Repo p)] else [],
     if wr_BaseBranch p \<noteq> [] \<and> wr_Repo p \<noteq> [] then [(''repo_branch'', wr_Repo p @ '':'' @ wr_BaseBranch p)] else []]"

definition indexWorkflowTags :: "string \<Rightarrow> envelope \<Rightarrow> store \<Rightarrow> store" where
  "indexWorkflowTags c env st = (case as_requested (e_Payload env) of
      None \<Rightarrow> st | Some p \<Rightarrow> SaveTags c (workflow_tags p) st)"

text \<open>The events of one step, in the order of the append: tracking copy, decision, verdict mirror.\<close>

definition step_events :: "runtime \<Rightarrow> aggregate \<Rightarrow> string \<Rightarrow> envelope \<Rightarrow> envelope list \<times> envelope list \<times> envelope list" where
  "step_events rt agg0 aggID env =
     (let tracked = track rt agg0 aggID env;
          agg = replay agg0 tracked;
          (agg', newEvents) = Decide rt agg env
      in (tracked, newEvents, mirror_verdict rt agg' aggID env (length newEvents)))"

definition tryProcessDecision ::
    "world \<Rightarrow> nat \<Rightarrow> (string, workflow_def) gomap \<Rightarrow> store \<Rightarrow> string \<Rightarrow> envelope \<Rightarrow> store_error + store \<times> envelope list" where
  "tryProcessDecision wo n ws st aggID env = (case loadAggregate (wo_load_fault wo n) ws st aggID of
      Inl err \<Rightarrow> Inl err
    | Inr agg \<Rightarrow>
        (let (tracked, newEvents, mirrored) = step_events (wo_rt wo n) agg aggID env;
             allEvents = tracked @ newEvents @ mirrored
         in if allEvents = [] then Inr (st, [])
            else case Append (wo_append_fault wo n) aggID (w_Version agg) allEvents st of
                Inl err \<Rightarrow> Inl err
              | Inr st' \<Rightarrow> Inr (if e_Type env = WorkflowRequested then indexWorkflowTags aggID env st' else st',
                              newEvents)))"

section \<open>The loop body\<close>

text \<open>Publishing one decided event, after the throttle's bookkeeping for it.\<close>

definition publish_one :: "int \<Rightarrow> engine \<Rightarrow> envelope \<Rightarrow> engine" where
  "publish_one now eng ne = (let th = map_option (\<lambda>t.
        let t1 = (if IsWorkflowStarted (e_Type ne) then addRunning now (e_CorrelationID ne) t else t)
        in if e_Type ne = WorkflowCompleted \<or> e_Type ne = WorkflowFailed
           then snd (removeRunning (e_CorrelationID ne) t1) else t1) (en_throttle eng)
     in eng\<lparr>en_throttle := th, en_published := en_published eng @ [ne]\<rparr>)"

definition touch :: "int \<Rightarrow> envelope \<Rightarrow> engine \<Rightarrow> engine" where
  "touch now env eng = (if e_CorrelationID env \<noteq> []
     then eng\<lparr>en_throttle := map_option (touchActivity now (e_CorrelationID env)) (en_throttle eng)\<rparr> else eng)"

definition cancel_slot :: "bool \<Rightarrow> envelope \<Rightarrow> engine \<Rightarrow> engine" where
  "cancel_slot fault env eng = (case en_throttle eng of
      None \<Rightarrow> eng
    | Some t \<Rightarrow> if e_Type env = WorkflowCancelled then
        (let corrID = (if e_CorrelationID env = [] then e_AggregateID env else e_CorrelationID env);
             (removed, t', st') = removeQueued fault corrID (snd (removeRunning corrID t), en_store eng)
         in eng\<lparr>en_throttle := Some t', en_store := st'\<rparr>)
      else eng)"

text \<open>
  \<open>processDecision\<close> up to the drain: whether it returns before the drain (queued, or an
  error), and the state.
\<close>

datatype outcome = Queued | Failed store_error | Decided

definition must_queue :: "envelope \<Rightarrow> engine \<Rightarrow> bool" where
  "must_queue env eng = (case en_throttle eng of
      None \<Rightarrow> False | Some t \<Rightarrow> e_Type env = WorkflowRequested \<and> shouldQueue t)"

definition park :: "bool \<Rightarrow> envelope \<Rightarrow> engine \<Rightarrow> engine" where
  "park fault env eng = (case en_throttle eng of
      None \<Rightarrow> eng
    | Some t \<Rightarrow> (let (t', st') = enqueue fault env (t, en_store eng)
        in eng\<lparr>en_throttle := Some t', en_store := st'\<rparr>))"

definition decide_and_publish :: "world \<Rightarrow> engine \<Rightarrow> envelope \<Rightarrow> outcome \<times> engine" where
  "decide_and_publish wo eng0 env = (let n = en_steps eng0; now = rt_now (wo_rt wo n);
      eng = touch now env (eng0\<lparr>en_steps := Suc n\<rparr>)
    in if must_queue env eng then (Queued, park (wo_queue_fault wo n) env eng)
       else (let eng1 = cancel_slot (wo_queue_fault wo n) env eng in
         case tryProcessDecision wo n (en_workflows eng1) (en_store eng1) (resolveWorkflowAggregateID env) env of
           Inl err \<Rightarrow> (Failed err, eng1)
         | Inr (st', newEvents) \<Rightarrow> (Decided, foldl (publish_one now) (eng1\<lparr>en_store := st'\<rparr>) newEvents)))"

text \<open>
  \<open>drainThrottleQueue\<close> and the recursive \<open>processDecision\<close> it calls, with a
  recursion bound. Each dequeued request starts with an inner drain of its own, as in the
  code; one more than the length of the queue is enough (\<open>drain_fuel\<close>).
\<close>

fun drainThrottleQueue :: "nat \<Rightarrow> world \<Rightarrow> engine \<Rightarrow> engine" where
  "drainThrottleQueue 0 wo eng = eng"
| "drainThrottleQueue (Suc fuel) wo eng = (case en_throttle eng of
      None \<Rightarrow> eng
    | Some t \<Rightarrow> if shouldQueue t then eng
        else (case dequeue (wo_queue_fault wo (en_steps eng)) (t, en_store eng) of
            None \<Rightarrow> eng
          | Some (next, t', st') \<Rightarrow>
              (case decide_and_publish wo (eng\<lparr>en_throttle := Some t', en_store := st'\<rparr>) next of
                  (Decided, eng') \<Rightarrow> drainThrottleQueue fuel wo (drainThrottleQueue fuel wo eng')
                | (_, eng') \<Rightarrow> drainThrottleQueue fuel wo eng')))"

lemmas drain_step = drainThrottleQueue.simps(2)
declare drain_step [simp del]

definition queue_length :: "engine \<Rightarrow> nat" where
  "queue_length eng = (case en_throttle eng of None \<Rightarrow> 0 | Some t \<Rightarrow> length (th_queued t))"

definition processDecision :: "world \<Rightarrow> engine \<Rightarrow> envelope \<Rightarrow> engine" where
  "processDecision wo eng env = (case decide_and_publish wo eng env of
      (Decided, eng') \<Rightarrow> drainThrottleQueue (Suc (queue_length eng')) wo eng'
    | (_, eng') \<Rightarrow> eng')"

section \<open>The watchdog\<close>

definition reclaimStalledSlot :: "world \<Rightarrow> int \<Rightarrow> string \<Rightarrow> int \<Rightarrow> engine \<Rightarrow> string \<Rightarrow> engine" where
  "reclaimStalledSlot wo stallTimeout stallText now eng0 corrID = (let n = en_steps eng0;
      eng = eng0\<lparr>en_steps := Suc n\<rparr>
    in case loadAggregate (wo_load_fault wo n) (en_workflows eng) (en_store eng) corrID of
        Inl err \<Rightarrow> eng
      | Inr agg \<Rightarrow> if w_Status agg \<noteq> StatusRunning then eng
          else (let failed = WithSource ''engine:throttle_watchdog'' (WithCorrelation corrID
                  (WithAggregate corrID (w_Version agg + 1) (NewEnv (wo_rt wo n) 0 WorkflowFailed 1
                    (PWorkflowFailed \<lparr>wf_Reason = ''throttle watchdog: no engine activity for '' @ stallText,
                      wf_Persona = [], wf_FailureKind = FailureKindStalled, wf_Backend = [], wf_Stderr = []\<rparr>))))
            in case Append (wo_append_fault wo n) corrID (w_Version agg) [failed] (en_store eng) of
                Inl err \<Rightarrow> eng
              | Inr st' \<Rightarrow> eng\<lparr>en_store := st', en_throttle := map_option (markStalled corrID) (en_throttle eng),
                  en_published := en_published eng @ [failed]\<rparr>))"

definition runWatchdogSweep :: "world \<Rightarrow> int \<Rightarrow> string \<Rightarrow> int \<Rightarrow> engine \<Rightarrow> engine" where
  "runWatchdogSweep wo stallTimeout stallText now eng = (case en_throttle eng of
      None \<Rightarrow> eng
    | Some t \<Rightarrow> (let candidates = stalledEntries stallTimeout now t in
        if candidates = [] then eng
        else let eng' = foldl (reclaimStalledSlot wo stallTimeout stallText now) eng candidates
          in drainThrottleQueue (Suc (queue_length eng')) wo eng'))"

section \<open>Start-up\<close>

definition WarmThrottle :: "int \<Rightarrow> string list \<Rightarrow> engine \<Rightarrow> engine" where
  "WarmThrottle now ids eng = eng\<lparr>en_throttle := map_option (warmRunning now ids) (en_throttle eng)\<rparr>"

text \<open>
  Queue rows whose aggregate has no event are deleted, the others re-seed the queue. The
  driver may fail to list the rows, which leaves everything as it is, to read the stream of a
  row's aggregate, which keeps the row, or to delete an orphan row, which is logged.
\<close>

record queue_faults =
  qf_list :: bool
  qf_load :: "string \<Rightarrow> bool"
  qf_delete :: "string \<Rightarrow> bool"


definition verify_queued :: "queue_faults \<Rightarrow> store \<times> envelope list \<Rightarrow> envelope \<Rightarrow> store \<times> envelope list" where
  "verify_queued flt = (\<lambda>(st, valid) env. let a = e_AggregateID env in
     if qf_load flt a then (st, valid @ [env])
     else if Load st a = [] then (if qf_delete flt a then st else DeleteQueuedWorkflow a st, valid)
     else (st, valid @ [env]))"

definition LoadQueuedWorkflows :: "queue_faults \<Rightarrow> engine \<Rightarrow> engine" where
  "LoadQueuedWorkflows flt eng = (case en_throttle eng of
      None \<Rightarrow> eng
    | Some t \<Rightarrow> if qf_list flt then eng
        else (case foldl (verify_queued flt) (en_store eng, []) (LoadQueuedWorkflows_db (en_store eng)) of
          (st', valid) \<Rightarrow> eng\<lparr>en_store := st', en_throttle := Some (warmQueued valid t)\<rparr>))"

text \<open>
  The engine of a new process over the store its predecessor left: a fresh throttle with the
  configured limit, the slots of the workflows found running and the queue read back. No
  definition is registered yet. \<open>en_published\<close> keeps the history of the earlier
  processes.
\<close>

definition restart_engine :: "int \<Rightarrow> int \<Rightarrow> string list \<Rightarrow> queue_faults \<Rightarrow> engine \<Rightarrow> engine" where
  "restart_engine n now ids flt eng =
     LoadQueuedWorkflows flt (WarmThrottle now ids (SetMaxConcurrentWorkflows n (eng\<lparr>en_workflows := []\<rparr>)))"

section \<open>A step appends what it publishes\<close>

lemma tracking_simps [simp]:
  "e_Type (tracking_event rt k agg env ty v) = ty" "e_Version (tracking_event rt k agg env ty v) = v"
  "e_AggregateID (tracking_event rt k agg env ty v) = w_ID agg" "e_ID (tracking_event rt k agg env ty v) = rt_uid rt k"
  "e_Payload (tracking_event rt k agg env ty v) = e_Payload env"
  "e_CorrelationID (tracking_event rt k agg env ty v) = e_CorrelationID env"
  by (simp_all add: tracking_event_def env_builders)

lemma track_cases:
  "track rt agg aggID env = [] \<or>
   (\<exists>ty. ty \<in> {PersonaTracked, PersonaFailedTracked} \<and>
      track rt agg aggID env = [tracking_event rt 0 agg env ty (w_Version agg + 1)])"
  by (auto simp: track_def split: option.splits)

lemma mirror_cases:
  "mirror_verdict rt agg aggID env k = [] \<or>
   mirror_verdict rt agg aggID env k = [tracking_event rt 2 agg env VerdictTracked (w_Version agg + int k + 1)]"
  by (simp add: mirror_verdict_def)

lemma Decide_version [simp]: "w_Version (fst (Decide rt w env)) = w_Version w" "w_ID (fst (Decide rt w env)) = w_ID w"
  by (cases "e_Type env"; simp add: Decide_def; auto simp: decideWorkflowResumed_def resume_retarget_def
      resume_legacy_def Let_def split: option.split)+

lemma Decide_cases:
  "snd (Decide rt w env) = [] \<or> (\<exists>e. snd (Decide rt w env) = [e] \<and> stamped rt w env e \<and>
     e_Type e \<in> decision_types w (e_Type env))"
  using Decide_emits [of rt w env] by (simp add: emits_def)

text \<open>The aggregate's next slots, in order.\<close>

definition in_slots :: "aggregate \<Rightarrow> envelope list \<Rightarrow> bool" where
  "in_slots w es \<longleftrightarrow> (\<forall>i < length es. e_AggregateID (es ! i) = w_ID w \<and> e_Version (es ! i) = w_Version w + int i + 1)"

lemma in_slots_Nil [simp]: "in_slots w []"
  by (simp add: in_slots_def)

lemma in_slots_Cons:
  "in_slots w (e # es) \<longleftrightarrow> e_AggregateID e = w_ID w \<and> e_Version e = w_Version w + 1 \<and> in_slots (Apply w e) es"
proof -
  have "(\<forall>i < Suc n. P i) \<longleftrightarrow> P 0 \<and> (\<forall>i < n. P (Suc i))" for n and P :: "nat \<Rightarrow> bool"
    using less_Suc_eq_0_disj by auto
  then show ?thesis by (auto simp: in_slots_def)
qed

lemma step_events_slots:
  assumes "step_events rt agg aggID env = (tracked, new, mirrored)"
  shows "in_slots agg (tracked @ new @ mirrored)"
proof -
  obtain agg' where D: "tracked = track rt agg aggID env" "Decide rt (replay agg tracked) env = (agg', new)"
    "mirrored = mirror_verdict rt agg' aggID env (length new)"
    using assms by (auto simp: step_events_def Let_def split: prod.splits)
  let ?w = "replay agg tracked"
  have v: "w_Version agg' = w_Version ?w" "w_ID agg' = w_ID ?w"
    using Decide_version [of rt ?w env] D(2) by simp_all
  have new: "new = [] \<or> (\<exists>e. new = [e] \<and> e_AggregateID e = w_ID ?w \<and> e_Version e = w_Version ?w + 1)"
    using Decide_cases [of rt ?w env] D(2) by (auto simp: stamped_def)
  have mir: "mirrored = [] \<or> (\<exists>m. mirrored = [m] \<and> e_AggregateID m = w_ID ?w \<and>
      e_Version m = w_Version ?w + int (length new) + 1)"
    using mirror_cases [of rt agg' aggID env "length new"] D(3) v by auto
  have tail: "in_slots ?w (new @ mirrored)"
    using new mir by (auto simp: in_slots_Cons)
  show ?thesis using track_cases [of rt agg aggID env] D(1) tail by (auto simp: in_slots_Cons)
qed

text \<open>What a load returns when the stream has no snapshot (nothing in the code writes one).\<close>

definition no_snapshots :: "store \<Rightarrow> bool" where
  "no_snapshots st \<longleftrightarrow> (\<forall>a. st_snapshots st a = None)"

definition pre_def :: "(string, workflow_def) gomap \<Rightarrow> envelope list \<Rightarrow> workflow_def option" where
  "pre_def ws events = (case List.find (\<lambda>e. e_Type e = WorkflowRequested) events of
      None \<Rightarrow> None
    | Some e \<Rightarrow> (case as_requested (e_Payload e) of None \<Rightarrow> None
        | Some p \<Rightarrow> if wr_WorkflowID p = [] then None else map_of ws (wr_WorkflowID p)))"

lemma attach_simps [simp]:
  "w_Version (attach_workflow ws i w) = w_Version w" "w_ID (attach_workflow ws i w) = w_ID w"
  "w_Status (attach_workflow ws i w) = w_Status w" "w_AutoRetries (attach_workflow ws i w) = w_AutoRetries w"
  "w_CompletedPersonas (attach_workflow ws i w) = w_CompletedPersonas w"
  "w_FeedbackCount (attach_workflow ws i w) = w_FeedbackCount w"
  "w_FeedbackPending (attach_workflow ws i w) = w_FeedbackPending w"
  by (simp_all add: attach_workflow_def split: option.split)

lemma pre_attach_frame [simp]:
  "w_Version (pre_attach ws evs w) = w_Version w" "w_ID (pre_attach ws evs w) = w_ID w"
  "w_Status (pre_attach ws evs w) = w_Status w" "w_AutoRetries (pre_attach ws evs w) = w_AutoRetries w"
  "w_FeedbackCount (pre_attach ws evs w) = w_FeedbackCount w"
  by (simp_all add: pre_attach_def split: option.split)

lemma loadAggregate_Inr:
  assumes "loadAggregate flt ws st a = Inr agg" and "no_snapshots st" and "store_ok st"
  shows "w_ID agg = a" "w_Version agg = int (length (Load st a))"
    "vget 0 (w_AutoRetries agg) p = int (length (filter (auto_retry_of p) (Load st a)))"
    "mget 0 (w_FeedbackCount agg) t = int (length (filter (feedback_for t) (Load st a)))"
proof -
  have s: "LoadSnapshot st a = Inl ErrSnapshotNotFound"
    using assms(2) by (simp add: LoadSnapshot_def no_snapshots_def)
  let ?w = "replay (pre_attach ws (Load st a) (NewWorkflowAggregate a)) (Load st a)"
  have agg: "agg = ?w \<or> agg = attach_workflow ws (w_WorkflowID ?w) ?w"
    using assms(1) by (auto simp: loadAggregate_def s Let_def split: if_splits)
  have init: "w_ID (NewWorkflowAggregate a) = a" "w_Version (NewWorkflowAggregate a) = 0"
    "w_AutoRetries (NewWorkflowAggregate a) = Map.empty" "w_FeedbackCount (NewWorkflowAggregate a) = []"
    by (simp_all add: NewWorkflowAggregate_def)
  have "w_Version ?w = int (length (Load st a))"
    using sqlite.last_version [OF assms(3), of a] by (simp add: replay_Version init)
  with agg init show "w_ID agg = a" "w_Version agg = int (length (Load st a))"
    "vget 0 (w_AutoRetries agg) p = int (length (filter (auto_retry_of p) (Load st a)))"
    "mget 0 (w_FeedbackCount agg) t = int (length (filter (feedback_for t) (Load st a)))"
    by (auto simp: replay_AutoRetries replay_FeedbackCount)
qed

lemma indexWorkflowTags_events [simp]:
  "st_events (indexWorkflowTags c env st) = st_events st"
  "st_snapshots (indexWorkflowTags c env st) = st_snapshots st"
  "st_queue (indexWorkflowTags c env st) = st_queue st"
  by (simp_all add: indexWorkflowTags_def SaveTags_def split: option.split)

lemma Load_cong: "st_events st = st_events st' \<Longrightarrow> Load st a = Load st' a"
  by (simp add: Load_def rows_of_def)

lemma store_ok_cong: "st_events st = st_events st' \<Longrightarrow> store_ok st = store_ok st'"
  by (simp add: store_ok_def rows_of_def)

lemma Append_snapshots: "Append flt a v es st = Inr st' \<Longrightarrow>
    st_snapshots st' = st_snapshots st \<and> st_queue st' = st_queue st"
  by (auto simp: Append_def split: if_splits sum.splits)

lemma tryProcess_Inr:
  assumes "tryProcessDecision wo n ws st a env = Inr (st', new)" and "store_ok st" and "no_snapshots st"
  obtains agg tracked mirrored where "loadAggregate (wo_load_fault wo n) ws st a = Inr agg"
    and "step_events (wo_rt wo n) agg a env = (tracked, new, mirrored)"
    and "Load st' a = Load st a @ tracked @ new @ mirrored"
    and "\<And>b. b \<noteq> a \<Longrightarrow> Load st' b = Load st b" and "store_ok st'" and "no_snapshots st'"
    and "st_queue st' = st_queue st"
proof -
  obtain agg tracked new' mirrored where agg: "loadAggregate (wo_load_fault wo n) ws st a = Inr agg"
    and ev: "step_events (wo_rt wo n) agg a env = (tracked, new', mirrored)"
    using assms(1) by (auto simp: tryProcessDecision_def split: sum.splits prod.splits)
  note L = loadAggregate_Inr [OF agg assms(3,2)]
  let ?all = "tracked @ new' @ mirrored"
  show thesis
  proof (cases "?all = []")
    case True
    with assms(1) agg ev have "st' = st" "new = new'" by (auto simp: tryProcessDecision_def)
    with that [OF agg, of tracked mirrored] ev True assms(2,3) show thesis by simp
  next
    case False
    then obtain st1 where ap: "Append (wo_append_fault wo n) a (w_Version agg) ?all st = Inr st1"
      and st': "st' = (if e_Type env = WorkflowRequested then indexWorkflowTags a env st1 else st1)" "new = new'"
      using assms(1) agg ev by (auto simp: tryProcessDecision_def split: if_splits sum.splits)
    have "numbered a (w_Version agg) ?all = ?all"
      using step_events_slots [OF ev] L(1) by (intro numbered_id) (simp add: in_slots_def)
    then have load: "Load st1 b = (if b = a then Load st a @ ?all else Load st b)" for b
      using sqlite.append_load [OF assms(2) ap] by simp
    have eq: "st_events st' = st_events st1" using st'(1) by simp
    have "store_ok st'" using store_ok_Append [OF ap assms(2)] store_ok_cong [OF eq] by simp
    moreover have "no_snapshots st'" "st_queue st' = st_queue st"
      using Append_snapshots [OF ap] assms(3) st'(1) by (auto simp: no_snapshots_def)
    ultimately show thesis
      using that [OF agg, of tracked mirrored] ev st'(2) load Load_cong [OF eq] by simp
  qed
qed

lemma new_events_shape:
  assumes "tryProcessDecision wo n ws st a env = Inr (st', new)"
  shows "new = [] \<or> (\<exists>e w. new = [e] \<and> stamped (wo_rt wo n) w env e \<and> e_Type e \<in> decision_types w (e_Type env))"
proof -
  obtain agg tracked new' mirrored where ev: "step_events (wo_rt wo n) agg a env = (tracked, new', mirrored)"
    and new: "new = [] \<or> new = new'"
    using assms by (auto simp: tryProcessDecision_def split: sum.splits prod.splits if_splits)
  then have "new' = snd (Decide (wo_rt wo n) (replay agg tracked) env)"
    by (auto simp: step_events_def Let_def split: prod.splits)
  with new Decide_cases [of "wo_rt wo n" "replay agg tracked" env] show ?thesis by blast
qed

section \<open>Invariants of the log\<close>

definition retry_once :: "store \<Rightarrow> bool" where
  "retry_once st \<longleftrightarrow> (\<forall>a p. length (filter (auto_retry_of p) (Load st a)) \<le> 1)"

definition log_ok :: "store \<Rightarrow> bool" where
  "log_ok st \<longleftrightarrow> store_ok st \<and> no_snapshots st \<and> retry_once st"

lemma log_ok_cong: "st_events st = st_events st' \<Longrightarrow> st_snapshots st = st_snapshots st' \<Longrightarrow> log_ok st = log_ok st'"
  using Load_cong [of st st'] store_ok_cong [of st st'] by (simp add: log_ok_def no_snapshots_def retry_once_def)

lemma log_ok_queue_ops [simp]:
  "log_ok (EnqueueWorkflow env st) = log_ok st" "log_ok (DeleteQueuedWorkflow a st) = log_ok st"
  by (rule log_ok_cong; simp add: EnqueueWorkflow_def DeleteQueuedWorkflow_def)+

lemma not_auto_retry [simp]: "e_Type e \<noteq> WorkflowRetried \<Longrightarrow> \<not> auto_retry_of p e"
  by (simp add: auto_retry_of_def)

text \<open>An automatic retry is only decided for a persona without one so far.\<close>

lemma decided_auto_retry:
  assumes "e \<in> set (snd (Decide rt w env))" and "auto_retry_of p e"
  shows "vget 0 (w_AutoRetries w) p < 1"
proof -
  have ty: "e_Type e = WorkflowRetried" using assms(2) by (simp add: auto_retry_of_def)
  have dt: "e_Type e \<in> decision_types w (e_Type env)" using Decide_stamped [OF assms(1)] by simp
  then consider "e_Type env = PersonaFailed" | "e_Type env = WorkflowResumed"
    using ty by (auto simp: decision_types_def split: etype.splits)
  then show ?thesis
  proof cases
    case 1
    then have "e \<in> set (decidePersonaFailed rt w env)" using assms(1) by simp
    then obtain d where "maybeAutoRetry rt w d env (or_zero zero_failed (as_failed (e_Payload env))) = Some e"
      using ty maybeEmit_cases [of rt w env]
      by (auto simp: decidePersonaFailed_def Let_def dest: maybeRateLimitPause_Some split: option.splits if_splits)
    from maybeAutoRetry_Some [OF this] assms(2) show ?thesis
      by (auto simp: auto_retry_of_def decode_defs MaxAutoRetriesPerPersona_def Let_def)
  next
    case 2
    then have "e \<in> set (snd (decideWorkflowResumed rt w env))" using assms(1) by simp
    then have "\<not> auto_retry_of p e"
      by (auto simp: decideWorkflowResumed_def resume_retarget_def resume_legacy_def resume_feedback_def
          auto_retry_of_def decode_defs Let_def split: option.splits if_splits)
    with assms(2) show ?thesis by simp
  qed
qed

lemma step_auto_retry:
  assumes "step_events rt agg a env = (tracked, new, mirrored)"
  shows "length (filter (auto_retry_of p) (tracked @ new @ mirrored)) \<le>
    (if vget 0 (w_AutoRetries agg) p < 1 then 1 else 0)"
proof -
  obtain agg' where D: "tracked = track rt agg a env" "Decide rt (replay agg tracked) env = (agg', new)"
    "mirrored = mirror_verdict rt agg' a env (length new)"
    using assms by (auto simp: step_events_def Let_def split: prod.splits)
  have tr: "filter (auto_retry_of p) tracked = []" using track_cases [of rt agg a env] D(1) by auto
  have mi: "filter (auto_retry_of p) mirrored = []" using mirror_cases [of rt agg' a env "length new"] D(3) by auto
  have same: "vget 0 (w_AutoRetries (replay agg tracked)) p = vget 0 (w_AutoRetries agg) p"
    by (simp add: replay_AutoRetries tr)
  have "length (filter (auto_retry_of p) new) \<le> (if vget 0 (w_AutoRetries agg) p < 1 then 1 else 0)"
  proof (cases "\<exists>e \<in> set new. auto_retry_of p e")
    case True
    then have "vget 0 (w_AutoRetries agg) p < 1"
      using decided_auto_retry [of _ rt "replay agg tracked" env p] D(2) same by auto
    moreover have "length new \<le> 1" using Decide_length [of rt "replay agg tracked" env] D(2) by simp
    ultimately show ?thesis using order_trans [OF length_filter_le [of "auto_retry_of p" new]] by simp
  next
    case False
    then have "filter (auto_retry_of p) new = []" by (simp add: filter_empty_conv)
    then show ?thesis by simp
  qed
  with tr mi show ?thesis by simp
qed

lemma tryProcess_log_ok:
  assumes "tryProcessDecision wo n ws st a env = Inr (st', new)" and "log_ok st"
  shows "log_ok st'"
proof -
  have ok: "store_ok st" "no_snapshots st" using assms(2) by (simp_all add: log_ok_def)
  obtain agg tracked mir where T: "loadAggregate (wo_load_fault wo n) ws st a = Inr agg"
    "step_events (wo_rt wo n) agg a env = (tracked, new, mir)"
    "Load st' a = Load st a @ tracked @ new @ mir" "\<And>b. b \<noteq> a \<Longrightarrow> Load st' b = Load st b"
    "store_ok st'" "no_snapshots st'"
    using tryProcess_Inr [OF assms(1) ok] by metis
  have "length (filter (auto_retry_of p) (Load st' b)) \<le> 1" for b p
  proof (cases "b = a")
    case True
    let ?n = "length (filter (auto_retry_of p) (Load st a))"
    have "?n \<le> 1" using assms(2) by (simp add: log_ok_def retry_once_def)
    moreover have "length (filter (auto_retry_of p) (tracked @ new @ mir)) \<le> (if ?n < 1 then 1 else 0)"
      using step_auto_retry [OF T(2), of p] loadAggregate_Inr(3) [OF T(1) ok(2,1), of p] by simp
    moreover have "length (filter (auto_retry_of p) (Load st' b)) =
        ?n + length (filter (auto_retry_of p) (tracked @ new @ mir))"
      by (simp only: True T(3) filter_append length_append)
    ultimately show ?thesis by (simp split: if_splits)
  next
    case False
    then show ?thesis using T(4) assms(2) by (simp add: log_ok_def retry_once_def)
  qed
  with T(5,6) show ?thesis by (simp add: log_ok_def retry_once_def)
qed

lemma publish_one_store [simp]: "en_store (publish_one now eng e) = en_store eng"
  by (simp add: publish_one_def Let_def)

lemma publish_all_store [simp]: "en_store (foldl (publish_one now) eng es) = en_store eng"
  by (induction es arbitrary: eng) simp_all

lemma touch_store [simp]: "en_store (touch now env eng) = en_store eng"
  by (simp add: touch_def)

lemma cancel_log_ok [simp]: "log_ok (en_store (cancel_slot flt env eng)) = log_ok (en_store eng)"
  by (simp add: cancel_slot_def removeQueued_def Let_def split_def split: option.split)

lemma park_log_ok [simp]: "log_ok (en_store (park flt env eng)) = log_ok (en_store eng)"
  by (simp add: park_def enqueue_def Let_def split: option.split)

lemma decide_log_ok: "log_ok (en_store eng) \<Longrightarrow> log_ok (en_store (snd (decide_and_publish wo eng env)))"
  by (auto simp: decide_and_publish_def Let_def split: sum.split
      dest: tryProcess_log_ok [OF _ iffD2 [OF cancel_log_ok]])

lemma drain_log_ok: "log_ok (en_store eng) \<Longrightarrow> log_ok (en_store (drainThrottleQueue fuel wo eng))"
proof (induction fuel arbitrary: eng)
  case (Suc fuel)
  show ?case
  proof (cases "en_throttle eng")
    case None
    with Suc.prems show ?thesis by (simp add: drain_step)
  next
    case (Some t)
    show ?thesis
    proof (cases "shouldQueue t \<or> dequeue (wo_queue_fault wo (en_steps eng)) (t, en_store eng) = None")
      case True
      with Some Suc.prems show ?thesis by (auto simp: drain_step)
    next
      case False
      then obtain nxt t' st' where d: "dequeue (wo_queue_fault wo (en_steps eng)) (t, en_store eng) = Some (nxt, t', st')"
        by auto
      then have "log_ok st'" using Suc.prems by (auto simp: dequeue_def split: list.splits if_splits)
      then have "log_ok (en_store (snd (decide_and_publish wo (eng\<lparr>en_throttle := Some t', en_store := st'\<rparr>) nxt)))"
        by (intro decide_log_ok) simp
      then show ?thesis using Some False d Suc.IH by (auto simp: drain_step split: prod.split outcome.split)
    qed
  qed
qed simp

lemma process_log_ok: "log_ok (en_store eng) \<Longrightarrow> log_ok (en_store (processDecision wo eng env))"
  using decide_log_ok [of eng wo env] by (auto simp: processDecision_def drain_log_ok split: prod.split outcome.split)

lemma reclaim_log_ok:
  assumes "log_ok (en_store eng)"
  shows "log_ok (en_store (reclaimStalledSlot wo timeout text now eng c))"
proof -
  let ?n = "en_steps eng"
  have ok: "store_ok (en_store eng)" "no_snapshots (en_store eng)" "retry_once (en_store eng)"
    using assms by (simp_all add: log_ok_def)
  have "log_ok st'" if ap: "Append flt c v [e] (en_store eng) = Inr st'" and e: "e_Type e = WorkflowFailed" for flt v e st'
  proof -
    have "auto_retry_of p (e\<lparr>e_AggregateID := c, e_Version := v + 1\<rparr>) = False" for p
      using e by simp
    then have "filter (auto_retry_of p) (Load st' b) = filter (auto_retry_of p) (Load (en_store eng) b)" for p b
      using sqlite.append_load [OF ok(1) ap, of b] by (simp add: numbered_Cons)
    then show ?thesis
      using ok store_ok_Append [OF ap ok(1)] Append_snapshots [OF ap] by (simp add: log_ok_def no_snapshots_def retry_once_def)
  qed
  then show ?thesis using assms
    by (auto simp: reclaimStalledSlot_def Let_def env_builders split: sum.split)
qed

lemma sweep_log_ok: "log_ok (en_store eng) \<Longrightarrow> log_ok (en_store (runWatchdogSweep wo timeout text now eng))"
  by (auto simp: runWatchdogSweep_def Let_def split: option.split
      intro!: drain_log_ok foldl_invariant [where I = "\<lambda>eng. log_ok (en_store eng)"] reclaim_log_ok)

section \<open>The throttle bound\<close>

text \<open>
  The slots in use are within the limit, or all of them belong to workflows that were
  running when the process started.
\<close>

definition slots_within :: "string set \<Rightarrow> throttle \<Rightarrow> bool" where
  "slots_within ids t \<longleftrightarrow> int (length (th_running t)) \<le> th_max t \<or> set (mkeys (th_running t)) \<subseteq> ids"

definition slots_ok :: "int \<Rightarrow> string set \<Rightarrow> engine \<Rightarrow> bool" where
  "slots_ok cap ids eng \<longleftrightarrow>
     (\<forall>t. en_throttle eng = Some t \<longrightarrow> throttle_ok t \<and> th_max t = cap \<and> 0 < cap \<and> slots_within ids t)"

lemma slots_within_cong: "th_running t' = th_running t \<Longrightarrow> th_max t' = th_max t \<Longrightarrow> slots_within ids t' = slots_within ids t"
  by (simp add: slots_within_def)

lemma slots_within_frame [simp]: "slots_within ids (touchActivity now a t) = slots_within ids t"
  "slots_within ids (t\<lparr>th_queued := q\<rparr>) = slots_within ids t"
  by (rule slots_within_cong; simp)+

lemma slots_within_removeRunning: "slots_within ids t \<Longrightarrow> slots_within ids (snd (removeRunning a t))"
proof -
  have "set (mkeys (th_running (snd (removeRunning a t)))) \<subseteq> set (mkeys (th_running t))"
    by (cases "map_of (th_running t) a") (auto simp: removeRunning_def)
  then show "slots_within ids t \<Longrightarrow> ?thesis"
    using running_removeRunning_le [of a t] by (auto simp: slots_within_def)
qed

lemma slots_within_addRunning:
  assumes "throttle_ok t" and "0 < th_max t" and "\<not> shouldQueue t"
  shows "slots_within ids (addRunning now a t)"
  using assms running_addRunning_le [OF assms(1), of now a] by (auto simp: slots_within_def shouldQueue_def)

lemma slots_ok_steps [simp]: "slots_ok cap ids (eng\<lparr>en_steps := k\<rparr>) = slots_ok cap ids eng"
  "slots_ok cap ids (eng\<lparr>en_store := st\<rparr>) = slots_ok cap ids eng"
  by (simp_all add: slots_ok_def)

lemma slots_ok_touch: "slots_ok cap ids eng \<Longrightarrow> slots_ok cap ids (touch now env eng)"
  by (auto simp: slots_ok_def touch_def throttle_ok_touch)

lemma slots_ok_cancel: "slots_ok cap ids eng \<Longrightarrow> slots_ok cap ids (cancel_slot flt env eng)"
proof (cases "en_throttle eng")
  case (Some t)
  assume "slots_ok cap ids eng"
  then have t: "throttle_ok t" "th_max t = cap" "0 < cap" "slots_within ids t"
    using Some by (simp_all add: slots_ok_def)
  from throttle_ok_removeRunning [OF t(1)] slots_within_removeRunning [OF t(4)]
  show ?thesis using Some t by (simp add: slots_ok_def cancel_slot_def removeQueued_def Let_def)
qed (simp add: slots_ok_def cancel_slot_def)

lemma slots_ok_park: "slots_ok cap ids eng \<Longrightarrow> slots_ok cap ids (park flt env eng)"
  by (auto simp: slots_ok_def park_def enqueue_def split: option.split)

text \<open>A started event takes a slot, which the caller knows to be free; nothing else does.\<close>

lemma slots_ok_publish:
  assumes "slots_ok cap ids eng" and "IsWorkflowStarted (e_Type ne) \<Longrightarrow> \<forall>t. en_throttle eng = Some t \<longrightarrow> \<not> shouldQueue t"
  shows "slots_ok cap ids (publish_one now eng ne)"
proof (cases "en_throttle eng")
  case None
  then show ?thesis by (simp add: publish_one_def slots_ok_def)
next
  case (Some t)
  then have t: "throttle_ok t" "th_max t = cap" "0 < cap" "slots_within ids t"
    using assms(1) by (simp_all add: slots_ok_def)
  define t1 where "t1 = (if IsWorkflowStarted (e_Type ne) then addRunning now (e_CorrelationID ne) t else t)"
  have "throttle_ok t1 \<and> th_max t1 = cap \<and> slots_within ids t1"
    using t assms(2) Some by (auto simp: t1_def throttle_ok_addRunning intro!: slots_within_addRunning)
  then show ?thesis
    using t(3) Some throttle_ok_removeRunning [of t1 "e_CorrelationID ne"] slots_within_removeRunning [of ids t1]
    by (auto simp: publish_one_def slots_ok_def Let_def t1_def [symmetric])
qed

lemma decision_started: "ty \<in> decision_types w t \<Longrightarrow> IsWorkflowStarted ty \<Longrightarrow> t = WorkflowRequested"
  by (cases t) (auto simp: decision_types_def)

lemma slots_ok_publish_all:
  assumes "tryProcessDecision wo n ws st a env = Inr (st', new)" and "slots_ok cap ids eng"
    and "e_Type env = WorkflowRequested \<Longrightarrow> \<forall>t. en_throttle eng = Some t \<longrightarrow> \<not> shouldQueue t"
  shows "slots_ok cap ids (foldl (publish_one now) eng new)"
  using new_events_shape [OF assms(1)] assms(2,3)
  by (auto intro!: slots_ok_publish dest: decision_started)

lemma slots_ok_decide: "slots_ok cap ids eng \<Longrightarrow> slots_ok cap ids (snd (decide_and_publish wo eng env))"
proof -
  assume ok: "slots_ok cap ids eng"
  define n where "n = en_steps eng"
  define e1 where "e1 = touch (rt_now (wo_rt wo n)) env (eng\<lparr>en_steps := Suc n\<rparr>)"
  define e2 where "e2 = cancel_slot (wo_queue_fault wo n) env e1"
  have e1: "slots_ok cap ids e1" using ok by (simp add: e1_def slots_ok_touch)
  then have e2: "slots_ok cap ids e2" by (simp add: e2_def slots_ok_cancel)
  have free: "\<forall>t. en_throttle e2 = Some t \<longrightarrow> \<not> shouldQueue t"
    if "\<not> must_queue env e1" "e_Type env = WorkflowRequested"
    using that by (auto simp: must_queue_def e2_def cancel_slot_def split: option.splits)
  have pub: "slots_ok cap ids (foldl (publish_one now) (e2\<lparr>en_store := st'\<rparr>) new)"
    if "tryProcessDecision wo n ws st a env = Inr (st', new)" "\<not> must_queue env e1" for now ws st a st' new
    using slots_ok_publish_all [OF that(1), of cap ids "e2\<lparr>en_store := st'\<rparr>"] e2 free that(2) by simp
  have "decide_and_publish wo eng env = (if must_queue env e1 then (Queued, park (wo_queue_fault wo n) env e1)
      else case tryProcessDecision wo n (en_workflows e2) (en_store e2) (resolveWorkflowAggregateID env) env of
           Inl err \<Rightarrow> (Failed err, e2)
         | Inr (st', new) \<Rightarrow> (Decided, foldl (publish_one (rt_now (wo_rt wo n))) (e2\<lparr>en_store := st'\<rparr>) new))"
    unfolding decide_and_publish_def Let_def n_def e1_def e2_def by (rule refl)
  then show ?thesis using e1 e2 pub by (auto simp: slots_ok_park split: sum.split)
qed

section \<open>Draining the queue\<close>

definition quiescent :: "engine \<Rightarrow> bool" where
  "quiescent eng \<longleftrightarrow> (\<forall>t. en_throttle eng = Some t \<longrightarrow> shouldQueue t \<or> th_queued t = [])"

definition slot_free :: "engine \<Rightarrow> bool" where
  "slot_free eng \<longleftrightarrow> (\<forall>t. en_throttle eng = Some t \<longrightarrow> \<not> shouldQueue t)"

lemma remove_first_length: "length (remove_first a es) \<le> length es"
  by (induction es) auto

lemma shouldQueue_frame [simp]:
  "shouldQueue (touchActivity now a t) = shouldQueue t" "shouldQueue (t\<lparr>th_queued := q\<rparr>) = shouldQueue t"
  by (simp_all add: shouldQueue_def)

lemma publish_queue [simp]: "queue_length (publish_one now eng e) = queue_length eng"
  by (simp add: queue_length_def publish_one_def Let_def split: option.split)

lemma publish_all_queue [simp]: "queue_length (foldl (publish_one now) eng es) = queue_length eng"
  by (induction es arbitrary: eng) simp_all

lemma cancel_queue: "queue_length (cancel_slot flt env eng) \<le> queue_length eng"
  using remove_first_length
  by (simp add: queue_length_def cancel_slot_def removeQueued_def Let_def split: option.split)

lemma touch_queue [simp]: "queue_length (touch now env eng) = queue_length eng"
  by (simp add: queue_length_def touch_def split: option.split)

lemma queue_length_frame [simp]: "queue_length (eng\<lparr>en_steps := n\<rparr>) = queue_length eng"
  "queue_length (eng\<lparr>en_store := st\<rparr>) = queue_length eng"
  by (simp_all add: queue_length_def)

lemma decide_queue:
  assumes "slot_free eng"
  shows "queue_length (snd (decide_and_publish wo eng env)) \<le> queue_length eng"
proof -
  let ?e = "touch (rt_now (wo_rt wo (en_steps eng))) env (eng\<lparr>en_steps := Suc (en_steps eng)\<rparr>)"
  have "\<not> must_queue env ?e"
    using assms by (auto simp: must_queue_def slot_free_def touch_def split: option.splits)
  moreover have "queue_length (cancel_slot flt env ?e) \<le> queue_length eng" for flt
    using cancel_queue [of flt env ?e] by simp
  ultimately show ?thesis by (auto simp: decide_and_publish_def Let_def split: sum.split)
qed

text \<open>One round of the loop: the engine after dequeuing and processing a request.\<close>

definition drain_round :: "world \<Rightarrow> engine \<Rightarrow> (outcome \<times> engine) option" where
  "drain_round wo eng = (case en_throttle eng of
      None \<Rightarrow> None
    | Some t \<Rightarrow> if shouldQueue t then None
        else (case dequeue (wo_queue_fault wo (en_steps eng)) (t, en_store eng) of
            None \<Rightarrow> None
          | Some (next, t', st') \<Rightarrow> Some (decide_and_publish wo (eng\<lparr>en_throttle := Some t', en_store := st'\<rparr>) next)))"

lemma drain_unfold:
  "drainThrottleQueue (Suc fuel) wo eng = (case drain_round wo eng of
      None \<Rightarrow> eng
    | Some (Decided, eng') \<Rightarrow> drainThrottleQueue fuel wo (drainThrottleQueue fuel wo eng')
    | Some (_, eng') \<Rightarrow> drainThrottleQueue fuel wo eng')"
  by (auto simp: drain_step drain_round_def split: option.split outcome.split)

lemma drain_round_None: "drain_round wo eng = None \<longleftrightarrow> quiescent eng"
  by (auto simp: drain_round_def quiescent_def dequeue_def split: option.split list.split)

lemma drain_round_Some:
  assumes "drain_round wo eng = Some (r, eng')"
  shows "Suc (queue_length eng') \<le> queue_length eng"
proof -
  obtain t nxt rest st' where t: "en_throttle eng = Some t" "\<not> shouldQueue t" "th_queued t = nxt # rest"
    and r: "decide_and_publish wo (eng\<lparr>en_throttle := Some (t\<lparr>th_queued := rest\<rparr>), en_store := st'\<rparr>) nxt = (r, eng')"
    using assms by (auto simp: drain_round_def dequeue_def split: option.splits if_splits list.splits)
  have "queue_length eng' \<le> queue_length (eng\<lparr>en_throttle := Some (t\<lparr>th_queued := rest\<rparr>), en_store := st'\<rparr>)"
    using decide_queue [of "eng\<lparr>en_throttle := Some (t\<lparr>th_queued := rest\<rparr>), en_store := st'\<rparr>" wo nxt] t(2) r
    by (simp add: slot_free_def)
  then show ?thesis using t by (simp add: queue_length_def)
qed

lemma drain_quiescent [simp]: "quiescent eng \<Longrightarrow> drainThrottleQueue fuel wo eng = eng"
  by (cases fuel) (simp_all add: drain_unfold iffD2 [OF drain_round_None])

lemma drain_spec:
  "queue_length eng < fuel \<Longrightarrow>
     quiescent (drainThrottleQueue fuel wo eng) \<and> queue_length (drainThrottleQueue fuel wo eng) \<le> queue_length eng"
proof (induction fuel arbitrary: eng)
  case (Suc fuel)
  show ?case
  proof (cases "drain_round wo eng")
    case None
    then show ?thesis by (simp add: drain_round_None)
  next
    case (Some p)
    obtain r e2 where p: "p = (r, e2)" by (cases p)
    have less: "Suc (queue_length e2) \<le> queue_length eng" using drain_round_Some Some p by simp
    with Suc.prems have "queue_length e2 < fuel" by simp
    from Suc.IH [OF this] have q: "quiescent (drainThrottleQueue fuel wo e2)"
      "queue_length (drainThrottleQueue fuel wo e2) \<le> queue_length e2" by simp_all
    then show ?thesis using Some p less by (cases r) (simp_all add: drain_unfold)
  qed
qed simp

text \<open>Beyond the length of the queue the recursion bound makes no difference.\<close>

lemma drain_fuel:
  "queue_length eng < fuel \<Longrightarrow> queue_length eng < fuel' \<Longrightarrow>
     drainThrottleQueue fuel wo eng = drainThrottleQueue fuel' wo eng"
proof (induction fuel arbitrary: fuel' eng)
  case (Suc fuel)
  obtain f' where f': "fuel' = Suc f'" using Suc.prems(2) by (cases fuel') auto
  show ?case
  proof (cases "drain_round wo eng")
    case None
    then show ?thesis by (simp add: drain_unfold f')
  next
    case (Some p)
    obtain r e2 where p: "p = (r, e2)" by (cases p)
    have "Suc (queue_length e2) \<le> queue_length eng" using drain_round_Some Some p by simp
    then have b: "queue_length e2 < fuel" "queue_length e2 < f'" using Suc.prems f' by simp_all
    have "drainThrottleQueue fuel wo e2 = drainThrottleQueue f' wo e2" by (rule Suc.IH [OF b])
    moreover have "quiescent (drainThrottleQueue fuel wo e2)" using drain_spec [OF b(1)] by simp
    ultimately show ?thesis using Some p by (cases r) (simp_all add: drain_unfold f')
  qed
qed simp

lemma drain_invariant:
  assumes "\<And>eng env. I eng \<Longrightarrow> I (snd (decide_and_publish wo eng env))"
    and "\<And>eng t nxt t' st' flt. I eng \<Longrightarrow> en_throttle eng = Some t \<Longrightarrow> dequeue flt (t, en_store eng) = Some (nxt, t', st') \<Longrightarrow>
        I (eng\<lparr>en_throttle := Some t', en_store := st'\<rparr>)"
  shows "I eng \<Longrightarrow> I (drainThrottleQueue fuel wo eng)"
proof (induction fuel arbitrary: eng)
  case (Suc fuel)
  show ?case
  proof (cases "drain_round wo eng")
    case None
    then show ?thesis using Suc.prems by (simp add: drain_unfold)
  next
    case (Some p)
    obtain r e2 where p: "p = (r, e2)" by (cases p)
    then obtain t flt nxt t' st' where t: "en_throttle eng = Some t" "dequeue flt (t, en_store eng) = Some (nxt, t', st')"
      and r: "decide_and_publish wo (eng\<lparr>en_throttle := Some t', en_store := st'\<rparr>) nxt = (r, e2)"
      using Some by (auto simp: drain_round_def split: option.splits if_splits)
    from assms(2) [OF Suc.prems t] have "I (snd (decide_and_publish wo (eng\<lparr>en_throttle := Some t', en_store := st'\<rparr>) nxt))"
      by (rule assms(1))
    then have "I e2" using r by simp
    with Suc.IH Some p show ?thesis by (cases r) (simp_all add: drain_unfold)
  qed
qed simp

lemma slots_ok_drain: "slots_ok cap ids eng \<Longrightarrow> slots_ok cap ids (drainThrottleQueue fuel wo eng)"
  by (erule drain_invariant [rotated 2])
     (auto simp: slots_ok_decide, auto simp: slots_ok_def dequeue_def split: list.splits)

lemma slots_ok_process: "slots_ok cap ids eng \<Longrightarrow> slots_ok cap ids (processDecision wo eng env)"
  using slots_ok_decide [of cap ids eng wo env]
  by (auto simp: processDecision_def slots_ok_drain split: prod.split outcome.split)

lemma slots_ok_reclaim: "slots_ok cap ids eng \<Longrightarrow> slots_ok cap ids (reclaimStalledSlot wo timeout text now eng c)"
proof -
  have "throttle_ok (markStalled c t) \<and> th_max (markStalled c t) = th_max t \<and> (slots_within ids t \<longrightarrow> slots_within ids (markStalled c t))"
    if "throttle_ok t" for t
    using throttle_ok_markStalled [OF that, of c] slots_within_removeRunning [of ids t c] removeRunning_max [where a = c and t = t]
    by (auto simp: markStalled_def split_def slots_within_def)
  then show "slots_ok cap ids eng \<Longrightarrow> ?thesis"
    by (fastforce simp: slots_ok_def reclaimStalledSlot_def Let_def split: sum.split)
qed

lemma slots_ok_sweep: "slots_ok cap ids eng \<Longrightarrow> slots_ok cap ids (runWatchdogSweep wo timeout text now eng)"
  by (auto simp: runWatchdogSweep_def Let_def split: option.split
      intro!: slots_ok_drain foldl_invariant [where I = "slots_ok cap ids"] slots_ok_reclaim)

section \<open>Published means stored\<close>

lemma set_Load: "set (Load st a) = {e \<in> set (st_events st). e_AggregateID e = a}"
  by (simp add: Load_def rows_of_def)

lemma mem_Load: "e \<in> set (Load st a) \<longleftrightarrow> e \<in> set (st_events st) \<and> e_AggregateID e = a"
  by (simp add: set_Load)

lemma Append_grows:
  "Append flt a v es st = Inr st' \<Longrightarrow> store_ok st \<Longrightarrow> set (st_events st) \<subseteq> set (st_events st')"
proof (cases "es = []")
  case True
  then show "Append flt a v es st = Inr st' \<Longrightarrow> ?thesis" by (simp add: Append_def)
next
  case False
  assume "Append flt a v es st = Inr st'" "store_ok st"
  from Append_Inr(1) [OF this False] show ?thesis by simp
qed

lemma tryProcess_grows:
  assumes "tryProcessDecision wo n ws st a env = Inr (st', new)" and "log_ok st"
  shows "set (st_events st) \<subseteq> set (st_events st')" "set new \<subseteq> set (st_events st')"
proof -
  have ok: "store_ok st" "no_snapshots st" using assms(2) by (simp_all add: log_ok_def)
  obtain tracked mir where T: "Load st' a = Load st a @ tracked @ new @ mir" "\<And>b. b \<noteq> a \<Longrightarrow> Load st' b = Load st b"
    using tryProcess_Inr [OF assms(1) ok] by metis
  show "set new \<subseteq> set (st_events st')" using T(1) mem_Load [of _ st' a] by auto
  show "set (st_events st) \<subseteq> set (st_events st')"
  proof
    fix e assume "e \<in> set (st_events st)"
    then have "e \<in> set (Load st (e_AggregateID e))" by (simp add: mem_Load)
    then have "e \<in> set (Load st' (e_AggregateID e))" using T by (cases "e_AggregateID e = a") auto
    then show "e \<in> set (st_events st')" by (simp add: mem_Load)
  qed
qed

definition published_ok :: "engine \<Rightarrow> bool" where
  "published_ok eng \<longleftrightarrow> log_ok (en_store eng) \<and> set (en_published eng) \<subseteq> set (st_events (en_store eng))"

lemma publish_all_published [simp]: "en_published (foldl (publish_one now) eng es) = en_published eng @ es"
  by (induction es arbitrary: eng) (simp_all add: publish_one_def Let_def)

lemma touch_published [simp]: "en_published (touch now env eng) = en_published eng"
  by (simp add: touch_def)

lemma cancel_published [simp]: "en_published (cancel_slot flt env eng) = en_published eng"
  "st_events (en_store (cancel_slot flt env eng)) = st_events (en_store eng)"
  by (simp_all add: cancel_slot_def removeQueued_def DeleteQueuedWorkflow_def Let_def split_def split: option.split)

lemma park_published [simp]: "en_published (park flt env eng) = en_published eng"
  "st_events (en_store (park flt env eng)) = st_events (en_store eng)"
  by (simp_all add: park_def enqueue_def EnqueueWorkflow_def Let_def split: option.split)

lemma published_ok_decide:
  assumes "published_ok eng"
  shows "published_ok (snd (decide_and_publish wo eng env))"
proof -
  have log: "log_ok (en_store (snd (decide_and_publish wo eng env)))"
    using assms by (simp add: published_ok_def decide_log_ok)
  let ?e1 = "touch (rt_now (wo_rt wo (en_steps eng))) env (eng\<lparr>en_steps := Suc (en_steps eng)\<rparr>)"
  let ?e2 = "cancel_slot (wo_queue_fault wo (en_steps eng)) env ?e1"
  have "log_ok (en_store ?e2)" using assms by (simp add: published_ok_def)
  note grows = tryProcess_grows [OF _ this]
  have "set (en_published (snd (decide_and_publish wo eng env))) \<subseteq>
      set (st_events (en_store (snd (decide_and_publish wo eng env))))"
  proof (cases "must_queue env ?e1")
    case True
    then show ?thesis using assms by (simp add: decide_and_publish_def Let_def published_ok_def)
  next
    case False
    show ?thesis
    proof (cases "tryProcessDecision wo (en_steps eng) (en_workflows ?e2) (en_store ?e2) (resolveWorkflowAggregateID env) env")
      case (Inl err)
      with False assms show ?thesis by (simp add: decide_and_publish_def Let_def published_ok_def)
    next
      case (Inr p)
      obtain st' new where p: "p = (st', new)" by (cases p)
      from grows [OF Inr [unfolded p]] assms have "set (en_published eng) \<union> set new \<subseteq> set (st_events st')"
        by (auto simp: published_ok_def)
      with False Inr p show ?thesis by (simp add: decide_and_publish_def Let_def)
    qed
  qed
  with log show ?thesis by (simp add: published_ok_def)
qed

lemma published_ok_drain: "published_ok eng \<Longrightarrow> published_ok (drainThrottleQueue fuel wo eng)"
proof (erule drain_invariant [rotated 2])
  show "published_ok eng \<Longrightarrow> published_ok (snd (decide_and_publish wo eng env))" for eng env
    by (rule published_ok_decide)
  show "published_ok (eng\<lparr>en_throttle := Some t', en_store := st'\<rparr>)"
    if "published_ok eng" "dequeue flt (t, en_store eng) = Some (nxt, t', st')" for eng t nxt t' st' flt
  proof -
    have "st' = en_store eng \<or> st' = DeleteQueuedWorkflow (e_AggregateID nxt) (en_store eng)"
      using that(2) by (auto simp: dequeue_def split: list.splits if_splits)
    with that(1) show ?thesis by (auto simp: published_ok_def) (simp add: DeleteQueuedWorkflow_def subset_iff)
  qed
qed

lemma published_ok_process: "published_ok eng \<Longrightarrow> published_ok (processDecision wo eng env)"
  using published_ok_decide [of eng wo env]
  by (auto simp: processDecision_def published_ok_drain split: prod.split outcome.split)

lemma published_ok_reclaim:
  assumes "published_ok eng"
  shows "published_ok (reclaimStalledSlot wo timeout text now eng c)"
proof -
  have ok: "store_ok (en_store eng)" "set (en_published eng) \<subseteq> set (st_events (en_store eng))"
    using assms by (simp_all add: published_ok_def log_ok_def)
  have new: "set (en_published eng) \<union> {e} \<subseteq> set (st_events st')"
    if ap: "Append flt c v [e] (en_store eng) = Inr st'" and e: "e_AggregateID e = c" "e_Version e = v + 1" for flt v e st'
  proof -
    have "e\<lparr>e_AggregateID := c, e_Version := v + 1\<rparr> = e" using e by (cases e) simp
    then have "e \<in> set (Load st' c)" using sqlite.append_load [OF ok(1) ap, of c] by (simp add: numbered_Cons)
    then show ?thesis using Append_grows [OF ap ok(1)] ok(2) by (auto simp: mem_Load)
  qed
  have "log_ok (en_store (reclaimStalledSlot wo timeout text now eng c))"
    using assms by (simp add: published_ok_def reclaim_log_ok)
  moreover have "set (en_published (reclaimStalledSlot wo timeout text now eng c)) \<subseteq>
      set (st_events (en_store (reclaimStalledSlot wo timeout text now eng c)))"
    using ok(2) new by (auto simp: reclaimStalledSlot_def Let_def env_builders split: sum.split; fastforce)
  ultimately show ?thesis by (simp add: published_ok_def)
qed

lemma published_ok_sweep: "published_ok eng \<Longrightarrow> published_ok (runWatchdogSweep wo timeout text now eng)"
  by (auto simp: runWatchdogSweep_def Let_def split: option.split
      intro!: published_ok_drain foldl_invariant [where I = published_ok] published_ok_reclaim)

section \<open>Runs of the engine\<close>

text \<open>
  The engine as a transition system: it processes an event, sweeps for stalled workflows or
  gets a definition registered, while other components (handlers, operators) append events of
  their own to the store. Nothing but the engine writes automatic retries.
\<close>

inductive engine_step :: "world \<Rightarrow> engine \<Rightarrow> engine \<Rightarrow> bool" for wo where
  deliver: "engine_step wo eng (processDecision wo eng env)"
| sweep: "engine_step wo eng (runWatchdogSweep wo timeout text now eng)"
| register: "engine_step wo eng (RegisterWorkflow getenv def eng)"
| foreign: "Append flt a v es (en_store eng) = Inr st' \<Longrightarrow> \<forall>e \<in> set es. \<forall>p. \<not> auto_retry_of p e \<Longrightarrow>
    engine_step wo eng (eng\<lparr>en_store := st'\<rparr>)"

inductive_cases engine_stepE [elim]: "engine_step wo eng eng'"

definition NewEngine :: "int \<Rightarrow> engine" where
  "NewEngine n = SetMaxConcurrentWorkflows n
     \<lparr>en_store = empty_store, en_workflows = [], en_throttle = None, en_published = [], en_steps = 0\<rparr>"

text \<open>
  A run: the states of the engine over any number of server processes on one store, the
  first of which finds it empty. A process is configured with a limit \<open>n\<close> (not positive:
  no throttle) and finds the workflows \<open>ids\<close> running when it starts; the indices of the run
  are those of its last process. A process may stop after any step.
\<close>

inductive engine_run :: "world \<Rightarrow> int \<Rightarrow> string list \<Rightarrow> engine \<Rightarrow> bool" for wo where
  start: "engine_run wo n [] (NewEngine n)"
| restart: "engine_run wo n ids eng \<Longrightarrow> engine_run wo n' ids' (restart_engine n' now ids' flt eng)"
| step: "engine_run wo n ids eng \<Longrightarrow> engine_step wo eng eng' \<Longrightarrow> engine_run wo n ids eng'"

definition engine_ok :: "int \<Rightarrow> string list \<Rightarrow> engine \<Rightarrow> bool" where
  "engine_ok n ids eng \<longleftrightarrow> published_ok eng \<and> slots_ok n (set ids) eng"

lemma engine_ok_start: "engine_ok n [] (NewEngine n)"
proof -
  have "store_ok empty_store" by (rule store_ok_empty)
  moreover have "Load empty_store a = []" for a by (simp add: Load_def rows_of_def empty_store_def)
  ultimately have "log_ok empty_store"
    by (simp add: log_ok_def no_snapshots_def retry_once_def) (simp add: empty_store_def)
  then show ?thesis
    by (auto simp: engine_ok_def published_ok_def slots_ok_def NewEngine_def SetMaxConcurrentWorkflows_def
        throttle_ok_new slots_within_def) (simp_all add: newWorkflowThrottle_def mkeys_def)
qed

text \<open>The start-up only touches the queue table and the throttle.\<close>

lemma verify_queued_events [simp]:
  "st_events (fst (foldl (verify_queued flt) p envs)) = st_events (fst p)"
  "st_snapshots (fst (foldl (verify_queued flt) p envs)) = st_snapshots (fst p)"
  by (induction envs arbitrary: p) (simp_all add: verify_queued_def DeleteQueuedWorkflow_def Let_def split_def)

lemma LoadQueued_frame [simp]:
  "st_events (en_store (LoadQueuedWorkflows flt eng)) = st_events (en_store eng)"
  "st_snapshots (en_store (LoadQueuedWorkflows flt eng)) = st_snapshots (en_store eng)"
  "en_published (LoadQueuedWorkflows flt eng) = en_published eng"
  "en_workflows (LoadQueuedWorkflows flt eng) = en_workflows eng"
  by (auto simp: LoadQueuedWorkflows_def split_def split: option.split)

lemma restart_frame [simp]:
  "st_events (en_store (restart_engine n now ids flt eng)) = st_events (en_store eng)"
  "st_snapshots (en_store (restart_engine n now ids flt eng)) = st_snapshots (en_store eng)"
  "en_published (restart_engine n now ids flt eng) = en_published eng"
  by (simp_all add: restart_engine_def WarmThrottle_def SetMaxConcurrentWorkflows_def)

lemma warmRunning_max [simp]: "th_max (warmRunning now ids t) = th_max t"
  by (induction ids arbitrary: t) (simp_all add: warmRunning_def)

lemma warmRunning_keys: "set (mkeys (th_running (warmRunning now ids t))) = set (mkeys (th_running t)) \<union> set ids"
proof (induction ids arbitrary: t)
  case (Cons a ids)
  from Cons.IH [of "addRunning now a t"] show ?case by (auto simp: warmRunning_def addRunning_def)
qed (simp add: warmRunning_def)

lemma slots_ok_restart: "slots_ok n (set ids) (restart_engine n now ids flt eng)"
proof -
  let ?t = "warmRunning now ids (newWorkflowThrottle n True)"
  have keys: "set (mkeys (th_running ?t)) = set ids"
    by (simp add: warmRunning_keys) (simp add: newWorkflowThrottle_def mkeys_def)
  have "throttle_ok ?t" by (simp add: throttle_ok_warm throttle_ok_new)
  moreover have "th_max ?t = n" by (simp add: newWorkflowThrottle_def)
  moreover have "slots_within (set ids) ?t" using keys by (simp add: slots_within_def)
  ultimately show ?thesis
    by (auto simp: slots_ok_def restart_engine_def LoadQueuedWorkflows_def WarmThrottle_def SetMaxConcurrentWorkflows_def
        warmQueued_def split: if_splits prod.splits)
qed

lemma engine_ok_restart: "engine_ok n ids eng \<Longrightarrow> engine_ok n' ids' (restart_engine n' now ids' flt eng)"
  using log_ok_cong [of "en_store (restart_engine n' now ids' flt eng)" "en_store eng"]
  by (simp add: engine_ok_def published_ok_def slots_ok_restart)

lemma auto_retry_slot [simp]: "auto_retry_of p (e\<lparr>e_AggregateID := a, e_Version := v\<rparr>) = auto_retry_of p e"
  by (simp add: auto_retry_of_def)

lemma foreign_log_ok:
  assumes "Append flt a v es st = Inr st'" and "\<forall>e \<in> set es. \<forall>p. \<not> auto_retry_of p e" and "log_ok st"
  shows "log_ok st'"
proof -
  have ok: "store_ok st" "no_snapshots st" "retry_once st" using assms(3) by (simp_all add: log_ok_def)
  have "filter (auto_retry_of p) (numbered a v es) = []" for p
    using assms(2) by (auto simp: filter_empty_conv numbered_def dest: set_zip_rightD)
  then have "filter (auto_retry_of p) (Load st' b) = filter (auto_retry_of p) (Load st b)" for p b
    using sqlite.append_load [OF ok(1) assms(1), of b] by simp
  then show ?thesis using ok store_ok_Append [OF assms(1) ok(1)] Append_snapshots [OF assms(1)]
    by (simp add: log_ok_def no_snapshots_def retry_once_def)
qed

lemma engine_ok_step: "engine_ok n ids eng \<Longrightarrow> engine_step wo eng eng' \<Longrightarrow> engine_ok n ids eng'"
proof (erule engine_stepE)
  fix flt a v es st'
  assume "engine_ok n ids eng" "eng' = eng\<lparr>en_store := st'\<rparr>" "Append flt a v es (en_store eng) = Inr st'"
    "\<forall>e \<in> set es. \<forall>p. \<not> auto_retry_of p e"
  then show "engine_ok n ids eng'"
    using foreign_log_ok [of flt a v es "en_store eng" st'] Append_grows [of flt a v es "en_store eng" st']
    by (auto simp: engine_ok_def published_ok_def log_ok_def)
qed (auto simp: engine_ok_def slots_ok_process slots_ok_sweep published_ok_process published_ok_sweep,
     auto simp: RegisterWorkflow_def Let_def published_ok_def slots_ok_def)

lemma engine_run_ok: "engine_run wo n ids eng \<Longrightarrow> engine_ok n ids eng"
  by (induction rule: engine_run.induct) (auto simp: engine_ok_start engine_ok_step intro: engine_ok_restart)




section \<open>Properties\<close>

text \<open>A concrete run for the witnesses: a request for an unregistered workflow on an empty store.\<close>

definition sample_world :: world where
  "sample_world = \<lparr>wo_rt = (\<lambda>n. sample_rt), wo_load_fault = (\<lambda>n. False), wo_append_fault = (\<lambda>n. False),
     wo_queue_fault = (\<lambda>n. False)\<rparr>"

definition sample_request :: envelope where
  "sample_request = sample_env WorkflowRequested
     (PWorkflowRequested (zero_requested\<lparr>wr_WorkflowID := ''develop-only''\<rparr>))"

definition sample_run :: engine where
  "sample_run = processDecision sample_world (NewEngine 0) sample_request"

lemma sample_run_reachable: "engine_run sample_world 0 [] sample_run"
  unfolding sample_run_def by (rule engine_run.step [OF engine_run.start engine_step.deliver])

lemma sample_try:
  "\<exists>st' e. tryProcessDecision sample_world 0 [] empty_store ''wf'' sample_request = Inr (st', [e]) \<and>
     e_Type e = WorkflowFailed \<and> e_AggregateID e = ''wf''"
proof -
  have l: "Load empty_store a = []" for a by (simp add: Load_def rows_of_def empty_store_def)
  have s: "LoadSnapshot empty_store a = Inl ErrSnapshotNotFound" for a
    by (simp add: LoadSnapshot_def empty_store_def)
  have agg: "loadAggregate False [] empty_store ''wf'' = Inr (NewWorkflowAggregate ''wf'')"
    by (simp add: loadAggregate_def l s pre_attach_def NewWorkflowAggregate_def)
  define e where "e = hd (decideWorkflowRequested sample_rt (NewWorkflowAggregate ''wf'') sample_request)"
  have e: "decideWorkflowRequested sample_rt (NewWorkflowAggregate ''wf'') sample_request = [e]"
    "e_Type e = WorkflowFailed" "e_AggregateID e = ''wf''"
    by (simp_all add: e_def decideWorkflowRequested_def NewWorkflowAggregate_def)
  have ev: "step_events sample_rt (NewWorkflowAggregate ''wf'') ''wf'' sample_request = ([], [e], [])"
    using e(1) by (simp add: step_events_def track_def mirror_verdict_def Decide_def sample_request_def sample_env_def)
  have "\<exists>st'. Append False ''wf'' 0 [e] empty_store = Inr st'"
    by (simp add: Append_def current_version_def rows_of_def empty_store_def)
  moreover have "w_Version (NewWorkflowAggregate ''wf'') = 0" by (simp add: NewWorkflowAggregate_def)
  ultimately show ?thesis using e
    by (auto simp: tryProcessDecision_def sample_world_def agg ev)
qed

lemma sample_run_published: "\<exists>e. en_published sample_run = [e] \<and> e_AggregateID e = ''wf''"
proof -
  obtain st' e where t: "tryProcessDecision sample_world 0 [] empty_store ''wf'' sample_request = Inr (st', [e])"
    "e_AggregateID e = ''wf''" using sample_try by blast
  have "e_AggregateID sample_request = ''wf''" "e_Type sample_request = WorkflowRequested"
    by (simp_all add: sample_request_def sample_env_def)
  with t show ?thesis
    by (simp add: sample_run_def processDecision_def decide_and_publish_def NewEngine_def SetMaxConcurrentWorkflows_def
        touch_def must_queue_def cancel_slot_def resolveWorkflowAggregateID_def publish_one_def drain_step Let_def)
qed

lemma loadAggregate_cong:
  "st_events st = st_events st' \<Longrightarrow> st_snapshots st = st_snapshots st' \<Longrightarrow>
     loadAggregate flt ws st a = loadAggregate flt ws st' a"
proof -
  assume "st_events st = st_events st'" "st_snapshots st = st_snapshots st'"
  then have L: "Load st = Load st'" "LoadFrom st = LoadFrom st'" "LoadSnapshot st = LoadSnapshot st'"
    by (simp_all add: fun_eq_iff LoadSnapshot_def Load_def LoadFrom_def rows_of_def)
  show ?thesis unfolding loadAggregate_def L by (rule refl)
qed

lemma loadAggregate_fault: "loadAggregate flt ws st a = Inr agg \<Longrightarrow> loadAggregate False ws st a = Inr agg"
  unfolding loadAggregate_def by (simp split: sum.splits prod.splits if_splits)

lemma cancel_frame [simp]: "st_snapshots (en_store (cancel_slot flt env eng)) = st_snapshots (en_store eng)"
  "en_workflows (cancel_slot flt env eng) = en_workflows eng"
  by (simp_all add: cancel_slot_def removeQueued_def DeleteQueuedWorkflow_def Let_def split_def split: option.split)

lemma touch_workflows [simp]: "en_workflows (touch now env eng) = en_workflows eng"
  by (simp add: touch_def)

text \<open>When a tracking copy is due, over the aggregate's fields and the decoded payload.\<close>

definition tracking_due :: "aggregate \<Rightarrow> envelope \<Rightarrow> bool" where
  "tracking_due agg env \<longleftrightarrow>
     (\<exists>p. e_Type env = PersonaCompleted \<and> as_completed (e_Payload env) = Some p \<and>
        \<not> isset (w_CompletedPersonas agg) (pc_Persona p) \<and>
        (\<forall>target. w_FeedbackPending agg (pc_Persona p) = Some target \<longrightarrow> isset (w_CompletedPersonas agg) target)) \<or>
     (\<exists>p d. e_Type env = PersonaFailed \<and> as_failed (e_Payload env) = Some p \<and> w_Status agg = StatusRunning \<and>
        w_WorkflowDef agg = Some d \<and> pf_Persona p \<in> set (wd_Required d))"

text \<open>A storage-only copy: the payload and correlation of the event it records.\<close>

definition copy_of :: "envelope \<Rightarrow> etype \<Rightarrow> envelope \<Rightarrow> bool" where
  "copy_of env ty e \<longleftrightarrow> e_Type e = ty \<and> e_Payload e = e_Payload env \<and> e_CorrelationID e = e_CorrelationID env \<and>
     e_CausationID e = e_ID env"

lemma tracking_event_copy: "copy_of env ty (tracking_event rt k agg env ty v)"
  by (simp add: copy_of_def tracking_event_def env_builders)

lemma track_iff:
  "\<exists>ty. track rt agg a env = (if a \<noteq> e_AggregateID env \<and> tracking_due agg env
     then [tracking_event rt 0 agg env ty (w_Version agg + 1)] else []) \<and>
     ty = (if e_Type env = PersonaCompleted then PersonaTracked else PersonaFailedTracked)"
  by (auto simp: track_def tracking_due_def isStaleAfterFeedback_def isRequired_iff split: option.splits)

lemma decide_and_publish_cases:
  assumes "decide_and_publish wo eng env = (r, eng')"
  obtains (silent) "r \<noteq> Decided" "st_events (en_store eng') = st_events (en_store eng)"
      "st_snapshots (en_store eng') = st_snapshots (en_store eng)" "en_published eng' = en_published eng"
    | (decided) st st' new where "r = Decided" "st_events st = st_events (en_store eng)"
      "st_snapshots st = st_snapshots (en_store eng)"
      "tryProcessDecision wo (en_steps eng) (en_workflows eng) st (resolveWorkflowAggregateID env) env = Inr (st', new)"
      "en_store eng' = st'" "en_published eng' = en_published eng @ new"
proof -
  let ?n = "en_steps eng"
  let ?e1 = "touch (rt_now (wo_rt wo ?n)) env (eng\<lparr>en_steps := Suc ?n\<rparr>)"
  let ?e2 = "cancel_slot (wo_queue_fault wo ?n) env ?e1"
  let ?attempt = "tryProcessDecision wo ?n (en_workflows ?e2) (en_store ?e2) (resolveWorkflowAggregateID env) env"
  have D: "decide_and_publish wo eng env = (if must_queue env ?e1 then (Queued, park (wo_queue_fault wo ?n) env ?e1)
      else case ?attempt of Inl err \<Rightarrow> (Failed err, ?e2)
         | Inr (st', new) \<Rightarrow> (Decided, foldl (publish_one (rt_now (wo_rt wo ?n))) (?e2\<lparr>en_store := st'\<rparr>) new))"
    unfolding decide_and_publish_def Let_def by (rule refl)
  have park: "st_snapshots (en_store (park flt env ?e1)) = st_snapshots (en_store eng)" for flt
    by (simp add: park_def enqueue_def EnqueueWorkflow_def split: option.split)
  show thesis
  proof (cases "must_queue env ?e1")
    case True
    with D assms silent park show thesis by auto
  next
    case False
    show thesis
    proof (cases ?attempt)
      case (Inl err)
      with D assms False silent show thesis by auto
    next
      case (Inr p)
      obtain st' new where p: "p = (st', new)" by (cases p)
      with D assms False Inr decided [of "en_store ?e2" st' new] show thesis by auto
    qed
  qed
qed

text \<open>
  C11. One processed event is one atomic, correctly numbered append. On a consistent log, a
  request that is queued, or an event whose load or append fails, leaves every stream and the
  published events as they were. Otherwise the workflow was loaded, and its stream grows by:
  a tracking copy, exactly when the event arrived on another stream and is a completion not
  yet counted or a failure of a required persona of the running workflow; then precisely the
  events (at most one) the decision yields on the workflow brought up to date with the copy;
  then a mirror of the event exactly when it is a verdict from another stream. No other stream
  changes, the log stays consistent, and the decided events alone are published.
\<close>

theorem decision_step_is_one_append:
  assumes "log_ok (en_store eng)" and "decide_and_publish wo eng env = (r, eng')"
    and "a = resolveWorkflowAggregateID env" and "rt = wo_rt wo (en_steps eng)"
  shows "log_ok (en_store eng') \<and>
    (if r \<noteq> Decided
     then st_events (en_store eng') = st_events (en_store eng) \<and> en_published eng' = en_published eng
     else \<exists>agg tracked new mir.
       loadAggregate False (en_workflows eng) (en_store eng) a = Inr agg \<and>
       Load (en_store eng') a = Load (en_store eng) a @ tracked @ new @ mir \<and>
       (\<forall>b. b \<noteq> a \<longrightarrow> Load (en_store eng') b = Load (en_store eng) b) \<and>
       en_published eng' = en_published eng @ new \<and>
       new = snd (Decide rt (replay agg tracked) env) \<and> length new \<le> 1 \<and>
       (if a \<noteq> e_AggregateID env \<and> tracking_due agg env
        then \<exists>e. tracked = [e] \<and>
          copy_of env (if e_Type env = PersonaCompleted then PersonaTracked else PersonaFailedTracked) e
        else tracked = []) \<and>
       (if a \<noteq> e_AggregateID env \<and> e_Type env = VerdictRendered
        then \<exists>e. mir = [e] \<and> copy_of env VerdictTracked e else mir = []))"
  using assms(2)
proof (cases rule: decide_and_publish_cases)
  case silent
  with assms(1) log_ok_cong [of "en_store eng'" "en_store eng"] show ?thesis by simp
next
  case (decided st st' new)
  note L = Load_cong [OF decided(2)] loadAggregate_cong [OF decided(2,3)]
  have log: "log_ok st" using assms(1) log_ok_cong [OF decided(2,3)] by simp
  then have ok: "store_ok st" "no_snapshots st" by (simp_all add: log_ok_def)
  obtain agg tracked mir where T: "loadAggregate (wo_load_fault wo (en_steps eng)) (en_workflows eng) st a = Inr agg"
    "step_events rt agg a env = (tracked, new, mir)"
    "Load st' a = Load st a @ tracked @ new @ mir" "\<And>b. b \<noteq> a \<Longrightarrow> Load st' b = Load st b"
    using tryProcess_Inr [OF decided(4) ok] assms(3,4) by metis
  have load: "loadAggregate False (en_workflows eng) (en_store eng) a = Inr agg"
    using loadAggregate_fault [OF T(1)] by (simp add: L(2))
  obtain agg' where D: "tracked = track rt agg a env" "Decide rt (replay agg tracked) env = (agg', new)"
    "mir = mirror_verdict rt agg' a env (length new)"
    using T(2) by (auto simp: step_events_def Let_def split: prod.splits)
  have new: "new = snd (Decide rt (replay agg tracked) env)" "length new \<le> 1"
    using D(2) Decide_length [of rt "replay agg tracked" env] by simp_all
  obtain ty where ty: "ty = (if e_Type env = PersonaCompleted then PersonaTracked else PersonaFailedTracked)"
    "tracked = (if a \<noteq> e_AggregateID env \<and> tracking_due agg env
     then [tracking_event rt 0 agg env ty (w_Version agg + 1)] else [])"
    using track_iff [of rt agg a env] D(1) by auto
  have tr: "if a \<noteq> e_AggregateID env \<and> tracking_due agg env
        then \<exists>e. tracked = [e] \<and>
          copy_of env (if e_Type env = PersonaCompleted then PersonaTracked else PersonaFailedTracked) e
        else tracked = []"
    unfolding ty(1) [symmetric] using ty(2) tracking_event_copy by simp
  have mi: "if a \<noteq> e_AggregateID env \<and> e_Type env = VerdictRendered
        then \<exists>e. mir = [e] \<and> copy_of env VerdictTracked e else mir = []"
    using D(3) by (simp add: mirror_verdict_def tracking_event_copy)
  have log': "log_ok (en_store eng')" using tryProcess_log_ok [OF decided(4) log] decided(5) by simp
  have at: "Load (en_store eng') a = Load (en_store eng) a @ tracked @ new @ mir"
    and other: "\<forall>b. b \<noteq> a \<longrightarrow> Load (en_store eng') b = Load (en_store eng) b"
    using T(3,4) L(1) decided(5) by simp_all
  show ?thesis unfolding decided(1)
    by (rule conjI [OF log'], subst if_not_P, simp)
       (intro exI [of _ agg] exI [of _ tracked] exI [of _ new] exI [of _ mir] conjI load at other decided(6) new tr mi)
qed

lemma decision_step_is_one_append_witness:
  "\<exists>e eng'. decide_and_publish sample_world (NewEngine 0) sample_request = (Decided, eng') \<and>
     Load (en_store eng') ''wf'' = [e] \<and> en_published eng' = [e] \<and> e_Type e = WorkflowFailed"
proof -
  obtain st' e where t: "tryProcessDecision sample_world 0 [] empty_store ''wf'' sample_request = Inr (st', [e])"
    "e_Type e = WorkflowFailed" using sample_try by blast
  have r: "e_AggregateID sample_request = ''wf''" "e_Type sample_request = WorkflowRequested"
    "resolveWorkflowAggregateID sample_request = ''wf''"
    by (simp_all add: sample_request_def sample_env_def resolveWorkflowAggregateID_def)
  let ?D = "decide_and_publish sample_world (NewEngine 0) sample_request"
  have "fst ?D = Decided" "en_published (snd ?D) = [e]"
    using t r by (simp_all add: decide_and_publish_def NewEngine_def SetMaxConcurrentWorkflows_def
        touch_def must_queue_def cancel_slot_def publish_one_def Let_def)
  then obtain eng' where D: "?D = (Decided, eng')" "en_published eng' = [e]" by (cases ?D) simp
  have n: "log_ok (en_store (NewEngine 0))" "en_published (NewEngine 0) = []" "Load (en_store (NewEngine 0)) ''wf'' = []"
    using engine_ok_start [of 0] by (simp add: engine_ok_def published_ok_def)
      (simp_all add: NewEngine_def SetMaxConcurrentWorkflows_def Load_def rows_of_def empty_store_def)
  from decision_step_is_one_append [OF n(1) D(1) r(3) [symmetric] refl] r n(2,3) D(2)
  have "Load (en_store eng') ''wf'' = [e]" by auto
  with D t(2) show ?thesis by blast
qed

text \<open>
  C2. Whatever sequence of events the engine processes, watchdog sweeps, foreign appends and
  restarts included and whichever driver calls fail, every event it has published is in the store, in
  the stream it names, exactly as published.
\<close>

theorem published_events_are_stored:
  assumes "engine_run wo n ids eng" and "e \<in> set (en_published eng)"
  shows "e \<in> set (Load (en_store eng) (e_AggregateID e))"
  using engine_run_ok [OF assms(1)] assms(2) by (auto simp: engine_ok_def published_ok_def mem_Load)

lemma published_events_are_stored_witness:
  "\<exists>e. en_published sample_run = [e] \<and> e \<in> set (Load (en_store sample_run) ''wf'')"
  using sample_run_published published_events_are_stored [OF sample_run_reachable] by fastforce

text \<open>
  C1. In every run of the engine, over any number of restarts, no persona of a workflow is
  retried automatically more than once, so a deterministic failure cannot loop, as long as
  nobody but the engine writes automatic retries.
\<close>

theorem at_most_one_automatic_retry:
  assumes "engine_run wo n ids eng"
  shows "length (filter (auto_retry_of p) (Load (en_store eng) a)) \<le> 1"
  using engine_run_ok [OF assms] by (auto simp: engine_ok_def published_ok_def log_ok_def retry_once_def)

lemma at_most_one_automatic_retry_witness:
  "length (filter (auto_retry_of ''developer'') (Load (en_store sample_run) ''wf'')) \<le> 1"
  by (rule at_most_one_automatic_retry [OF sample_run_reachable])



text \<open>
  C13. No request waits while a slot is free: after an event is processed, unless loading or
  appending failed, either the throttle is at capacity or its queue is empty; and the drain's
  recursion bound is immaterial.
\<close>

theorem no_request_waits_for_a_free_slot:
  "(\<exists>err eng'. decide_and_publish wo eng env = (Failed err, eng')) \<or> quiescent (processDecision wo eng env)"
proof -
  obtain r eng' where D: "decide_and_publish wo eng env = (r, eng')" by fastforce
  show ?thesis
  proof (cases r)
    case Queued
    then have "\<exists>n e1. must_queue env e1 \<and> eng' = park (wo_queue_fault wo n) env e1"
      using D by (auto simp: decide_and_publish_def Let_def split: if_splits sum.splits)
    then have "quiescent eng'"
      by (auto simp: must_queue_def park_def enqueue_def quiescent_def split: option.splits)
    then show ?thesis using D Queued by (simp add: processDecision_def)
  next
    case (Failed err)
    with D show ?thesis by blast
  next
    case Decided
    then show ?thesis using D drain_spec [of eng' "Suc (queue_length eng')" wo] by (simp add: processDecision_def)
  qed
qed

text \<open>
  C40. The recursion bound of the drain does not cut it short: every bound above the length
  of the queue gives the same engine, with nothing left to drain.
\<close>

theorem drain_bound_is_enough:
  assumes "queue_length eng < fuel"
  shows "drainThrottleQueue fuel wo eng = drainThrottleQueue (Suc (queue_length eng)) wo eng \<and>
     quiescent (drainThrottleQueue fuel wo eng)"
  using drain_fuel [OF assms, of "Suc (queue_length eng)" wo] drain_spec [OF assms, of wo] by simp

lemma drain_bound_is_enough_witness:
  "quiescent (drainThrottleQueue 7 sample_world (NewEngine 2))"
proof -
  have "queue_length (NewEngine 2) < 7"
    by (simp add: queue_length_def NewEngine_def SetMaxConcurrentWorkflows_def newWorkflowThrottle_def)
  from drain_bound_is_enough [OF this] show ?thesis by blast
qed

text \<open>The definition is attached before the replay, which leaves it alone.\<close>

lemma Apply_WorkflowID:
  "w_WorkflowID (Apply w e) = (if e_Type e = WorkflowRequested
     then wr_WorkflowID (or_zero zero_requested (as_requested (e_Payload e))) else w_WorkflowID w)"
proof -
  have "w_WorkflowID (foldl invalidate_persona w ps) = w_WorkflowID w" for w ps
    by (induction ps arbitrary: w) (simp_all add: invalidate_persona_def)
  then show ?thesis
    by (cases "e_Type e"; simp add: Apply_def Let_def; simp add: apply_steps apply_retried_def Let_def split: option.split)
qed

lemma replay_WorkflowID:
  "\<forall>e \<in> set evs. e_Type e \<noteq> WorkflowRequested \<Longrightarrow> w_WorkflowID (replay w evs) = w_WorkflowID w"
proof (induction evs arbitrary: w)
  case (Cons e evs)
  have "w_WorkflowID (Apply w e) = w_WorkflowID w" using Cons.prems Apply_WorkflowID [of w e] by simp
  with Cons show ?case by simp
qed simp

lemma pre_attach_none: "\<forall>e \<in> set evs. e_Type e \<noteq> WorkflowRequested \<Longrightarrow> pre_attach ws evs w = w"
proof -
  assume "\<forall>e \<in> set evs. e_Type e \<noteq> WorkflowRequested"
  then have "List.find (\<lambda>e. e_Type e = WorkflowRequested) evs = None" by (simp add: find_None_iff)
  then show ?thesis by (simp add: pre_attach_def)
qed

lemma attach_again:
  assumes "e_Type r = WorkflowRequested" and "\<forall>e \<in> set evs. e_Type e \<noteq> WorkflowRequested"
    and "w = replay (pre_attach ws (r # evs) w0) (r # evs)"
  shows "attach_workflow ws (w_WorkflowID w) w = w \<or> w_WorkflowID w = []"
proof -
  have id: "w_WorkflowID w = wr_WorkflowID (or_zero zero_requested (as_requested (e_Payload r)))"
    using assms by (simp add: replay_WorkflowID Apply_WorkflowID)
  have fields: "w_WorkflowDef w = w_WorkflowDef (pre_attach ws (r # evs) w0)"
    "w_MaxIterations w = w_MaxIterations (pre_attach ws (r # evs) w0)"
    using assms(3) by simp_all
  show ?thesis
    using id fields assms(1)
    by (auto simp: pre_attach_def attach_workflow_def zero_requested_def split: option.splits if_splits)
qed

text \<open>
  C21. Loading from a snapshot equals a full replay: take a stream that begins with the
  workflow's only request and that carries no snapshot. If at an earlier point of the stream
  the engine loads the workflow and a snapshot of it is saved under its version, which decodes
  to the same workflow, then a load at the later point yields what it yields without the
  snapshot, a driver failure included: no event is applied twice and none is skipped. (The
  store offers snapshots and the loader reads them; no code of the repository saves one yet.)
\<close>

theorem snapshot_load_equals_full:
  assumes "store_ok st" and "st_snapshots st a = None"
    and "Load st a = r # rest" and "e_Type r = WorkflowRequested" and "\<forall>e \<in> set rest. e_Type e \<noteq> WorkflowRequested"
    and "store_ok st0" and "st_snapshots st0 a = None" and "prefix (Load st0 a) (Load st a)" and "Load st0 a \<noteq> []"
    and "loadAggregate False ws st0 a = Inr w"
    and "sn_Version sn = w_Version w" and "sn_State sn (NewWorkflowAggregate a) = Some w"
  shows "loadAggregate flt ws (SaveSnapshot a sn st) a = loadAggregate flt ws st a"
proof -
  obtain x early where "Load st0 a = x # early" using assms(9) by (cases "Load st0 a") auto
  moreover obtain late where "Load st a = Load st0 a @ late" using assms(8) by (auto simp: prefix_def)
  ultimately have E: "Load st0 a = r # early" "rest = early @ late" using assms(3) by simp_all
  let ?P = "pre_attach ws (r # rest) (NewWorkflowAggregate a)"
  have P: "pre_attach ws (r # early) (NewWorkflowAggregate a) = ?P"
    using assms(4) by (simp add: pre_attach_def)
  have s0: "LoadSnapshot st0 a = Inl ErrSnapshotNotFound" "LoadSnapshot st a = Inl ErrSnapshotNotFound"
    using assms(2,7) by (simp_all add: LoadSnapshot_def)
  have early: "\<forall>e \<in> set early. e_Type e \<noteq> WorkflowRequested" and late: "\<forall>e \<in> set late. e_Type e \<noteq> WorkflowRequested"
    using assms(5) E(2) by auto
  have w: "w = replay ?P (r # early)"
    using assms(10) attach_again [OF assms(4) early refl, of ws "NewWorkflowAggregate a"]
    by (auto simp: loadAggregate_def s0 E(1) P Let_def split: if_splits)
  have "w_Version w = int (length (r # early))"
    using sqlite.last_version [OF assms(6), of a] w E(1) by (simp add: replay_Version split: if_splits)
  moreover have "LoadFrom (SaveSnapshot a sn st) a v = LoadFrom st a v" for v
    by (simp add: LoadFrom_def rows_of_def SaveSnapshot_def)
  ultimately have from_n: "LoadFrom (SaveSnapshot a sn st) a (sn_Version sn + 1) = late"
    using LoadFrom_drop [OF assms(1), of a "length (r # early)"] assms(3,11) E(2) by simp
  have "LoadSnapshot (SaveSnapshot a sn st) a = Inr sn" by (simp add: LoadSnapshot_def SaveSnapshot_def)
  moreover have "replay w late = replay ?P (r # rest)" using w E(2) by (simp add: replay_append)
  ultimately show ?thesis
    using assms(12) by (simp add: loadAggregate_def s0 from_n assms(3) pre_attach_none [OF late])
qed

lemma snapshot_load_equals_full_witness:
  "\<exists>w. loadAggregate False [] sample_store ''wf'' = Inr w \<and>
     loadAggregate False [] (SaveSnapshot ''wf'' \<lparr>sn_Version = w_Version w, sn_State = (\<lambda>z. Some w)\<rparr> sample_store) ''wf'' =
     Inr w"
proof -
  have s: "st_snapshots sample_store ''wf'' = None" by (simp add: sample_store_def empty_store_def)
  obtain r where r: "Load sample_store ''wf'' = [r]" "e_Type r = WorkflowRequested"
    by (simp add: Load_rows sample_store_ok, simp add: rows_of_def sample_store_def sample_env_def)
  obtain w where w: "loadAggregate False [] sample_store ''wf'' = Inr w"
    using s by (simp add: loadAggregate_def LoadSnapshot_def Let_def)
  let ?sn = "\<lparr>sn_Version = w_Version w, sn_State = (\<lambda>z. Some w)\<rparr>"
  from snapshot_load_equals_full [OF sample_store_ok s r _ sample_store_ok s _ _ w, of ?sn False] r w
  show ?thesis by simp
qed

end
