(* ===== verification/DispatchQueue.thy ===== *)
theory DispatchQueue imports Events "HOL-Library.Multiset" begin

text \<open>
  The small controllers the persona runner is built from:
  \<open>internal/engine/dispatch_queues.go\<close> (priority queues per handler and correlation),
  \<open>pause_controller.go\<close>, \<open>hook_registry.go\<close>,
  \<open>correlation_contexts.go\<close>, and the idempotency cache and the priorities of
  \<open>persona_runner.go\<close>. The locale \<open>stable_queue\<close> is what the runner relies on
  of a dispatch queue; \<open>dispatchQueue\<close> is its interpretation.
\<close>

section \<open>Handlers\<close>

text \<open>
  What the engine reads of a \<open>handler.Handler\<close>: its name, the events it subscribes to,
  and the trigger of a \<open>TriggeredHandler\<close> (events and predecessor personas).
\<close>

record handler =
  h_Name :: string
  h_Subscribes :: "etype list"
  h_Trigger :: "(etype list \<times> string list) option"

section \<open>Priorities\<close>

definition PriorityOperatorGuidance :: int where "PriorityOperatorGuidance = 0"
definition PriorityFeedbackGenerated :: int where "PriorityFeedbackGenerated = 10"
definition PriorityPersonaCompleted :: int where "PriorityPersonaCompleted = 20"
definition PriorityDefault :: int where "PriorityDefault = 30"

lemmas priority_defs = PriorityOperatorGuidance_def PriorityFeedbackGenerated_def
  PriorityPersonaCompleted_def PriorityDefault_def

definition eventPriority :: "etype \<Rightarrow> int" where
  "eventPriority t =
     (if t \<in> {OperatorGuidance, HintApproved} then PriorityOperatorGuidance
      else if t \<in> {FeedbackGenerated, ChildWorkflowCompleted} then PriorityFeedbackGenerated
      else if t \<in> {PersonaCompleted, PersonaFailed} then PriorityPersonaCompleted
      else PriorityDefault)"

section \<open>Dispatch queues\<close>

record dispatchItem =
  di_priority :: int
  di_env :: envelope
  di_chainDepth :: int

record dispatchQueue =
  dq_items :: "dispatchItem list"
  dq_draining :: bool

definition empty_queue :: dispatchQueue where
  "empty_queue = \<lparr>dq_items = [], dq_draining = False\<rparr>"

text \<open>The index of the first item with a strictly larger priority value, or the length.\<close>

fun push_pos :: "int \<Rightarrow> dispatchItem list \<Rightarrow> nat" where
  "push_pos p [] = 0"
| "push_pos p (existing # rest) = (if p < di_priority existing then 0 else Suc (push_pos p rest))"

definition push :: "dispatchItem \<Rightarrow> dispatchQueue \<Rightarrow> dispatchQueue" where
  "push item q = (let pos = push_pos (di_priority item) (dq_items q)
     in q\<lparr>dq_items := take pos (dq_items q) @ item # drop pos (dq_items q)\<rparr>)"

definition pop :: "dispatchQueue \<Rightarrow> (dispatchItem \<times> dispatchQueue) option" where
  "pop q = (case dq_items q of [] \<Rightarrow> None | item # rest \<Rightarrow> Some (item, q\<lparr>dq_items := rest\<rparr>))"

text \<open>\<open>getOrCreate\<close> on the map of queues; the pointer it returns is the key.\<close>

definition getOrCreate :: "string \<Rightarrow> (string \<rightharpoonup> dispatchQueue) \<Rightarrow> dispatchQueue \<times> (string \<rightharpoonup> dispatchQueue)" where
  "getOrCreate key qs = (case qs key of
      Some q \<Rightarrow> (q, qs) | None \<Rightarrow> (empty_queue, qs(key \<mapsto> empty_queue)))"

section \<open>Pausing\<close>

record pauseController =
  pc_paused :: "string \<rightharpoonup> bool"
  pc_blocked :: "string \<rightharpoonup> (handler \<times> envelope) list"

definition newPauseController :: pauseController where
  "newPauseController = \<lparr>pc_paused = Map.empty, pc_blocked = Map.empty\<rparr>"

definition isPaused :: "pauseController \<Rightarrow> string \<Rightarrow> bool" where
  "isPaused p c = isset (pc_paused p) c"

definition addBlocked :: "string \<Rightarrow> handler \<Rightarrow> envelope \<Rightarrow> pauseController \<Rightarrow> pauseController" where
  "addBlocked c h env p = p\<lparr>pc_blocked := (pc_blocked p)(c \<mapsto> vget [] (pc_blocked p) c @ [(h, env)])\<rparr>"

definition pause :: "string \<Rightarrow> pauseController \<Rightarrow> pauseController" where
  "pause c p = p\<lparr>pc_paused := (pc_paused p)(c \<mapsto> True)\<rparr>"

definition resume :: "string \<Rightarrow> pauseController \<Rightarrow> (handler \<times> envelope) list \<times> pauseController" where
  "resume c p = (vget [] (pc_blocked p) c,
     p\<lparr>pc_paused := (pc_paused p)(c := None), pc_blocked := (pc_blocked p)(c := None)\<rparr>)"

definition markCancelled :: "string \<Rightarrow> pauseController \<Rightarrow> pauseController" where
  "markCancelled c p = p\<lparr>pc_paused := (pc_paused p)(c \<mapsto> True), pc_blocked := (pc_blocked p)(c := None)\<rparr>"

lemmas pauser_defs = newPauseController_def isPaused_def addBlocked_def pause_def resume_def markCancelled_def

section \<open>Before-hooks\<close>

type_synonym hookRegistry = "string \<rightharpoonup> string list"

definition hooksFor :: "hookRegistry \<Rightarrow> string \<Rightarrow> string list" where
  "hooksFor hr name = vget [] hr name"

definition register_hooks :: "string \<Rightarrow> string list \<Rightarrow> hookRegistry \<Rightarrow> hookRegistry" where
  "register_hooks persona hookPersonas hr = hr(persona \<mapsto> vget [] hr persona @ hookPersonas)"

definition unregister_hook :: "string \<Rightarrow> string \<Rightarrow> hookRegistry \<Rightarrow> hookRegistry" where
  "unregister_hook persona hookName hr =
     (let hooks = vget [] hr persona;
          hr1 = (if hookName \<in> set hooks then hr(persona \<mapsto> remove1 hookName hooks) else hr)
      in if vget [] hr1 persona = [] then hr1(persona := None) else hr1)"

section \<open>Correlation contexts\<close>

text \<open>
  A context is an address; \<open>cc_done\<close> are the addresses whose cancel function has run.
  The parent's cancellation reaches every child and is kept apart by the caller.
\<close>

record correlationContexts =
  cc_contexts :: "string \<rightharpoonup> nat"
  cc_next :: nat
  cc_done :: "nat list"

definition newCorrelationContexts :: correlationContexts where
  "newCorrelationContexts = \<lparr>cc_contexts = Map.empty, cc_next = 0, cc_done = []\<rparr>"

definition ctx_get :: "string \<Rightarrow> correlationContexts \<Rightarrow> nat \<times> correlationContexts" where
  "ctx_get c cc = (case cc_contexts cc c of
      Some a \<Rightarrow> (a, cc)
    | None \<Rightarrow> (cc_next cc, cc\<lparr>cc_contexts := (cc_contexts cc)(c \<mapsto> cc_next cc), cc_next := Suc (cc_next cc)\<rparr>))"

definition ctx_cancel :: "string \<Rightarrow> correlationContexts \<Rightarrow> correlationContexts" where
  "ctx_cancel c cc = (case cc_contexts cc c of
      None \<Rightarrow> cc
    | Some a \<Rightarrow> cc\<lparr>cc_contexts := (cc_contexts cc)(c := None), cc_done := a # cc_done cc\<rparr>)"

section \<open>The idempotency cache\<close>

text \<open>\<open>Add\<close> indexes \<open>order[0]\<close>, which panics (\<open>None\<close>) when the capacity is not positive.\<close>

record idempotencyCache =
  ic_entries :: "string list"
  ic_order :: "string list"
  ic_maxSize :: int

definition defaultDedup :: int where
  "defaultDedup = 10000"

definition newIdempotencyCache :: "int \<Rightarrow> idempotencyCache" where
  "newIdempotencyCache m = \<lparr>ic_entries = [], ic_order = [], ic_maxSize = m\<rparr>"

definition cache_key :: "string \<Rightarrow> string \<Rightarrow> string" where
  "cache_key handlerName eventID = handlerName @ ''|'' @ eventID"

definition ic_Remove :: "string \<Rightarrow> string \<Rightarrow> idempotencyCache \<Rightarrow> idempotencyCache" where
  "ic_Remove handlerName eventID c =
     c\<lparr>ic_entries := removeAll (cache_key handlerName eventID) (ic_entries c)\<rparr>"

definition ic_Add :: "string \<Rightarrow> string \<Rightarrow> idempotencyCache \<Rightarrow> (bool \<times> idempotencyCache) option" where
  "ic_Add handlerName eventID c = (let key = cache_key handlerName eventID in
     if key \<in> set (ic_entries c) then Some (False, c)
     else if int (length (ic_order c)) \<ge> ic_maxSize c then
       (case ic_order c of [] \<Rightarrow> None
        | oldest # order \<Rightarrow> Some (True, c\<lparr>ic_entries := key # removeAll oldest (ic_entries c),
            ic_order := order @ [key]\<rparr>))
     else Some (True, c\<lparr>ic_entries := key # ic_entries c, ic_order := ic_order c @ [key]\<rparr>))"

section \<open>The queue contract\<close>

text \<open>
  What a client sees of a queue that serves lower numbers first and keeps the order of
  arrival within a priority. \<open>pending\<close> are the arrivals not served yet, oldest first.
\<close>

definition first_min :: "('a \<Rightarrow> int) \<Rightarrow> 'a list \<Rightarrow> 'a" where
  "first_min prio xs = hd (filter (\<lambda>x. prio x = Min (prio ` set xs)) xs)"

locale stable_queue =
  fixes contents :: "'q \<Rightarrow> 'a list" and prio :: "'a \<Rightarrow> int"
    and new :: 'q and put :: "'a \<Rightarrow> 'q \<Rightarrow> 'q" and get :: "'q \<Rightarrow> ('a \<times> 'q) option"
  assumes contents_new: "contents new = []"
    and contents_put: "contents (put x q) =
      takeWhile (\<lambda>y. prio y \<le> prio x) (contents q) @ x # dropWhile (\<lambda>y. prio y \<le> prio x) (contents q)"
    and get_None: "get q = None \<longleftrightarrow> contents q = []"
    and get_Some: "get q = Some (x, q') \<Longrightarrow> contents q = x # contents q'"
begin

definition holds :: "'a list \<Rightarrow> 'q \<Rightarrow> bool" where
  "holds pending q \<longleftrightarrow> contents q = sort_key prio pending"

lemma holds_new: "holds [] new"
  by (simp add: holds_def contents_new)

lemma put_sorted: "sorted (map prio ys) \<Longrightarrow>
    takeWhile (\<lambda>y. prio y \<le> prio x) ys = filter (\<lambda>y. prio y \<le> prio x) ys \<and>
    dropWhile (\<lambda>y. prio y \<le> prio x) ys = filter (\<lambda>y. \<not> prio y \<le> prio x) ys"
proof (induction ys)
  case Nil
  then show ?case by simp
next
  case (Cons y ys)
  show ?case
  proof (cases "prio y \<le> prio x")
    case True
    with Cons show ?thesis by simp
  next
    case False
    with Cons.prems have "\<forall>z \<in> set ys. \<not> prio z \<le> prio x" by fastforce
    then have "filter (\<lambda>y. prio y \<le> prio x) ys = []" "filter (\<lambda>y. \<not> prio y \<le> prio x) ys = ys"
      by (simp_all add: filter_empty_conv)
    with False show ?thesis by simp
  qed
qed

lemma filter_key_sort: "filter (\<lambda>z. prio k = prio z) (sort_key prio xs) = filter (\<lambda>z. prio k = prio z) xs"
  using sort_key_stable [of "prio" "prio k" xs] by (simp add: eq_commute)

lemma holds_put:
  assumes "holds pending q"
  shows "holds (pending @ [x]) (put x q)"
proof -
  let ?ys = "sort_key prio pending"
  let ?zs = "filter (\<lambda>y. prio y \<le> prio x) ?ys @ x # filter (\<lambda>y. \<not> prio y \<le> prio x) ?ys"
  have c: "contents (put x q) = ?zs"
    using assms put_sorted [of ?ys x] by (simp add: holds_def contents_put)
  have "sort_key prio (pending @ [x]) = ?zs"
  proof (rule properties_for_sort_key)
    show "mset ?zs = mset (pending @ [x])"
      by (simp add: multiset_partition [symmetric])
    show "filter (\<lambda>z. prio k = prio z) ?zs = filter (\<lambda>z. prio k = prio z) (pending @ [x])"
      if "k \<in> set ?zs" for k
    proof -
      note s = filter_key_sort
      show ?thesis
      proof (cases "prio k \<le> prio x")
        case True
        then have "filter (\<lambda>z. \<not> prio z \<le> prio x \<and> prio k = prio z) ?ys = []"
          "filter (\<lambda>z. prio z \<le> prio x \<and> prio k = prio z) ?ys = filter (\<lambda>z. prio k = prio z) ?ys"
          by (auto simp: filter_empty_conv intro!: filter_cong)
        then show ?thesis by (cases "prio k = prio x") (simp_all add: s)
      next
        case False
        then have "filter (\<lambda>z. prio z \<le> prio x \<and> prio k = prio z) ?ys = []"
          "filter (\<lambda>z. \<not> prio z \<le> prio x \<and> prio k = prio z) ?ys = filter (\<lambda>z. prio k = prio z) ?ys"
          by (auto simp: filter_empty_conv intro!: filter_cong)
        with False show ?thesis by (simp add: s)
      qed
    qed
    have "sorted (map prio ?ys)" by simp
    then show "sorted (map prio ?zs)"
      by (auto simp: sorted_append sorted_filter)
  qed
  with c show ?thesis by (simp add: holds_def)
qed

lemma sort_key_head:
  assumes "sort_key prio pending = x # rest"
  shows "x = first_min prio pending \<and> sort_key prio (remove1 x pending) = rest"
proof
  have xp: "x \<in> set pending" using assms by (metis list.set_intros(1) set_sort)
  have srt: "sorted (map prio (x # rest))" using sorted_sort_key [of prio pending] assms by simp
  have "prio x = Min (prio ` set pending)"
  proof (rule Min_eqI [symmetric])
    show "prio x \<in> prio ` set pending" using xp by simp
    show "prio x \<le> y" if "y \<in> prio ` set pending" for y
    proof -
      have "set pending = set (x # rest)" using assms by (metis set_sort)
      with that srt show ?thesis by auto
    qed
  qed simp
  then have "filter (\<lambda>z. prio z = Min (prio ` set pending)) pending = filter (\<lambda>z. prio z = prio x) (x # rest)"
    using sort_key_stable [of prio "prio x" pending] assms by simp
  then show "x = first_min prio pending" by (simp add: first_min_def)
  show "sort_key prio (remove1 x pending) = rest"
  proof (rule properties_for_sort_key)
    have "mset (x # rest) = mset pending" using assms by (metis mset_sort)
    then show "mset rest = mset (remove1 x pending)" by (metis add_mset_remove_trivial mset.simps(2) mset_remove1)
    show "filter (\<lambda>z. prio k = prio z) rest = filter (\<lambda>z. prio k = prio z) (remove1 x pending)" for k
    proof -
      have eq: "filter (\<lambda>z. prio k = prio z) (x # rest) = filter (\<lambda>z. prio k = prio z) pending"
        using filter_key_sort [of k pending] assms by simp
      show ?thesis
      proof (cases "prio k = prio x")
        case True
        then have "filter (\<lambda>z. prio k = prio z) pending = x # filter (\<lambda>z. prio k = prio z) rest"
          using eq by simp
        then show ?thesis by (simp add: filter_remove1)
      next
        case False
        then have "remove1 x (filter (\<lambda>z. prio k = prio z) pending) = filter (\<lambda>z. prio k = prio z) pending"
          by (intro remove1_idem) auto
        with False eq show ?thesis by (simp add: filter_remove1)
      qed
    qed
    show "sorted (map prio rest)" using srt by simp
  qed
qed

lemma holds_get:
  assumes "holds pending q"
  shows "get q = None \<longleftrightarrow> pending = []"
    and "get q = Some (x, q') \<Longrightarrow> x = first_min prio pending \<and> holds (remove1 x pending) q'"
proof -
  have "sort_key prio pending = [] \<longleftrightarrow> pending = []" by (metis length_0_conv length_sort)
  then show "get q = None \<longleftrightarrow> pending = []" using assms by (simp add: holds_def get_None)
  show "get q = Some (x, q') \<Longrightarrow> x = first_min prio pending \<and> holds (remove1 x pending) q'"
    using assms get_Some sort_key_head by (metis holds_def)
qed

end

section \<open>Dispatch queues implement it\<close>

lemma push_pos_takeWhile:
  "take (push_pos p xs) xs = takeWhile (\<lambda>y. di_priority y \<le> p) xs"
  "drop (push_pos p xs) xs = dropWhile (\<lambda>y. di_priority y \<le> p) xs"
  by (induction xs) auto

interpretation dispatch: stable_queue dq_items di_priority empty_queue push pop
proof
  show "dq_items empty_queue = []" by (simp add: empty_queue_def)
  show "dq_items (push x q) = takeWhile (\<lambda>y. di_priority y \<le> di_priority x) (dq_items q) @
      x # dropWhile (\<lambda>y. di_priority y \<le> di_priority x) (dq_items q)" for x q
    by (simp add: push_def Let_def push_pos_takeWhile)
qed (auto simp: pop_def split: list.splits)

text \<open>
  A client's calls on one queue and the items it is served; the specification keeps the
  arrivals in order and serves the first one of the smallest priority value.
\<close>

datatype queue_call = Push dispatchItem | Pop

fun queue_run :: "queue_call list \<Rightarrow> dispatchQueue \<Rightarrow> dispatchItem option list" where
  "queue_run [] q = []"
| "queue_run (Push x # cs) q = queue_run cs (push x q)"
| "queue_run (Pop # cs) q = (case pop q of
      None \<Rightarrow> None # queue_run cs q | Some (x, q') \<Rightarrow> Some x # queue_run cs q')"

fun queue_spec :: "queue_call list \<Rightarrow> dispatchItem list \<Rightarrow> dispatchItem option list" where
  "queue_spec [] pending = []"
| "queue_spec (Push x # cs) pending = queue_spec cs (pending @ [x])"
| "queue_spec (Pop # cs) pending = (if pending = [] then None # queue_spec cs pending
     else let x = first_min di_priority pending in Some x # queue_spec cs (remove1 x pending))"

lemma queue_run_refines: "dispatch.holds pending q \<Longrightarrow> queue_run cs q = queue_spec cs pending"
proof (induction cs arbitrary: pending q)
  case Nil
  then show ?case by simp
next
  case (Cons c cs)
  show ?case
  proof (cases c)
    case (Push x)
    with Cons.IH [OF dispatch.holds_put [OF Cons.prems]] show ?thesis by simp
  next
    case Pop
    show ?thesis
    proof (cases "pop q")
      case None
      with Pop Cons.IH [OF Cons.prems] dispatch.holds_get(1) [OF Cons.prems] show ?thesis by simp
    next
      case (Some r)
      obtain x q' where r: "r = (x, q')" by (cases r)
      with Some dispatch.holds_get [OF Cons.prems] have
        "pending \<noteq> []" "x = first_min di_priority pending" "dispatch.holds (remove1 x pending) q'" by auto
      with Pop Some r Cons.IH show ?thesis by (simp add: Let_def)
    qed
  qed
qed

text \<open>
  C21. A dispatch queue serves, whatever the interleaving of \<open>push\<close> and \<open>pop\<close>, always
  the pending event of the smallest priority value that arrived first: it refines the
  specification that keeps the arrivals in order. So operator guidance overtakes feedback,
  feedback overtakes completions, and events of one priority are never reordered.
\<close>

theorem dispatch_queue_is_stable:
  "queue_run cs empty_queue = queue_spec cs []"
  by (rule queue_run_refines [OF dispatch.holds_new])

section \<open>The idempotency cache is bounded\<close>

datatype cache_call = CAdd string string | CRemove string string

fun cache_run :: "cache_call list \<Rightarrow> idempotencyCache \<Rightarrow> idempotencyCache option" where
  "cache_run [] c = Some c"
| "cache_run (CAdd h i # cs) c = (case ic_Add h i c of None \<Rightarrow> None | Some (new, c') \<Rightarrow> cache_run cs c')"
| "cache_run (CRemove h i # cs) c = cache_run cs (ic_Remove h i c)"

definition cache_ok :: "int \<Rightarrow> idempotencyCache \<Rightarrow> bool" where
  "cache_ok m c \<longleftrightarrow> ic_maxSize c = m \<and> int (length (ic_order c)) \<le> m \<and> distinct (ic_entries c) \<and>
     set (ic_entries c) \<subseteq> set (ic_order c)"

lemma cache_ok_new: "0 \<le> m \<Longrightarrow> cache_ok m (newIdempotencyCache m)"
  by (simp add: cache_ok_def newIdempotencyCache_def)

lemma cache_ok_Remove: "cache_ok m c \<Longrightarrow> cache_ok m (ic_Remove h i c)"
  by (auto simp: cache_ok_def ic_Remove_def distinct_removeAll)

lemma cache_ok_Add:
  assumes "cache_ok m c" and "0 < m"
  shows "\<exists>new c'. ic_Add h i c = Some (new, c') \<and> cache_ok m c' \<and>
    (new \<longleftrightarrow> cache_key h i \<notin> set (ic_entries c)) \<and> cache_key h i \<in> set (ic_entries c')"
  using assms by (cases "ic_order c")
    (auto simp: ic_Add_def Let_def cache_ok_def distinct_removeAll)

lemma cache_run_ok:
  assumes "0 < m"
  shows "cache_ok m c \<Longrightarrow> \<exists>c'. cache_run cs c = Some c' \<and> cache_ok m c'"
proof (induction cs arbitrary: c)
  case Nil
  then show ?case by simp
next
  case (Cons x cs)
  show ?case
  proof (cases x)
    case (CAdd h i)
    with cache_ok_Add [OF Cons.prems assms, of h i] Cons.IH show ?thesis by auto
  next
    case (CRemove h i)
    with cache_ok_Remove [OF Cons.prems] Cons.IH show ?thesis by auto
  qed
qed

text \<open>
  C36. With a positive capacity the idempotency cache never panics and never holds more
  than its capacity, in its eviction order as in its set of entries, whatever the sequence of
  \<open>Add\<close> and \<open>Remove\<close>.
\<close>

theorem idempotency_cache_bounded:
  assumes "0 < m"
  shows "\<exists>c. cache_run cs (newIdempotencyCache m) = Some c \<and> int (length (ic_order c)) \<le> m \<and>
    int (card (set (ic_entries c))) \<le> m"
proof -
  obtain c where c: "cache_run cs (newIdempotencyCache m) = Some c" "cache_ok m c"
    using cache_run_ok [OF assms cache_ok_new] assms by auto
  have "card (set (ic_entries c)) \<le> card (set (ic_order c))"
    using c(2) by (intro card_mono) (auto simp: cache_ok_def)
  also have "\<dots> \<le> length (ic_order c)" by (rule card_length)
  finally show ?thesis using c by (auto simp: cache_ok_def)
qed

theorem idempotency_cache_bounded_witness:
  "\<exists>c. cache_run [CAdd ''dev'' ''1'', CAdd ''dev'' ''2'', CRemove ''dev'' ''1'', CAdd ''dev'' ''3'']
      (newIdempotencyCache 2) = Some c \<and> int (length (ic_order c)) \<le> 2 \<and> int (card (set (ic_entries c))) \<le> 2"
  by (rule idempotency_cache_bounded) simp

text \<open>
  \<open>Remove\<close> leaves the key in the eviction order, so a key that is removed and added again
  occurs twice there and the older occurrence evicts the live entry: with room for two keys and
  only two keys in use, the third \<open>Add\<close> below forgets a key that a fourth then admits
  again.
\<close>

lemma remove_makes_cache_forget:
  "map_option (\<lambda>c. cache_key ''dev'' ''a'' \<in> set (ic_entries c))
     (cache_run [CAdd ''dev'' ''a'', CRemove ''dev'' ''a'', CAdd ''dev'' ''a'', CAdd ''dev'' ''b'']
       (newIdempotencyCache 2)) = Some False"
  by code_simp

end
