(* ===== verification/Resolver.thy ===== *)
theory Resolver imports EventStore DispatchQueue begin

text \<open>
  \<open>internal/engine/workflow_resolver.go\<close>: which events a handler subscribes to, which
  completions are relevant to it, and whether all the personas it waits for have completed
  (\<open>checkJoinCondition\<close>, a fold over the events of the correlation in store order).
  The lemmas show what a satisfied join guarantees about the history.
\<close>

section \<open>State\<close>

record resolver =
  rs_workflows :: "(string, workflow_def) gomap"
  rs_corrMap :: "string \<rightharpoonup> string"

definition newWorkflowResolver :: resolver where
  "newWorkflowResolver = \<lparr>rs_workflows = [], rs_corrMap = Map.empty\<rparr>"

definition registerWorkflow :: "workflow_def \<Rightarrow> resolver \<Rightarrow> resolver" where
  "registerWorkflow def w = w\<lparr>rs_workflows := mput (rs_workflows w) (wd_ID def) def\<rparr>"

definition getWorkflowDef :: "resolver \<Rightarrow> string \<Rightarrow> workflow_def option" where
  "getWorkflowDef w workflowID = map_of (rs_workflows w) workflowID"

definition resolveWorkflowID :: "resolver \<Rightarrow> string \<Rightarrow> string option" where
  "resolveWorkflowID w c = rs_corrMap w c"

definition cacheWorkflowID :: "string \<Rightarrow> string \<Rightarrow> resolver \<Rightarrow> resolver" where
  "cacheWorkflowID c workflowID w = w\<lparr>rs_corrMap := (rs_corrMap w)(c \<mapsto> workflowID)\<rparr>"

definition evictCorrelation :: "string \<Rightarrow> resolver \<Rightarrow> resolver" where
  "evictCorrelation c w = w\<lparr>rs_corrMap := (rs_corrMap w)(c := None)\<rparr>"

text \<open>The definition of the workflow a correlation belongs to, where both lookups succeed.\<close>

definition corr_def :: "resolver \<Rightarrow> string \<Rightarrow> workflow_def option" where
  "corr_def w c = Option.bind (resolveWorkflowID w c) (getWorkflowDef w)"

definition handlerDeclaredEvents :: "handler \<Rightarrow> etype list" where
  "handlerDeclaredEvents h = (case h_Trigger h of Some (events, after) \<Rightarrow> events | None \<Rightarrow> h_Subscribes h)"

definition handlerInAnyGraph :: "resolver \<Rightarrow> string \<Rightarrow> bool" where
  "handlerInAnyGraph w name = list_ex (\<lambda>(k, def). map_of (wd_Graph def) name \<noteq> None) (rs_workflows w)"

definition handlerInAnyGraphAsNonRoot :: "resolver \<Rightarrow> string \<Rightarrow> bool" where
  "handlerInAnyGraphAsNonRoot w name = list_ex (\<lambda>(k, def). case map_of (wd_Graph def) name of
      None \<Rightarrow> False | Some deps \<Rightarrow> deps \<noteq> []) (rs_workflows w)"

section \<open>Relevance\<close>

definition add_event :: "etype list \<Rightarrow> etype \<Rightarrow> etype list" where
  "add_event events et = (if et \<in> set events then events else events @ [et])"

text \<open>The loop body, and the scan over the registered workflows: the events, and whether any graph has it.\<close>

definition scan_def :: "string \<Rightarrow> etype list \<times> bool \<Rightarrow> string \<times> workflow_def \<Rightarrow> etype list \<times> bool" where
  "scan_def name = (\<lambda>(events, found) (k, def). case map_of (wd_Graph def) name of
      None \<Rightarrow> (events, found)
    | Some deps \<Rightarrow> (foldl add_event
        (add_event events (if deps = [] then etype_of (WorkflowStartedPrefix @ wd_ID def) else PersonaCompleted))
        (mget [] (wd_RetriggeredBy def) name), True))"

definition resolveEventsFromDAG :: "resolver \<Rightarrow> handler \<Rightarrow> hookRegistry \<Rightarrow> etype list" where
  "resolveEventsFromDAG w h hooks =
     (let name = h_Name h;
          (dag, inAnyGraph) = foldl (scan_def name) ([], False) (rs_workflows w);
          events = (if inAnyGraph then dag else handlerDeclaredEvents h)
      in if hooksFor hooks name \<noteq> [] \<and> PersonaCompleted \<notin> set events then events @ [PersonaCompleted] else events)"

definition legacyAfterPersonas :: "handler \<Rightarrow> hookRegistry \<Rightarrow> string list" where
  "legacyAfterPersonas h hooks =
     (case h_Trigger h of Some (events, after) \<Rightarrow> after | None \<Rightarrow> []) @ hooksFor hooks (h_Name h)"

definition isTriggerRelevant :: "handler \<Rightarrow> string \<Rightarrow> hookRegistry \<Rightarrow> bool" where
  "isTriggerRelevant h completedPersona hooks = (let after = legacyAfterPersonas h hooks in
     if after = [] then True else completedPersona \<in> set after)"

definition isDAGRelevant :: "resolver \<Rightarrow> handler \<Rightarrow> string \<Rightarrow> string \<Rightarrow> hookRegistry \<Rightarrow> bool" where
  "isDAGRelevant w h completedPersona c hooks =
     (let legacy = (if handlerInAnyGraph w (h_Name h) then False else isTriggerRelevant h completedPersona hooks)
      in case resolveWorkflowID w c of None \<Rightarrow> legacy
       | Some wfID \<Rightarrow> (case getWorkflowDef w wfID of None \<Rightarrow> legacy
           | Some def \<Rightarrow> (case map_of (wd_Graph def) (h_Name h) of None \<Rightarrow> legacy
               | Some deps \<Rightarrow> if completedPersona \<in> set deps then True
                             else completedPersona \<in> set (hooksFor hooks (h_Name h)))))"

definition isRetriggerable :: "resolver \<Rightarrow> string \<Rightarrow> string \<Rightarrow> (string \<Rightarrow> handler option) \<Rightarrow> bool" where
  "isRetriggerable w handlerName c handlerLookup = (case resolveWorkflowID w c of
      None \<Rightarrow> (case handlerLookup handlerName of None \<Rightarrow> False
        | Some h \<Rightarrow> FeedbackGenerated \<in> set (handlerDeclaredEvents h))
    | Some wfID \<Rightarrow> (case getWorkflowDef w wfID of None \<Rightarrow> False
        | Some def \<Rightarrow> FeedbackGenerated \<in> set (mget [] (wd_RetriggeredBy def) handlerName)))"

definition effectiveAfterPersonas :: "resolver \<Rightarrow> handler \<Rightarrow> string \<Rightarrow> hookRegistry \<Rightarrow> string list" where
  "effectiveAfterPersonas w h c hooks =
     (let base = (case resolveWorkflowID w c of
            Some wfID \<Rightarrow> (case getWorkflowDef w wfID of None \<Rightarrow> []
              | Some def \<Rightarrow> (case map_of (wd_Graph def) (h_Name h) of None \<Rightarrow> [] | Some deps \<Rightarrow> deps))
          | None \<Rightarrow> (case h_Trigger h of Some (events, after) \<Rightarrow> after | None \<Rightarrow> []))
      in base @ hooksFor hooks (h_Name h))"

section \<open>The join check\<close>

record verdictTracker =
  vt_active :: bool
  vt_sealed :: bool
  vt_advisory :: bool

record join_state =
  jn_latest :: "string \<rightharpoonup> string"
  jn_verdicts :: "string \<rightharpoonup> verdictTracker"
  jn_pending :: "string \<rightharpoonup> bool"
  jn_target :: string

definition join_start :: join_state where
  "join_start = \<lparr>jn_latest = Map.empty, jn_verdicts = Map.empty, jn_pending = Map.empty, jn_target = []\<rparr>"

definition join_failed :: "workflow_def option \<Rightarrow> envelope \<Rightarrow> join_state \<Rightarrow> join_state" where
  "join_failed wfDef e j = (case wfDef of None \<Rightarrow> j
     | Some def \<Rightarrow> if \<not> wd_PartialReviewOnFailure def then j
         else (case as_failed (e_Payload e) of None \<Rightarrow> j
           | Some pf \<Rightarrow> if pf_Persona pf \<noteq> [] then j\<lparr>jn_latest := (jn_latest j)(pf_Persona pf \<mapsto> e_ID e)\<rparr> else j))"

text \<open>The re-triggered persona completes: its strict downstream counts again.\<close>

definition join_restart :: "workflow_def option \<Rightarrow> string \<Rightarrow> join_state \<Rightarrow> join_state" where
  "join_restart wfDef persona j = (case wfDef of None \<Rightarrow> j
     | Some def \<Rightarrow> if jn_target j \<noteq> [] \<and> persona = jn_target j
         then j\<lparr>jn_pending := foldl (\<lambda>m d. if d \<noteq> jn_target j then m(d := None) else m)
                  (jn_pending j) (DownstreamOf def (jn_target j)),
               jn_target := []\<rparr>
         else j)"

definition join_completed :: "workflow_def option \<Rightarrow> envelope \<Rightarrow> join_state \<Rightarrow> join_state" where
  "join_completed wfDef e j = (case as_completed (e_Payload e) of None \<Rightarrow> j
     | Some pc \<Rightarrow> (let persona = pc_Persona pc; j1 = join_restart wfDef persona j in
         if isset (jn_pending j1) persona then j1
         else j1\<lparr>jn_latest := (jn_latest j1)(persona \<mapsto> e_ID e),
                jn_verdicts := (case jn_verdicts j1 persona of None \<Rightarrow> jn_verdicts j1
                  | Some vt \<Rightarrow> if vt_sealed vt then (jn_verdicts j1)(persona := None)
                               else (jn_verdicts j1)(persona \<mapsto> vt\<lparr>vt_sealed := True\<rparr>))\<rparr>))"

definition join_verdict :: "envelope \<Rightarrow> join_state \<Rightarrow> join_state" where
  "join_verdict e j = (case as_verdict (e_Payload e) of None \<Rightarrow> j
     | Some v \<Rightarrow> if v_SourcePersona v \<noteq> []
         then j\<lparr>jn_verdicts := (jn_verdicts j)(v_SourcePersona v \<mapsto>
                 \<lparr>vt_active = (v_Outcome v = VerdictFail), vt_sealed = False, vt_advisory = v_Advisory v\<rparr>)\<rparr>
         else j)"

definition join_invalidate :: "string \<Rightarrow> join_state \<Rightarrow> string \<Rightarrow> join_state" where
  "join_invalidate target j stale = (if stale = target then j
     else j\<lparr>jn_latest := (jn_latest j)(stale := None), jn_verdicts := (jn_verdicts j)(stale := None),
            jn_pending := (jn_pending j)(stale \<mapsto> True)\<rparr>)"

definition join_feedback :: "workflow_def option \<Rightarrow> envelope \<Rightarrow> join_state \<Rightarrow> join_state" where
  "join_feedback wfDef e j = (case wfDef of None \<Rightarrow> j
     | Some def \<Rightarrow> (case as_feedback (e_Payload e) of None \<Rightarrow> j
         | Some fb \<Rightarrow> if fb_TargetPersona fb = [] then j
             else (foldl (join_invalidate (fb_TargetPersona fb)) j (DownstreamOf def (fb_TargetPersona fb)))
                    \<lparr>jn_target := fb_TargetPersona fb\<rparr>))"

definition join_step :: "workflow_def option \<Rightarrow> join_state \<Rightarrow> envelope \<Rightarrow> join_state" where
  "join_step wfDef j e =
     (if e_Type e = PersonaFailed then join_failed wfDef e j
      else if e_Type e = PersonaCompleted then join_completed wfDef e j
      else if e_Type e = VerdictRendered then join_verdict e j
      else if e_Type e = FeedbackGenerated then join_feedback wfDef e j
      else j)"

definition join_fold :: "workflow_def option \<Rightarrow> envelope list \<Rightarrow> join_state" where
  "join_fold wfDef events = foldl (join_step wfDef) join_start events"

definition isConsolidatorBypass :: "workflow_def option \<Rightarrow> string \<Rightarrow> string \<Rightarrow> bool" where
  "isConsolidatorBypass wfDef requestingHandler predecessor = (case wfDef of None \<Rightarrow> False
     | Some def \<Rightarrow> if wd_ReviewConsolidator def = [] then False
         else if requestingHandler \<noteq> wd_ReviewConsolidator def then False
         else IsConsolidatedReviewer (Some def) predecessor)"

definition pending_feedback :: "workflow_def option \<Rightarrow> join_state \<Rightarrow> string \<Rightarrow> bool" where
  "pending_feedback wfDef j req = (case jn_verdicts j req of None \<Rightarrow> False
     | Some vt \<Rightarrow> vt_active vt \<and> \<not> vt_advisory vt \<and>
         (case wfDef of None \<Rightarrow> False | Some def \<Rightarrow> wd_RetriggeredBy def \<noteq> []))"

text \<open>The loop over the required personas: the completion ids and what is missing, in order.\<close>

fun join_collect :: "workflow_def option \<Rightarrow> string \<Rightarrow> join_state \<Rightarrow> string list \<Rightarrow> string list \<times> string list" where
  "join_collect wfDef h j [] = ([], [])"
| "join_collect wfDef h j (req # reqs) = (let (ids, missing) = join_collect wfDef h j reqs in
     case jn_latest j req of None \<Rightarrow> (ids, req # missing)
     | Some i \<Rightarrow> if pending_feedback wfDef j req \<and> \<not> isConsolidatorBypass wfDef h req
         then (ids, (req @ ''(pending_feedback)'') # missing) else (i # ids, missing))"

text \<open>Satisfied, fingerprint, missing; a store failure is the error.\<close>

definition checkJoinCondition ::
    "bool \<Rightarrow> store \<Rightarrow> resolver \<Rightarrow> string \<Rightarrow> string list \<Rightarrow> string \<Rightarrow> store_error + bool \<times> string \<times> string list" where
  "checkJoinCondition fault st w requestingHandler requiredPersonas c =
     (if fault then Inl ErrDriver
      else let wfDef = corr_def w c; j = join_fold wfDef (LoadByCorrelation st c);
               (ids, missing) = join_collect wfDef requestingHandler j requiredPersonas
        in Inr (if missing \<noteq> [] then (False, [], missing) else (True, str_join (sort ids) ''|'', [])))"

section \<open>What a satisfied join says of the history\<close>

text \<open>The persona an event completes, skips (a tolerated failure), or re-triggers.\<close>

definition completed_by :: "envelope \<Rightarrow> string option" where
  "completed_by e = (if e_Type e = PersonaCompleted then map_option pc_Persona (as_completed (e_Payload e)) else None)"

definition skipped_by :: "workflow_def option \<Rightarrow> envelope \<Rightarrow> string option" where
  "skipped_by wfDef e = (case (wfDef, as_failed (e_Payload e)) of
      (Some def, Some pf) \<Rightarrow> if e_Type e = PersonaFailed \<and> wd_PartialReviewOnFailure def \<and> pf_Persona pf \<noteq> []
        then Some (pf_Persona pf) else None
    | _ \<Rightarrow> None)"

definition feedback_to :: "envelope \<Rightarrow> string option" where
  "feedback_to e = (if e_Type e = FeedbackGenerated then
      (case as_feedback (e_Payload e) of None \<Rightarrow> None
       | Some fb \<Rightarrow> if fb_TargetPersona fb = [] then None else Some (fb_TargetPersona fb)) else None)"

definition outdates :: "workflow_def option \<Rightarrow> string \<Rightarrow> envelope \<Rightarrow> bool" where
  "outdates wfDef p e \<longleftrightarrow> (\<exists>def t. wfDef = Some def \<and> feedback_to e = Some t \<and>
     p \<in> set (DownstreamOf def t) \<and> p \<noteq> t)"

lemmas join_event_defs = completed_by_def skipped_by_def feedback_to_def outdates_def

text \<open>The folds over the downstream closure, pointwise.\<close>

lemma invalidate_fold:
  "jn_latest (foldl (join_invalidate t) j ds) p = (if p \<in> set ds \<and> p \<noteq> t then None else jn_latest j p)"
  "jn_verdicts (foldl (join_invalidate t) j ds) p = (if p \<in> set ds \<and> p \<noteq> t then None else jn_verdicts j p)"
  "jn_pending (foldl (join_invalidate t) j ds) p = (if p \<in> set ds \<and> p \<noteq> t then Some True else jn_pending j p)"
  by (induction ds arbitrary: j) (auto simp: join_invalidate_def)

lemma restart_fold:
  "foldl (\<lambda>m d. if d \<noteq> t then m(d := None) else m) m ds p = (if p \<in> set ds \<and> p \<noteq> t then None else m p)"
  by (induction ds arbitrary: m) auto

lemma restart_simps [simp]:
  "jn_latest (join_restart wfDef q j) = jn_latest j" "jn_verdicts (join_restart wfDef q j) = jn_verdicts j"
  by (simp_all add: join_restart_def split: option.splits)

lemma restart_pending:
  "jn_pending (join_restart wfDef q j) p =
     (if jn_target j \<noteq> [] \<and> q = jn_target j \<and> p \<noteq> q \<and> (\<exists>def. wfDef = Some def \<and> p \<in> set (DownstreamOf def q))
      then None else jn_pending j p)"
  by (auto simp: join_restart_def restart_fold split: option.splits)

lemma restart_target:
  "jn_target (join_restart wfDef q j) = (if q = jn_target j \<and> wfDef \<noteq> None then [] else jn_target j)"
  by (auto simp: join_restart_def split: option.splits)

lemma step_latest:
  "jn_latest (join_step wfDef j e) p =
     (if outdates wfDef p e then None
      else if skipped_by wfDef e = Some p then Some (e_ID e)
      else if completed_by e = Some p \<and> \<not> isset (jn_pending (join_restart wfDef p j)) p then Some (e_ID e)
      else jn_latest j p)"
  by (auto simp: join_step_def join_failed_def join_completed_def join_verdict_def join_feedback_def
      join_event_defs invalidate_fold Let_def split: option.splits if_splits)

lemma step_pending:
  "jn_pending (join_step wfDef j e) p =
     (if outdates wfDef p e then Some True
      else case completed_by e of None \<Rightarrow> jn_pending j p | Some q \<Rightarrow> jn_pending (join_restart wfDef q j) p)"
  by (auto simp: join_step_def join_failed_def join_completed_def join_verdict_def join_feedback_def
      join_event_defs invalidate_fold Let_def split: option.splits if_splits)

lemma step_target:
  "wfDef = Some def \<Longrightarrow> jn_target (join_step wfDef j e) =
     (case feedback_to e of Some t \<Rightarrow> t
      | None \<Rightarrow> (case completed_by e of None \<Rightarrow> jn_target j | Some q \<Rightarrow> jn_target (join_restart wfDef q j)))"
  by (auto simp: join_step_def join_failed_def join_completed_def join_verdict_def join_feedback_def
      join_event_defs invalidate_fold Let_def split: option.splits if_splits)

text \<open>Until the re-triggered persona completes, what it invalidated stays pending.\<close>

lemma pending_until_restart:
  assumes f: "outdates wfDef p f" and t: "feedback_to f = Some t"
    and mid: "\<forall>y \<in> set mid. feedback_to y = None \<and> completed_by y \<noteq> Some t"
  shows "isset (jn_pending (foldl (join_step wfDef) j (f # mid))) p \<and>
    jn_target (foldl (join_step wfDef) j (f # mid)) = t"
  using mid
proof (induction mid rule: rev_induct)
  case Nil
  obtain def where "wfDef = Some def" using f by (auto simp: outdates_def)
  then show ?case using f t by (simp add: step_pending step_target isset_iff)
next
  case (snoc y mid)
  obtain def where def: "wfDef = Some def" using f by (auto simp: outdates_def)
  let ?j = "foldl (join_step wfDef) j (f # mid)"
  from snoc have IH: "isset (jn_pending ?j) p" "jn_target ?j = t"
    and y: "feedback_to y = None" "completed_by y \<noteq> Some t" by auto
  have "\<not> outdates wfDef p y" using y by (simp add: outdates_def)
  with IH y show ?case
    by (auto simp: step_pending step_target [OF def] restart_pending restart_target isset_iff split: option.splits)
qed

text \<open>
  A completion (or tolerated failure) of \<open>p\<close> that no later feedback outdates, and that
  is not left-over work: if feedback before it invalidated \<open>p\<close>, the re-triggered persona
  had completed again in between.
\<close>

definition not_left_over :: "workflow_def option \<Rightarrow> string \<Rightarrow> envelope list \<Rightarrow> bool" where
  "not_left_over wfDef p before \<longleftrightarrow> (\<forall>pre f mid. before = pre @ f # mid \<longrightarrow> outdates wfDef p f \<longrightarrow>
     (\<forall>y \<in> set mid. feedback_to y = None) \<longrightarrow> (\<exists>y \<in> set mid. completed_by y = feedback_to f))"

definition fresh_completion :: "workflow_def option \<Rightarrow> string \<Rightarrow> envelope list \<Rightarrow> string \<Rightarrow> bool" where
  "fresh_completion wfDef p events i \<longleftrightarrow> (\<exists>pre e post. events = pre @ e # post \<and> e_ID e = i \<and>
     (\<forall>y \<in> set post. \<not> outdates wfDef p y) \<and>
     (skipped_by wfDef e = Some p \<or> completed_by e = Some p \<and> not_left_over wfDef p pre))"

lemma latest_is_fresh: "jn_latest (join_fold wfDef events) p = Some i \<Longrightarrow> fresh_completion wfDef p events i"
proof (induction events arbitrary: i rule: rev_induct)
  case Nil
  then show ?case by (simp add: join_fold_def join_start_def)
next
  case (snoc e events)
  let ?j = "join_fold wfDef events"
  have now: "jn_latest (join_step wfDef ?j e) p = Some i" using snoc.prems by (simp add: join_fold_def)
  then have keep: "\<not> outdates wfDef p e" by (simp add: step_latest split: if_splits)
  consider (skip) "skipped_by wfDef e = Some p" "i = e_ID e"
    | (comp) "completed_by e = Some p" "\<not> isset (jn_pending (join_restart wfDef p ?j)) p" "i = e_ID e"
    | (old) "jn_latest ?j p = Some i"
    using now keep unfolding step_latest by (metis option.inject)
  then show ?case
  proof cases
    case skip
    then show ?thesis unfolding fresh_completion_def by (intro exI [of _ events] exI [of _ e] exI [of _ "[]"]) simp
  next
    case comp
    have "not_left_over wfDef p events" unfolding not_left_over_def
    proof (intro allI impI, rule ccontr)
      fix pre f mid
      assume pre: "events = pre @ f # mid" "outdates wfDef p f" "\<forall>y \<in> set mid. feedback_to y = None"
        and none: "\<not> (\<exists>y \<in> set mid. completed_by y = feedback_to f)"
      obtain t where t: "feedback_to f = Some t" "p \<noteq> t" using pre(2) by (auto simp: outdates_def)
      have "isset (jn_pending ?j) p \<and> jn_target ?j = t"
        using pending_until_restart [OF pre(2) t(1), of mid "join_fold wfDef pre"] pre none t
        by (simp add: join_fold_def)
      with comp(2) t(2) show False by (simp add: restart_pending isset_iff)
    qed
    with comp show ?thesis unfolding fresh_completion_def
      by (intro exI [of _ events] exI [of _ e] exI [of _ "[]"]) simp
  next
    case old
    from snoc.IH [OF old] obtain pre c post where c: "events = pre @ c # post" "e_ID c = i"
      "\<forall>y \<in> set post. \<not> outdates wfDef p y"
      "skipped_by wfDef c = Some p \<or> completed_by c = Some p \<and> not_left_over wfDef p pre"
      unfolding fresh_completion_def by blast
    with keep show ?thesis unfolding fresh_completion_def
      by (intro exI [of _ pre] exI [of _ c] exI [of _ "post @ [e]"]) auto
  qed
qed

lemma collect_ids:
  "join_collect wfDef h j reqs = (ids, []) \<Longrightarrow>
     map Some ids = map (jn_latest j) reqs \<and>
     (\<forall>p \<in> set reqs. pending_feedback wfDef j p \<longrightarrow> isConsolidatorBypass wfDef h p)"
  by (induction reqs arbitrary: ids) (auto simp: Let_def split: prod.splits option.splits if_splits)

lemma collect_missing:
  "snd (join_collect wfDef h j reqs) = [] \<longleftrightarrow>
     (\<forall>p \<in> set reqs. jn_latest j p \<noteq> None \<and> (pending_feedback wfDef j p \<longrightarrow> isConsolidatorBypass wfDef h p))"
  by (induction reqs) (auto simp: Let_def split: prod.splits option.splits)

lemma check_satisfied:
  assumes "checkJoinCondition fault st w h reqs c = Inr (True, fp, missing)"
  obtains ids where "join_collect (corr_def w c) h (join_fold (corr_def w c) (LoadByCorrelation st c)) reqs = (ids, [])"
    "fp = str_join (sort ids) ''|''" "\<not> fault" "missing = []"
  using assms by (auto simp: checkJoinCondition_def Let_def split: prod.splits if_splits)

lemma join_is_fresh:
  assumes "checkJoinCondition fault st w h reqs c = Inr (True, fp, missing)" and "p \<in> set reqs"
  shows "\<exists>i. fresh_completion (corr_def w c) p (LoadByCorrelation st c) i"
proof -
  obtain ids where "join_collect (corr_def w c) h (join_fold (corr_def w c) (LoadByCorrelation st c)) reqs = (ids, [])"
    using assms(1) by (rule check_satisfied)
  with assms(2) have "jn_latest (join_fold (corr_def w c) (LoadByCorrelation st c)) p \<noteq> None"
    using collect_missing [of "corr_def w c" h _ reqs] by (metis snd_conv)
  then show ?thesis using latest_is_fresh by blast
qed

text \<open>
  C9. The join never lets a handler run on stale work: when it is satisfied, every persona the
  handler waits for has a completion (or, in a workflow that tolerates failures, a failure) in
  the history that no later feedback invalidated; and if feedback before it had invalidated the
  persona, the re-triggered persona had completed again in between, so results that were in
  flight when the feedback was generated do not count.
\<close>

theorem satisfied_join_is_fresh:
  assumes "checkJoinCondition fault st w h reqs c = Inr (True, fp, missing)" and "p \<in> set reqs"
  shows "\<exists>i. fresh_completion (corr_def w c) p (LoadByCorrelation st c) i"
  using assms by (rule join_is_fresh)

text \<open>A sample history of \<open>workspace-dev\<close>, numbered in store order.\<close>

definition sample_log :: "envelope list \<Rightarrow> envelope list" where
  "sample_log es = map (\<lambda>(i, e). e\<lparr>e_ID := itoa (int i), e_Version := int i\<rparr>) (zip [1..<Suc (length es)] es)"

definition done_event :: "string \<Rightarrow> envelope" where
  "done_event p = sample_env PersonaCompleted (PPersonaCompleted (zero_completed\<lparr>pc_Persona := p\<rparr>))"

definition fail_verdict :: "string \<Rightarrow> envelope" where
  "fail_verdict p = sample_env VerdictRendered
     (PVerdict (zero_verdict\<lparr>v_Persona := ''developer'', v_SourcePersona := p, v_Outcome := VerdictFail\<rparr>))"

definition sample_store :: "envelope list \<Rightarrow> store" where
  "sample_store es = empty_store\<lparr>st_events := sample_log es\<rparr>"

definition sample_resolver :: resolver where
  "sample_resolver = cacheWorkflowID ''wf'' ''workspace-dev'' (registerWorkflow WorkspaceDevWorkflowDef newWorkflowResolver)"

theorem satisfied_join_is_fresh_witness:
  "\<exists>i. fresh_completion (Some WorkspaceDevWorkflowDef) ''reviewer''
     (sample_log [done_event ''developer'', sample_feedback, done_event ''reviewer'',
        done_event ''developer'', done_event ''reviewer'', done_event ''qa'']) i"
proof -
  let ?es = "[done_event ''developer'', sample_feedback, done_event ''reviewer'',
        done_event ''developer'', done_event ''reviewer'', done_event ''qa'']"
  have "checkJoinCondition False (sample_store ?es) sample_resolver ''review-consolidator'' [''reviewer'', ''qa''] ''wf''
      = Inr (True, ''5|6'', [])" by code_simp
  from satisfied_join_is_fresh [OF this, of "''reviewer''"]
  have "\<exists>i. fresh_completion (corr_def sample_resolver ''wf'') ''reviewer'' (LoadByCorrelation (sample_store ?es) ''wf'') i"
    by simp
  moreover have "corr_def sample_resolver ''wf'' = Some WorkspaceDevWorkflowDef"
    by (simp add: corr_def_def sample_resolver_def cacheWorkflowID_def registerWorkflow_def resolveWorkflowID_def
        getWorkflowDef_def WorkspaceDevWorkflowDef_def newWorkflowResolver_def)
  moreover have "LoadByCorrelation (sample_store ?es) ''wf'' = sample_log ?es" by code_simp
  ultimately show ?thesis by simp
qed

section \<open>Failing verdicts gate everybody but the consolidator\<close>

definition verdict_from :: "string \<Rightarrow> envelope \<Rightarrow> bool" where
  "verdict_from p e \<longleftrightarrow> e_Type e = VerdictRendered \<and> p \<noteq> [] \<and>
     (case as_verdict (e_Payload e) of None \<Rightarrow> False | Some v \<Rightarrow> v_SourcePersona v = p)"

definition fail_verdict_from :: "string \<Rightarrow> envelope \<Rightarrow> bool" where
  "fail_verdict_from p e \<longleftrightarrow> verdict_from p e \<and>
     (case as_verdict (e_Payload e) of None \<Rightarrow> False | Some v \<Rightarrow> v_Outcome v = VerdictFail \<and> \<not> v_Advisory v)"

lemma step_verdict_set:
  "fail_verdict_from p e \<Longrightarrow> jn_verdicts (join_step wfDef j e) p =
     Some \<lparr>vt_active = True, vt_sealed = False, vt_advisory = False\<rparr>"
  by (auto simp: join_step_def join_verdict_def fail_verdict_from_def verdict_from_def split: option.splits)

lemma step_verdict_keep:
  assumes "\<not> outdates wfDef p e" "\<not> verdict_from p e" and vt: "jn_verdicts j p = Some vt"
  shows "jn_verdicts (join_step wfDef j e) p = Some vt \<or>
     completed_by e = Some p \<and> (\<not> vt_sealed vt \<longrightarrow> jn_verdicts (join_step wfDef j e) p = Some (vt\<lparr>vt_sealed := True\<rparr>))"
proof -
  consider "e_Type e = PersonaFailed" | "e_Type e = PersonaCompleted" | "e_Type e = VerdictRendered"
    | "e_Type e = FeedbackGenerated" | "e_Type e \<notin> {PersonaFailed, PersonaCompleted, VerdictRendered, FeedbackGenerated}"
    by blast
  then show ?thesis
  proof cases
    case 1
    then show ?thesis using vt by (auto simp: join_step_def join_failed_def split: option.splits)
  next
    case 2
    then show ?thesis using vt
      by (auto simp: join_step_def join_completed_def completed_by_def Let_def split: option.splits)
  next
    case 3
    then show ?thesis using vt assms(2)
      by (auto simp: join_step_def join_verdict_def verdict_from_def split: option.splits)
  next
    case 4
    then show ?thesis using vt assms(1)
      by (auto simp: join_step_def join_feedback_def outdates_def feedback_to_def invalidate_fold split: option.splits)
  next
    case 5
    then show ?thesis using vt by (simp add: join_step_def)
  qed
qed

lemma verdict_persists:
  assumes "\<forall>y \<in> set post. \<not> verdict_from p y \<and> \<not> outdates wfDef p y"
    and "length (filter (\<lambda>y. completed_by y = Some p) post) \<le> 1"
    and "jn_verdicts j p = Some \<lparr>vt_active = True, vt_sealed = False, vt_advisory = False\<rparr>"
  shows "\<exists>b. jn_verdicts (foldl (join_step wfDef) j post) p = Some \<lparr>vt_active = True, vt_sealed = b, vt_advisory = False\<rparr> \<and>
    (b \<longrightarrow> filter (\<lambda>y. completed_by y = Some p) post \<noteq> [])"
  using assms(1,2)
proof (induction post rule: rev_induct)
  case Nil
  then show ?case using assms(3) by (intro exI [of _ False]) simp
next
  case (snoc y post)
  then obtain b where b: "jn_verdicts (foldl (join_step wfDef) j post) p = Some \<lparr>vt_active = True, vt_sealed = b, vt_advisory = False\<rparr>"
    "b \<longrightarrow> filter (\<lambda>y. completed_by y = Some p) post \<noteq> []" by auto
  have y: "\<not> outdates wfDef p y" "\<not> verdict_from p y" using snoc.prems by auto
  have "completed_by y = Some p \<Longrightarrow> \<not> b" using snoc.prems(2) b(2) by (auto simp: filter_empty_conv)
  with step_verdict_keep [OF y b(1)] b show ?case by auto
qed

text \<open>
  A failing, non-advisory verdict holds back every handler that waits for its author, also
  after the author's own completion, in a workflow with a feedback loop: the join is
  unsatisfied and names the author, until feedback, a new verdict or a second completion of the
  author. The only handler it does not hold back is the review consolidator of that reviewer.
\<close>

theorem failing_verdict_gates_join:
  assumes log: "LoadByCorrelation st c = pre @ v # post" and v: "fail_verdict_from p v"
    and later: "\<forall>y \<in> set post. \<not> verdict_from p y \<and> \<not> outdates (corr_def w c) p y"
    and once: "length (filter (\<lambda>y. completed_by y = Some p) post) \<le> 1"
    and def: "corr_def w c = Some def" "wd_RetriggeredBy def \<noteq> []" and req: "p \<in> set reqs"
    and other: "\<not> isConsolidatorBypass (Some def) h p"
  shows "\<exists>missing. checkJoinCondition False st w h reqs c = Inr (False, [], missing) \<and> missing \<noteq> []"
proof -
  let ?j = "join_fold (corr_def w c) (LoadByCorrelation st c)"
  obtain b where "jn_verdicts ?j p = Some \<lparr>vt_active = True, vt_sealed = b, vt_advisory = False\<rparr>"
    using verdict_persists [OF later once step_verdict_set [OF v]] log by (auto simp: join_fold_def)
  then have "pending_feedback (Some def) ?j p" using def by (simp add: pending_feedback_def)
  then have "snd (join_collect (Some def) h ?j reqs) \<noteq> []"
    using collect_missing [of "Some def" h ?j reqs] req other by blast
  then show ?thesis using def(1) by (auto simp: checkJoinCondition_def Let_def split: prod.splits)
qed

theorem failing_verdict_gates_join_witness:
  "\<exists>missing. checkJoinCondition False (sample_store [done_event ''developer'', fail_verdict ''qa'', done_event ''qa''])
     sample_resolver ''quality-gate'' [''qa''] ''wf'' = Inr (False, [], missing) \<and> missing \<noteq> []"
proof -
  let ?es = "[done_event ''developer'', fail_verdict ''qa'', done_event ''qa'']"
  have log: "LoadByCorrelation (sample_store ?es) ''wf'' =
      [hd (sample_log ?es)] @ (sample_log ?es ! 1) # [sample_log ?es ! 2]" by code_simp
  have def: "corr_def sample_resolver ''wf'' = Some WorkspaceDevWorkflowDef"
    by (simp add: corr_def_def sample_resolver_def cacheWorkflowID_def registerWorkflow_def resolveWorkflowID_def
        getWorkflowDef_def WorkspaceDevWorkflowDef_def newWorkflowResolver_def)
  show ?thesis
  proof (rule failing_verdict_gates_join [OF log _ _ _ def])
    show "fail_verdict_from ''qa'' (sample_log ?es ! 1)" by code_simp
    have "feedback_to (sample_log ?es ! 2) = None" "\<not> verdict_from ''qa'' (sample_log ?es ! 2)" by code_simp+
    then show "\<forall>y \<in> set [sample_log ?es ! 2]. \<not> verdict_from ''qa'' y \<and> \<not> outdates (corr_def sample_resolver ''wf'') ''qa'' y"
      by (simp add: outdates_def)
    show "wd_RetriggeredBy WorkspaceDevWorkflowDef \<noteq> []" by code_simp
    show "\<not> isConsolidatorBypass (Some WorkspaceDevWorkflowDef) ''quality-gate'' ''qa''" by code_simp
  qed simp_all
qed

text \<open>The consolidator itself only waits for the completions of its reviewers.\<close>

lemma consolidator_not_gated:
  assumes "corr_def w c = Some def" and "wd_SynchronousFeedback def" and "wd_ReviewConsolidator def \<noteq> []"
    and "\<forall>p \<in> set reqs. p \<noteq> [] \<and> p \<in> set (wd_ConsolidatedReviewers def) \<and>
      jn_latest (join_fold (Some def) (LoadByCorrelation st c)) p \<noteq> None"
  shows "\<exists>fp. checkJoinCondition False st w (wd_ReviewConsolidator def) reqs c = Inr (True, fp, [])"
proof -
  have "snd (join_collect (Some def) (wd_ReviewConsolidator def) (join_fold (Some def) (LoadByCorrelation st c)) reqs) = []"
    using assms unfolding collect_missing by (simp add: isConsolidatorBypass_def IsConsolidatedReviewer_def)
  then show ?thesis using assms(1) by (auto simp: checkJoinCondition_def Let_def split: prod.splits)
qed

section \<open>Fingerprints\<close>

fun str_split :: "char \<Rightarrow> string \<Rightarrow> string list" where
  "str_split c [] = [[]]"
| "str_split c (x # xs) = (if x = c then [] # str_split c xs
     else case str_split c xs of [] \<Rightarrow> [[x]] | y # ys \<Rightarrow> (x # y) # ys)"

lemma str_split_none: "c \<notin> set x \<Longrightarrow> str_split c x = [x]"
  by (induction x) auto

lemma str_split_append: "c \<notin> set x \<Longrightarrow> str_split c (x @ c # rest) = x # str_split c rest"
  by (induction x) auto

lemma str_split_join: "xs \<noteq> [] \<Longrightarrow> \<forall>x \<in> set xs. c \<notin> set x \<Longrightarrow> str_split c (str_join xs [c]) = xs"
  by (induction xs "[c]" rule: str_join.induct) (auto simp: str_split_none str_split_append)

text \<open>
  The join-gate fingerprint identifies the completions a dispatch was for: event ids do not
  contain the separator, so two satisfied checks of the same predecessors that produce the same
  fingerprint rest on the same set of completion events.
\<close>

theorem fingerprint_identifies_completions:
  assumes 1: "checkJoinCondition False st w h reqs c = Inr (True, fp, m)"
    and 2: "checkJoinCondition False st' w' h reqs c = Inr (True, fp, m')"
    and ids: "\<forall>e \<in> set (st_events st) \<union> set (st_events st'). CHR ''|'' \<notin> set (e_ID e)"
  shows "jn_latest (join_fold (corr_def w c) (LoadByCorrelation st c)) ` set reqs =
    jn_latest (join_fold (corr_def w' c) (LoadByCorrelation st' c)) ` set reqs"
proof (cases "reqs = []")
  case False
  let ?j = "join_fold (corr_def w c) (LoadByCorrelation st c)"
  let ?j' = "join_fold (corr_def w' c) (LoadByCorrelation st' c)"
  obtain xs ys where
    xs: "join_collect (corr_def w c) h ?j reqs = (xs, [])" "fp = str_join (sort xs) ''|''" and
    ys: "join_collect (corr_def w' c) h ?j' reqs = (ys, [])" "fp = str_join (sort ys) ''|''"
    using 1 2 by (auto elim!: check_satisfied)
  have mx: "map Some xs = map (jn_latest ?j) reqs" and my: "map Some ys = map (jn_latest ?j') reqs"
    using collect_ids [OF xs(1)] collect_ids [OF ys(1)] by simp_all
  have clean: "CHR ''|'' \<notin> set i" if latest: "jn_latest (join_fold d (LoadByCorrelation s c)) p = Some i"
    and s: "s = st \<or> s = st'" for d s p i
  proof -
    obtain pre e post where e: "LoadByCorrelation s c = pre @ e # post" "e_ID e = i"
      using latest_is_fresh [OF latest] unfolding fresh_completion_def by blast
    then have "e \<in> set (LoadByCorrelation s c)" by simp
    then show ?thesis using ids s e(2) by (auto simp: LoadByCorrelation_def)
  qed
  have "\<forall>x \<in> set (sort xs). CHR ''|'' \<notin> set x"
  proof
    fix x assume "x \<in> set (sort xs)"
    then have "Some x \<in> set (map (jn_latest ?j) reqs)" using mx by (metis image_eqI list.set_map set_sort)
    then show "CHR ''|'' \<notin> set x" using clean by auto
  qed
  moreover have "\<forall>x \<in> set (sort ys). CHR ''|'' \<notin> set x"
  proof
    fix x assume "x \<in> set (sort ys)"
    then have "Some x \<in> set (map (jn_latest ?j') reqs)" using my by (metis image_eqI list.set_map set_sort)
    then show "CHR ''|'' \<notin> set x" using clean by auto
  qed
  moreover have "sort xs \<noteq> []" "sort ys \<noteq> []"
    using False mx my by (metis length_0_conv length_map length_sort)+
  ultimately have "sort xs = sort ys" using str_split_join xs(2) ys(2) by metis
  then have "set (map Some xs) = set (map Some ys)" by (metis list.set_map set_sort)
  then show ?thesis using mx my by simp
qed simp

theorem fingerprint_identifies_completions_witness:
  "jn_latest (join_fold (corr_def sample_resolver ''wf'')
      (LoadByCorrelation (sample_store [done_event ''qa'', done_event ''reviewer'']) ''wf'')) ` set [''reviewer'', ''qa''] =
   jn_latest (join_fold (corr_def sample_resolver ''wf'')
      (LoadByCorrelation (sample_store [done_event ''qa'', done_event ''reviewer'', fail_verdict ''x'']) ''wf'')) ` set [''reviewer'', ''qa'']"
proof (rule fingerprint_identifies_completions)
  show "checkJoinCondition False (sample_store [done_event ''qa'', done_event ''reviewer'']) sample_resolver
      ''review-consolidator'' [''reviewer'', ''qa''] ''wf'' = Inr (True, ''1|2'', [])" by code_simp
  show "checkJoinCondition False (sample_store [done_event ''qa'', done_event ''reviewer'', fail_verdict ''x'']) sample_resolver
      ''review-consolidator'' [''reviewer'', ''qa''] ''wf'' = Inr (True, ''1|2'', [])" by code_simp
  have "list_all (\<lambda>e. CHR ''|'' \<notin> set (e_ID e)) (st_events (sample_store [done_event ''qa'', done_event ''reviewer'']) @
      st_events (sample_store [done_event ''qa'', done_event ''reviewer'', fail_verdict ''x'']))" by code_simp
  then show "\<forall>e \<in> set (st_events (sample_store [done_event ''qa'', done_event ''reviewer''])) \<union>
      set (st_events (sample_store [done_event ''qa'', done_event ''reviewer'', fail_verdict ''x''])).
      CHR ''|'' \<notin> set (e_ID e)" by (simp add: list_all_iff ball_Un)
qed

section \<open>Subscriptions\<close>

text \<open>What one definition contributes to the subscriptions of a handler of its graph.\<close>

definition graph_events :: "string \<Rightarrow> workflow_def \<Rightarrow> etype set" where
  "graph_events name def = (case map_of (wd_Graph def) name of None \<Rightarrow> {}
     | Some deps \<Rightarrow> insert (if deps = [] then etype_of (WorkflowStartedPrefix @ wd_ID def) else PersonaCompleted)
         (set (mget [] (wd_RetriggeredBy def) name)))"

lemma set_add_event: "set (foldl add_event evs xs) = set evs \<union> set xs"
  by (induction xs arbitrary: evs) (auto simp: add_event_def)

lemma scan_fold:
  "foldl (scan_def name) (evs, b) ws = (evs', b') \<Longrightarrow>
   set evs' = set evs \<union> (\<Union>(k, def) \<in> set ws. graph_events name def) \<and>
   b' = (b \<or> list_ex (\<lambda>(k, def). map_of (wd_Graph def) name \<noteq> None) ws)"
proof (induction ws arbitrary: evs b)
  case Nil
  then show ?case by simp
next
  case (Cons x ws)
  obtain k def where x: "x = (k, def)" by (cases x)
  show ?case
  proof (cases "map_of (wd_Graph def) name")
    case None
    with Cons.prems x have "foldl (scan_def name) (evs, b) ws = (evs', b')" by (simp add: scan_def_def)
    with Cons.IH None x show ?thesis by (simp add: graph_events_def)
  next
    case (Some deps)
    let ?evs = "foldl add_event (add_event evs (if deps = [] then etype_of (WorkflowStartedPrefix @ wd_ID def)
        else PersonaCompleted)) (mget [] (wd_RetriggeredBy def) name)"
    from Cons.prems x Some have "foldl (scan_def name) (?evs, True) ws = (evs', b')" by (simp add: scan_def_def)
    from Cons.IH [OF this] x Some show ?thesis
      by (auto simp: graph_events_def set_add_event add_event_def split: if_splits)
  qed
qed

text \<open>
  A handler of some workflow graph is subscribed to exactly: the start event of every
  workflow it is a root of, persona completions if it waits for anybody in some workflow or has
  a before-hook, and the events it is re-triggered by; persona failures are not among them.
\<close>

theorem dag_subscriptions:
  assumes "handlerInAnyGraph w (h_Name h)"
  shows "set (resolveEventsFromDAG w h hooks) =
    (\<Union>(k, def) \<in> set (rs_workflows w). graph_events (h_Name h) def) \<union>
    (if hooksFor hooks (h_Name h) \<noteq> [] then {PersonaCompleted} else {})"
proof (cases "foldl (scan_def (h_Name h)) ([], False) (rs_workflows w)")
  case (Pair dag found)
  from scan_fold [OF this] assms have
    "set dag = (\<Union>(k, def) \<in> set (rs_workflows w). graph_events (h_Name h) def)" "found"
    by (simp_all add: handlerInAnyGraph_def)
  then show ?thesis using Pair by (auto simp: resolveEventsFromDAG_def Let_def)
qed

definition sample_handler :: "string \<Rightarrow> handler" where
  "sample_handler n = \<lparr>h_Name = n, h_Subscribes = [], h_Trigger = None\<rparr>"

theorem dag_subscriptions_witness:
  "set (resolveEventsFromDAG sample_resolver (sample_handler ''developer'') Map.empty) =
     {PersonaCompleted, FeedbackGenerated}"
proof -
  have "handlerInAnyGraph sample_resolver (h_Name (sample_handler ''developer''))" by code_simp
  from dag_subscriptions [OF this, of Map.empty] show ?thesis
    by (simp add: sample_resolver_def cacheWorkflowID_def registerWorkflow_def newWorkflowResolver_def
        mput_def graph_events_def sample_handler_def WorkspaceDevWorkflowDef_def hooksFor_def zero_def_def mget_def)
qed

definition pr_resolver :: resolver where
  "pr_resolver = cacheWorkflowID ''wf'' ''pr-review'' (registerWorkflow PRReviewWorkflowDef newWorkflowResolver)"

definition pr_log :: "envelope list" where
  "pr_log = map done_event (butlast prCategoryReviewers) @
     [sample_env PersonaFailed (PPersonaFailed (zero_failed\<lparr>pf_Persona := last prCategoryReviewers\<rparr>))]"

text \<open>
  C39. In \<open>pr-review\<close>, where the join counts a failed reviewer as done, the last
  reviewer's failure completes the join but wakes nobody: the consolidator is not subscribed to
  \<open>PersonaFailed\<close>, so when the reviewer that finishes last fails the consolidator is never
  dispatched.
\<close>

theorem last_failure_completes_join_unseen:
  "\<exists>fp. checkJoinCondition False (sample_store pr_log) pr_resolver ''pr-consolidator'' prCategoryReviewers ''wf''
      = Inr (True, fp, []) \<and>
     (\<exists>m. checkJoinCondition False (sample_store (butlast pr_log)) pr_resolver ''pr-consolidator'' prCategoryReviewers ''wf''
      = Inr (False, [], m)) \<and>
     e_Type (last pr_log) = PersonaFailed \<and>
     resolveEventsFromDAG pr_resolver (sample_handler ''pr-consolidator'') Map.empty = [PersonaCompleted]"
proof (intro exI conjI)
  show "checkJoinCondition False (sample_store pr_log) pr_resolver ''pr-consolidator'' prCategoryReviewers ''wf''
      = Inr (True, ''1|10|11|12|13|14|2|3|4|5|6|7|8|9'', [])" by code_simp
  show "checkJoinCondition False (sample_store (butlast pr_log)) pr_resolver ''pr-consolidator'' prCategoryReviewers ''wf''
      = Inr (False, [], [''pr-correctness''])" by code_simp
  show "e_Type (last pr_log) = PersonaFailed" by code_simp
  show "resolveEventsFromDAG pr_resolver (sample_handler ''pr-consolidator'') Map.empty = [PersonaCompleted]" by code_simp
qed

end
