(* ===== verification/ResultPersister.thy ===== *)
theory ResultPersister imports EventStore begin

text \<open>
  \<open>internal/engine/result_persister.go\<close> and the two diagnostic writers of
  \<open>persona_runner.go\<close>: three attempts to append to an aggregate nobody else owns, each
  reading the current version first. A store call of attempt \<open>i\<close> fails when the fault
  function says so; a failed load reads as version 0, as in the code.
\<close>

definition maxPersistRetries :: nat where
  "maxPersistRetries = 3"

record io_faults =
  io_load :: "nat \<Rightarrow> bool"
  io_append :: "nat \<Rightarrow> bool"

definition last_version_of :: "bool \<Rightarrow> store \<Rightarrow> string \<Rightarrow> int" where
  "last_version_of fault st a = (if fault \<or> Load st a = [] then 0 else e_Version (last (Load st a)))"

text \<open>\<open>events[i] = events[i].WithAggregate(aggregateID, currentVersion+i+1)\<close>\<close>

definition stamp_all :: "string \<Rightarrow> int \<Rightarrow> envelope list \<Rightarrow> envelope list" where
  "stamp_all a v es = map (\<lambda>(i, e). WithAggregate a (v + int i + 1) e) (zip [0..<length es] es)"

text \<open>Attempts \<open>i, i + 1, ...\<close>: whether one succeeded, the events as stamped last, the store.\<close>

fun persist_attempts :: "nat \<Rightarrow> io_faults \<Rightarrow> nat \<Rightarrow> string \<Rightarrow> envelope list \<Rightarrow> store \<Rightarrow> bool \<times> envelope list \<times> store" where
  "persist_attempts 0 io i a es st = (False, es, st)"
| "persist_attempts (Suc n) io i a es st =
     (let v = last_version_of (io_load io i) st a; es' = stamp_all a v es
      in case Append (io_append io i) a v es' st of
          Inr st' \<Rightarrow> (True, es', st')
        | Inl err \<Rightarrow> persist_attempts n io (Suc i) a es' st)"

text \<open>
  The store, and the events handed to \<open>bus.Publish\<close>: all of them, also when no attempt
  succeeded. \<open>busClosed\<close> says that the bus refuses every publication.
\<close>

definition persistAndPublish :: "io_faults \<Rightarrow> bool \<Rightarrow> string \<Rightarrow> envelope list \<Rightarrow> store \<Rightarrow> store \<times> envelope list" where
  "persistAndPublish io busClosed a es st = (if es = [] then (st, [])
     else case persist_attempts maxPersistRetries io 0 a es st of
       (ok, es', st') \<Rightarrow> (st', if busClosed then [] else es'))"

section \<open>Diagnostics\<close>

text \<open>\<open>r.store == nil\<close> does not occur once the runner is built on a store.\<close>

definition emitDispatchDropped ::
    "runtime \<Rightarrow> nat \<Rightarrow> io_faults \<Rightarrow> string \<Rightarrow> envelope \<Rightarrow> string \<Rightarrow> string list \<Rightarrow> string \<Rightarrow> string \<Rightarrow> store \<Rightarrow> store" where
  "emitDispatchDropped rt k io handlerName trigger reason missing fingerprint detail st =
     (if e_CorrelationID trigger = [] then st
      else let evt = WithSource ''persona-runner'' (WithCausation (e_ID trigger) (WithCorrelation (e_CorrelationID trigger)
             (NewEnv rt k DispatchDropped 1 (PDispatchDropped \<lparr>dd_Handler = handlerName, dd_DroppedEventID = e_ID trigger,
                dd_DroppedEventType = type_name (e_Type trigger), dd_DropReason = reason,
                dd_MissingPredecessors = missing, dd_Fingerprint = fingerprint, dd_Detail = detail\<rparr>))))
        in snd (snd (persist_attempts 3 io 0 (e_CorrelationID trigger @ '':drops'') [evt] st)))"

definition emitDispatchStarted ::
    "runtime \<Rightarrow> nat \<Rightarrow> io_faults \<Rightarrow> string \<Rightarrow> envelope \<Rightarrow> int \<Rightarrow> store \<Rightarrow> store" where
  "emitDispatchStarted rt k io handlerName trigger chainDepth st =
     (if e_CorrelationID trigger = [] then st
      else let evt = WithSource ''persona-runner'' (WithCausation (e_ID trigger) (WithCorrelation (e_CorrelationID trigger)
             (NewEnv rt k DispatchStarted 1 (PDispatchStarted \<lparr>ds_Persona = handlerName,
                ds_TriggerEvent = type_name (e_Type trigger), ds_TriggerID = e_ID trigger,
                ds_ChainDepth = chainDepth, ds_SpawnUnixNano = rt_now rt\<rparr>))))
        in snd (snd (persist_attempts 3 io 0 (e_CorrelationID trigger @ '':dispatch'') [evt] st)))"

section \<open>Lemmas\<close>

lemma stamp_all_Nil [simp]: "stamp_all a v [] = []" "stamp_all a v es = [] \<longleftrightarrow> es = []"
  by (simp_all add: stamp_all_def)

lemma length_stamp_all [simp]: "length (stamp_all a v es) = length es"
  by (simp add: stamp_all_def)

lemma stamp_all_ids [simp]: "map e_ID (stamp_all a v es) = map e_ID es"
  by (rule nth_equalityI) (simp_all add: stamp_all_def WithAggregate_def)

lemma nth_stamp_all: "i < length es \<Longrightarrow> stamp_all a v es ! i = WithAggregate a (v + int i + 1) (es ! i)"
  by (simp add: stamp_all_def)

lemma stamp_all_stamp_all [simp]: "stamp_all a v (stamp_all b w es) = stamp_all a v es"
  by (rule nth_equalityI) (simp_all add: nth_stamp_all WithAggregate_def)

lemma numbered_stamp_all: "numbered a v (stamp_all a v es) = stamp_all a v es"
  by (rule numbered_id) (simp add: nth_stamp_all WithAggregate_def)

lemma last_version_ok: "store_ok st \<Longrightarrow> last_version_of False st a = current_version st a"
proof -
  assume ok: "store_ok st"
  show ?thesis
  proof (cases "Load st a = []")
    case True
    then show ?thesis using ok by (simp add: last_version_of_def Load_rows current_version_length)
  next
    case False
    then have "e_Version (last (Load st a)) = int (length (Load st a))"
      using sqlite.last_version ok by blast
    with False show ?thesis using ok by (simp add: last_version_of_def Load_rows current_version_length)
  qed
qed

lemma attempts_success:
  "persist_attempts n io i a es st = (True, es', st') \<Longrightarrow> store_ok st \<Longrightarrow> es \<noteq> [] \<Longrightarrow>
     \<exists>j < n. Append (io_append io (i + j)) a (int (length (rows_of st a))) es' st = Inr st' \<and>
       es' = stamp_all a (int (length (rows_of st a))) es"
proof (induction n arbitrary: i es)
  case 0
  then show ?case by simp
next
  case (Suc n)
  let ?v = "last_version_of (io_load io i) st a"
  show ?case
  proof (cases "Append (io_append io i) a ?v (stamp_all a ?v es) st")
    case (Inr st1)
    have "?v = current_version st a"
      using Inr Suc.prems(3) by (auto simp: Append_def split: if_splits)
    then have "?v = int (length (rows_of st a))" using Suc.prems(2) by (simp add: current_version_length)
    then show ?thesis using Inr Suc.prems(1) by (intro exI [of _ 0]) (auto simp: Let_def)
  next
    case (Inl err)
    then have "persist_attempts n io (Suc i) a (stamp_all a ?v es) st = (True, es', st')"
      using Suc.prems(1) by (simp add: Let_def)
    from Suc.IH [OF this] Suc.prems obtain j where "j < n"
      "Append (io_append io (Suc i + j)) a (int (length (rows_of st a))) es' st = Inr st'"
      "es' = stamp_all a (int (length (rows_of st a))) es" by auto
    then show ?thesis by (intro exI [of _ "Suc j"]) simp
  qed
qed

lemma attempts_failure: "persist_attempts n io i a es st = (False, es', st') \<Longrightarrow> st' = st"
  by (induction n arbitrary: i es) (auto simp: Let_def split: sum.splits)

lemma attempts_ids: "persist_attempts n io i a es st = (ok, es', st') \<Longrightarrow> map e_ID es' = map e_ID es"
  by (induction n arbitrary: i es) (auto simp: Let_def split: sum.splits)

lemma fresh_append:
  assumes ok: "store_ok st" and ids: "distinct (map e_ID es)" "set (map e_ID es) \<inter> set (map e_ID (st_events st)) = {}"
    and es: "es \<noteq> []"
  shows "\<exists>st'. Append False a (int (length (rows_of st a))) (stamp_all a (int (length (rows_of st a))) es) st = Inr st'"
proof -
  let ?v = "int (length (rows_of st a))"
  have "\<exists>rows'. insert_rows a (?v + 1) (stamp_all a ?v es) (st_events st) = Inr rows'"
  proof (rule insert_rows_succeeds)
    show "\<forall>r \<in> set (st_events st). e_AggregateID r = a \<longrightarrow> e_Version r < ?v + 1"
    proof (intro ballI impI)
      fix r assume "r \<in> set (st_events st)" "e_AggregateID r = a"
      then have "e_Version r \<in> set (map e_Version (rows_of st a))" by (auto simp: rows_of_def)
      then have "e_Version r \<in> set (first_versions (length (rows_of st a)))"
        using ok unfolding store_ok_def by metis
      then show "e_Version r < ?v + 1" by (auto simp: first_versions_def)
    qed
  qed (use ids in \<open>simp_all only: stamp_all_ids\<close>)
  then show ?thesis using ok es by (auto simp: Append_def current_version_length)
qed

lemma attempts_eventually:
  assumes ok: "store_ok st" and ids: "distinct (map e_ID es)" "set (map e_ID es) \<inter> set (map e_ID (st_events st)) = {}"
    and es: "es \<noteq> []" and j: "j < n" "\<not> io_load io (i + j)" "\<not> io_append io (i + j)"
  shows "fst (persist_attempts n io i a es st)"
  using ids es j
proof (induction n arbitrary: i j es)
  case 0
  then show ?case by simp
next
  case (Suc n)
  let ?v = "last_version_of (io_load io i) st a"
  show ?case
  proof (cases j)
    case 0
    then have "?v = int (length (rows_of st a))"
      using Suc.prems last_version_ok [OF ok, of a] ok by (simp add: current_version_length)
    then show ?thesis using fresh_append [OF ok Suc.prems(1-3), of a] Suc.prems 0 by (auto simp: Let_def)
  next
    case (Suc k)
    have "fst (persist_attempts n io (Suc i) a (stamp_all a ?v es) st)"
      using Suc.prems Suc by (intro Suc.IH [of _ k]) (simp_all del: list.map)
    then show ?thesis by (auto simp: Let_def split: sum.splits)
  qed
qed

lemma persist_block:
  assumes "store_ok st" and "es \<noteq> []" and "distinct (map e_ID es)"
    and "set (map e_ID es) \<inter> set (map e_ID (st_events st)) = {}"
    and "j < maxPersistRetries" "\<not> io_load io j" "\<not> io_append io j"
  shows "\<exists>st'. persistAndPublish io False a es st = (st', stamp_all a (int (length (rows_of st a))) es) \<and> store_ok st' \<and>
    Load st' a = Load st a @ stamp_all a (int (length (rows_of st a))) es"
proof -
  obtain es' st' where p: "persist_attempts maxPersistRetries io 0 a es st = (True, es', st')"
    using attempts_eventually [OF assms(1,3,4,2), of j maxPersistRetries io 0 a] assms(5-7)
    by (cases "persist_attempts maxPersistRetries io 0 a es st") auto
  from attempts_success [OF p assms(1,2)] obtain i where
    A: "Append (io_append io i) a (int (length (rows_of st a))) es' st = Inr st'"
    "es' = stamp_all a (int (length (rows_of st a))) es" by auto
  have "Load st' a = Load st a @ es'"
    using sqlite.append_load [OF assms(1) A(1), of a] A(2) by (simp add: numbered_stamp_all)
  moreover have "store_ok st'" using sqlite.valid_append [OF assms(1) A(1)] .
  ultimately show ?thesis using p assms(2) A(2) by (auto simp: persistAndPublish_def)
qed

text \<open>
  The result writer retries into the next free versions of the handler's own aggregate: if
  one of its three attempts reaches the store, with fresh event ids, the batch is appended as
  one contiguous block and what is published is exactly that block.
\<close>

theorem results_persisted_then_published:
  assumes "store_ok st" and "es \<noteq> []" and "distinct (map e_ID es)"
    and "set (map e_ID es) \<inter> set (map e_ID (st_events st)) = {}"
    and "j < maxPersistRetries" "\<not> io_load io j" "\<not> io_append io j"
  shows "\<exists>st' pub. persistAndPublish io False a es st = (st', pub) \<and> store_ok st' \<and>
    Load st' a = Load st a @ pub \<and> map e_ID pub = map e_ID es"
proof -
  obtain st' where "persistAndPublish io False a es st = (st', stamp_all a (int (length (rows_of st a))) es)"
    "store_ok st'" "Load st' a = Load st a @ stamp_all a (int (length (rows_of st a))) es"
    using persist_block [OF assms, of a] by auto
  then show ?thesis using stamp_all_ids by blast
qed

theorem results_persisted_then_published_witness:
  "\<exists>st' pub. persistAndPublish \<lparr>io_load = (\<lambda>i. i = 0), io_append = (\<lambda>i. i = 1)\<rparr> False ''wf:persona:dev''
      [sample_env PersonaCompleted (POther [])] empty_store = (st', pub) \<and> store_ok st' \<and>
    Load st' ''wf:persona:dev'' = Load empty_store ''wf:persona:dev'' @ pub \<and>
    map e_ID pub = map e_ID [sample_env PersonaCompleted (POther [])]"
  by (rule results_persisted_then_published [where j = 2])
    (auto simp: store_ok_empty maxPersistRetries_def, simp_all add: empty_store_def)

text \<open>
  When all three attempts fail the store is unchanged and the events are published all the
  same: subscribers act on a completion that the log does not contain.
\<close>

theorem results_published_unpersisted:
  assumes "es \<noteq> []" and "\<forall>i < maxPersistRetries. io_append io i"
  shows "\<exists>pub. persistAndPublish io False a es st = (st, pub) \<and> map e_ID pub = map e_ID es"
proof -
  have fail: "\<not> fst (persist_attempts n io i a fs st)"
    if "\<forall>j < n. io_append io (i + j)" "fs \<noteq> []" for n i fs
    using that
  proof (induction n arbitrary: i fs)
    case 0
    then show ?case by simp
  next
    case (Suc n)
    have "io_append io i" using Suc.prems(1) by (metis add_0_right zero_less_Suc)
    moreover have "\<forall>j < n. io_append io (Suc i + j)"
      using Suc.prems(1) by (metis Suc_less_eq add_Suc add_Suc_right)
    ultimately show ?case using Suc.IH [of "Suc i"] Suc.prems(2) by (simp add: Let_def Append_def)
  qed
  obtain es' st' where p: "persist_attempts maxPersistRetries io 0 a es st = (False, es', st')"
    using fail [of maxPersistRetries 0 es] assms by (cases "persist_attempts maxPersistRetries io 0 a es st") auto
  then show ?thesis using attempts_failure [OF p] attempts_ids [OF p] assms(1)
    by (auto simp: persistAndPublish_def)
qed

theorem results_published_unpersisted_witness:
  "\<exists>pub. persistAndPublish \<lparr>io_load = (\<lambda>i. False), io_append = (\<lambda>i. True)\<rparr> False ''wf:persona:dev''
      [sample_env PersonaCompleted (POther [])] empty_store = (empty_store, pub) \<and>
    map e_ID pub = map e_ID [sample_env PersonaCompleted (POther [])]"
  by (rule results_published_unpersisted) simp_all

end
