(* ===== verification/GoJson.thy ===== *)
theory GoJson imports Prelude begin

text \<open>
  The parts of Go's \<open>encoding/json\<close> that the program calls: \<open>Unmarshal\<close> into strings and structs and
  \<open>Marshal\<close> of them, for bytes that are valid UTF-8 and nesting below the depth limit of the library.
\<close>

section \<open>Strings\<close>

definition json_space :: "char \<Rightarrow> bool" where
  "json_space c = (of_char c \<in> {32, 9, 10, 13 :: nat})"

definition quote_mark :: char where "quote_mark = char_of (34 :: nat)"
definition bs_mark :: char where "bs_mark = char_of (92 :: nat)"

definition hex_val :: "char \<Rightarrow> nat option" where
  "hex_val c = (let n = of_char c :: nat in
     if 48 \<le> n \<and> n \<le> 57 then Some (n - 48) else if 97 \<le> n \<and> n \<le> 102 then Some (n - 87)
     else if 65 \<le> n \<and> n \<le> 70 then Some (n - 55) else None)"

definition hex4 :: "char \<Rightarrow> char \<Rightarrow> char \<Rightarrow> char \<Rightarrow> nat option" where
  "hex4 a b c d = (case (hex_val a, hex_val b, hex_val c, hex_val d) of
      (Some w, Some x, Some y, Some z) \<Rightarrow> Some (4096 * w + 256 * x + 16 * y + z) | _ \<Rightarrow> None)"

definition utf8 :: "nat \<Rightarrow> string" where
  "utf8 r = (if r < 128 then [char_of r]
     else if r < 2048 then [char_of (192 + r div 64), char_of (128 + r mod 64)]
     else if 55296 \<le> r \<and> r < 57344 then [char_of (239 :: nat), char_of (191 :: nat), char_of (189 :: nat)]
     else if r < 65536 then [char_of (224 + r div 4096), char_of (128 + r div 64 mod 64), char_of (128 + r mod 64)]
     else [char_of (240 + r div 262144), char_of (128 + r div 4096 mod 64), char_of (128 + r div 64 mod 64),
           char_of (128 + r mod 64)])"

text \<open>The escapes of one character after the backslash.\<close>

definition json_escape :: "char \<Rightarrow> char option" where
  "json_escape c = map_of [(quote_mark, quote_mark), (bs_mark, bs_mark),
     (CHR ''/'', CHR ''/''), (CHR ''b'', char_of (8 :: nat)), (CHR ''f'', char_of (12 :: nat)),
     (CHR ''n'', char_of (10 :: nat)), (CHR ''r'', char_of (13 :: nat)), (CHR ''t'', char_of (9 :: nat))] c"

text \<open>The value of the text behind an opening quote, up to the closing one, and what follows it.\<close>

function json_chars :: "string \<Rightarrow> (string \<times> string) option" where
  "json_chars s = (case s of [] \<Rightarrow> None
     | c # s1 \<Rightarrow>
       if c = quote_mark then Some ([], s1)
       else if of_char c < (32 :: nat) then None
       else if c \<noteq> bs_mark then map_option (map_prod ((#) c) id) (json_chars s1)
       else (case s1 of [] \<Rightarrow> None
         | e # s2 \<Rightarrow> if e \<noteq> CHR ''u'' then
             (case json_escape e of None \<Rightarrow> None | Some r \<Rightarrow> map_option (map_prod ((#) r) id) (json_chars s2))
           else (case s2 of a # b # x # y # s3 \<Rightarrow> (case hex4 a b x y of None \<Rightarrow> None
               | Some r \<Rightarrow> if 55296 \<le> r \<and> r < 56320 \<and> length s3 \<ge> 6 \<and> s3 ! 0 = bs_mark \<and> s3 ! 1 = CHR ''u''
                   then (case hex4 (s3 ! 2) (s3 ! 3) (s3 ! 4) (s3 ! 5) of None \<Rightarrow> None
                     | Some l \<Rightarrow> if 56320 \<le> l \<and> l < 57344
                         then map_option (map_prod ((@) (utf8 (65536 + (r - 55296) * 1024 + (l - 56320)))) id) (json_chars (drop 6 s3))
                         else map_option (map_prod ((@) (utf8 r)) id) (json_chars s3))
                   else map_option (map_prod ((@) (utf8 r)) id) (json_chars s3))
             | _ \<Rightarrow> None)))"
  by pat_completeness auto

termination json_chars
  by (relation "measure length") auto

declare json_chars.simps [simp del]

text \<open>A whole text into a string: \<open>null\<close> leaves it empty; any other value is refused.\<close>

definition json_string :: "string \<Rightarrow> string option" where
  "json_string raw = (let s = dropWhile json_space raw in case s of [] \<Rightarrow> None
     | c # rest \<Rightarrow> if c = quote_mark
         then (case json_chars rest of None \<Rightarrow> None | Some (v, r) \<Rightarrow> if list_all json_space r then Some v else None)
         else if take 4 s = ''null'' \<and> list_all json_space (drop 4 s) then Some [] else None)"

text \<open>\<open>Marshal\<close> of a string; \<open><\<close>, \<open>>\<close> and \<open>&\<close> are escaped, as are the two Unicode line separators.\<close>

definition hex_escape :: "nat \<Rightarrow> string" where
  "hex_escape n = bs_mark # ''u00'' @ [hex_digit (n div 16), hex_digit (n mod 16)]"

definition escape_char :: "char \<Rightarrow> string" where
  "escape_char c = (let n = of_char c :: nat in
     if c = quote_mark \<or> c = bs_mark then [bs_mark, c]
     else if n = 8 then [bs_mark, CHR ''b''] else if n = 12 then [bs_mark, CHR ''f'']
     else if n = 10 then [bs_mark, CHR ''n''] else if n = 13 then [bs_mark, CHR ''r'']
     else if n = 9 then [bs_mark, CHR ''t'']
     else if n < 32 \<or> n \<in> {60, 62, 38} then hex_escape n else [c])"

definition line_separator :: "string \<Rightarrow> bool" where
  "line_separator s = (case s of a # b # c # r \<Rightarrow> of_char a = (226 :: nat) \<and> of_char b = (128 :: nat) \<and>
     of_char c \<in> {168, 169 :: nat} | _ \<Rightarrow> False)"

fun escape_text :: "nat \<Rightarrow> string \<Rightarrow> string" where
  "escape_text skip [] = []"
| "escape_text skip (c # s) = (if skip > 0 then escape_text (skip - 1) s
     else if line_separator (c # s) then bs_mark # ''u202'' @ [if of_char (s ! 1) = (168 :: nat) then CHR ''8'' else CHR ''9''] @
       escape_text 2 s
     else escape_char c @ escape_text 0 s)"

definition marshal_string :: "string \<Rightarrow> string" where
  "marshal_string s = [quote_mark] @ escape_text 0 s @ [quote_mark]"

section \<open>Values\<close>

text \<open>A number keeps its text; an element of an array or object keeps the text it was read from.\<close>

datatype json = JNull | JBool bool | JNum string | JStr string | JArr "(string \<times> json) list"
  | JObj "(string \<times> string \<times> json) list"

definition digit_run :: "string \<Rightarrow> string" where
  "digit_run s = takeWhile (\<lambda>c. digit_val c \<noteq> None) s"

text \<open>The length of the number at the start of a text, or 0: sign, integer part, fraction, exponent.\<close>

definition int_part :: "string \<Rightarrow> nat" where
  "int_part s = (case s of [] \<Rightarrow> 0 | c # r \<Rightarrow> if c = CHR ''0'' then 1 else length (digit_run s))"

definition frac_part :: "string \<Rightarrow> nat option" where
  "frac_part s = (case s of [] \<Rightarrow> Some 0 | c # r \<Rightarrow> if c \<noteq> CHR ''.'' then Some 0
     else if digit_run r = [] then None else Some (1 + length (digit_run r)))"

definition exp_part :: "string \<Rightarrow> nat option" where
  "exp_part s = (case s of [] \<Rightarrow> Some 0 | c # r \<Rightarrow> if c \<noteq> CHR ''e'' \<and> c \<noteq> CHR ''E'' then Some 0
     else (let k = (case r of [] \<Rightarrow> 0 | d # r' \<Rightarrow> if d = CHR ''+'' \<or> d = CHR ''-'' then 1 else 0) in
       if digit_run (drop k r) = [] then None else Some (1 + k + length (digit_run (drop k r)))))"

definition number_length :: "string \<Rightarrow> nat option" where
  "number_length s = (let sg = (case s of [] \<Rightarrow> 0 | c # r \<Rightarrow> if c = CHR ''-'' then 1 else 0);
      i = int_part (drop sg s) in
     if i = 0 then None else case frac_part (drop (sg + i) s) of None \<Rightarrow> None
     | Some f \<Rightarrow> (case exp_part (drop (sg + i + f) s) of None \<Rightarrow> None | Some e \<Rightarrow> Some (sg + i + f + e)))"

definition skip_ws :: "string \<Rightarrow> string" where
  "skip_ws s = dropWhile json_space s"

definition consumed :: "string \<Rightarrow> string \<Rightarrow> string" where
  "consumed s r = take (length s - length r) s"

text \<open>A value at the start of a text, with what follows it. The fuel bounds the recursion.\<close>

fun json_value :: "nat \<Rightarrow> string \<Rightarrow> (json \<times> string) option"
  and json_members :: "nat \<Rightarrow> string \<Rightarrow> ((string \<times> string \<times> json) list \<times> string) option"
  and json_elements :: "nat \<Rightarrow> string \<Rightarrow> ((string \<times> json) list \<times> string) option" where
  "json_value 0 s = None"
| "json_value (Suc n) s = (case skip_ws s of [] \<Rightarrow> None | c # r \<Rightarrow>
     if c = CHR ''{'' then (case skip_ws r of d # r' \<Rightarrow> if d = CHR ''}'' then Some (JObj [], r')
           else map_option (map_prod JObj id) (json_members n r) | [] \<Rightarrow> None)
     else if c = CHR ''['' then (case skip_ws r of d # r' \<Rightarrow> if d = CHR '']'' then Some (JArr [], r')
           else map_option (map_prod JArr id) (json_elements n r) | [] \<Rightarrow> None)
     else if c = quote_mark then map_option (map_prod JStr id) (json_chars r)
     else if has_prefix (c # r) ''null'' then Some (JNull, drop 3 r)
     else if has_prefix (c # r) ''true'' then Some (JBool True, drop 3 r)
     else if has_prefix (c # r) ''false'' then Some (JBool False, drop 4 r)
     else (case number_length (c # r) of None \<Rightarrow> None | Some k \<Rightarrow> Some (JNum (take k (c # r)), drop k (c # r))))"
| "json_members 0 s = None"
| "json_members (Suc n) s = (case skip_ws s of [] \<Rightarrow> None | c # r \<Rightarrow> if c \<noteq> quote_mark then None
     else case json_chars r of None \<Rightarrow> None
     | Some (k, r1) \<Rightarrow> (case skip_ws r1 of [] \<Rightarrow> None | d # r2 \<Rightarrow> if d \<noteq> CHR '':'' then None
         else case json_value n r2 of None \<Rightarrow> None
         | Some (v, r3) \<Rightarrow> (let m = (k, consumed (skip_ws r2) r3, v) in
             case skip_ws r3 of [] \<Rightarrow> None | e # r4 \<Rightarrow>
               if e = CHR ''}'' then Some ([m], r4)
               else if e = CHR '','' then map_option (map_prod ((#) m) id) (json_members n r4) else None)))"
| "json_elements 0 s = None"
| "json_elements (Suc n) s = (case json_value n s of None \<Rightarrow> None
     | Some (v, r3) \<Rightarrow> (let m = (consumed (skip_ws s) r3, v) in
         case skip_ws r3 of [] \<Rightarrow> None | e # r4 \<Rightarrow>
           if e = CHR '']'' then Some ([m], r4)
           else if e = CHR '','' then map_option (map_prod ((#) m) id) (json_elements n r4) else None))"

text \<open>\<open>checkValid\<close>: one value and white space. Every level and element reads a character with two calls.\<close>

definition json_parse :: "string \<Rightarrow> json option" where
  "json_parse s = (case json_value (2 * length s + 2) s of None \<Rightarrow> None
     | Some (v, r) \<Rightarrow> if list_all json_space r then Some v else None)"

text \<open>\<open>json.Compact\<close> with escaping, as \<open>Marshal\<close> does with a \<open>RawMessage\<close>.\<close>

fun compact_text :: "bool \<Rightarrow> bool \<Rightarrow> nat \<Rightarrow> string \<Rightarrow> string" where
  "compact_text inStr escaped skip [] = []"
| "compact_text inStr escaped skip (c # s) = (if skip > 0 then compact_text inStr False (skip - 1) s
     else if of_char c \<in> {60, 62, 38 :: nat} then hex_escape (of_char c) @ compact_text inStr False 0 s
     else if line_separator (c # s) then bs_mark # ''u202'' @ [if of_char (s ! 1) = (168 :: nat) then CHR ''8'' else CHR ''9''] @
       compact_text inStr False 2 s
     else if inStr then (if escaped then c # compact_text True False 0 s
       else if c = bs_mark then c # compact_text True True 0 s
       else c # compact_text (c \<noteq> quote_mark) False 0 s)
     else if c = quote_mark then c # compact_text True False 0 s
     else if json_space c then compact_text False False 0 s
     else c # compact_text False False 0 s)"

section \<open>Structs\<close>

text \<open>The last member whose name is that of a field, in any case of its letters.\<close>

definition member_of :: "(string \<times> string \<times> json) list \<Rightarrow> string \<Rightarrow> (string \<times> json) option" where
  "member_of ms field = map_option snd (last_match (\<lambda>(k, rv). to_lower k = to_lower field) ms)"

text \<open>Decoding one field: absent and \<open>null\<close> leave the zero value, another type is an error (\<open>None\<close>).\<close>

definition string_field :: "(string \<times> string \<times> json) list \<Rightarrow> string \<Rightarrow> string option" where
  "string_field ms f = (case member_of ms f of None \<Rightarrow> Some [] | Some (raw, v) \<Rightarrow>
     (case v of JNull \<Rightarrow> Some [] | JStr s \<Rightarrow> Some s | _ \<Rightarrow> None))"

definition int_field :: "(string \<times> string \<times> json) list \<Rightarrow> string \<Rightarrow> int option" where
  "int_field ms f = (case member_of ms f of None \<Rightarrow> Some 0 | Some (raw, v) \<Rightarrow>
     (case v of JNull \<Rightarrow> Some 0 | JNum t \<Rightarrow> atoi t | _ \<Rightarrow> None))"

definition string_element :: "string \<times> json \<Rightarrow> string option" where
  "string_element e = (case snd e of JNull \<Rightarrow> Some [] | JStr s \<Rightarrow> Some s | _ \<Rightarrow> None)"

text \<open>A slice is \<open>None\<close> when it stays nil.\<close>

definition list_field :: "(string \<times> json \<Rightarrow> 'a option) \<Rightarrow> (string \<times> string \<times> json) list \<Rightarrow> string \<Rightarrow> 'a list option option" where
  "list_field elem ms f = (case member_of ms f of None \<Rightarrow> Some None | Some (raw, v) \<Rightarrow>
     (case v of JNull \<Rightarrow> Some None
      | JArr xs \<Rightarrow> if list_all (\<lambda>x. elem x \<noteq> None) xs then Some (Some (List.map_filter elem xs)) else None
      | _ \<Rightarrow> None))"

text \<open>A struct reads an object or \<open>null\<close>, which has no members.\<close>

definition object_members :: "json \<Rightarrow> (string \<times> string \<times> json) list option" where
  "object_members v = (case v of JNull \<Rightarrow> Some [] | JObj ms \<Rightarrow> Some ms | _ \<Rightarrow> None)"

section \<open>Reading back what is written\<close>

lemma chars_quote: "json_chars (quote_mark # s) = Some ([], s)"
  by (simp add: json_chars.simps)

lemma marks: "quote_mark \<noteq> bs_mark" "of_char quote_mark = (34 :: nat)" "of_char bs_mark = (92 :: nat)" "bs_mark \<noteq> CHR ''u''"
  by code_simp+

lemma chars_plain:
  "c \<noteq> quote_mark \<Longrightarrow> c \<noteq> bs_mark \<Longrightarrow> \<not> of_char c < (32 :: nat) \<Longrightarrow>
   json_chars (c # s) = map_option (map_prod ((#) c) id) (json_chars s)"
  by (subst json_chars.simps) simp

lemma chars_escape:
  "e \<noteq> CHR ''u'' \<Longrightarrow> json_escape e = Some r \<Longrightarrow>
   json_chars (bs_mark # e # s) = map_option (map_prod ((#) r) id) (json_chars s)"
  by (subst json_chars.simps) (simp add: marks marks(1) [symmetric])

lemma chars_hex:
  assumes "hex4 a b x y = Some r" and "\<not> (55296 \<le> r \<and> r < 56320)"
  shows "json_chars (bs_mark # CHR ''u'' # a # b # x # y # s) = map_option (map_prod ((@) (utf8 r)) id) (json_chars s)"
proof -
  have "(55296 \<le> r \<and> r < 56320 \<and> P) = False" for P using assms(2) by blast
  then show ?thesis using assms(1)
    by (subst json_chars.simps) (simp only: list.case marks marks(1) [symmetric] option.case if_False if_True simp_thms
      not_less less_numeral_extra, simp add: marks)
qed

lemma hex_digit_val: "n < 16 \<Longrightarrow> hex_val (hex_digit n) = Some n"
proof -
  assume n: "n < 16"
  then have "(48 + n) mod 256 = 48 + n" "(87 + n) mod 256 = 87 + n" by simp_all
  then show ?thesis using n by (auto simp: hex_val_def hex_digit_def Let_def)
qed

lemma chars_hex_escape:
  assumes "n < 128"
  shows "json_chars (hex_escape n @ s) = map_option (map_prod ((#) (char_of n)) id) (json_chars s)"
proof -
  have z: "hex_val CHR ''0'' = Some 0" by code_simp
  have "hex4 CHR ''0'' CHR ''0'' (hex_digit (n div 16)) (hex_digit (n mod 16)) = Some n"
    using assms hex_digit_val [of "n div 16"] hex_digit_val [of "n mod 16"] by (simp add: hex4_def z)
  moreover have "utf8 n = [char_of n]" using assms by (simp add: utf8_def)
  moreover have "(@) [char_of n :: char] = (#) (char_of n)" by auto
  ultimately show ?thesis using assms by (simp add: hex_escape_def chars_hex)
qed

lemma escapes:
  "json_escape quote_mark = Some quote_mark" "json_escape bs_mark = Some bs_mark"
  "json_escape CHR ''b'' = Some (char_of (8 :: nat))" "json_escape CHR ''f'' = Some (char_of (12 :: nat))"
  "json_escape CHR ''n'' = Some (char_of (10 :: nat))" "json_escape CHR ''r'' = Some (char_of (13 :: nat))"
  "json_escape CHR ''t'' = Some (char_of (9 :: nat))" "quote_mark \<noteq> CHR ''u''"
  by code_simp+

lemma chars_escape_char: "json_chars (escape_char c @ s) = map_option (map_prod ((#) c) id) (json_chars s)"
proof -
  define n where "n = (of_char c :: nat)"
  have c: "char_of n = c" by (simp add: n_def)
  consider "c = quote_mark \<or> c = bs_mark" | "n \<in> {8, 9, 10, 12, 13}" "c \<noteq> quote_mark" "c \<noteq> bs_mark"
    | "n < 32 \<or> n \<in> {60, 62, 38}" "n \<notin> {8, 9, 10, 12, 13}" "c \<noteq> quote_mark" "c \<noteq> bs_mark"
    | "\<not> (n < 32 \<or> n \<in> {60, 62, 38})" "c \<noteq> quote_mark" "c \<noteq> bs_mark"
    by blast
  then show ?thesis
  proof cases
    case 1
    then show ?thesis using escapes marks by (auto simp: escape_char_def Let_def chars_escape)
  next
    case 2
    then show ?thesis using escapes c by (auto simp: escape_char_def Let_def n_def [symmetric] chars_escape)
  next
    case 3
    then have "escape_char c = hex_escape n" by (auto simp: escape_char_def Let_def n_def [symmetric])
    then show ?thesis using 3 chars_hex_escape [of n s] c by auto
  next
    case 4
    then have "escape_char c = [c]" by (auto simp: escape_char_def Let_def n_def [symmetric])
    then show ?thesis using 4 by (simp add: chars_plain n_def [symmetric])
  qed
qed

lemma escape_skip: "escape_text k s = escape_text 0 (drop k s)"
proof (induction k arbitrary: s)
  case (Suc k)
  then show ?case by (cases s) simp_all
qed simp

lemma chars_separator:
  assumes "line_separator (c # s)"
  shows "json_chars (bs_mark # ''u202'' @ [if of_char (s ! 1) = (168 :: nat) then CHR ''8'' else CHR ''9''] @ t) =
    map_option (map_prod ((@) (c # take 2 s)) id) (json_chars t)"
proof -
  obtain a b r where s: "s = a # b # r" using assms by (auto simp: line_separator_def split: list.splits)
  define w where "w = (of_char b :: nat)"
  have w: "w = 168 \<or> w = 169" and ca: "(of_char c :: nat) = 226" "(of_char a :: nat) = 128"
    using assms by (auto simp: line_separator_def s w_def)
  have "char_of (226 :: nat) = c" "char_of (128 :: nat) = a" "char_of w = b"
    using ca using char_of_char [where ?'a = nat] by (metis w_def)+
  moreover have "hex4 CHR ''2'' CHR ''0'' CHR ''2'' CHR ''8'' = Some 8232" "hex4 CHR ''2'' CHR ''0'' CHR ''2'' CHR ''9'' = Some 8233"
    by code_simp+
  moreover have "utf8 8232 = [char_of (226 :: nat), char_of (128 :: nat), char_of (168 :: nat)]"
    "utf8 8233 = [char_of (226 :: nat), char_of (128 :: nat), char_of (169 :: nat)]" by (simp_all add: utf8_def)
  ultimately show ?thesis using w by (auto simp: s w_def [symmetric] chars_hex)
qed

lemma chars_escape_text: "json_chars (escape_text 0 s @ quote_mark # t) = Some (s, t)"
proof (induction s rule: length_induct)
  case (1 s)
  show ?case
  proof (cases s)
    case Nil
    then show ?thesis by (simp add: chars_quote)
  next
    case (Cons c u)
    show ?thesis
    proof (cases "line_separator (c # u)")
      case True
      then have "json_chars (escape_text 0 s @ quote_mark # t) =
          map_option (map_prod ((@) (c # take 2 u)) id) (json_chars (escape_text 0 (drop 2 u) @ quote_mark # t))"
        using chars_separator [OF True, of "escape_text 0 (drop 2 u) @ quote_mark # t"]
        by (simp add: Cons escape_skip [of 2 u])
      then show ?thesis using 1 by (simp add: Cons)
    next
      case False
      then show ?thesis using 1 by (simp add: Cons chars_escape_char)
    qed
  qed
qed

lemma json_string_marshal: "json_string (marshal_string s) = Some s"
proof -
  have "\<not> json_space quote_mark" by code_simp
  then show ?thesis using chars_escape_text [of s "[]"] by (simp add: json_string_def marshal_string_def)
qed

end
