(* ===== verification/OutputGuard.thy ===== *)
theory OutputGuard imports EventStore GoJson begin

text \<open>
  \<open>internal/engine/output_guard.go\<close>: the check that turns a suspiciously short answer
  of the developer over a modified workspace into a failure. The answer is a JSON text.
  The exit status and output of \<open>git status\<close> is an argument.
\<close>

section \<open>The guard\<close>

definition developerGuardOutputLenThreshold :: int where
  "developerGuardOutputLenThreshold = 64"

definition aiResponseTextLen :: "payload \<Rightarrow> int" where
  "aiResponseTextLen p = (case as_ai_response p of None \<Rightarrow> - 1
     | Some r \<Rightarrow> if ar_Structured r then int (length (ar_Output r))
         else (case json_string (ar_Output r) of None \<Rightarrow> int (length (ar_Output r))
           | Some text \<Rightarrow> int (length text)))"

definition isDeveloperHandler :: "string \<Rightarrow> bool" where
  "isDeveloperHandler name = (name = ''developer'')"

definition lookupWorkspacePath :: "bool \<Rightarrow> store \<Rightarrow> string \<Rightarrow> string" where
  "lookupWorkspacePath fault st c = (if c = [] \<or> fault then []
     else foldl (\<lambda>path e. if e_Type e \<noteq> WorkspaceReady then path
        else case as_workspace (e_Payload e) of None \<Rightarrow> path
          | Some p \<Rightarrow> if wy_Path p \<noteq> [] then wy_Path p else path) [] (LoadByCorrelation st c))"

text \<open>\<open>git path\<close> is the standard output of \<open>git status --porcelain\<close>, or an error.\<close>

definition workspaceHasUncommittedChanges :: "(string \<Rightarrow> string option) \<Rightarrow> string \<Rightarrow> bool option" where
  "workspaceHasUncommittedChanges git path = map_option (\<lambda>out. trim_space out \<noteq> []) (git path)"

definition developerOutputGuardTrips ::
    "(string \<Rightarrow> string option) \<Rightarrow> bool \<Rightarrow> store \<Rightarrow> string \<Rightarrow> string \<Rightarrow> int \<Rightarrow> bool" where
  "developerOutputGuardTrips git fault st name c outputTextLen =
     (if \<not> isDeveloperHandler name then False
      else if outputTextLen < 0 \<or> outputTextLen \<ge> developerGuardOutputLenThreshold then False
      else let wsPath = lookupWorkspacePath fault st c in
        if wsPath = [] then False
        else case workspaceHasUncommittedChanges git wsPath of None \<Rightarrow> False | Some dirty \<Rightarrow> dirty)"

lemma guard_trips:
  "developerOutputGuardTrips git fault st name c n \<Longrightarrow> name = ''developer'' \<and> 0 \<le> n \<and> n < 64"
  by (auto simp: developerOutputGuardTrips_def isDeveloperHandler_def developerGuardOutputLenThreshold_def
      split: if_splits)

end
