(* ===== verification/Runner.thy ===== *)
theory Runner imports Resolver ResultPersister OutputGuard begin

text \<open>
  \<open>internal/engine/persona_runner.go\<close>: the dispatcher of the persona handlers. A bus
  delivery runs \<open>wrap\<close>, whose checks admit an event into the priority queue of its
  (handler, correlation) key; a drain goroutine per key takes one item at a time, runs the
  handler and writes what it returned. \<open>surround\<close> is what one operation takes from
  outside: ids, clock and environment, which store calls fail, whether the runner's context is
  done and the bus closed, the build version and the output of git.
\<close>

section \<open>State\<close>

record surround =
  su_rt :: runtime
  su_corr_fault :: bool
  su_corr_error :: string
  su_io :: "nat \<Rightarrow> io_faults"
  su_done :: bool
  su_closed :: bool
  su_version :: string
  su_git :: "string \<Rightarrow> string option"

text \<open>
  A drain goroutine: the key of its queue, which of the two drain loops it runs, the item it
  has taken, and the context the dispatch got once its slot was granted. \<open>rn_replays\<close> are
  the goroutines a resume has spawned and that have not run yet; \<open>rn_subs\<close> the subscriptions
  of handlers on the bus, by subscription id.
\<close>

datatype drain_kind = DrainNormal handler | DrainHint string

record drain =
  dr_key :: string
  dr_corr :: string
  dr_kind :: drain_kind
  dr_item :: "dispatchItem option"
  dr_ctx :: "nat option"

record runner =
  rn_store :: store
  rn_published :: "envelope list"
  rn_resolver :: resolver
  rn_seen :: idempotencyCache
  rn_pauser :: pauseController
  rn_hooks :: hookRegistry
  rn_queues :: "string \<rightharpoonup> dispatchQueue"
  rn_drains :: "drain list"
  rn_ctxs :: correlationContexts
  rn_handlers :: "(string, handler) gomap"
  rn_hinters :: "string list"
  rn_defaultChainDepth :: int
  rn_replays :: "(handler \<times> envelope) list"
  rn_subs :: "(nat \<times> etype \<times> handler) list"
  rn_nextSub :: nat
  rn_dynamicGen :: "string \<rightharpoonup> nat"

definition defaultMaxChain :: int where
  "defaultMaxChain = 5"

definition NewPersonaRunner :: "store \<Rightarrow> runner" where
  "NewPersonaRunner st = \<lparr>rn_store = st, rn_published = [], rn_resolver = newWorkflowResolver,
     rn_seen = newIdempotencyCache defaultDedup, rn_pauser = newPauseController, rn_hooks = Map.empty,
     rn_queues = Map.empty, rn_drains = [], rn_ctxs = newCorrelationContexts, rn_handlers = [],
     rn_hinters = [], rn_defaultChainDepth = defaultMaxChain, rn_replays = [], rn_subs = [],
     rn_nextSub = 0, rn_dynamicGen = Map.empty\<rparr>"

definition RegisterWorkflow_runner :: "(string \<Rightarrow> string) \<Rightarrow> workflow_def \<Rightarrow> runner \<Rightarrow> runner" where
  "RegisterWorkflow_runner getenv def r =
     r\<lparr>rn_resolver := registerWorkflow (applyEnvOverrides getenv def) (rn_resolver r)\<rparr>"

definition WarmCorrelationCache :: "string \<Rightarrow> string \<Rightarrow> runner \<Rightarrow> runner" where
  "WarmCorrelationCache c workflowID r = r\<lparr>rn_resolver := cacheWorkflowID c workflowID (rn_resolver r)\<rparr>"

definition WarmPauseState :: "string \<Rightarrow> runner \<Rightarrow> runner" where
  "WarmPauseState c r = r\<lparr>rn_pauser := pause c (rn_pauser r)\<rparr>"

definition handlerLookup :: "runner \<Rightarrow> string \<Rightarrow> handler option" where
  "handlerLookup r name = map_of (rn_handlers r) name"

definition registerHinter :: "handler \<Rightarrow> bool \<Rightarrow> runner \<Rightarrow> runner" where
  "registerHinter h implementsHinter r =
     (if implementsHinter then r\<lparr>rn_hinters := h_Name h # rn_hinters r\<rparr> else r)"

section \<open>Admission\<close>

definition dropReasonEventDedup :: string where "dropReasonEventDedup = ''event_dedup''"
definition dropReasonJoinUnsatisfied :: string where "dropReasonJoinUnsatisfied = ''join_unsatisfied''"
definition dropReasonJoinGateDedup :: string where "dropReasonJoinGateDedup = ''join_gate_dedup''"
definition dropReasonCtxCancelled :: string where "dropReasonCtxCancelled = ''ctx_cancelled''"
definition dropReasonStoreError :: string where "dropReasonStoreError = ''store_error''"

definition chainDepthLimit :: "runner \<Rightarrow> string \<Rightarrow> int" where
  "chainDepthLimit r c = (if c \<noteq> [] then
      (case resolveWorkflowID (rn_resolver r) c of None \<Rightarrow> rn_defaultChainDepth r
       | Some wfID \<Rightarrow> (case getWorkflowDef (rn_resolver r) wfID of None \<Rightarrow> rn_defaultChainDepth r
           | Some def \<Rightarrow> EffectiveMaxChainDepth def))
     else rn_defaultChainDepth r)"

text \<open>Step 1: the chain depth of the dispatch, \<open>None\<close> when the event is not for this handler.\<close>

definition admission_depth :: "runner \<Rightarrow> handler \<Rightarrow> envelope \<Rightarrow> int option" where
  "admission_depth r h env =
     (if e_Type env = PersonaCompleted then
        (case as_completed (e_Payload env) of None \<Rightarrow> Some 0
         | Some pc \<Rightarrow> if pc_Persona pc = h_Name h then None
             else if \<not> isDAGRelevant (rn_resolver r) h (pc_Persona pc) (e_CorrelationID env) (rn_hooks r) then None
             else Some (pc_ChainDepth pc + 1))
      else if e_Type env = PersonaFailed then
        (case as_failed (e_Payload env) of None \<Rightarrow> Some 0
         | Some pf \<Rightarrow> if pf_Persona pf = h_Name h then None else Some (pf_ChainDepth pf + 1))
      else Some 0)"

definition drop_dispatch ::
    "surround \<Rightarrow> handler \<Rightarrow> envelope \<Rightarrow> string \<Rightarrow> string list \<Rightarrow> string \<Rightarrow> string \<Rightarrow> runner \<Rightarrow> runner" where
  "drop_dispatch su h env reason missing fingerprint detail r =
     r\<lparr>rn_store := emitDispatchDropped (su_rt su) 0 (su_io su 0) (h_Name h) env reason missing fingerprint detail (rn_store r)\<rparr>"

text \<open>
  The runner's cache has room for 10000 keys, so \<open>Add\<close> never panics
  (\<open>idempotency_cache_bounded\<close>).
\<close>

definition seen_Add :: "string \<Rightarrow> string \<Rightarrow> runner \<Rightarrow> bool \<times> runner" where
  "seen_Add name i r = (case ic_Add name i (rn_seen r) of
      None \<Rightarrow> (False, r) | Some (new, c) \<Rightarrow> (new, r\<lparr>rn_seen := c\<rparr>))"

definition seen_Remove :: "string \<Rightarrow> string \<Rightarrow> runner \<Rightarrow> runner" where
  "seen_Remove name i r = r\<lparr>rn_seen := ic_Remove name i (rn_seen r)\<rparr>"

text \<open>Step 6: whether the event passes, and the state.\<close>

definition join_gate :: "surround \<Rightarrow> handler \<Rightarrow> envelope \<Rightarrow> runner \<Rightarrow> bool \<times> runner" where
  "join_gate su h env r =
     (let after = effectiveAfterPersonas (rn_resolver r) h (e_CorrelationID env) (rn_hooks r) in
      if after \<noteq> [] \<and> e_CorrelationID env \<noteq> [] then
        (case checkJoinCondition (su_corr_fault su) (rn_store r) (rn_resolver r) (h_Name h) after (e_CorrelationID env) of
          Inl err \<Rightarrow> (False, drop_dispatch su h env dropReasonStoreError [] []
            (''load correlation chain: '' @ su_corr_error su) (seen_Remove (h_Name h) (e_ID env) r))
        | Inr (satisfied, fingerprint, missing) \<Rightarrow>
            if \<not> satisfied then (False, drop_dispatch su h env dropReasonJoinUnsatisfied missing [] [] r)
            else if length after > 1 \<and> e_Type env = PersonaCompleted then
              (case seen_Add (h_Name h @ '':join'') fingerprint r of
                (True, r') \<Rightarrow> (True, r')
              | (False, r') \<Rightarrow> (False, drop_dispatch su h env dropReasonJoinGateDedup [] fingerprint [] r'))
            else (True, r))
      else (True, r))"

definition queue_key :: "string \<Rightarrow> string \<Rightarrow> string" where
  "queue_key name c = name @ ''|'' @ c"

text \<open>Pushes an item and spawns a drain goroutine unless one is active for the key.\<close>

definition enqueue_item :: "string \<Rightarrow> string \<Rightarrow> drain_kind \<Rightarrow> dispatchItem \<Rightarrow> runner \<Rightarrow> runner" where
  "enqueue_item key c kind item r = (case getOrCreate key (rn_queues r) of (q0, qs) \<Rightarrow>
     (let q = push item q0 in
      if dq_draining q then r\<lparr>rn_queues := qs(key \<mapsto> q)\<rparr>
      else r\<lparr>rn_queues := qs(key \<mapsto> q\<lparr>dq_draining := True\<rparr>),
             rn_drains := rn_drains r @ [\<lparr>dr_key = key, dr_corr = c, dr_kind = kind, dr_item = None, dr_ctx = None\<rparr>]\<rparr>))"

definition enqueueAndDrain :: "handler \<Rightarrow> envelope \<Rightarrow> int \<Rightarrow> runner \<Rightarrow> runner" where
  "enqueueAndDrain h env chainDepth r = enqueue_item (queue_key (h_Name h) (e_CorrelationID env)) (e_CorrelationID env)
     (DrainNormal h) \<lparr>di_priority = eventPriority (e_Type env), di_env = env, di_chainDepth = chainDepth\<rparr> r"

text \<open>Steps 7 to 9.\<close>

definition hold_or_enqueue :: "surround \<Rightarrow> handler \<Rightarrow> envelope \<Rightarrow> int \<Rightarrow> runner \<Rightarrow> runner" where
  "hold_or_enqueue su h env d r =
     (if isPaused (rn_pauser r) (e_CorrelationID env)
      then r\<lparr>rn_pauser := addBlocked (e_CorrelationID env) h env (rn_pauser r)\<rparr>
      else if su_done su then drop_dispatch su h env dropReasonCtxCancelled [] [] (sentinel_text Canceled) r
      else enqueueAndDrain h env d r)"

text \<open>
  \<open>wrap\<close> is a delivery during which nothing else moves. In the program it is a row of short
  sections, each under a lock of its own (the resolver, the dedup cache, the store, the pause
  controller, the queue), and anything may happen between two of them: \<open>wrap_sections\<close> is the
  same row with \<open>g k\<close> for what the others do to the runner before its k-th section, and says
  whether the event was enqueued. A question to the resolver is one section.
\<close>

definition wrap :: "surround \<Rightarrow> handler \<Rightarrow> envelope \<Rightarrow> runner \<Rightarrow> runner" where
  "wrap su h env r = (case admission_depth r h env of None \<Rightarrow> r
     | Some d \<Rightarrow>
       if e_Type env = FeedbackGenerated \<and>
          \<not> isRetriggerable (rn_resolver r) (h_Name h) (e_CorrelationID env) (handlerLookup r) then r
       else if d \<ge> chainDepthLimit r (e_CorrelationID env) then r
       else case seen_Add (h_Name h) (e_ID env) r of
           (False, r1) \<Rightarrow> drop_dispatch su h env dropReasonEventDedup [] [] [] r1
         | (True, r1) \<Rightarrow> (case join_gate su h env r1 of
             (False, r2) \<Rightarrow> r2 | (True, r2) \<Rightarrow> hold_or_enqueue su h env d r2))"

definition join_sections ::
    "(nat \<Rightarrow> runner \<Rightarrow> runner) \<Rightarrow> surround \<Rightarrow> handler \<Rightarrow> envelope \<Rightarrow> runner \<Rightarrow> bool \<times> runner" where
  "join_sections g su h env r =
     (let after = effectiveAfterPersonas (rn_resolver r) h (e_CorrelationID env) (rn_hooks r) in
      if after \<noteq> [] \<and> e_CorrelationID env \<noteq> [] then
        (let r5 = g 5 r; r6 = g 6 r5 in
         case checkJoinCondition (su_corr_fault su) (rn_store r5) (rn_resolver r6) (h_Name h) after (e_CorrelationID env) of
          Inl err \<Rightarrow> (False, drop_dispatch su h env dropReasonStoreError [] []
            (''load correlation chain: '' @ su_corr_error su) (g 8 (seen_Remove (h_Name h) (e_ID env) (g 7 r6))))
        | Inr (satisfied, fingerprint, missing) \<Rightarrow>
            if \<not> satisfied then (False, drop_dispatch su h env dropReasonJoinUnsatisfied missing [] [] (g 7 r6))
            else if length after > 1 \<and> e_Type env = PersonaCompleted then
              (case seen_Add (h_Name h @ '':join'') fingerprint (g 7 r6) of
                (True, r') \<Rightarrow> (True, r')
              | (False, r') \<Rightarrow> (False, drop_dispatch su h env dropReasonJoinGateDedup [] fingerprint [] (g 8 r')))
            else (True, r6))
      else (True, r))"

definition hold_sections ::
    "(nat \<Rightarrow> runner \<Rightarrow> runner) \<Rightarrow> surround \<Rightarrow> handler \<Rightarrow> envelope \<Rightarrow> int \<Rightarrow> runner \<Rightarrow> bool \<times> runner" where
  "hold_sections g su h env d r =
     (if isPaused (rn_pauser r) (e_CorrelationID env)
      then (False, (g 10 r)\<lparr>rn_pauser := addBlocked (e_CorrelationID env) h env (rn_pauser (g 10 r))\<rparr>)
      else if su_done su then (False, drop_dispatch su h env dropReasonCtxCancelled [] [] (sentinel_text Canceled) (g 10 r))
      else (True, enqueueAndDrain h env d (g 10 r)))"

definition wrap_sections ::
    "(nat \<Rightarrow> runner \<Rightarrow> runner) \<Rightarrow> surround \<Rightarrow> handler \<Rightarrow> envelope \<Rightarrow> runner \<Rightarrow> bool \<times> runner" where
  "wrap_sections g su h env r = (case admission_depth r h env of None \<Rightarrow> (False, r)
     | Some d \<Rightarrow> (let r1 = g 1 r; r2 = g 2 r1 in
       if e_Type env = FeedbackGenerated \<and>
          \<not> isRetriggerable (rn_resolver r1) (h_Name h) (e_CorrelationID env) (handlerLookup r1) then (False, r1)
       else if d \<ge> chainDepthLimit r2 (e_CorrelationID env) then (False, r2)
       else case seen_Add (h_Name h) (e_ID env) (g 3 r2) of
           (False, r3) \<Rightarrow> (False, drop_dispatch su h env dropReasonEventDedup [] [] [] (g 4 r3))
         | (True, r3) \<Rightarrow> (case join_sections g su h env (g 4 r3) of
             (False, r8) \<Rightarrow> (False, r8) | (True, r8) \<Rightarrow> hold_sections g su h env d (g 9 r8))))"

text \<open>\<open>RecoverDispatch\<close>: the error text, if any, and the state.\<close>

definition RecoverDispatch :: "surround \<Rightarrow> string \<Rightarrow> envelope \<Rightarrow> runner \<Rightarrow> string option \<times> runner" where
  "RecoverDispatch su handlerName env r = (case handlerLookup r handlerName of
      None \<Rightarrow> (Some (''persona runner: recover dispatch: handler '' @ go_quote handlerName @ '' not found''), r)
    | Some h \<Rightarrow>
        (let c = e_CorrelationID env;
             after = effectiveAfterPersonas (rn_resolver r) h c (rn_hooks r);
             err = (if after \<noteq> [] \<and> c \<noteq> [] then
                (case checkJoinCondition (su_corr_fault su) (rn_store r) (rn_resolver r) handlerName after c of
                  Inl e \<Rightarrow> Some (''persona runner: recover dispatch: join check store error: load correlation chain: '' @ su_corr_error su)
                | Inr (satisfied, fp, missing) \<Rightarrow> if satisfied then None
                    else Some (''persona runner: recover dispatch: join unsatisfied for '' @ go_quote handlerName))
                else None)
         in if err \<noteq> None then (err, r)
            else if isPaused (rn_pauser r) c
            then (None, r\<lparr>rn_pauser := addBlocked c h env (rn_pauser r)\<rparr>)
            else (None, enqueueAndDrain h env 0 r)))"

section \<open>Dispatch\<close>

text \<open>
  What \<open>Handle\<close> (or \<open>Hint\<close>) came back with: its events, and whether it failed, with
  \<open>ErrIncomplete\<close> or another error; \<open>LocalDispatcher\<close> passes the events of a failed
  handler on only for \<open>ErrIncomplete\<close>.
\<close>

datatype handle_error = HandleIncomplete | HandleError go_error

definition Dispatch ::
    "(string \<Rightarrow> handler option) \<Rightarrow> (handler \<Rightarrow> envelope \<Rightarrow> envelope list \<times> handle_error option) \<Rightarrow>
     string \<Rightarrow> envelope \<Rightarrow> envelope list option \<times> handle_error option" where
  "Dispatch registry handle handlerName env = (case registry handlerName of
      None \<Rightarrow> (None, Some (HandleError (Wrapped (''dispatcher: handler not found: '' @ go_quote handlerName)
                (ErrorText ''dispatcher: handler not found''))))
    | Some h \<Rightarrow> (case handle h env of
        (events, None) \<Rightarrow> (Some events, None)
      | (events, Some HandleIncomplete) \<Rightarrow> (Some events, Some HandleIncomplete)
      | (events, Some (HandleError e)) \<Rightarrow> (None, Some (HandleError e))))"

definition result_events :: "envelope \<Rightarrow> envelope list option \<Rightarrow> envelope list" where
  "result_events env result = (case result of None \<Rightarrow> []
     | Some events \<Rightarrow> map (\<lambda>re. WithCausation (e_ID env) (WithCorrelation (e_CorrelationID env) re)) events)"

definition runner_event :: "surround \<Rightarrow> nat \<Rightarrow> string \<Rightarrow> envelope \<Rightarrow> etype \<Rightarrow> payload \<Rightarrow> envelope" where
  "runner_event su k name env ty p = WithSource (''persona-runner:'' @ name) (WithCorrelation (e_CorrelationID env)
     (WithCausation (e_ID env) (NewEnv (su_rt su) k ty 1 p)))"

definition failed_payload :: "surround \<Rightarrow> string \<Rightarrow> envelope \<Rightarrow> int \<Rightarrow> int \<Rightarrow> string \<Rightarrow> failure_kind \<times> string \<times> string \<Rightarrow> payload" where
  "failed_payload su name env depth dur msg = (\<lambda>(kind, stderr, backend). PPersonaFailed
     \<lparr>pf_Persona = name, pf_TriggerEvent = type_name (e_Type env), pf_TriggerID = e_ID env, pf_Reactive = True,
      pf_Error = msg, pf_FailureKind = kind, pf_Backend = backend, pf_Stderr = stderr, pf_DurationMS = dur,
      pf_ChainDepth = depth, pf_HandlerVersion = su_version su\<rparr>)"

definition completed_payload :: "string \<Rightarrow> envelope \<Rightarrow> int \<Rightarrow> int \<Rightarrow> string \<Rightarrow> payload" where
  "completed_payload name env depth dur outputRef = PPersonaCompleted
     \<lparr>pc_Persona = name, pc_TriggerEvent = type_name (e_Type env), pc_TriggerID = e_ID env, pc_Reactive = True,
      pc_OutputRef = outputRef, pc_DurationMS = dur, pc_ChainDepth = depth\<rparr>"

text \<open>Id and text length of the last AI response among the result events, -1 for none.\<close>

definition last_response :: "envelope list option \<Rightarrow> string \<times> int" where
  "last_response result = foldl (\<lambda>acc re. if e_Type re = AIResponseReceived
       then (e_ID re, aiResponseTextLen (e_Payload re)) else acc) ([], - 1)
     (case result of None \<Rightarrow> [] | Some events \<Rightarrow> events)"

definition ctx_err :: "surround \<Rightarrow> runner \<Rightarrow> nat \<Rightarrow> go_error option" where
  "ctx_err su r ctx = (if su_done su \<or> ctx \<in> set (cc_done (rn_ctxs r)) then Some (Sentinel Canceled) else None)"

definition guard_message :: "int \<Rightarrow> string" where
  "guard_message n = ''developer output guard: captured '' @ itoa n @
     ''-byte response while workspace has uncommitted changes '' @ em_dash @
     '' model produced files but Rick captured no description''"

text \<open>The batch of a dispatch; \<open>guarded\<close> is False on the hint-approved path, which has no guard.\<close>

definition dispatch_events ::
    "surround \<Rightarrow> bool \<Rightarrow> runner \<Rightarrow> string \<Rightarrow> envelope \<Rightarrow> int \<Rightarrow> nat \<Rightarrow> envelope list option \<Rightarrow> handle_error option \<Rightarrow> int \<Rightarrow> envelope list" where
  "dispatch_events su guarded r name env depth ctx result err dur = result_events env result @
     (case err of
        Some (HandleError e) \<Rightarrow> [runner_event su 0 name env PersonaFailed
           (failed_payload su name env depth dur (error_text e) (classifyDispatchFailure (ctx_err su r ctx) (Some e)))]
      | Some HandleIncomplete \<Rightarrow> []
      | None \<Rightarrow> (case last_response result of (outputRef, len) \<Rightarrow>
          if guarded \<and> developerOutputGuardTrips (su_git su) (su_corr_fault su) (rn_store r) name (e_CorrelationID env) len
          then [runner_event su 0 name env PersonaFailed
             (failed_payload su name env depth dur (guard_message len) (FailureKindOutputTruncated, [], []))]
          else [runner_event su 0 name env PersonaCompleted (completed_payload name env depth dur outputRef)]))"

definition persona_aggregate :: "string \<Rightarrow> string \<Rightarrow> string" where
  "persona_aggregate c name = c @ '':persona:'' @ name"

definition publish_results :: "surround \<Rightarrow> string \<Rightarrow> envelope list \<Rightarrow> runner \<Rightarrow> runner" where
  "publish_results su a es r = (case persistAndPublish (su_io su 1) (su_closed su) a es (rn_store r) of
     (st, pub) \<Rightarrow> r\<lparr>rn_store := st, rn_published := rn_published r @ pub\<rparr>)"

definition persistAndPublishResultOnly :: "surround \<Rightarrow> string \<Rightarrow> envelope \<Rightarrow> envelope list option \<Rightarrow> runner \<Rightarrow> runner" where
  "persistAndPublishResultOnly su name env result r =
     publish_results su (persona_aggregate (e_CorrelationID env) name) (result_events env result) r"

text \<open>Stops at the first advisory failure; it pauses only when the engine would.\<close>

definition advisory_fail :: "envelope \<Rightarrow> verdict option" where
  "advisory_fail ev = (if e_Type ev \<noteq> VerdictRendered then None else case as_verdict (e_Payload ev) of
      None \<Rightarrow> None | Some v \<Rightarrow> if v_Advisory v \<and> v_Outcome v = VerdictFail then Some v else None)"

fun frontRunAdvisoryPause :: "string \<Rightarrow> envelope list \<Rightarrow> runner \<Rightarrow> runner" where
  "frontRunAdvisoryPause c [] r = r"
| "frontRunAdvisoryPause c (ev # evs) r = (if c = [] then r
     else case advisory_fail ev of
       None \<Rightarrow> frontRunAdvisoryPause c evs r
     | Some v \<Rightarrow> (case resolveWorkflowID (rn_resolver r) c of None \<Rightarrow> r
         | Some wfID \<Rightarrow> (case getWorkflowDef (rn_resolver r) wfID of None \<Rightarrow> r
             | Some def \<Rightarrow> if v_Persona v \<in> set (wd_Required def)
                 then r\<lparr>rn_pauser := pause c (rn_pauser r)\<rparr> else r)))"

text \<open>
  \<open>executeDispatch\<close> once the slot is granted: \<open>start_dispatch\<close> writes the start marker and
  takes the context, \<open>finish_dispatch\<close> is everything after the handler returned.
\<close>

definition start_dispatch :: "surround \<Rightarrow> bool \<Rightarrow> string \<Rightarrow> dispatchItem \<Rightarrow> runner \<Rightarrow> nat \<times> runner" where
  "start_dispatch su marker name item r =
     (let r1 = (if marker then r\<lparr>rn_store := emitDispatchStarted (su_rt su) 1 (su_io su 2) name (di_env item)
              (di_chainDepth item) (rn_store r)\<rparr> else r);
          (ctx, cc) = ctx_get (e_CorrelationID (di_env item)) (rn_ctxs r1)
      in (ctx, r1\<lparr>rn_ctxs := cc\<rparr>))"

definition executeHint ::
    "surround \<Rightarrow> string \<Rightarrow> envelope \<Rightarrow> int \<Rightarrow> nat \<Rightarrow> envelope list \<Rightarrow> go_error option \<Rightarrow> int \<Rightarrow> runner \<Rightarrow> runner" where
  "executeHint su name env depth ctx hintEvents err dur r =
     publish_results su (persona_aggregate (e_CorrelationID env) name)
       (case err of None \<Rightarrow> result_events env (Some hintEvents)
        | Some e \<Rightarrow> [runner_event su 0 name env PersonaFailed (failed_payload su name env depth dur
            (''hint failed: '' @ error_text e) (classifyDispatchFailure (ctx_err su r ctx) (Some e)))]) r"

definition finish_dispatch ::
    "surround \<Rightarrow> bool \<Rightarrow> string \<Rightarrow> envelope \<Rightarrow> int \<Rightarrow> nat \<Rightarrow> envelope list option \<Rightarrow> handle_error option \<Rightarrow> int \<Rightarrow> runner \<Rightarrow> runner" where
  "finish_dispatch su guarded name env depth ctx result err dur r =
     (if ctx_err su r ctx \<noteq> None \<and> isPaused (rn_pauser r) (e_CorrelationID env) then r
      else if err = Some HandleIncomplete then persistAndPublishResultOnly su name env result r
      else let evs = dispatch_events su guarded r name env depth ctx result err dur;
               r1 = (if guarded then frontRunAdvisoryPause (e_CorrelationID env) evs r else r)
        in publish_results su (persona_aggregate (e_CorrelationID env) name) evs r1)"

text \<open>The hint-approved path: no guard, no early pause.\<close>

definition executeHintApprovedDispatch ::
    "surround \<Rightarrow> string \<Rightarrow> envelope \<Rightarrow> int \<Rightarrow> nat \<Rightarrow> envelope list option \<Rightarrow> handle_error option \<Rightarrow> int \<Rightarrow> runner \<Rightarrow> runner" where
  "executeHintApprovedDispatch su handlerName env depth ctx result err dur r =
     finish_dispatch su False handlerName env depth ctx result err dur r"

section \<open>The drain goroutines\<close>

definition remove_nth :: "nat \<Rightarrow> 'a list \<Rightarrow> 'a list" where
  "remove_nth i xs = take i xs @ drop (Suc i) xs"

definition block_all :: "string \<Rightarrow> handler \<Rightarrow> dispatchItem list \<Rightarrow> pauseController \<Rightarrow> pauseController" where
  "block_all c h items p = foldl (\<lambda>p item. addBlocked c h (di_env item) p) p items"

text \<open>
  The top of the drain loop of goroutine \<open>i\<close>: on the normal path a paused workflow moves the
  whole queue to the blocked list; an empty queue ends the goroutine; otherwise one item is taken.
\<close>

definition drain_take :: "nat \<Rightarrow> runner \<Rightarrow> runner" where
  "drain_take i r = (let d = rn_drains r ! i; q = (case rn_queues r (dr_key d) of None \<Rightarrow> empty_queue | Some q \<Rightarrow> q);
      stop = (\<lambda>q' p. r\<lparr>rn_queues := (rn_queues r)(dr_key d \<mapsto> q'\<lparr>dq_draining := False\<rparr>), rn_pauser := p,
                       rn_drains := remove_nth i (rn_drains r)\<rparr>);
      next = (case pop q of None \<Rightarrow> stop q (rn_pauser r)
        | Some (item, q') \<Rightarrow> r\<lparr>rn_queues := (rn_queues r)(dr_key d \<mapsto> q'),
            rn_drains := (rn_drains r)[i := d\<lparr>dr_item := Some item, dr_ctx := None\<rparr>]\<rparr>)
    in case dr_kind d of
        DrainHint persona \<Rightarrow> next
      | DrainNormal h \<Rightarrow> if isPaused (rn_pauser r) (dr_corr d)
          then stop (q\<lparr>dq_items := []\<rparr>) (block_all (dr_corr d) h (dq_items q) (rn_pauser r))
          else next)"

definition drain_name :: "drain \<Rightarrow> string" where
  "drain_name d = (case dr_kind d of DrainNormal h \<Rightarrow> h_Name h | DrainHint persona \<Rightarrow> persona)"

text \<open>The slot was granted: the handler starts. Without a slot (shutdown) the item is given up.\<close>

definition drain_begin :: "surround \<Rightarrow> nat \<Rightarrow> bool \<Rightarrow> runner \<Rightarrow> runner" where
  "drain_begin su i slot r = (let d = rn_drains r ! i in case dr_item d of None \<Rightarrow> r
     | Some item \<Rightarrow> if \<not> slot then r\<lparr>rn_drains := (rn_drains r)[i := d\<lparr>dr_item := None\<rparr>]\<rparr>
         else (case start_dispatch su (\<exists>h. dr_kind d = DrainNormal h) (drain_name d) item r of
           (ctx, r1) \<Rightarrow> r1\<lparr>rn_drains := (rn_drains r1)[i := d\<lparr>dr_ctx := Some ctx\<rparr>]\<rparr>))"

text \<open>The handler (or hint) returned; the goroutine goes back to the top of its loop.\<close>

definition runs_hint :: "runner \<Rightarrow> drain \<Rightarrow> dispatchItem \<Rightarrow> bool" where
  "runs_hint r d item = (case dr_kind d of
      DrainNormal h \<Rightarrow> h_Name h \<in> set (rn_hinters r) \<and> e_Type (di_env item) \<noteq> HintApproved
    | DrainHint persona \<Rightarrow> False)"

definition drain_outcome ::
    "surround \<Rightarrow> drain \<Rightarrow> dispatchItem \<Rightarrow> nat \<Rightarrow> envelope list option \<Rightarrow> handle_error option \<Rightarrow> int \<Rightarrow> runner \<Rightarrow> runner" where
  "drain_outcome su d item ctx result err dur r = (let env = di_env item; depth = di_chainDepth item in
     if runs_hint r d item
     then executeHint su (drain_name d) env depth ctx (case result of None \<Rightarrow> [] | Some es \<Rightarrow> es)
            (case err of None \<Rightarrow> None | Some HandleIncomplete \<Rightarrow> Some (ErrorText ''handler: incomplete'')
               | Some (HandleError e) \<Rightarrow> Some e) dur r
     else (case dr_kind d of
         DrainNormal h \<Rightarrow> finish_dispatch su True (h_Name h) env depth ctx result err dur r
       | DrainHint persona \<Rightarrow> executeHintApprovedDispatch su persona env depth ctx result err dur r))"

definition drain_finish ::
    "surround \<Rightarrow> nat \<Rightarrow> envelope list option \<Rightarrow> handle_error option \<Rightarrow> int \<Rightarrow> runner \<Rightarrow> runner" where
  "drain_finish su i result err dur r = (let d = rn_drains r ! i in case (dr_item d, dr_ctx d) of
      (Some item, Some ctx) \<Rightarrow>
        (let r1 = drain_outcome su d item ctx result err dur r
         in r1\<lparr>rn_drains := (rn_drains r1)[i := d\<lparr>dr_item := None, dr_ctx := None\<rparr>]\<rparr>)
    | _ \<Rightarrow> r)"

section \<open>Subscriptions of the runner itself\<close>

text \<open>The typed start events only: the plain \<open>workflow.started\<close> has no id part.\<close>

definition on_workflow_started :: "envelope \<Rightarrow> runner \<Rightarrow> runner" where
  "on_workflow_started env r = (case e_Type env of
      WorkflowStartedFor workflowID \<Rightarrow> if corr_or_aggregate env \<noteq> []
        then WarmCorrelationCache (corr_or_aggregate env) workflowID r else r
    | _ \<Rightarrow> r)"

definition on_terminal :: "envelope \<Rightarrow> runner \<Rightarrow> runner" where
  "on_terminal env r = (let c = corr_or_aggregate env in if c = [] then r
     else r\<lparr>rn_resolver := evictCorrelation c (rn_resolver r), rn_ctxs := ctx_cancel c (rn_ctxs r)\<rparr>)"

definition on_paused :: "envelope \<Rightarrow> runner \<Rightarrow> runner" where
  "on_paused env r = r\<lparr>rn_pauser := pause (corr_or_aggregate env) (rn_pauser r)\<rparr>"

text \<open>Every blocked dispatch has its dedup entry cleared and is handed to a new goroutine.\<close>

definition on_resumed :: "envelope \<Rightarrow> runner \<Rightarrow> runner" where
  "on_resumed env r = (case resume (corr_or_aggregate env) (rn_pauser r) of (blocked, p) \<Rightarrow>
     foldl (\<lambda>r (h, e). (seen_Remove (h_Name h) (e_ID e) r)\<lparr>rn_replays := rn_replays r @ [(h, e)]\<rparr>)
       (r\<lparr>rn_pauser := p\<rparr>) blocked)"

definition run_replay :: "surround \<Rightarrow> nat \<Rightarrow> runner \<Rightarrow> runner" where
  "run_replay su i r = (case rn_replays r ! i of (h, e) \<Rightarrow>
     wrap su h e (r\<lparr>rn_replays := remove_nth i (rn_replays r)\<rparr>))"

definition on_cancelled :: "envelope \<Rightarrow> runner \<Rightarrow> runner" where
  "on_cancelled env r = (let c = corr_or_aggregate env in
     r\<lparr>rn_pauser := markCancelled c (rn_pauser r), rn_ctxs := ctx_cancel c (rn_ctxs r)\<rparr>)"

fun findWorkflowIDFromEvents :: "envelope list \<Rightarrow> string" where
  "findWorkflowIDFromEvents [] = []"
| "findWorkflowIDFromEvents (e # es) = (if e_Type e \<noteq> WorkflowRequested then findWorkflowIDFromEvents es
     else case as_requested (e_Payload e) of None \<Rightarrow> findWorkflowIDFromEvents es
       | Some p \<Rightarrow> if wr_WorkflowID p \<noteq> [] then wr_WorkflowID p else findWorkflowIDFromEvents es)"

definition findRetryTrigger :: "envelope list \<Rightarrow> workflow_def \<Rightarrow> string \<Rightarrow> envelope option" where
  "findRetryTrigger events def fromPhase = (let predecessors = mget [] (wd_Graph def) fromPhase in
     if predecessors = [] then List.find (\<lambda>e. IsWorkflowStarted (e_Type e)) events
     else last_match (\<lambda>e. e_Type e = PersonaCompleted \<and> (case as_completed (e_Payload e) of
        None \<Rightarrow> False | Some pc \<Rightarrow> pc_Persona pc \<in> set predecessors)) events)"

text \<open>The synthetic failure that is published, without being stored, when a retry cannot dispatch.\<close>

definition publishDispatchWedge :: "surround \<Rightarrow> string \<Rightarrow> string \<Rightarrow> envelope \<Rightarrow> string \<Rightarrow> runner \<Rightarrow> runner" where
  "publishDispatchWedge su c fromPhase env cause r =
     (let failEvt = WithSource ''engine:auto-retry'' (WithCausation (e_ID env) (WithCorrelation c
        (NewEnv (su_rt su) 0 PersonaFailed 1 (PPersonaFailed
          \<lparr>pf_Persona = fromPhase, pf_TriggerEvent = type_name (e_Type env), pf_TriggerID = e_ID env,
           pf_Reactive = False, pf_Error = ''auto-retry dispatch failed: '' @ cause,
           pf_FailureKind = FailureKindHandlerError, pf_Backend = [], pf_Stderr = [], pf_DurationMS = 0,
           pf_ChainDepth = 0, pf_HandlerVersion = su_version su\<rparr>))))
      in if su_closed su then r else r\<lparr>rn_published := rn_published r @ [failEvt]\<rparr>)"

text \<open>
  \<open>retry_dispatch\<close> is the second half, once the definition is known: the trigger is looked
  up, the workflow un-paused (what was held back is discarded) and the phase dispatched.
  \<open>load_fault\<close> is the first load of the correlation; the join check loads again.
\<close>

definition retry_dispatch :: "surround \<Rightarrow> string \<Rightarrow> string \<Rightarrow> envelope \<Rightarrow> envelope list \<Rightarrow> workflow_def \<Rightarrow> runner \<Rightarrow> runner" where
  "retry_dispatch su c fromPhase env events def r = (case findRetryTrigger events def fromPhase of
      None \<Rightarrow> publishDispatchWedge su c fromPhase env ''predecessor PersonaCompleted not found in store'' r
    | Some trigger \<Rightarrow>
        (case RecoverDispatch su fromPhase trigger (r\<lparr>rn_pauser := snd (resume c (rn_pauser r))\<rparr>) of
          (None, r2) \<Rightarrow> r2
        | (Some err, r2) \<Rightarrow> publishDispatchWedge su c fromPhase env err r2))"

definition on_retried :: "surround \<Rightarrow> bool \<Rightarrow> envelope \<Rightarrow> runner \<Rightarrow> runner" where
  "on_retried su load_fault env r = (case as_retried (e_Payload env) of None \<Rightarrow> r
     | Some p \<Rightarrow> (let fromPhase = wt_FromPhase p; c = corr_or_aggregate env in
         if fromPhase = [] then r
         else if load_fault then r
         else let events = LoadByCorrelation (rn_store r) c;
                  known = resolveWorkflowID (rn_resolver r) c;
                  workflowID = (case known of Some w \<Rightarrow> w | None \<Rightarrow> findWorkflowIDFromEvents events)
           in if known = None \<and> workflowID = []
              then publishDispatchWedge su c fromPhase env ''workflow id unresolvable'' r
              else let r1 = (if known = None then WarmCorrelationCache c workflowID r else r) in
                case getWorkflowDef (rn_resolver r1) workflowID of
                  None \<Rightarrow> publishDispatchWedge su c fromPhase env
                    (''workflow def '' @ go_quote workflowID @ '' not registered'') r1
                | Some def \<Rightarrow> retry_dispatch su c fromPhase env events def r1))"

definition on_hint_approved :: "bool \<Rightarrow> envelope \<Rightarrow> runner \<Rightarrow> runner" where
  "on_hint_approved load_fault env r = (case as_approved (e_Payload env) of None \<Rightarrow> r
     | Some p \<Rightarrow> if load_fault then r
         else (case List.find (\<lambda>e. e_ID e = ha_TriggerID p) (LoadByCorrelation (rn_store r) (e_CorrelationID env)) of
           None \<Rightarrow> r
         | Some originalEnv \<Rightarrow> enqueue_item (queue_key (ha_Persona p) (e_CorrelationID env)) (e_CorrelationID env)
             (DrainHint (ha_Persona p)) \<lparr>di_priority = PriorityOperatorGuidance,
                di_env = env\<lparr>e_CorrelationID := e_CorrelationID originalEnv\<rparr>, di_chainDepth = 0\<rparr>
             (seen_Remove (ha_Persona p) (e_ID originalEnv) r)))"

section \<open>Dynamic registration\<close>

definition subscribe_all :: "handler \<Rightarrow> etype list \<Rightarrow> runner \<Rightarrow> nat list \<times> runner" where
  "subscribe_all h events r = (let ids = [rn_nextSub r ..< rn_nextSub r + length events] in
     (ids, r\<lparr>rn_subs := rn_subs r @ zip ids (map (\<lambda>et. (et, h)) events), rn_nextSub := rn_nextSub r + length events\<rparr>))"

text \<open>\<open>Start\<close> for one handler of the registry.\<close>

definition start_handler :: "handler \<Rightarrow> bool \<Rightarrow> runner \<Rightarrow> runner" where
  "start_handler h hinter r = (let r1 = registerHinter h hinter (r\<lparr>rn_handlers := mput (rn_handlers r) (h_Name h) h\<rparr>)
     in snd (subscribe_all h (resolveEventsFromDAG (rn_resolver r1) h (rn_hooks r1)) r1))"

text \<open>The token stands for the unsubscribe function that is returned.\<close>

definition RegisterHandler :: "handler \<Rightarrow> bool \<Rightarrow> runner \<Rightarrow> (string \<times> nat \<times> nat list) \<times> runner" where
  "RegisterHandler h hinter r =
     (let r1 = registerHinter h hinter (r\<lparr>rn_handlers := mput (rn_handlers r) (h_Name h) h\<rparr>);
          (ids, r2) = subscribe_all h (resolveEventsFromDAG (rn_resolver r1) h (rn_hooks r1)) r1;
          gen = Suc (vget 0 (rn_dynamicGen r2) (h_Name h))
      in ((h_Name h, gen, ids), r2\<lparr>rn_dynamicGen := (rn_dynamicGen r2)(h_Name h \<mapsto> gen)\<rparr>))"

definition unsubscribe :: "string \<times> nat \<times> nat list \<Rightarrow> runner \<Rightarrow> runner" where
  "unsubscribe = (\<lambda>(name, gen, ids) r. if vget 0 (rn_dynamicGen r) name \<noteq> gen then r
     else r\<lparr>rn_subs := filter (\<lambda>(i, et, h). i \<notin> set ids) (rn_subs r)\<rparr>)"

definition RegisterHook :: "string \<Rightarrow> string list \<Rightarrow> runner \<Rightarrow> runner" where
  "RegisterHook persona hookPersonas r =
     (let r1 = r\<lparr>rn_hooks := register_hooks persona hookPersonas (rn_hooks r)\<rparr> in
      case map_of (rn_handlers r1) persona of None \<Rightarrow> r1
      | Some h \<Rightarrow> if handlerInAnyGraphAsNonRoot (rn_resolver r1) persona then r1
          else snd (subscribe_all h [PersonaCompleted] r1))"

definition UnregisterHook :: "string \<Rightarrow> string \<Rightarrow> runner \<Rightarrow> runner" where
  "UnregisterHook persona hookName r = r\<lparr>rn_hooks := unregister_hook persona hookName (rn_hooks r)\<rparr>"

definition RegisterExternalHinter :: "string \<Rightarrow> runner \<Rightarrow> runner" where
  "RegisterExternalHinter name r = r\<lparr>rn_hinters := name # rn_hinters r\<rparr>"

definition UnregisterExternalHinter :: "string \<Rightarrow> runner \<Rightarrow> runner" where
  "UnregisterExternalHinter name r = r\<lparr>rn_hinters := removeAll name (rn_hinters r)\<rparr>"

end
