(* ===== verification/RunnerRuns.thy ===== *)
theory RunnerRuns imports Runner AggregateDecide begin

text \<open>
  Runs of the persona runner: the step relation interleaves bus deliveries, drain goroutines,
  the runner's own subscriptions and writes of others to the store. The lemmas show that a
  handler never runs twice at a time on one workflow, what an admission guarantees, what
  becomes of a retry, and what a resume does with the dispatches it held back.
\<close>

section \<open>Steps\<close>

text \<open>
  A delivery is one step when nothing moves meanwhile; \<open>step_seen\<close>, \<open>step_block\<close>,
  \<open>step_enqueue\<close> and \<open>step_store\<close> are what its sections do to the state, at any time and in any
  order, so every interleaving of deliveries is a run.
\<close>

inductive runner_step :: "runner \<Rightarrow> runner \<Rightarrow> bool" where
  step_deliver: "runner_step r (wrap su h env r)"
| step_seen: "runner_step r (r\<lparr>rn_seen := c\<rparr>)"
| step_block: "runner_step r (r\<lparr>rn_pauser := addBlocked c h env (rn_pauser r)\<rparr>)"
| step_enqueue: "runner_step r (enqueueAndDrain h env d r)"
| step_take: "i < length (rn_drains r) \<Longrightarrow> dr_item (rn_drains r ! i) = None \<Longrightarrow> runner_step r (drain_take i r)"
| step_begin: "i < length (rn_drains r) \<Longrightarrow> dr_item (rn_drains r ! i) \<noteq> None \<Longrightarrow> dr_ctx (rn_drains r ! i) = None \<Longrightarrow>
     slot \<or> su_done su \<Longrightarrow> runner_step r (drain_begin su i slot r)"
| step_finish: "i < length (rn_drains r) \<Longrightarrow> dr_ctx (rn_drains r ! i) \<noteq> None \<Longrightarrow>
     runner_step r (drain_finish su i result err dur r)"
| step_started: "runner_step r (on_workflow_started env r)"
| step_terminal: "runner_step r (on_terminal env r)"
| step_paused: "runner_step r (on_paused env r)"
| step_resumed: "runner_step r (on_resumed env r)"
| step_replay: "i < length (rn_replays r) \<Longrightarrow> runner_step r (run_replay su i r)"
| step_cancelled: "runner_step r (on_cancelled env r)"
| step_retried: "runner_step r (on_retried su load_fault env r)"
| step_hint_approved: "runner_step r (on_hint_approved load_fault env r)"
| step_recover: "runner_step r (snd (RecoverDispatch su name env r))"
| step_warm: "runner_step r (WarmCorrelationCache c workflowID r)"
| step_warm_pause: "runner_step r (WarmPauseState c r)"
| step_workflow: "runner_step r (RegisterWorkflow_runner getenv def r)"
| step_start: "runner_step r (start_handler h hinter r)"
| step_register: "runner_step r (snd (RegisterHandler h hinter r))"
| step_unsubscribe: "runner_step r (unsubscribe token r)"
| step_hook: "runner_step r (RegisterHook persona hookPersonas r)"
| step_unhook: "runner_step r (UnregisterHook persona hookName r)"
| step_store: "runner_step r (r\<lparr>rn_store := st\<rparr>)"

inductive runner_reach :: "runner \<Rightarrow> bool" where
  runner_start: "runner_reach (NewPersonaRunner st)"
| runner_next: "runner_reach r \<Longrightarrow> runner_step r r' \<Longrightarrow> runner_reach r'"

inductive_cases runner_stepE: "runner_step r r'"

section \<open>What the operations leave alone\<close>

text \<open>Queues and drain goroutines, the part the serialisation rests on.\<close>

definition drains_of :: "runner \<Rightarrow> (string \<rightharpoonup> dispatchQueue) \<times> drain list" where
  "drains_of r = (rn_queues r, rn_drains r)"

named_theorems drains_frame

lemma drains_drop [drains_frame]: "drains_of (drop_dispatch su h env x m f d r) = drains_of r"
  by (simp add: drains_of_def drop_dispatch_def)

lemma drains_seen_Remove [drains_frame]: "drains_of (seen_Remove n i r) = drains_of r"
  by (simp add: drains_of_def seen_Remove_def)

lemma drains_seen_Add [drains_frame]: "seen_Add n i r = (b, r') \<Longrightarrow> drains_of r' = drains_of r"
  by (auto simp: drains_of_def seen_Add_def split: option.splits prod.splits)

lemma drains_join_gate [drains_frame]: "join_gate su h env r = (b, r') \<Longrightarrow> drains_of r' = drains_of r"
  by (auto simp: join_gate_def Let_def drains_frame split: if_splits sum.splits prod.splits bool.splits)

lemma drains_updates [drains_frame, simp]:
  "drains_of (r\<lparr>rn_store := a\<rparr>) = drains_of r" "drains_of (r\<lparr>rn_pauser := b\<rparr>) = drains_of r"
  "drains_of (r\<lparr>rn_resolver := c\<rparr>) = drains_of r" "drains_of (r\<lparr>rn_published := d\<rparr>) = drains_of r"
  "drains_of (r\<lparr>rn_replays := e\<rparr>) = drains_of r" "drains_of (r\<lparr>rn_ctxs := f\<rparr>) = drains_of r"
  "drains_of (r\<lparr>rn_hooks := g\<rparr>) = drains_of r" "drains_of (r\<lparr>rn_handlers := i\<rparr>) = drains_of r"
  "drains_of (r\<lparr>rn_hinters := j\<rparr>) = drains_of r" "drains_of (r\<lparr>rn_subs := k\<rparr>) = drains_of r"
  "drains_of (r\<lparr>rn_nextSub := l\<rparr>) = drains_of r" "drains_of (r\<lparr>rn_dynamicGen := m\<rparr>) = drains_of r"
  "drains_of (r\<lparr>rn_seen := n\<rparr>) = drains_of r"
  by (simp_all add: drains_of_def)

lemma drains_publish [drains_frame]: "drains_of (publish_results su a es r) = drains_of r"
  by (simp add: publish_results_def drains_of_def split: prod.splits)

lemma drains_front [drains_frame]: "drains_of (frontRunAdvisoryPause c evs r) = drains_of r"
  by (induction evs) (auto split: option.splits)

lemma drains_finish_dispatch [drains_frame]: "drains_of (finish_dispatch su g n env depth ctx res err dur r) = drains_of r"
  by (simp add: finish_dispatch_def Let_def persistAndPublishResultOnly_def drains_frame)

lemma drains_outcome [drains_frame]: "drains_of (drain_outcome su d item ctx res err dur r) = drains_of r"
  by (simp add: drain_outcome_def Let_def executeHint_def executeHintApprovedDispatch_def drains_frame split: drain_kind.split)

lemma drains_executeHint [drains_frame]: "drains_of (executeHint su n env depth ctx evs err dur r) = drains_of r"
  by (simp add: executeHint_def drains_frame)

lemma drains_start_dispatch [drains_frame]: "start_dispatch su m n item r = (ctx, r') \<Longrightarrow> drains_of r' = drains_of r"
  by (auto simp: start_dispatch_def Let_def split: prod.splits if_splits)

lemma drains_wedge [drains_frame]: "drains_of (publishDispatchWedge su c p env cause r) = drains_of r"
  by (simp add: publishDispatchWedge_def Let_def)

lemma drains_subscribe [drains_frame]: "subscribe_all h evs r = (ids, r') \<Longrightarrow> drains_of r' = drains_of r"
  by (auto simp: subscribe_all_def Let_def)

lemma drains_snd_subscribe [drains_frame]: "drains_of (snd (subscribe_all h evs r)) = drains_of r"
  by (simp add: subscribe_all_def Let_def)

lemma drains_hinter [drains_frame]: "drains_of (registerHinter h b r) = drains_of r"
  by (simp add: registerHinter_def)

lemma drains_resumed [drains_frame]: "drains_of (on_resumed env r) = drains_of r"
proof -
  have "drains_of (foldl (\<lambda>r (h, e). (seen_Remove (h_Name h) (e_ID e) r)\<lparr>rn_replays := rn_replays r @ [(h, e)]\<rparr>) r xs)
      = drains_of r" for xs :: "(handler \<times> envelope) list" and r
    by (induction xs arbitrary: r) (auto simp: drains_frame)
  then show ?thesis by (simp add: on_resumed_def split: prod.splits)
qed

section \<open>One dispatch at a time per handler and workflow\<close>

text \<open>
  For every queue key: a drain goroutine exists exactly while the queue is marked as draining,
  and then it is the only one; its key is the one of its handler and workflow.
\<close>

definition is_draining :: "(string \<rightharpoonup> dispatchQueue) \<Rightarrow> string \<Rightarrow> bool" where
  "is_draining qs key = (case qs key of None \<Rightarrow> False | Some q \<Rightarrow> dq_draining q)"

definition well_keyed :: "drain \<Rightarrow> bool" where
  "well_keyed d \<longleftrightarrow> dr_key d = queue_key (drain_name d) (dr_corr d)"

definition drains_ok :: "(string \<rightharpoonup> dispatchQueue) \<times> drain list \<Rightarrow> bool" where
  "drains_ok = (\<lambda>(qs, ds). distinct (map dr_key ds) \<and>
     set (map dr_key ds) = {key. is_draining qs key} \<and> (\<forall>d \<in> set ds. well_keyed d))"

lemma drains_ok_enqueue:
  assumes ok: "drains_ok (drains_of r)" and key: "key = queue_key (case kind of DrainNormal h \<Rightarrow> h_Name h | DrainHint p \<Rightarrow> p) c"
  shows "drains_ok (drains_of (enqueue_item key c kind item r))"
proof -
  obtain q0 qs where g: "getOrCreate key (rn_queues r) = (q0, qs)" by (cases "getOrCreate key (rn_queues r)")
  have qs: "is_draining qs k = is_draining (rn_queues r) k" "dq_draining q0 = is_draining (rn_queues r) key" for k
    using g by (auto simp: getOrCreate_def is_draining_def empty_queue_def split: option.splits if_splits)
  have dr: "dq_draining (push item q0) = dq_draining q0" by (simp add: push_def Let_def)
  have one: "is_draining (qs(key \<mapsto> q)) k = (if k = key then dq_draining q else is_draining (rn_queues r) k)" for k q
    using qs(1) [of k] by (auto simp: is_draining_def)
  show ?thesis
  proof (cases "is_draining (rn_queues r) key")
    case True
    then have "drains_of (enqueue_item key c kind item r) = (qs(key \<mapsto> push item q0), rn_drains r)"
      using g qs dr by (simp add: enqueue_item_def drains_of_def Let_def)
    then show ?thesis using ok True qs(2) dr by (auto simp: drains_ok_def drains_of_def one split: if_splits)
  next
    case False
    then have "drains_of (enqueue_item key c kind item r) = (qs(key \<mapsto> (push item q0)\<lparr>dq_draining := True\<rparr>),
        rn_drains r @ [\<lparr>dr_key = key, dr_corr = c, dr_kind = kind, dr_item = None, dr_ctx = None\<rparr>])"
      using g qs dr by (simp add: enqueue_item_def drains_of_def Let_def)
    moreover have "well_keyed \<lparr>dr_key = key, dr_corr = c, dr_kind = kind, dr_item = None, dr_ctx = None\<rparr>"
      using key by (simp add: well_keyed_def drain_name_def)
    ultimately show ?thesis using ok False by (auto simp: drains_ok_def drains_of_def one split: if_splits)
  qed
qed

lemma drains_ok_update:
  assumes ok: "drains_ok (qs, ds)" and i: "i < length ds"
    and same: "dr_key d = dr_key (ds ! i)" "dr_kind d = dr_kind (ds ! i)" "dr_corr d = dr_corr (ds ! i)"
    and qs: "\<And>k. is_draining qs' k = is_draining qs k"
  shows "drains_ok (qs', ds[i := d])"
proof -
  have m: "map dr_key (ds[i := d]) = map dr_key ds"
    using i same(1) by (metis list_update_id map_update nth_map)
  have "\<forall>x \<in> set (ds[i := d]). well_keyed x"
  proof
    fix x assume "x \<in> set (ds[i := d])"
    then have "x = d \<or> x \<in> set ds" by (meson insertE set_update_subset_insert subsetD)
    moreover have "well_keyed (ds ! i)" using ok i by (simp add: drains_ok_def)
    then have "well_keyed d" using same by (simp add: well_keyed_def drain_name_def)
    ultimately show "well_keyed x" using ok by (auto simp: drains_ok_def)
  qed
  moreover have "is_draining qs' = is_draining qs" using qs by (simp add: fun_eq_iff)
  ultimately show ?thesis using ok unfolding drains_ok_def prod.case m by simp
qed

lemma remove_nth_keys:
  assumes "distinct (map f xs)" and "i < length xs"
  shows "distinct (map f (remove_nth i xs))" "set (map f (remove_nth i xs)) = set (map f xs) - {f (xs ! i)}"
proof -
  have x: "xs = take i xs @ xs ! i # drop (Suc i) xs" using assms(2) by (simp add: id_take_nth_drop)
  have "map f xs = map f (take i xs) @ f (xs ! i) # map f (drop (Suc i) xs)"
    by (subst x) (simp only: map_append list.map)
  then show "distinct (map f (remove_nth i xs))" "set (map f (remove_nth i xs)) = set (map f xs) - {f (xs ! i)}"
    using assms(1) by (auto simp: remove_nth_def)
qed

lemma remove_nth_subset: "set (remove_nth i xs) \<subseteq> set xs"
  by (auto simp: remove_nth_def dest: in_set_takeD in_set_dropD)

lemma drains_ok_remove:
  assumes ok: "drains_ok (qs, ds)" and i: "i < length ds" and q: "\<not> dq_draining q"
  shows "drains_ok (qs(dr_key (ds ! i) \<mapsto> q), remove_nth i ds)"
proof -
  have "distinct (map dr_key ds)" using ok by (simp add: drains_ok_def)
  note k = remove_nth_keys [OF this i]
  have "{k. is_draining (qs(dr_key (ds ! i) \<mapsto> q)) k} = {k. is_draining qs k} - {dr_key (ds ! i)}"
    using q by (auto simp: is_draining_def)
  moreover have "\<forall>d \<in> set (remove_nth i ds). well_keyed d"
    using ok remove_nth_subset [of i ds] by (auto simp: drains_ok_def)
  ultimately show ?thesis using k ok by (simp add: drains_ok_def)
qed

lemma drains_ok_take:
  assumes ok: "drains_ok (drains_of r)" and i: "i < length (rn_drains r)"
  shows "drains_ok (drains_of (drain_take i r))"
proof -
  let ?d = "rn_drains r ! i"
  let ?q = "case rn_queues r (dr_key ?d) of None \<Rightarrow> empty_queue | Some q \<Rightarrow> q"
  have ok': "drains_ok (rn_queues r, rn_drains r)" using ok by (simp add: drains_of_def)
  have key: "is_draining (rn_queues r) (dr_key ?d)" using ok' i by (auto simp: drains_ok_def)
  have stop: "drains_ok ((rn_queues r)(dr_key ?d \<mapsto> q\<lparr>dq_draining := False\<rparr>), remove_nth i (rn_drains r))" for q
    using drains_ok_remove [OF ok' i] by simp
  have take: "drains_ok ((rn_queues r)(dr_key ?d \<mapsto> q'), (rn_drains r)[i := ?d\<lparr>dr_item := x, dr_ctx := c\<rparr>])"
    if "dq_draining q'" for q' x c
    using that key by (intro drains_ok_update [OF ok' i]) (auto simp: is_draining_def)
  have "dq_draining q'" if "pop ?q = Some (item, q')" for item q'
    using that key by (auto simp: pop_def is_draining_def split: list.splits option.splits)
  then show ?thesis using stop take
    by (auto simp: drain_take_def Let_def drains_of_def split: drain_kind.split option.split)
qed

lemma drains_ok_begin:
  assumes ok: "drains_ok (drains_of r)" and i: "i < length (rn_drains r)"
  shows "drains_ok (drains_of (drain_begin su i slot r))"
proof -
  have ok': "drains_ok (rn_queues r, rn_drains r)" using ok by (simp add: drains_of_def)
  note upd = drains_ok_update [OF ok' i, where qs' = "rn_queues r"]
  show ?thesis
  proof (cases "dr_item (rn_drains r ! i)")
    case None
    then show ?thesis using ok by (simp add: drain_begin_def)
  next
    case (Some item)
    obtain ctx r1 where s: "start_dispatch su (\<exists>h. dr_kind (rn_drains r ! i) = DrainNormal h)
        (drain_name (rn_drains r ! i)) item r = (ctx, r1)" by (metis surj_pair)
    then have "rn_queues r1 = rn_queues r" "rn_drains r1 = rn_drains r"
      using drains_start_dispatch [OF s] by (simp_all add: drains_of_def)
    then show ?thesis using Some s upd by (auto simp: drain_begin_def drains_of_def Let_def)
  qed
qed

lemma drains_ok_finish:
  assumes ok: "drains_ok (drains_of r)" and i: "i < length (rn_drains r)"
  shows "drains_ok (drains_of (drain_finish su i result err dur r))"
proof -
  have ok': "drains_ok (rn_queues r, rn_drains r)" using ok by (simp add: drains_of_def)
  note upd = drains_ok_update [OF ok' i, where qs' = "rn_queues r"]
  show ?thesis
  proof (cases "dr_item (rn_drains r ! i) = None \<or> dr_ctx (rn_drains r ! i) = None")
    case True
    then show ?thesis using ok by (auto simp: drain_finish_def Let_def split: option.splits)
  next
    case False
    then obtain item ctx where s: "dr_item (rn_drains r ! i) = Some item" "dr_ctx (rn_drains r ! i) = Some ctx" by auto
    define r1 where "r1 = drain_outcome su (rn_drains r ! i) item ctx result err dur r"
    have "drains_of r1 = drains_of r" by (simp add: r1_def drains_frame)
    then have "rn_queues r1 = rn_queues r" "rn_drains r1 = rn_drains r" by (simp_all add: drains_of_def)
    moreover have "drain_finish su i result err dur r =
        r1\<lparr>rn_drains := (rn_drains r1)[i := (rn_drains r ! i)\<lparr>dr_item := None, dr_ctx := None\<rparr>]\<rparr>"
      using s by (simp add: drain_finish_def Let_def r1_def)
    ultimately show ?thesis using upd by (simp add: drains_of_def)
  qed
qed

lemma drains_ok_enqueueAndDrain: "drains_ok (drains_of r) \<Longrightarrow> drains_ok (drains_of (enqueueAndDrain h env d r))"
  unfolding enqueueAndDrain_def by (rule drains_ok_enqueue) simp_all

lemma drains_ok_hold: "drains_ok (drains_of r) \<Longrightarrow> drains_ok (drains_of (hold_or_enqueue su h env d r))"
  by (simp add: hold_or_enqueue_def drains_frame drains_ok_enqueueAndDrain)

lemma drains_ok_wrap: "drains_ok (drains_of r) \<Longrightarrow> drains_ok (drains_of (wrap su h env r))"
  using drains_ok_hold drains_seen_Add drains_join_gate
  by (auto simp: wrap_def drains_frame split: option.split prod.split bool.split)

lemma drains_ok_recover: "drains_ok (drains_of r) \<Longrightarrow> drains_ok (drains_of (snd (RecoverDispatch su n env r)))"
  by (auto simp: RecoverDispatch_def Let_def drains_ok_enqueueAndDrain split: option.split)

lemma drains_own_subscriptions [drains_frame]:
  "drains_of (WarmCorrelationCache c w r) = drains_of r" "drains_of (WarmPauseState c r) = drains_of r"
  "drains_of (on_terminal env r) = drains_of r" "drains_of (on_paused env r) = drains_of r"
  "drains_of (on_cancelled env r) = drains_of r" "drains_of (RegisterWorkflow_runner getenv def r) = drains_of r"
  "drains_of (UnregisterHook p q r) = drains_of r"
  by (simp_all add: WarmCorrelationCache_def WarmPauseState_def on_terminal_def on_paused_def on_cancelled_def
      RegisterWorkflow_runner_def UnregisterHook_def Let_def)

lemma drains_started [drains_frame]: "drains_of (on_workflow_started env r) = drains_of r"
  by (cases "e_Type env") (simp_all add: on_workflow_started_def drains_frame)

lemma drains_registration [drains_frame]:
  "drains_of (start_handler h b r) = drains_of r" "drains_of (snd (RegisterHandler h b r)) = drains_of r"
  "drains_of (RegisterHook p q r) = drains_of r" "drains_of (unsubscribe token r) = drains_of r"
  by (simp_all add: start_handler_def RegisterHandler_def RegisterHook_def unsubscribe_def Let_def drains_frame
      split: prod.split option.split)

lemma drains_ok_retry_dispatch:
  assumes "drains_ok (drains_of r)"
  shows "drains_ok (drains_of (retry_dispatch su c f env events def r))"
proof (cases "findRetryTrigger events def f")
  case None
  with assms show ?thesis by (simp add: retry_dispatch_def drains_frame)
next
  case (Some t)
  let ?r = "r\<lparr>rn_pauser := snd (resume c (rn_pauser r))\<rparr>"
  obtain x r2 where rec: "RecoverDispatch su f t ?r = (x, r2)" by (metis surj_pair)
  have "drains_ok (drains_of r2)" using drains_ok_recover [of ?r su f t] assms rec by simp
  with Some rec show ?thesis by (cases x) (simp_all add: retry_dispatch_def drains_frame)
qed

lemma drains_ok_retried:
  assumes "drains_ok (drains_of r)"
  shows "drains_ok (drains_of (on_retried su lf env r))"
  using assms by (simp add: on_retried_def Let_def drains_frame drains_ok_retry_dispatch split: option.split)

lemma drains_ok_step: "runner_step r r' \<Longrightarrow> drains_ok (drains_of r) \<Longrightarrow> drains_ok (drains_of r')"
proof (induction rule: runner_step.induct)
  case (step_hint_approved lf env r)
  then show ?case
    by (auto simp: on_hint_approved_def drains_frame split: option.split intro!: drains_ok_enqueue)
next
  case (step_replay i r su)
  then show ?case by (auto simp: run_replay_def drains_frame split: prod.split intro!: drains_ok_wrap)
qed (simp_all add: drains_ok_enqueueAndDrain drains_ok_wrap drains_ok_take drains_ok_begin drains_ok_finish drains_ok_retried drains_ok_recover
    drains_frame)

lemma drains_ok_reach: "runner_reach r \<Longrightarrow> drains_ok (drains_of r)"
proof (induction rule: runner_reach.induct)
  case (runner_start st)
  then show ?case by (simp add: NewPersonaRunner_def drains_of_def drains_ok_def is_draining_def)
next
  case (runner_next r r')
  then show ?case using drains_ok_step by blast
qed

text \<open>
  C3. A handler never runs twice at the same time on one workflow: in every reachable state of
  the runner two different drain goroutines belong to different (handler, correlation) queues,
  whatever the interleaving of deliveries, replays, retries and hint approvals.
\<close>

theorem one_dispatch_per_handler_and_workflow:
  assumes "runner_reach r" and "i < length (rn_drains r)" and "j < length (rn_drains r)"
    and "drain_name (rn_drains r ! i) = drain_name (rn_drains r ! j)"
    and "dr_corr (rn_drains r ! i) = dr_corr (rn_drains r ! j)"
  shows "i = j"
proof -
  have "distinct (map dr_key (rn_drains r))" "\<forall>d \<in> set (rn_drains r). well_keyed d"
    using drains_ok_reach [OF assms(1)] by (simp_all add: drains_ok_def drains_of_def)
  moreover have "dr_key (rn_drains r ! i) = dr_key (rn_drains r ! j)"
    using calculation(2) assms by (simp add: well_keyed_def)
  ultimately show ?thesis using assms(2,3) by (simp add: distinct_conv_nth) (metis nth_map)
qed

definition sample_su :: surround where
  "sample_su = \<lparr>su_rt = sample_rt, su_corr_fault = False, su_corr_error = [],
     su_io = (\<lambda>k. \<lparr>io_load = (\<lambda>i. False), io_append = (\<lambda>i. False)\<rparr>), su_done = False, su_closed = False,
     su_version = [], su_git = (\<lambda>p. None)\<rparr>"

text \<open>A runner that knows \<open>workspace-dev\<close> and one running workflow of it.\<close>

definition sample_runner :: "store \<Rightarrow> runner" where
  "sample_runner st = (WarmCorrelationCache ''wf'' ''workspace-dev'' (RegisterWorkflow_runner (\<lambda>v. [])
     WorkspaceDevWorkflowDef (NewPersonaRunner empty_store)))\<lparr>rn_store := st\<rparr>"

lemma sample_runner_reach: "runner_reach (sample_runner st)"
  unfolding sample_runner_def
  by (rule runner_next [OF runner_next [OF runner_next [OF runner_start step_workflow] step_warm] step_store])

theorem one_dispatch_per_handler_and_workflow_witness:
  "length (rn_drains (wrap sample_su (sample_handler ''workspace'')
      (sample_env (WorkflowStartedFor ''workspace-dev'') (POther [])) (sample_runner empty_store))) = 1 \<and> (0 :: nat) = 0"
proof
  let ?r = "wrap sample_su (sample_handler ''workspace'')
      (sample_env (WorkflowStartedFor ''workspace-dev'') (POther [])) (sample_runner empty_store)"
  show one: "length (rn_drains ?r) = 1" by code_simp
  have "runner_reach ?r" by (rule runner_next [OF sample_runner_reach step_deliver])
  from one_dispatch_per_handler_and_workflow [OF this, of 0 0] one show "(0 :: nat) = 0" by simp
qed

section \<open>What an admission guarantees\<close>

lemma seen_Add_new:
  "seen_Add n i r = (True, r') \<Longrightarrow> cache_key n i \<notin> set (ic_entries (rn_seen r)) \<and> r' = r\<lparr>rn_seen := rn_seen r'\<rparr>"
  by (auto simp: seen_Add_def ic_Add_def Let_def split: option.splits if_splits list.splits)

lemma seen_frame:
  "r' = r\<lparr>rn_seen := c\<rparr> \<Longrightarrow> rn_resolver r' = rn_resolver r \<and> rn_store r' = rn_store r \<and>
     rn_hooks r' = rn_hooks r \<and> rn_pauser r' = rn_pauser r \<and> rn_queues r' = rn_queues r \<and> rn_drains r' = rn_drains r"
  by simp

lemma join_gate_pass:
  "join_gate su h env r = (True, r') \<Longrightarrow> r' = r\<lparr>rn_seen := rn_seen r'\<rparr> \<and>
     (effectiveAfterPersonas (rn_resolver r) h (e_CorrelationID env) (rn_hooks r) = [] \<or> e_CorrelationID env = [] \<or>
      (\<exists>fp m. checkJoinCondition (su_corr_fault su) (rn_store r) (rn_resolver r) (h_Name h)
         (effectiveAfterPersonas (rn_resolver r) h (e_CorrelationID env) (rn_hooks r)) (e_CorrelationID env) = Inr (True, fp, m)))"
  using seen_Add_new by (fastforce simp: join_gate_def Let_def split: if_splits sum.splits prod.splits bool.splits)

lemma wrap_cases:
  assumes "rn_queues (wrap su h env r) \<noteq> rn_queues r \<or> rn_pauser (wrap su h env r) \<noteq> rn_pauser r"
  obtains d r1 r2 where "admission_depth r h env = Some d" "d < chainDepthLimit r (e_CorrelationID env)"
    "e_Type env = FeedbackGenerated \<Longrightarrow> isRetriggerable (rn_resolver r) (h_Name h) (e_CorrelationID env) (handlerLookup r)"
    "seen_Add (h_Name h) (e_ID env) r = (True, r1)" "join_gate su h env r1 = (True, r2)"
    "wrap su h env r = hold_or_enqueue su h env d r2"
proof -
  obtain d where d: "admission_depth r h env = Some d"
    using assms by (cases "admission_depth r h env") (simp_all add: wrap_def)
  have moved: "wrap su h env r \<noteq> r" using assms by metis
  have f: "\<not> (e_Type env = FeedbackGenerated \<and>
      \<not> isRetriggerable (rn_resolver r) (h_Name h) (e_CorrelationID env) (handlerLookup r))"
    by (rule contrapos_nn [OF moved]) (simp add: wrap_def d)
  have lim: "d < chainDepthLimit r (e_CorrelationID env)"
    using moved d f by (simp add: wrap_def split: if_splits)
  obtain b r1 where s: "seen_Add (h_Name h) (e_ID env) r = (b, r1)" by (metis surj_pair)
  have keep: "rn_queues r1 = rn_queues r" "rn_pauser r1 = rn_pauser r"
    using s by (auto simp: seen_Add_def split: option.splits prod.splits)
  have b: b using assms d f lim s keep
    by (cases b) (auto simp: wrap_def drop_dispatch_def split: if_splits)
  obtain b2 r2 where j: "join_gate su h env r1 = (b2, r2)" by (metis surj_pair)
  have "rn_queues r2 = rn_queues r1" "rn_pauser r2 = rn_pauser r1"
    using j by (auto simp: join_gate_def Let_def drop_dispatch_def seen_Remove_def seen_Add_def
        split: if_splits sum.splits prod.splits bool.splits option.splits)
  then have b2: b2 using assms d f lim s b j keep by (cases b2) (auto simp: wrap_def split: if_splits)
  have "wrap su h env r = hold_or_enqueue su h env d r2"
    using d f lim s b j b2 by (auto simp: wrap_def)
  with that d f lim s b j b2 show ?thesis by auto
qed

text \<open>A delivery without interference is \<open>wrap\<close>.\<close>

lemma wrap_alone: "snd (wrap_sections (\<lambda>k r. r) su h env r) = wrap su h env r"
proof -
  have join: "join_sections (\<lambda>k r. r) su h env r = join_gate su h env r" for r
    by (simp add: join_sections_def join_gate_def Let_def)
  have hold: "snd (hold_sections (\<lambda>k r. r) su h env d r) = hold_or_enqueue su h env d r" for d r
    by (simp add: hold_sections_def hold_or_enqueue_def)
  show ?thesis unfolding wrap_sections_def wrap_def join
    by (simp add: Let_def hold split: option.split prod.split bool.split)
qed

text \<open>
  C4. A delivery enqueues an event for a handler only when every guard held at the moment it was
  looked at, whatever else happened to the runner between the sections of the delivery: the
  event is for the handler and its chain depth under the limit; a feedback is one the handler is
  restarted by; the pair of handler and event was not in the dedup cache; when the event carries
  a correlation, every persona the handler waits for has a completion in the log that is not
  stale, and a join of several is new under its fingerprint; the workflow was not paused, nor
  the runner stopped, when the pause was checked. (A pause that comes after the check is left to
  the drain goroutine, which looks again before it takes an item.)
\<close>

theorem queued_only_when_ready:
  assumes "fst (wrap_sections g su h env r)"
  shows "\<exists>d r1 r2 r3 r4 r5 r6 r9.
    r1 = g 1 r \<and> r2 = g 2 r1 \<and> r3 = g 3 r2 \<and> r4 = g 4 (snd (seen_Add (h_Name h) (e_ID env) r3)) \<and> r5 = g 5 r4 \<and> r6 = g 6 r5 \<and>
    r9 = g 9 (snd (join_sections g su h env r4)) \<and>
    snd (wrap_sections g su h env r) = enqueueAndDrain h env d (g 10 r9) \<and>
    admission_depth r h env = Some d \<and> d < chainDepthLimit r2 (e_CorrelationID env) \<and>
    (e_Type env = FeedbackGenerated \<longrightarrow> isRetriggerable (rn_resolver r1) (h_Name h) (e_CorrelationID env) (handlerLookup r1)) \<and>
    cache_key (h_Name h) (e_ID env) \<notin> set (ic_entries (rn_seen r3)) \<and>
    (e_CorrelationID env \<noteq> [] \<longrightarrow> (let after = effectiveAfterPersonas (rn_resolver r4) h (e_CorrelationID env) (rn_hooks r4) in
      (\<forall>p \<in> set after. \<exists>i. fresh_completion (corr_def (rn_resolver r6) (e_CorrelationID env)) p
          (LoadByCorrelation (rn_store r5) (e_CorrelationID env)) i) \<and>
      (e_Type env = PersonaCompleted \<and> 1 < length after \<longrightarrow> (\<exists>fp m.
        checkJoinCondition (su_corr_fault su) (rn_store r5) (rn_resolver r6) (h_Name h) after (e_CorrelationID env) = Inr (True, fp, m) \<and>
        cache_key (h_Name h @ '':join'') fp \<notin> set (ic_entries (rn_seen (g 7 r6))))))) \<and>
    \<not> isPaused (rn_pauser r9) (e_CorrelationID env) \<and> \<not> su_done su"
proof -
  let ?r3 = "g 3 (g 2 (g 1 r))"
  obtain d r3' r8 where w: "admission_depth r h env = Some d" "d < chainDepthLimit (g 2 (g 1 r)) (e_CorrelationID env)"
    "e_Type env = FeedbackGenerated \<longrightarrow> isRetriggerable (rn_resolver (g 1 r)) (h_Name h) (e_CorrelationID env) (handlerLookup (g 1 r))"
    "seen_Add (h_Name h) (e_ID env) ?r3 = (True, r3')" "join_sections g su h env (g 4 r3') = (True, r8)"
    "wrap_sections g su h env r = hold_sections g su h env d (g 9 r8)" "fst (hold_sections g su h env d (g 9 r8))"
    using assms by (auto simp: wrap_sections_def Let_def split: option.splits if_splits prod.splits bool.splits)
  let ?r4 = "g 4 r3'" let ?r5 = "g 5 ?r4" let ?r6 = "g 6 ?r5"
  let ?after = "effectiveAfterPersonas (rn_resolver ?r4) h (e_CorrelationID env) (rn_hooks ?r4)"
  have new: "cache_key (h_Name h) (e_ID env) \<notin> set (ic_entries (rn_seen ?r3))" using seen_Add_new [OF w(4)] by simp
  have hold: "\<not> isPaused (rn_pauser (g 9 r8)) (e_CorrelationID env)" "\<not> su_done su"
    "snd (wrap_sections g su h env r) = enqueueAndDrain h env d (g 10 (g 9 r8))"
    using w(7) unfolding w(6) by (simp_all add: hold_sections_def split: if_splits)
  have join: "(\<forall>p \<in> set ?after. \<exists>i. fresh_completion (corr_def (rn_resolver ?r6) (e_CorrelationID env)) p
          (LoadByCorrelation (rn_store ?r5) (e_CorrelationID env)) i) \<and>
      (e_Type env = PersonaCompleted \<and> 1 < length ?after \<longrightarrow> (\<exists>fp m.
        checkJoinCondition (su_corr_fault su) (rn_store ?r5) (rn_resolver ?r6) (h_Name h) ?after (e_CorrelationID env) = Inr (True, fp, m) \<and>
        cache_key (h_Name h @ '':join'') fp \<notin> set (ic_entries (rn_seen (g 7 ?r6)))))"
    if c: "e_CorrelationID env \<noteq> []"
  proof (cases "?after = []")
    case False
    obtain fp m where ck: "checkJoinCondition (su_corr_fault su) (rn_store ?r5) (rn_resolver ?r6) (h_Name h) ?after
        (e_CorrelationID env) = Inr (True, fp, m)"
      and dd: "1 < length ?after \<and> e_Type env = PersonaCompleted \<longrightarrow> seen_Add (h_Name h @ '':join'') fp (g 7 ?r6) = (True, r8)"
      using w(5) c False by (auto simp: join_sections_def Let_def split: sum.splits prod.splits if_splits bool.splits)
    show ?thesis using join_is_fresh [OF ck] ck dd seen_Add_new [of "h_Name h @ '':join''" fp "g 7 ?r6" r8] by blast
  qed simp
  show ?thesis
    by (rule exI [of _ d], intro exI conjI, (rule refl)+)
      (use w(1-5) new hold join in \<open>simp_all add: Let_def\<close>)
qed

theorem queued_only_when_ready_witness:
  "let env = done_event ''qa''\<lparr>e_ID := ''3''\<rparr>;
       r = sample_runner (sample_store [done_event ''developer'', done_event ''reviewer'', done_event ''qa''])
   in fst (wrap_sections (\<lambda>k r. r) sample_su (sample_handler ''review-consolidator'') env r) \<and>
      cache_key ''review-consolidator'' ''3'' \<notin> set (ic_entries (rn_seen r)) \<and>
      (\<exists>d. admission_depth r (sample_handler ''review-consolidator'') env = Some d \<and> d < chainDepthLimit r ''wf'')"
proof -
  let ?env = "done_event ''qa''\<lparr>e_ID := ''3''\<rparr>"
  let ?r = "sample_runner (sample_store [done_event ''developer'', done_event ''reviewer'', done_event ''qa''])"
  have q: "fst (wrap_sections (\<lambda>k r. r) sample_su (sample_handler ''review-consolidator'') ?env ?r)" by code_simp
  have "e_CorrelationID ?env = ''wf''" "h_Name (sample_handler ''review-consolidator'') = ''review-consolidator''" by code_simp+
  with queued_only_when_ready [OF q] q show ?thesis unfolding Let_def by (simp, blast)
qed

section \<open>What a resume does with the dispatches it held back\<close>

lemma seen_Add_room:
  "int (length (ic_order (rn_seen r))) < ic_maxSize (rn_seen r) \<Longrightarrow>
   seen_Add n i r = (if cache_key n i \<in> set (ic_entries (rn_seen r)) then (False, r)
     else (True, r\<lparr>rn_seen := (rn_seen r)\<lparr>ic_entries := cache_key n i # ic_entries (rn_seen r),
                       ic_order := ic_order (rn_seen r) @ [cache_key n i]\<rparr>\<rparr>))"
  by (simp add: seen_Add_def ic_Add_def Let_def)

lemma join_key_apart: "cache_key (n @ '':join'') f \<noteq> cache_key n i"
  by (simp add: cache_key_def)

lemma join_gate_records:
  assumes "join_gate su h env r = (True, r')" and "e_Type env = PersonaCompleted" and "e_CorrelationID env \<noteq> []"
    and "1 < length (effectiveAfterPersonas (rn_resolver r) h (e_CorrelationID env) (rn_hooks r))"
  obtains f m where "checkJoinCondition (su_corr_fault su) (rn_store r) (rn_resolver r) (h_Name h)
      (effectiveAfterPersonas (rn_resolver r) h (e_CorrelationID env) (rn_hooks r)) (e_CorrelationID env) = Inr (True, f, m)"
    "seen_Add (h_Name h @ '':join'') f r = (True, r')"
proof -
  have ne: "effectiveAfterPersonas (rn_resolver r) h (e_CorrelationID env) (rn_hooks r) \<noteq> []" using assms(4) by auto
  from assms ne that show thesis
    by (auto simp: join_gate_def Let_def split: if_splits sum.splits prod.splits bool.splits)
qed

text \<open>A delivery that was admitted before is turned away again by the join's own dedup entry.\<close>

lemma wrap_known_join:
  assumes "admission_depth r h env = Some d" and "d < chainDepthLimit r (e_CorrelationID env)"
    and "e_Type env = PersonaCompleted" and "e_CorrelationID env \<noteq> []"
    and "1 < length (effectiveAfterPersonas (rn_resolver r) h (e_CorrelationID env) (rn_hooks r))"
    and "checkJoinCondition (su_corr_fault su) (rn_store r) (rn_resolver r) (h_Name h)
      (effectiveAfterPersonas (rn_resolver r) h (e_CorrelationID env) (rn_hooks r)) (e_CorrelationID env) = Inr (True, f, m)"
    and room: "int (length (ic_order (rn_seen r))) + 1 < ic_maxSize (rn_seen r)"
    and "cache_key (h_Name h) (e_ID env) \<notin> set (ic_entries (rn_seen r))"
    and "cache_key (h_Name h @ '':join'') f \<in> set (ic_entries (rn_seen r))"
  shows "\<exists>st c. wrap su h env r = r\<lparr>rn_seen := c, rn_store := st\<rparr>"
proof -
  have ne: "effectiveAfterPersonas (rn_resolver r) h (e_CorrelationID env) (rn_hooks r) \<noteq> []" using assms(5) by auto
  show ?thesis using assms ne
    by (auto simp: wrap_def seen_Add_room join_gate_def Let_def drop_dispatch_def)
qed


text \<open>What a delivery to a join leaves behind when the workflow is paused.\<close>

definition join_held :: "handler \<Rightarrow> envelope \<Rightarrow> string \<Rightarrow> string list \<Rightarrow> runner \<Rightarrow> runner" where
  "join_held h env f es r = r\<lparr>rn_seen := (rn_seen r)\<lparr>ic_entries := es, ic_order := ic_order (rn_seen r) @
     [cache_key (h_Name h) (e_ID env), cache_key (h_Name h @ '':join'') f]\<rparr>,
     rn_pauser := addBlocked (e_CorrelationID env) h env (rn_pauser r)\<rparr>"

lemma held_join:
  assumes held: "rn_pauser (wrap su h env r) \<noteq> rn_pauser r"
    and env: "e_Type env = PersonaCompleted" "e_CorrelationID env \<noteq> []"
    and joins: "1 < length (effectiveAfterPersonas (rn_resolver r) h (e_CorrelationID env) (rn_hooks r))"
    and room: "int (length (ic_order (rn_seen r))) + 3 < ic_maxSize (rn_seen r)"
  obtains d f m es where "admission_depth r h env = Some d" "d < chainDepthLimit r (e_CorrelationID env)"
    "checkJoinCondition (su_corr_fault su) (rn_store r) (rn_resolver r) (h_Name h)
       (effectiveAfterPersonas (rn_resolver r) h (e_CorrelationID env) (rn_hooks r)) (e_CorrelationID env) = Inr (True, f, m)"
    "cache_key (h_Name h @ '':join'') f \<in> set es" "wrap su h env r = join_held h env f es r"
proof -
  obtain d ra rb where w: "admission_depth r h env = Some d" "d < chainDepthLimit r (e_CorrelationID env)"
    "seen_Add (h_Name h) (e_ID env) r = (True, ra)" "join_gate su h env ra = (True, rb)"
    "wrap su h env r = hold_or_enqueue su h env d rb"
    by (rule wrap_cases [OF disjI2 [OF held]]) (rule that)
  note ra = seen_frame [OF seen_Add_new [OF w(3), THEN conjunct2]]
  obtain f m where ck: "checkJoinCondition (su_corr_fault su) (rn_store r) (rn_resolver r) (h_Name h)
       (effectiveAfterPersonas (rn_resolver r) h (e_CorrelationID env) (rn_hooks r)) (e_CorrelationID env) = Inr (True, f, m)"
    and jk: "seen_Add (h_Name h @ '':join'') f ra = (True, rb)"
    by (rule join_gate_records [OF w(4) env]) (use joins ra in simp_all)
  have ra_eq: "ra = r\<lparr>rn_seen := (rn_seen r)\<lparr>ic_entries := cache_key (h_Name h) (e_ID env) # ic_entries (rn_seen r),
      ic_order := ic_order (rn_seen r) @ [cache_key (h_Name h) (e_ID env)]\<rparr>\<rparr>"
    using w(3) room by (simp add: seen_Add_room split: if_splits)
  obtain es where rb: "rb = r\<lparr>rn_seen := (rn_seen r)\<lparr>ic_entries := es, ic_order := ic_order (rn_seen r) @
        [cache_key (h_Name h) (e_ID env), cache_key (h_Name h @ '':join'') f]\<rparr>\<rparr>"
    and inn: "cache_key (h_Name h @ '':join'') f \<in> set es"
    using jk room unfolding ra_eq by (auto simp: seen_Add_room split: if_splits)
  have "isPaused (rn_pauser rb) (e_CorrelationID env)"
    using held rb unfolding w(5) by (auto simp: hold_or_enqueue_def drop_dispatch_def enqueueAndDrain_def enqueue_item_def Let_def
        split: if_splits prod.splits)
  then have "wrap su h env r = join_held h env f es r"
    unfolding w(5) by (simp add: hold_or_enqueue_def join_held_def rb)
  then show thesis by (rule that [OF w(1,2) ck inn])
qed

text \<open>
  A dispatch of a join that a pause holds back is lost on resume: the join's dedup entry was
  written before the pause was seen and is not cleared, so the replay ends at the join gate, and
  neither a queue nor the blocked list holds the dispatch any more.
\<close>

theorem resume_drops_held_join:
  assumes held: "rn_pauser (wrap su h env r) \<noteq> rn_pauser r"
    and env: "e_Type env = PersonaCompleted" "e_CorrelationID env \<noteq> []" "corr_or_aggregate ev = e_CorrelationID env"
    and joins: "1 < length (effectiveAfterPersonas (rn_resolver r) h (e_CorrelationID env) (rn_hooks r))"
    and room: "int (length (ic_order (rn_seen r))) + 3 < ic_maxSize (rn_seen r)"
    and clean: "vget [] (pc_blocked (rn_pauser r)) (e_CorrelationID env) = []" "rn_replays r = []"
    and io: "su_corr_fault su' = su_corr_fault su"
  shows "let r1 = wrap su h env r; r2 = on_resumed ev r1; r3 = run_replay su' 0 r2
    in vget [] (pc_blocked (rn_pauser r1)) (e_CorrelationID env) = [(h, env)] \<and>
       rn_replays r2 = [(h, env)] \<and> rn_replays r3 = [] \<and>
       vget [] (pc_blocked (rn_pauser r3)) (e_CorrelationID env) = [] \<and>
       rn_queues r3 = rn_queues r \<and> rn_drains r3 = rn_drains r"
proof -
  let ?c = "e_CorrelationID env"
  obtain d f m es where w: "admission_depth r h env = Some d" "d < chainDepthLimit r ?c"
    and ck: "checkJoinCondition (su_corr_fault su) (rn_store r) (rn_resolver r) (h_Name h)
      (effectiveAfterPersonas (rn_resolver r) h ?c (rn_hooks r)) ?c = Inr (True, f, m)"
    and inn: "cache_key (h_Name h @ '':join'') f \<in> set es" and r1: "wrap su h env r = join_held h env f es r"
    by (rule held_join [OF held env(1,2) joins room]) (rule that)
  have blocked: "vget [] (pc_blocked (rn_pauser (wrap su h env r))) ?c = [(h, env)]"
    unfolding r1 using clean by (simp add: join_held_def addBlocked_def vget_def)
  let ?r2 = "on_resumed ev (wrap su h env r)"
  let ?q = "?r2\<lparr>rn_replays := []\<rparr>"
  have r2: "?r2 = (seen_Remove (h_Name h) (e_ID env) ((join_held h env f es r)\<lparr>rn_pauser := snd (resume ?c (rn_pauser (wrap su h env r)))\<rparr>))
      \<lparr>rn_replays := [(h, env)]\<rparr>"
    unfolding on_resumed_def env(3) using blocked clean(2) by (simp add: resume_def r1 seen_Remove_def join_held_def)
  have q: "rn_resolver ?q = rn_resolver r" "rn_hooks ?q = rn_hooks r" "rn_store ?q = rn_store r"
    "rn_handlers ?q = rn_handlers r" "rn_defaultChainDepth ?q = rn_defaultChainDepth r"
    "rn_queues ?q = rn_queues r" "rn_drains ?q = rn_drains r"
    unfolding r2 join_held_def seen_Remove_def by simp_all
  have seen: "ic_maxSize (rn_seen ?q) = ic_maxSize (rn_seen r)"
    "length (ic_order (rn_seen ?q)) = length (ic_order (rn_seen r)) + 2"
    "ic_entries (rn_seen ?q) = removeAll (cache_key (h_Name h) (e_ID env)) es"
    unfolding r2 join_held_def seen_Remove_def ic_Remove_def by simp_all
  have "\<exists>st c. wrap su' h env ?q = ?q\<lparr>rn_seen := c, rn_store := st\<rparr>"
  proof (rule wrap_known_join)
    show "admission_depth ?q h env = Some d" using w(1) unfolding admission_depth_def q .
    show "d < chainDepthLimit ?q ?c" using w(2) unfolding chainDepthLimit_def q .
    show "checkJoinCondition (su_corr_fault su') (rn_store ?q) (rn_resolver ?q) (h_Name h)
      (effectiveAfterPersonas (rn_resolver ?q) h ?c (rn_hooks ?q)) ?c = Inr (True, f, m)"
      using ck unfolding q io .
    show "1 < length (effectiveAfterPersonas (rn_resolver ?q) h ?c (rn_hooks ?q))" using joins unfolding q .
    show "cache_key (h_Name h @ '':join'') f \<in> set (ic_entries (rn_seen ?q))"
      using inn join_key_apart unfolding seen by simp
    show "cache_key (h_Name h) (e_ID env) \<notin> set (ic_entries (rn_seen ?q))" unfolding seen by simp
    show "int (length (ic_order (rn_seen ?q))) + 1 < ic_maxSize (rn_seen ?q)" using room unfolding seen by simp
  qed (fact env)+
  then obtain st c where "wrap su' h env ?q = ?q\<lparr>rn_seen := c, rn_store := st\<rparr>" by blast
  moreover have "run_replay su' 0 ?r2 = wrap su' h env ?q" unfolding run_replay_def r2 by (simp add: remove_nth_def)
  ultimately have r3: "run_replay su' 0 ?r2 = ?q\<lparr>rn_seen := c, rn_store := st\<rparr>" by simp
  have "rn_replays ?r2 = [(h, env)]" "vget [] (pc_blocked (rn_pauser ?r2)) ?c = []"
    unfolding r2 by (simp_all add: resume_def vget_def seen_Remove_def)
  then show ?thesis unfolding Let_def r3 using blocked q by simp
qed


definition paused_runner :: runner where
  "paused_runner = on_paused (sample_env WorkflowPaused (POther []))
     (sample_runner (sample_store [done_event ''developer'', done_event ''reviewer'', done_event ''qa'']))"

theorem resume_drops_held_join_witness:
  "let env = done_event ''qa''\<lparr>e_ID := ''3''\<rparr>;
       r3 = run_replay sample_su 0 (on_resumed (sample_env WorkflowResumed (POther []))
         (wrap sample_su (sample_handler ''review-consolidator'') env paused_runner))
   in rn_queues r3 = rn_queues paused_runner \<and> vget [] (pc_blocked (rn_pauser r3)) ''wf'' = []"
proof -
  let ?env = "done_event ''qa''\<lparr>e_ID := ''3''\<rparr>"
  let ?h = "sample_handler ''review-consolidator''"
  have "map_option length (pc_blocked (rn_pauser (wrap sample_su ?h ?env paused_runner)) ''wf'') \<noteq>
      map_option length (pc_blocked (rn_pauser paused_runner) ''wf'')" by code_simp
  then have held: "rn_pauser (wrap sample_su ?h ?env paused_runner) \<noteq> rn_pauser paused_runner" by metis
  have c: "e_CorrelationID ?env = ''wf''" "e_Type ?env = PersonaCompleted"
    "corr_or_aggregate (sample_env WorkflowResumed (POther [])) = ''wf''" by code_simp+
  have "1 < length (effectiveAfterPersonas (rn_resolver paused_runner) ?h ''wf'' (rn_hooks paused_runner))"
    "int (length (ic_order (rn_seen paused_runner))) + 3 < ic_maxSize (rn_seen paused_runner)"
    "vget [] (pc_blocked (rn_pauser paused_runner)) ''wf'' = []" "rn_replays paused_runner = []" by code_simp+
  then show ?thesis using resume_drops_held_join [OF held, of _ sample_su] c by (simp add: Let_def)
qed

end
