(* ===== verification/RunnerOutcomes.thy ===== *)
theory RunnerOutcomes imports RunnerRuns begin

text \<open>
  What the persona runner owes the rest of the system: every handler run that was not cut off
  leaves one terminal event in the log, a retry is answered by a dispatch or by a failure, and
  the runner's early pause after an advisory verdict agrees with the engine's decision.
\<close>

section \<open>The terminal event of a dispatch\<close>

text \<open>Whether the batch ends in a completion.\<close>

definition dispatch_completes ::
    "surround \<Rightarrow> runner \<Rightarrow> string \<Rightarrow> envelope \<Rightarrow> envelope list option \<Rightarrow> handle_error option \<Rightarrow> bool" where
  "dispatch_completes su r name env result err \<longleftrightarrow> err = None \<and>
     \<not> developerOutputGuardTrips (su_git su) (su_corr_fault su) (rn_store r) name (e_CorrelationID env) (snd (last_response result))"

definition terminal_for :: "string \<Rightarrow> string \<Rightarrow> bool \<Rightarrow> envelope \<Rightarrow> bool" where
  "terminal_for name trigger ok e \<longleftrightarrow>
     (if ok then e_Type e = PersonaCompleted \<and>
        (\<exists>p. as_completed (e_Payload e) = Some p \<and> pc_Persona p = name \<and> pc_TriggerID p = trigger)
      else e_Type e = PersonaFailed \<and>
        (\<exists>p. as_failed (e_Payload e) = Some p \<and> pf_Persona p = name \<and> pf_TriggerID p = trigger))"

lemma terminal_runner_event:
  "terminal_for name (e_ID env) True (runner_event su k name env PersonaCompleted (completed_payload name env depth dur ref))"
  "terminal_for name (e_ID env) False (runner_event su k name env PersonaFailed (failed_payload su name env depth dur msg kind))"
  by (cases kind, simp add: terminal_for_def runner_event_def completed_payload_def failed_payload_def
      as_completed_def as_failed_def WithSource_def WithCorrelation_def WithCausation_def NewEnv_def)+

lemma dispatch_events_end:
  assumes "err \<noteq> Some HandleIncomplete"
  obtains t where "dispatch_events su True r name env depth ctx result err dur = result_events env result @ [t]"
    and "terminal_for name (e_ID env) (dispatch_completes su r name env result err) t"
proof (cases err)
  case None
  obtain ref len where l: "last_response result = (ref, len)" by (cases "last_response result")
  show thesis
  proof (cases "developerOutputGuardTrips (su_git su) (su_corr_fault su) (rn_store r) name (e_CorrelationID env) len")
    case True
    with None l show thesis
      by (intro that) (simp add: dispatch_events_def, simp add: dispatch_completes_def, rule terminal_runner_event)
  next
    case False
    with None l show thesis
      by (intro that) (simp add: dispatch_events_def, simp add: dispatch_completes_def, rule terminal_runner_event)
  qed
next
  case (Some e)
  then obtain g where "err = Some (HandleError g)" using assms by (cases e) auto
  then show thesis using that terminal_runner_event by (auto simp: dispatch_events_def dispatch_completes_def)
qed

lemma stamped_end: "stamp_all a v (es @ [t]) = stamp_all a v es @ [WithAggregate a (v + int (length es) + 1) t]"
  by (rule nth_equalityI) (auto simp: nth_append nth_stamp_all less_Suc_eq)

lemma terminal_stamped [simp]: "terminal_for n t c (WithAggregate a v e) = terminal_for n t c e"
  by (simp add: terminal_for_def WithAggregate_def)

lemma front_run_frame [simp]:
  "rn_store (frontRunAdvisoryPause c evs r) = rn_store r" "rn_published (frontRunAdvisoryPause c evs r) = rn_published r"
  by (induction evs) (auto split: option.splits)

text \<open>
  C12. What a handler that returned leaves behind, on a workflow that was not stopped under it:
  its own events, and after them exactly one terminal event - a PersonaCompleted naming the
  handler and its trigger, or a PersonaFailed when it failed or the output guard tripped - or
  none when it said that it is incomplete. They are appended to its aggregate in order and
  published in the same order. This holds when one of the attempts to persist can read and write
  the store, the bus is open, and the ids of the batch are distinct and not in the log.
\<close>

theorem finished_dispatch_is_recorded:
  assumes going: "ctx_err su r ctx = None \<or> \<not> isPaused (rn_pauser r) (e_CorrelationID env)"
    and store: "store_ok (rn_store r)" "\<not> su_closed su"
    and io: "j < maxPersistRetries" "\<not> io_load (su_io su 1) j" "\<not> io_append (su_io su 1) j"
    and ids: "distinct (map e_ID (dispatch_events su True r name env depth ctx result err dur))"
      "set (map e_ID (dispatch_events su True r name env depth ctx result err dur)) \<inter> set (map e_ID (st_events (rn_store r))) = {}"
  shows "\<exists>rs ts. let r' = finish_dispatch su True name env depth ctx result err dur r;
        a = persona_aggregate (e_CorrelationID env) name in
     Load (rn_store r') a = Load (rn_store r) a @ rs @ ts \<and> rn_published r' = rn_published r @ rs @ ts \<and>
     map e_ID rs = map e_ID (result_events env result) \<and> store_ok (rn_store r') \<and>
     (if err = Some HandleIncomplete then ts = []
      else \<exists>t. ts = [t] \<and> terminal_for name (e_ID env) (dispatch_completes su r name env result err) t)"
proof -
  let ?a = "persona_aggregate (e_CorrelationID env) name"
  let ?v = "int (length (rows_of (rn_store r) ?a))"
  obtain ts where ts: "dispatch_events su True r name env depth ctx result err dur = result_events env result @ ts"
    "if err = Some HandleIncomplete then ts = []
     else \<exists>t. ts = [t] \<and> terminal_for name (e_ID env) (dispatch_completes su r name env result err) t"
  proof (cases "err = Some HandleIncomplete")
    case True
    then show thesis by (intro that [of "[]"]) (simp_all add: dispatch_events_def)
  next
    case False
    then show thesis using that dispatch_events_end [OF False] by metis
  qed
  let ?es = "result_events env result @ ts"
  obtain st' where p: "persistAndPublish (su_io su 1) False ?a ?es (rn_store r) = (st', stamp_all ?a ?v ?es)"
    and ok: "store_ok st'" and l: "Load st' ?a = Load (rn_store r) ?a @ stamp_all ?a ?v ?es"
  proof (cases "?es = []")
    case True
    then show thesis using store(1) by (intro that [of "rn_store r"]) (simp_all add: persistAndPublish_def stamp_all_def)
  next
    case False
    then show thesis using persist_block [OF store(1) False ids [unfolded ts(1)] io, of ?a] that by blast
  qed
  have "rn_store (finish_dispatch su True name env depth ctx result err dur r) = st'"
    "rn_published (finish_dispatch su True name env depth ctx result err dur r) = rn_published r @ stamp_all ?a ?v ?es"
    using going p store(2) ts by (auto simp: finish_dispatch_def Let_def persistAndPublishResultOnly_def publish_results_def split: if_splits)
  moreover have "stamp_all ?a ?v ?es = stamp_all ?a ?v (result_events env result) @
      (if ts = [] then [] else [WithAggregate ?a (?v + int (length (result_events env result)) + 1) (hd ts)])"
    using ts(2) by (auto simp: stamped_end split: if_splits)
  ultimately show ?thesis using ok l ts(2)
    by (intro exI [of _ "stamp_all ?a ?v (result_events env result)"]
        exI [of _ "if ts = [] then [] else [WithAggregate ?a (?v + int (length (result_events env result)) + 1) (hd ts)]"])
      (auto simp: Let_def split: if_splits)
qed

theorem finished_dispatch_is_recorded_witness:
  "\<exists>rs t. rn_published (finish_dispatch sample_su True ''qa'' (done_event ''developer'') 1 0 (Some []) None 5
       (sample_runner empty_store)) = rs @ [t] \<and> e_Type t = PersonaCompleted"
proof -
  let ?r = "sample_runner empty_store"
  let ?env = "done_event ''developer''"
  have "dispatch_completes sample_su ?r ''qa'' ?env (Some []) None" by code_simp
  moreover have "ctx_err sample_su ?r 0 = None" "distinct (map e_ID (dispatch_events sample_su True ?r ''qa'' ?env 1 0 (Some []) None 5))"
    "st_events (rn_store ?r) = []" "rn_published ?r = []" by code_simp+
  moreover have "store_ok (rn_store ?r)" by (simp add: sample_runner_def store_ok_empty)
  ultimately show ?thesis
    using finished_dispatch_is_recorded [of sample_su ?r 0 ?env 0 "''qa''" 1 "Some []" None 5]
    by (fastforce simp: Let_def terminal_for_def sample_su_def maxPersistRetries_def)
qed

section \<open>The early pause\<close>

text \<open>
  The runner pauses dispatch for an advisory failure before the batch is published exactly
  when the engine, which sees the event later, answers the first advisory verdict of the batch
  with a pause: on a running workflow whose aggregate carries the definition the runner has
  resolved.
\<close>

theorem front_run_agrees_with_engine:
  assumes "advisory_fail ev = Some v" and "list_all (\<lambda>e. advisory_fail e = None) pre"
    and "c \<noteq> []" and "w_Status w = StatusRunning" and "w_WorkflowDef w = corr_def (rn_resolver r) c"
  shows "frontRunAdvisoryPause c (pre @ ev # post) r =
    (if map e_Type (snd (Decide rt w ev)) = [WorkflowPaused] then r\<lparr>rn_pauser := pause c (rn_pauser r)\<rparr> else r) \<and>
    (map e_Type (snd (Decide rt w ev)) \<noteq> [WorkflowPaused] \<longrightarrow> snd (Decide rt w ev) = [])"
proof -
  have v: "e_Type ev = VerdictRendered" "as_verdict (e_Payload ev) = Some v" "v_Advisory v" "v_Outcome v = VerdictFail"
    using assms(1) by (auto simp: advisory_fail_def split: if_splits option.splits)
  have D: "map e_Type (snd (Decide rt w ev)) = (if isRequiredPersona w (v_Persona v) then [WorkflowPaused] else [])"
    using verdict_table [OF v(2), of rt w] v assms(4) by (auto simp: gating_verdict_def)
  have skip: "frontRunAdvisoryPause c (pre @ ev # post) r = frontRunAdvisoryPause c (ev # post) r"
    using assms(2,3) by (induction pre) auto
  have "frontRunAdvisoryPause c (ev # post) r =
      (if isRequiredPersona w (v_Persona v) then r\<lparr>rn_pauser := pause c (rn_pauser r)\<rparr> else r)"
    using assms by (auto simp: isRequired_iff corr_def_def split: option.splits bind_splits)
  with skip D show ?thesis by (auto split: if_splits)
qed

theorem front_run_agrees_with_engine_witness:
  "let ev = sample_env VerdictRendered (PVerdict (sample_verdict\<lparr>v_Advisory := True\<rparr>));
       r = WarmCorrelationCache ''wf'' ''develop-only'' (RegisterWorkflow_runner (\<lambda>v. []) DevelopOnlyWorkflowDef
         (NewPersonaRunner empty_store))
   in map e_Type (snd (Decide sample_rt sample_running ev)) = [WorkflowPaused] \<and>
      frontRunAdvisoryPause ''wf'' [done_event ''qa'', ev] r = r\<lparr>rn_pauser := pause ''wf'' (rn_pauser r)\<rparr>"
proof -
  let ?v = "sample_verdict\<lparr>v_Advisory := True\<rparr>"
  let ?ev = "sample_env VerdictRendered (PVerdict ?v)"
  let ?r = "WarmCorrelationCache ''wf'' ''develop-only'' (RegisterWorkflow_runner (\<lambda>v. []) DevelopOnlyWorkflowDef
         (NewPersonaRunner empty_store))"
  have fail: "advisory_fail ?ev = Some ?v"
    by (simp add: advisory_fail_def sample_env_def as_verdict_def sample_verdict_def zero_verdict_def)
  have pre: "list_all (\<lambda>e. advisory_fail e = None) [done_event ''qa'']"
    by (simp add: advisory_fail_def done_event_def sample_env_def)
  have def: "corr_def (rn_resolver ?r) ''wf'' = Some DevelopOnlyWorkflowDef"
    by (simp add: corr_def_def WarmCorrelationCache_def RegisterWorkflow_runner_def cacheWorkflowID_def registerWorkflow_def
        resolveWorkflowID_def getWorkflowDef_def mput_def applyEnvOverrides_def DevelopOnlyWorkflowDef_def
        NewPersonaRunner_def newWorkflowResolver_def zero_def_def)
  have "isRequiredPersona sample_running (v_Persona ?v)"
    by (simp add: isRequired_iff sample_verdict_def DevelopOnlyWorkflowDef_def zero_verdict_def)
  then have dec: "map e_Type (snd (Decide sample_rt sample_running ?ev)) = [WorkflowPaused]"
    using verdict_table [of ?ev ?v sample_rt sample_running]
    by (simp add: gating_verdict_def sample_env_def as_verdict_def sample_verdict_def)
  show ?thesis
    using front_run_agrees_with_engine [OF fail pre, of "''wf''" sample_running ?r "[]" sample_rt] def dec
    by (simp add: Let_def)
qed

section \<open>Retries\<close>

lemma push_keeps_item: "item \<in> set (dq_items (push item q))"
  by (simp add: push_def Let_def)

lemma enqueue_item_lands:
  "\<exists>q. rn_queues (enqueue_item key c kind item r) key = Some q \<and> dq_draining q \<and> item \<in> set (dq_items q)"
proof -
  obtain q0 qs where g: "getOrCreate key (rn_queues r) = (q0, qs)" by (metis surj_pair)
  show ?thesis using push_keeps_item [of item q0] by (simp add: enqueue_item_def g Let_def)
qed

lemma enqueue_item_frame [simp]:
  "rn_published (enqueue_item key c kind item r) = rn_published r"
  "rn_pauser (enqueue_item key c kind item r) = rn_pauser r"
  by (simp_all add: enqueue_item_def Let_def split: prod.splits)

lemma RecoverDispatch_error: "RecoverDispatch su n e r = (Some err, r') \<Longrightarrow> r' = r"
  by (auto simp: RecoverDispatch_def Let_def split: option.splits if_splits sum.splits prod.splits)

lemma RecoverDispatch_ok:
  assumes "RecoverDispatch su n e r = (None, r')" and "\<not> isPaused (rn_pauser r) (e_CorrelationID e)"
  obtains h where "handlerLookup r n = Some h" "r' = enqueueAndDrain h e 0 r"
  using assms by (auto simp: RecoverDispatch_def Let_def split: option.splits if_splits)

text \<open>The two ways a retry ends.\<close>

definition wedged :: "surround \<Rightarrow> string \<Rightarrow> string \<Rightarrow> runner \<Rightarrow> runner \<Rightarrow> bool" where
  "wedged su c phase r r' \<longleftrightarrow> rn_queues r' = rn_queues r \<and>
     (\<exists>e p. rn_published r' = rn_published r @ [e] \<and> e_Type e = PersonaFailed \<and> e_CorrelationID e = c \<and>
        as_failed (e_Payload e) = Some p \<and> pf_Persona p = phase \<and> pf_FailureKind p = FailureKindHandlerError)"

definition redispatched :: "string \<Rightarrow> string \<Rightarrow> runner \<Rightarrow> runner \<Rightarrow> bool" where
  "redispatched c phase r r' \<longleftrightarrow> rn_published r' = rn_published r \<and> \<not> isPaused (rn_pauser r') c \<and>
     (\<exists>h q item. handlerLookup r phase = Some h \<and> rn_queues r' (queue_key (h_Name h) c) = Some q \<and> dq_draining q \<and>
        item \<in> set (dq_items q) \<and> di_env item \<in> set (LoadByCorrelation (rn_store r) c))"

lemma wedge_wedges: "\<not> su_closed su \<Longrightarrow> rn_queues r1 = rn_queues r \<Longrightarrow> rn_published r1 = rn_published r \<Longrightarrow>
    wedged su c phase r (publishDispatchWedge su c phase env cause r1)"
  by (simp add: wedged_def publishDispatchWedge_def Let_def as_failed_def WithSource_def WithCorrelation_def
      WithCausation_def NewEnv_def)

lemma findRetryTrigger_in: "findRetryTrigger events def phase = Some e \<Longrightarrow> e \<in> set events"
  by (auto simp: findRetryTrigger_def Let_def dest: last_match_in split: if_splits)
    (auto simp: find_Some_iff)

lemma retry_dispatch_ends:
  assumes open_bus: "\<not> su_closed su"
    and same: "rn_queues r1 = rn_queues r" "rn_published r1 = rn_published r" "rn_handlers r1 = rn_handlers r"
  shows "wedged su c phase r (retry_dispatch su c phase env (LoadByCorrelation (rn_store r) c) def r1) \<or>
    redispatched c phase r (retry_dispatch su c phase env (LoadByCorrelation (rn_store r) c) def r1)"
proof (cases "findRetryTrigger (LoadByCorrelation (rn_store r) c) def phase")
  case None
  then show ?thesis using wedge_wedges [OF open_bus same(1,2)] by (simp add: retry_dispatch_def)
next
  case (Some t)
  have t: "t \<in> set (LoadByCorrelation (rn_store r) c)" using Some by (rule findRetryTrigger_in)
  then have tc: "e_CorrelationID t = c" by (simp add: LoadByCorrelation_def)
  let ?r = "r1\<lparr>rn_pauser := snd (resume c (rn_pauser r1))\<rparr>"
  have free: "\<not> isPaused (rn_pauser ?r) c" by (simp add: resume_def isPaused_def vget_def)
  obtain res r2 where rd: "RecoverDispatch su phase t ?r = (res, r2)" by (metis surj_pair)
  show ?thesis
  proof (cases res)
    case None
    obtain h where h: "handlerLookup ?r phase = Some h" "r2 = enqueueAndDrain h t 0 ?r"
      using RecoverDispatch_ok [OF rd [unfolded None]] free tc by metis
    have "redispatched c phase r r2"
      using enqueue_item_lands h free t same
      by (fastforce simp: redispatched_def enqueueAndDrain_def tc handlerLookup_def)
    then show ?thesis using Some rd None by (simp add: retry_dispatch_def)
  next
    case err: (Some e)
    then have "r2 = ?r" using RecoverDispatch_error rd by metis
    then show ?thesis using wedge_wedges [OF open_bus, of ?r r] same Some rd err by (simp add: retry_dispatch_def)
  qed
qed

text \<open>
  C18. A retry is never silent once the log could be read: either the phase is in a draining
  queue with a trigger of its own correlation and the workflow is no longer paused, or one
  PersonaFailed for the phase is published.
\<close>

theorem retry_dispatches_or_fails:
  assumes "as_retried (e_Payload env) = Some p" and "wt_FromPhase p \<noteq> []" and "\<not> su_closed su"
  shows "wedged su (corr_or_aggregate env) (wt_FromPhase p) r (on_retried su False env r) \<or>
    redispatched (corr_or_aggregate env) (wt_FromPhase p) r (on_retried su False env r)"
proof -
  let ?c = "corr_or_aggregate env"
  let ?known = "resolveWorkflowID (rn_resolver r) ?c"
  let ?id = "case ?known of Some w \<Rightarrow> w | None \<Rightarrow> findWorkflowIDFromEvents (LoadByCorrelation (rn_store r) ?c)"
  let ?r1 = "if ?known = None then WarmCorrelationCache ?c ?id r else r"
  have same: "rn_queues ?r1 = rn_queues r" "rn_published ?r1 = rn_published r" "rn_handlers ?r1 = rn_handlers r"
    by (simp_all add: WarmCorrelationCache_def)
  have eq: "on_retried su False env r = (if ?known = None \<and> ?id = []
      then publishDispatchWedge su ?c (wt_FromPhase p) env ''workflow id unresolvable'' r
      else case getWorkflowDef (rn_resolver ?r1) ?id of
        None \<Rightarrow> publishDispatchWedge su ?c (wt_FromPhase p) env (''workflow def '' @ go_quote ?id @ '' not registered'') ?r1
      | Some def \<Rightarrow> retry_dispatch su ?c (wt_FromPhase p) env (LoadByCorrelation (rn_store r) ?c) def ?r1)"
    using assms(1,2) unfolding on_retried_def Let_def by simp
  show ?thesis
  proof (cases "?known = None \<and> ?id = []")
    case True
    show ?thesis unfolding eq if_P [OF True] by (intro disjI1 wedge_wedges assms(3) refl)
  next
    case False
    show ?thesis unfolding eq if_not_P [OF False]
      using wedge_wedges [OF assms(3) same(1,2)] retry_dispatch_ends [OF assms(3) same] by (cases "getWorkflowDef (rn_resolver ?r1) ?id") (simp_all only: option.case simp_thms)
  qed
qed

definition sample_retry :: envelope where
  "sample_retry = sample_env WorkflowRetried (PWorkflowRetried
     \<lparr>wt_FromPhase = ''qa'', wt_InvalidatedPersonas = [''qa''], wt_Reason = [], wt_Automatic = False\<rparr>)"

definition retry_runner :: runner where
  "retry_runner = (sample_runner (sample_store [done_event ''developer'']))
     \<lparr>rn_handlers := [(''qa'', sample_handler ''qa'')]\<rparr>"

theorem retry_dispatches_or_fails_witness:
  "redispatched ''wf'' ''qa'' retry_runner (on_retried sample_su False sample_retry retry_runner)"
proof -
  have "rn_published (on_retried sample_su False sample_retry retry_runner) = []" by code_simp
  then have "\<not> wedged sample_su ''wf'' ''qa'' retry_runner (on_retried sample_su False sample_retry retry_runner)"
    by (simp add: wedged_def)
  then show ?thesis
    using retry_dispatches_or_fails [of sample_retry _ sample_su retry_runner]
    by (simp add: sample_retry_def as_retried_def sample_env_def sample_su_def corr_or_aggregate_def)
qed

section \<open>Registration\<close>

text \<open>A second registration makes the first token void: its subscriptions stay for good.\<close>

lemma RegisterHandler_effect:
  "\<exists>ids extra. let gen = Suc (vget 0 (rn_dynamicGen r) (h_Name h)); r' = snd (RegisterHandler h hin r) in
     fst (RegisterHandler h hin r) = (h_Name h, gen, ids) \<and> rn_subs r' = rn_subs r @ extra \<and>
     rn_dynamicGen r' = (rn_dynamicGen r)(h_Name h \<mapsto> gen)"
  by (simp add: RegisterHandler_def subscribe_all_def registerHinter_def Let_def)

lemma reregistration_leaks:
  assumes "h_Name h' = h_Name h"
  shows "let (t1, r1) = RegisterHandler h hin r; r2 = snd (RegisterHandler h' hin' r1) in
    unsubscribe t1 r2 = r2 \<and> (\<exists>extra. rn_subs r2 = rn_subs r1 @ extra)"
proof -
  obtain t1 r1 where 1: "RegisterHandler h hin r = (t1, r1)" by (metis surj_pair)
  show ?thesis using RegisterHandler_effect [of r h hin] RegisterHandler_effect [of r1 h' hin'] assms
    unfolding 1 by (auto simp: Let_def unsubscribe_def vget_def)
qed

end
