(* ===== verification/Projections.thy ===== *)
theory Projections imports EventStore begin

text \<open>
  \<open>internal/projection\<close>: the read models that status queries and the recovery scan use.
  Each projector folds events into rows; the runner first replays the log in batches and then
  follows the bus. \<open>row_projection\<close> is the contract of a projector whose rows are keyed: an
  event changes the row of its key only. A time is a number of nanoseconds and 0 is
  \<open>time.Time{}\<close>; a \<open>Handle\<close> returns whether it succeeded, and the new state.
\<close>

section \<open>The contract of a keyed projector\<close>

locale row_projection =
  fixes step :: "envelope \<Rightarrow> 's \<Rightarrow> 's" and keyed :: "envelope \<Rightarrow> 'k option" and row :: "'s \<Rightarrow> 'k \<Rightarrow> 'v"
  assumes acts_on_row: "\<exists>f. \<forall>s k. row (step e s) k = (if keyed e = Some k then f (row s k) k else row s k)"
begin

lemma other_row: "keyed e \<noteq> Some k \<Longrightarrow> row (step e s) k = row s k"
  using acts_on_row [of e] by (elim exE) simp

lemma row_step:
  assumes "row s k = row s' k"
  shows "row (step e s) k = row (step e s') k"
proof -
  obtain f where "\<And>s k. row (step e s) k = (if keyed e = Some k then f (row s k) k else row s k)"
    using acts_on_row [of e] by blast
  then show ?thesis by (simp only: assms)
qed

lemma row_fold: "row s k = row s' k \<Longrightarrow> row (fold step es s) k = row (fold step es s') k"
proof (induction es arbitrary: s s')
  case (Cons e es)
  show ?case unfolding fold_simps by (rule Cons.IH, rule row_step, rule Cons.prems)
qed simp

text \<open>A row depends on the events of its key only, in their order.\<close>

lemma row_local: "row (fold step es s) k = row (fold step (filter (\<lambda>e. keyed e = Some k) es) s) k"
proof (induction es arbitrary: s)
  case (Cons e es)
  show ?case
  proof (cases "keyed e = Some k")
    case False
    then have "row (fold step es (step e s)) k = row (fold step es s) k"
      by (intro row_fold other_row)
    then show ?thesis using False Cons.IH by simp
  qed (simp add: Cons.IH)
qed simp

lemma row_interleaving:
  "filter (\<lambda>e. keyed e = Some k) es = filter (\<lambda>e. keyed e = Some k) fs \<Longrightarrow>
     row (fold step es s) k = row (fold step fs s) k"
  by (subst (1 2) row_local) (simp only:)

end

section \<open>Workflow status\<close>

record status_row =
  sr_AggregateID :: string
  sr_WorkflowID :: string
  sr_Status :: string
  sr_Prompt :: string
  sr_Source :: string
  sr_Ticket :: string
  sr_Phases :: "string list"
  sr_StartedAt :: int
  sr_CompletedAt :: int
  sr_FailReason :: string
  sr_FailureKind :: string
  sr_FailBackend :: string
  sr_FailStderr :: string
  sr_FailPersona :: string
  sr_PendingHintsCount :: int

record status_projection =
  sp_workflows :: "(string, status_row) gomap"
  sp_hintPersonas :: "string \<rightharpoonup> (string, unit) gomap"

definition NewWorkflowStatusProjection :: status_projection where
  "NewWorkflowStatusProjection = \<lparr>sp_workflows = [], sp_hintPersonas = Map.empty\<rparr>"

definition new_status_row :: "string \<Rightarrow> status_row" where
  "new_status_row a = \<lparr>sr_AggregateID = a, sr_WorkflowID = [], sr_Status = [], sr_Prompt = [], sr_Source = [],
     sr_Ticket = [], sr_Phases = [], sr_StartedAt = 0, sr_CompletedAt = 0, sr_FailReason = [],
     sr_FailureKind = [], sr_FailBackend = [], sr_FailStderr = [], sr_FailPersona = [], sr_PendingHintsCount = 0\<rparr>"

text \<open>\<open>getOrCreate\<close>, and an assignment through the pointer it returns.\<close>

definition status_getOrCreate :: "status_projection \<Rightarrow> string \<Rightarrow> status_row" where
  "status_getOrCreate sp a = mget (new_status_row a) (sp_workflows sp) a"

definition status_update :: "string \<Rightarrow> (status_row \<Rightarrow> status_row) \<Rightarrow> status_projection \<Rightarrow> status_projection" where
  "status_update a f sp = sp\<lparr>sp_workflows := mput (sp_workflows sp) a (f (status_getOrCreate sp a))\<rparr>"

definition syncHintCount :: "string \<Rightarrow> status_projection \<Rightarrow> status_projection" where
  "syncHintCount a sp =
     status_update a (\<lambda>ws. ws\<lparr>sr_PendingHintsCount := int (length (vget [] (sp_hintPersonas sp) a))\<rparr>) sp"

definition handleHintEmitted :: "envelope \<Rightarrow> status_projection \<Rightarrow> bool \<times> status_projection" where
  "handleHintEmitted env sp = (case as_hint (e_Payload env) of None \<Rightarrow> (False, sp)
     | Some h \<Rightarrow> (let a = e_CorrelationID env in if a = [] then (True, sp)
         else (True, syncHintCount a (sp\<lparr>sp_hintPersonas := (sp_hintPersonas sp)(a \<mapsto>
                mput (vget [] (sp_hintPersonas sp) a) (he_Persona h) ())\<rparr>))))"

definition removeHintPersona :: "envelope \<Rightarrow> string \<Rightarrow> status_projection \<Rightarrow> status_projection" where
  "removeHintPersona env persona sp = (let a = corr_or_aggregate env in
     syncHintCount a (case sp_hintPersonas sp a of None \<Rightarrow> sp
       | Some m \<Rightarrow> sp\<lparr>sp_hintPersonas := (sp_hintPersonas sp)(a \<mapsto> mdel m persona)\<rparr>))"

definition handleHintApproved :: "envelope \<Rightarrow> status_projection \<Rightarrow> bool \<times> status_projection" where
  "handleHintApproved env sp = (case as_approved (e_Payload env) of None \<Rightarrow> (False, sp)
     | Some h \<Rightarrow> (True, removeHintPersona env (ha_Persona h) sp))"

definition handleHintRejected :: "envelope \<Rightarrow> status_projection \<Rightarrow> bool \<times> status_projection" where
  "handleHintRejected env sp = (case as_rejected (e_Payload env) of None \<Rightarrow> (False, sp)
     | Some h \<Rightarrow> (True, removeHintPersona env (hr_Persona h) sp))"

text \<open>The row is created before the payload is read, also when reading it fails.\<close>

definition handle_lifecycle :: "envelope \<Rightarrow> status_projection \<Rightarrow> bool \<times> status_projection" where
  "handle_lifecycle env sp = (let a = e_AggregateID env; upd = (\<lambda>f. (True, status_update a f sp)) in
     case e_Type env of
       WorkflowRequested \<Rightarrow> (case as_requested (e_Payload env) of None \<Rightarrow> (False, status_update a id sp)
         | Some p \<Rightarrow> upd (\<lambda>ws. ws\<lparr>sr_Status := ''requested'', sr_WorkflowID := wr_WorkflowID p, sr_Prompt := wr_Prompt p,
             sr_Source := wr_Source p, sr_Ticket := wr_Ticket p\<rparr>))
     | WorkflowCompleted \<Rightarrow> upd (\<lambda>ws. ws\<lparr>sr_Status := ''completed'', sr_CompletedAt := e_Timestamp env\<rparr>)
     | WorkflowFailed \<Rightarrow> (case as_wf_failed (e_Payload env) of None \<Rightarrow> (False, status_update a id sp)
         | Some p \<Rightarrow> upd (\<lambda>ws. ws\<lparr>sr_Status := ''failed'', sr_CompletedAt := e_Timestamp env, sr_FailReason := wf_Reason p,
             sr_FailPersona := wf_Persona p, sr_FailureKind := failure_kind_name (wf_FailureKind p),
             sr_FailBackend := wf_Backend p, sr_FailStderr := wf_Stderr p\<rparr>))
     | WorkflowCancelled \<Rightarrow> upd (\<lambda>ws. ws\<lparr>sr_Status := ''cancelled'', sr_CompletedAt := e_Timestamp env\<rparr>)
     | WorkflowPaused \<Rightarrow> upd (\<lambda>ws. ws\<lparr>sr_Status := ''paused''\<rparr>)
     | WorkflowResumed \<Rightarrow> upd (\<lambda>ws. ws\<lparr>sr_Status := ''running''\<rparr>)
     | ty \<Rightarrow> if IsWorkflowStarted ty then
           (case as_started (e_Payload env) of None \<Rightarrow> (False, status_update a id sp)
            | Some p \<Rightarrow> upd (\<lambda>ws. ws\<lparr>sr_Status := ''running'', sr_Phases := ws_Phases p, sr_StartedAt := e_Timestamp env\<rparr>))
         else (True, sp))"

definition status_Handle :: "envelope \<Rightarrow> status_projection \<Rightarrow> bool \<times> status_projection" where
  "status_Handle env sp = (case e_Type env of
      HintEmitted \<Rightarrow> handleHintEmitted env sp
    | HintApproved \<Rightarrow> handleHintApproved env sp
    | HintRejected \<Rightarrow> handleHintRejected env sp
    | _ \<Rightarrow> handle_lifecycle env sp)"

definition status_Get :: "status_projection \<Rightarrow> string \<Rightarrow> status_row option" where
  "status_Get sp a = map_of (sp_workflows sp) a"

definition status_All :: "status_projection \<Rightarrow> status_row list" where
  "status_All sp = map snd (sp_workflows sp)"

section \<open>Token usage\<close>

record token_usage =
  tu_AggregateID :: string
  tu_Total :: int
  tu_ByPersona :: "(string, int) gomap"
  tu_ByBackend :: "(string, int) gomap"

definition new_token_usage :: "string \<Rightarrow> token_usage" where
  "new_token_usage a = \<lparr>tu_AggregateID = a, tu_Total = 0, tu_ByPersona = [], tu_ByBackend = []\<rparr>"

definition bump :: "string \<Rightarrow> int \<Rightarrow> (string, int) gomap \<Rightarrow> (string, int) gomap" where
  "bump k n m = mput m k (mget 0 m k + n)"

definition tokens_Handle :: "envelope \<Rightarrow> (string, token_usage) gomap \<Rightarrow> bool \<times> (string, token_usage) gomap" where
  "tokens_Handle env usage = (if e_Type env \<noteq> AIResponseReceived then (True, usage)
     else case as_ai_response (e_Payload env) of None \<Rightarrow> (False, usage)
       | Some p \<Rightarrow> if ar_TokensUsed p = 0 then (True, usage)
           else let a = e_AggregateID env; tu = mget (new_token_usage a) usage a; n = ar_TokensUsed p in
             (True, mput usage a (tu\<lparr>tu_Total := tu_Total tu + n,
                tu_ByPersona := (if ar_Persona p \<noteq> [] then bump (ar_Persona p) n (tu_ByPersona tu) else tu_ByPersona tu),
                tu_ByBackend := (if ar_Backend p \<noteq> [] then bump (ar_Backend p) n (tu_ByBackend tu) else tu_ByBackend tu)\<rparr>)))"

definition tokens_ForWorkflow :: "(string, token_usage) gomap \<Rightarrow> string \<Rightarrow> token_usage \<times> bool" where
  "tokens_ForWorkflow usage c = foldl (\<lambda>(result, found) (aggID, tu).
      if aggID = c \<or> has_prefix aggID (c @ '':'')
      then (result\<lparr>tu_Total := tu_Total result + tu_Total tu,
              tu_ByPersona := foldl (\<lambda>m (k, v). bump k v m) (tu_ByPersona result) (tu_ByPersona tu),
              tu_ByBackend := foldl (\<lambda>m (k, v). bump k v m) (tu_ByBackend result) (tu_ByBackend tu)\<rparr>, True)
      else (result, found)) (new_token_usage c, False) usage"

section \<open>Phase timelines\<close>

record phase_timeline =
  pt_AggregateID :: string
  pt_Persona :: string
  pt_Iterations :: int
  pt_StartedAt :: int
  pt_CompletedAt :: int
  pt_Duration :: int
  pt_Status :: string
  pt_Error :: string
  pt_FailureKind :: string
  pt_Stderr :: string

text \<open>The part after the last \<open>:persona:\<close>, empty when there is none.\<close>

definition personaFromAggregate :: "string \<Rightarrow> string" where
  "personaFromAggregate a = (case last_match (\<lambda>i. has_prefix (drop i a) '':persona:'') [0..<length a] of
      None \<Rightarrow> [] | Some i \<Rightarrow> drop (i + length '':persona:'') a)"

definition new_timeline :: "string \<times> string \<Rightarrow> phase_timeline" where
  "new_timeline k = \<lparr>pt_AggregateID = fst k, pt_Persona = snd k, pt_Iterations = 0, pt_StartedAt = 0,
     pt_CompletedAt = 0, pt_Duration = 0, pt_Status = [], pt_Error = [], pt_FailureKind = [], pt_Stderr = []\<rparr>"

type_synonym timelines = "(string \<times> string, phase_timeline) gomap"

definition timeline_update :: "string \<times> string \<Rightarrow> (phase_timeline \<Rightarrow> phase_timeline) \<Rightarrow> timelines \<Rightarrow> timelines" where
  "timeline_update k f ts = mput ts k (f (mget (new_timeline k) ts k))"

definition millisecond :: int where "millisecond = 1000000"

definition finish_phase :: "envelope \<Rightarrow> string \<Rightarrow> int \<Rightarrow> phase_timeline \<Rightarrow> phase_timeline" where
  "finish_phase env status durationMS pt = (let d = durationMS * millisecond in
     pt\<lparr>pt_Status := status, pt_CompletedAt := e_Timestamp env, pt_Duration := d,
        pt_StartedAt := (if pt_StartedAt pt = 0 then e_Timestamp env - d else pt_StartedAt pt)\<rparr>)"

definition timeline_Handle :: "envelope \<Rightarrow> timelines \<Rightarrow> bool \<times> timelines" where
  "timeline_Handle env ts = (let c = corr_or_aggregate env in case e_Type env of
      AIRequestSent \<Rightarrow> (let name = personaFromAggregate (e_AggregateID env) in
        if name = [] then (True, ts)
        else (True, timeline_update (c, name) (\<lambda>pt. if pt_Status pt = []
          then pt\<lparr>pt_Status := ''running'', pt_StartedAt := e_Timestamp env\<rparr> else pt) ts))
    | PersonaCompleted \<Rightarrow> (case as_completed (e_Payload env) of None \<Rightarrow> (False, ts)
        | Some p \<Rightarrow> (True, timeline_update (c, pc_Persona p) (\<lambda>pt. finish_phase env ''done'' (pc_DurationMS p)
            (pt\<lparr>pt_Iterations := pt_Iterations pt + 1\<rparr>)) ts))
    | PersonaFailed \<Rightarrow> (case as_failed (e_Payload env) of None \<Rightarrow> (False, ts)
        | Some p \<Rightarrow> (True, timeline_update (c, pf_Persona p) (\<lambda>pt. (finish_phase env ''failed'' (pf_DurationMS p) pt)
            \<lparr>pt_Error := pf_Error p, pt_FailureKind := failure_kind_name (pf_FailureKind p), pt_Stderr := pf_Stderr p\<rparr>) ts))
    | _ \<Rightarrow> (True, ts))"

definition timeline_ForWorkflow :: "timelines \<Rightarrow> string \<Rightarrow> phase_timeline list" where
  "timeline_ForWorkflow ts c = map snd (filter (\<lambda>(k, pt). fst k = c) ts)"

section \<open>Verdicts\<close>

record verdict_record =
  vr_Persona :: string
  vr_SourcePersona :: string
  vr_Outcome :: verdict_outcome
  vr_Summary :: string
  vr_Issues :: "issue list"

definition verdict_Handle ::
    "envelope \<Rightarrow> (string \<rightharpoonup> verdict_record list) \<Rightarrow> bool \<times> (string \<rightharpoonup> verdict_record list)" where
  "verdict_Handle env vs = (if e_Type env \<noteq> VerdictRendered then (True, vs)
     else case as_verdict (e_Payload env) of None \<Rightarrow> (False, vs)
       | Some p \<Rightarrow> (True, vs(e_CorrelationID env \<mapsto> vget [] vs (e_CorrelationID env) @
           [\<lparr>vr_Persona = v_Persona p, vr_SourcePersona = v_SourcePersona p, vr_Outcome = v_Outcome p,
             vr_Summary = v_Summary p, vr_Issues = v_Issues p\<rparr>])))"

definition verdict_ForWorkflow :: "(string \<rightharpoonup> verdict_record list) \<Rightarrow> string \<Rightarrow> verdict_record list" where
  "verdict_ForWorkflow vs c = vget [] vs c"

section \<open>Dwell times\<close>

record dwell_record =
  dw_CorrelationID :: string
  dw_Persona :: string
  dw_Backend :: string
  dw_FirstDropAt :: int
  dw_LastDropAt :: int
  dw_LastReason :: string
  dw_DropsByReason :: "(string, int) gomap"
  dw_StartedAt :: int
  dw_CompletedAt :: int
  dw_Terminal :: string

record dwell_projection =
  dp_workflowStart :: "string \<rightharpoonup> int"
  dp_records :: "(string \<times> string, dwell_record) gomap"

definition NewDwellProjection :: dwell_projection where
  "NewDwellProjection = \<lparr>dp_workflowStart = Map.empty, dp_records = []\<rparr>"

definition BlockedDwell :: "dwell_record \<Rightarrow> int option" where
  "BlockedDwell r = (if dw_FirstDropAt r = 0 \<or> dw_CompletedAt r = 0 then None
     else Some (dw_CompletedAt r - dw_FirstDropAt r))"

definition ExecutionDuration :: "dwell_record \<Rightarrow> int option" where
  "ExecutionDuration r = (if dw_StartedAt r = 0 \<or> dw_CompletedAt r = 0 then None
     else Some (dw_CompletedAt r - dw_StartedAt r))"

definition new_dwell :: "string \<times> string \<Rightarrow> dwell_record" where
  "new_dwell k = \<lparr>dw_CorrelationID = fst k, dw_Persona = snd k, dw_Backend = [], dw_FirstDropAt = 0,
     dw_LastDropAt = 0, dw_LastReason = [], dw_DropsByReason = [], dw_StartedAt = 0, dw_CompletedAt = 0, dw_Terminal = []\<rparr>"

definition dwell_update :: "string \<times> string \<Rightarrow> (dwell_record \<Rightarrow> dwell_record) \<Rightarrow> dwell_projection \<Rightarrow> dwell_projection" where
  "dwell_update k f dp = dp\<lparr>dp_records := mput (dp_records dp) k (f (mget (new_dwell k) (dp_records dp) k))\<rparr>"

definition note_drop :: "envelope \<Rightarrow> string \<Rightarrow> dwell_record \<Rightarrow> dwell_record" where
  "note_drop env reason r = (let t = e_Timestamp env;
      r1 = (if dw_FirstDropAt r = 0 \<or> t < dw_FirstDropAt r then r\<lparr>dw_FirstDropAt := t\<rparr> else r);
      r2 = (if t > dw_LastDropAt r1 then r1\<lparr>dw_LastDropAt := t, dw_LastReason := reason\<rparr> else r1)
    in r2\<lparr>dw_DropsByReason := bump reason 1 (dw_DropsByReason r2)\<rparr>)"

definition dwell_Handle :: "envelope \<Rightarrow> dwell_projection \<Rightarrow> bool \<times> dwell_projection" where
  "dwell_Handle env dp = (let c = corr_or_aggregate env; t = e_Timestamp env in case e_Type env of
      DispatchDropped \<Rightarrow> (case e_Payload env of
          PDispatchDropped p \<Rightarrow> (True, dwell_update (c, dd_Handler p) (note_drop env (dd_DropReason p)) dp)
        | _ \<Rightarrow> (False, dp))
    | DispatchStarted \<Rightarrow> (case e_Payload env of
          PDispatchStarted p \<Rightarrow> (let started = (if ds_SpawnUnixNano p > 0 then ds_SpawnUnixNano p else t) in
            (True, dwell_update (c, ds_Persona p) (\<lambda>r. if dw_StartedAt r = 0 \<or> started < dw_StartedAt r
               then r\<lparr>dw_StartedAt := started\<rparr> else r) dp))
        | _ \<Rightarrow> (False, dp))
    | AIResponseReceived \<Rightarrow> (case as_ai_response (e_Payload env) of None \<Rightarrow> (False, dp)
        | Some p \<Rightarrow> if ar_Persona p = [] then (True, dp)
            else (True, dwell_update (c, ar_Persona p)
              (\<lambda>r. if ar_Backend p \<noteq> [] then r\<lparr>dw_Backend := ar_Backend p\<rparr> else r) dp))
    | PersonaCompleted \<Rightarrow> (case as_completed (e_Payload env) of None \<Rightarrow> (False, dp)
        | Some p \<Rightarrow> (True, dwell_update (c, pc_Persona p) (\<lambda>r. r\<lparr>dw_CompletedAt := t, dw_Terminal := ''completed''\<rparr>) dp))
    | PersonaFailed \<Rightarrow> (case as_failed (e_Payload env) of None \<Rightarrow> (False, dp)
        | Some p \<Rightarrow> (True, dwell_update (c, pf_Persona p) (\<lambda>r. r\<lparr>dw_CompletedAt := t, dw_Terminal := ''failed'',
            dw_Backend := (if dw_Backend r = [] \<and> pf_Backend p \<noteq> [] then pf_Backend p else dw_Backend r)\<rparr>) dp))
    | ty \<Rightarrow> if IsWorkflowStarted ty then (True, dp\<lparr>dp_workflowStart :=
          (case dp_workflowStart dp c of None \<Rightarrow> (dp_workflowStart dp)(c \<mapsto> t)
           | Some cur \<Rightarrow> if t < cur then (dp_workflowStart dp)(c \<mapsto> t) else dp_workflowStart dp)\<rparr>)
        else (True, dp))"

definition dwell_ForWorkflow :: "dwell_projection \<Rightarrow> string \<Rightarrow> dwell_record list" where
  "dwell_ForWorkflow dp c = sort_key dw_Persona (map snd (filter (\<lambda>(k, r). fst k = c) (dp_records dp)))"

text \<open>
  \<open>SummaryByReason\<close>, with durations in whole nanoseconds where the code keeps float64
  seconds; the result is sorted by reason.
\<close>

record reason_dwell =
  rd_Reason :: string
  rd_Drops :: int
  rd_BlockedRecords :: int
  rd_TotalBlocked :: int
  rd_MaxBlocked :: int

definition new_reason :: "string \<Rightarrow> reason_dwell" where
  "new_reason r = \<lparr>rd_Reason = r, rd_Drops = 0, rd_BlockedRecords = 0, rd_TotalBlocked = 0, rd_MaxBlocked = 0\<rparr>"

definition reason_update :: "string \<Rightarrow> (reason_dwell \<Rightarrow> reason_dwell) \<Rightarrow> (string, reason_dwell) gomap \<Rightarrow> (string, reason_dwell) gomap" where
  "reason_update k f agg = mput agg k (f (mget (new_reason k) agg k))"

definition summarize :: "(string, reason_dwell) gomap \<Rightarrow> dwell_record \<Rightarrow> (string, reason_dwell) gomap" where
  "summarize agg r =
     (let agg1 = foldl (\<lambda>a (reason, n). reason_update reason (\<lambda>d. d\<lparr>rd_Drops := rd_Drops d + n\<rparr>) a) agg (dw_DropsByReason r)
      in case BlockedDwell r of None \<Rightarrow> agg1
         | Some dwell \<Rightarrow> if dw_LastReason r = [] then agg1
             else reason_update (dw_LastReason r) (\<lambda>d. d\<lparr>rd_BlockedRecords := rd_BlockedRecords d + 1,
               rd_TotalBlocked := rd_TotalBlocked d + dwell, rd_MaxBlocked := max (rd_MaxBlocked d) dwell\<rparr>) agg1)"

definition SummaryByReason :: "dwell_projection \<Rightarrow> reason_dwell list" where
  "SummaryByReason dp = sort_key rd_Reason (map snd (foldl summarize [] (map snd (dp_records dp))))"

section \<open>The projectors are keyed\<close>

definition status_key :: "envelope \<Rightarrow> string option" where
  "status_key env = (case e_Type env of
      HintEmitted \<Rightarrow> if e_CorrelationID env = [] then None else Some (e_CorrelationID env)
    | HintApproved \<Rightarrow> Some (corr_or_aggregate env)
    | HintRejected \<Rightarrow> Some (corr_or_aggregate env)
    | ty \<Rightarrow> if IsWorkflowStarted ty \<or> ty \<in> {WorkflowRequested, WorkflowCompleted, WorkflowFailed, WorkflowCancelled,
          WorkflowPaused, WorkflowResumed} then Some (e_AggregateID env) else None)"

definition status_row_of :: "status_projection \<Rightarrow> string \<Rightarrow> status_row option \<times> (string, unit) gomap option" where
  "status_row_of sp a = (status_Get sp a, sp_hintPersonas sp a)"

lemma status_update_row:
  "status_row_of (status_update a f sp) k = (if k = a
     then (Some (f (case fst (status_row_of sp a) of None \<Rightarrow> new_status_row a | Some r \<Rightarrow> r)), snd (status_row_of sp a))
     else status_row_of sp k)"
  by (simp add: status_row_of_def status_Get_def status_update_def status_getOrCreate_def mget_def)

lemma hints_update_row:
  "status_row_of (sp\<lparr>sp_hintPersonas := (sp_hintPersonas sp)(a \<mapsto> m)\<rparr>) k =
     (if k = a then (fst (status_row_of sp a), Some m) else status_row_of sp k)"
  by (simp add: status_row_of_def status_Get_def)

lemma syncHintCount_row:
  "status_row_of (syncHintCount a sp) k = (if k = a
     then (Some ((case fst (status_row_of sp a) of None \<Rightarrow> new_status_row a | Some r \<Rightarrow> r)
            \<lparr>sr_PendingHintsCount := int (length (case snd (status_row_of sp a) of None \<Rightarrow> [] | Some m \<Rightarrow> m))\<rparr>),
          snd (status_row_of sp a)) else status_row_of sp k)"
  unfolding syncHintCount_def status_update_row by (simp add: status_row_of_def vget_def)

lemma hint_sets_of_row: "sp_hintPersonas sp a = snd (status_row_of sp a)"
  by (simp add: status_row_of_def)

lemma removeHint_row:
  "status_row_of (removeHintPersona env p sp) k = (if k = corr_or_aggregate env
     then (let old = status_row_of sp k; m' = map_option (\<lambda>m. mdel m p) (snd old) in
        (Some ((case fst old of None \<Rightarrow> new_status_row k | Some r \<Rightarrow> r)
            \<lparr>sr_PendingHintsCount := int (length (case m' of None \<Rightarrow> [] | Some m \<Rightarrow> m))\<rparr>), m'))
     else status_row_of sp k)"
  by (cases "sp_hintPersonas sp (corr_or_aggregate env)")
    (simp_all add: removeHintPersona_def Let_def syncHintCount_row hints_update_row, auto simp: status_row_of_def)

lemma emitHint_row:
  "status_row_of (snd (handleHintEmitted env sp)) k =
     (if as_hint (e_Payload env) \<noteq> None \<and> e_CorrelationID env \<noteq> [] \<and> k = e_CorrelationID env
      then (let old = status_row_of sp k; m' = mput (case snd old of None \<Rightarrow> [] | Some m \<Rightarrow> m) (he_Persona (the (as_hint (e_Payload env)))) () in
        (Some ((case fst old of None \<Rightarrow> new_status_row k | Some r \<Rightarrow> r)\<lparr>sr_PendingHintsCount := int (length m')\<rparr>), Some m'))
      else status_row_of sp k)"
  by (cases "as_hint (e_Payload env)")
    (auto simp: handleHintEmitted_def Let_def syncHintCount_row hints_update_row vget_def hint_sets_of_row)

lemma lifecycle_row:
  "\<exists>f. \<forall>sp k. status_row_of (snd (handle_lifecycle env sp)) k =
     (if status_key env = Some k \<and> e_Type env \<notin> {HintEmitted, HintApproved, HintRejected} then f (status_row_of sp k) k
      else status_row_of sp k)"
proof -
  have upd: "\<exists>f. \<forall>sp k. status_row_of (status_update (e_AggregateID env) g sp) k =
      (if e_AggregateID env = k then f (status_row_of sp k) k else status_row_of sp k)" for g
    by (rule exI [of _ "\<lambda>old k. (Some (g (case fst old of None \<Rightarrow> new_status_row k | Some r \<Rightarrow> r)), snd old)"])
      (auto simp: status_update_row)
  show ?thesis
    by (cases "e_Type env"; cases "e_Payload env")
      (simp_all add: handle_lifecycle_def status_key_def Let_def upd decode_defs)
qed

lemma status_Handle_row:
  "\<exists>f. \<forall>sp k. status_row_of (snd (status_Handle env sp)) k =
     (if status_key env = Some k then f (status_row_of sp k) k else status_row_of sp k)"
proof -
  consider "e_Type env = HintEmitted" | "e_Type env = HintApproved" | "e_Type env = HintRejected"
    | (other) "e_Type env \<notin> {HintEmitted, HintApproved, HintRejected}" by blast
  then show ?thesis
  proof cases
    case 1
    then show ?thesis by (cases "as_hint (e_Payload env)")
      (simp add: status_Handle_def status_key_def emitHint_row, auto simp: status_Handle_def status_key_def emitHint_row Let_def)
  next
    case 2
    then show ?thesis by (cases "as_approved (e_Payload env)")
      (auto simp: status_Handle_def status_key_def handleHintApproved_def removeHint_row Let_def)
  next
    case 3
    then show ?thesis by (cases "as_rejected (e_Payload env)")
      (auto simp: status_Handle_def status_key_def handleHintRejected_def removeHint_row Let_def)
  next
    case other
    then have "status_Handle env = handle_lifecycle env"
      by (intro ext) (simp add: status_Handle_def split: etype.split)
    then show ?thesis using lifecycle_row [of env] other by simp
  qed
qed

interpretation status: row_projection "\<lambda>e s. snd (status_Handle e s)" status_key status_row_of
  by unfold_locales (rule status_Handle_row)

lemma tokens_Handle_row:
  "\<exists>f. \<forall>s k. map_of (snd (tokens_Handle e s)) k =
     (if (if e_Type e = AIResponseReceived then Some (e_AggregateID e) else None) = Some k then f (map_of s k) k else map_of s k)"
proof (cases "e_Type e = AIResponseReceived \<and> as_ai_response (e_Payload e) \<noteq> None")
  case False
  then have "snd (tokens_Handle e s) = s" for s by (auto simp: tokens_Handle_def)
  then show ?thesis by (intro exI [of _ "\<lambda>old k. old"]) simp
next
  case True
  then obtain p where p: "e_Type e = AIResponseReceived" "as_ai_response (e_Payload e) = Some p" by auto
  show ?thesis
  proof (cases "ar_TokensUsed p = 0")
    case True
    with p show ?thesis by (intro exI [of _ "\<lambda>old k. old"]) (simp add: tokens_Handle_def)
  next
    case False
    with p show ?thesis
      by (intro exI [of _ "\<lambda>old k. map_of (snd (tokens_Handle e (case old of None \<Rightarrow> [] | Some v \<Rightarrow> [(k, v)]))) k"])
        (auto simp: tokens_Handle_def Let_def mget_def split: option.split)
  qed
qed

interpretation tokens: row_projection "\<lambda>e s. snd (tokens_Handle e s)"
  "\<lambda>e. if e_Type e = AIResponseReceived then Some (e_AggregateID e) else None" map_of
  by unfold_locales (rule tokens_Handle_row)

definition timeline_key :: "envelope \<Rightarrow> (string \<times> string) option" where
  "timeline_key e = (case e_Type e of
      AIRequestSent \<Rightarrow> Some (corr_or_aggregate e, personaFromAggregate (e_AggregateID e))
    | PersonaCompleted \<Rightarrow> map_option (\<lambda>p. (corr_or_aggregate e, pc_Persona p)) (as_completed (e_Payload e))
    | PersonaFailed \<Rightarrow> map_option (\<lambda>p. (corr_or_aggregate e, pf_Persona p)) (as_failed (e_Payload e))
    | _ \<Rightarrow> None)"

lemma timeline_Handle_row:
  "\<exists>f. \<forall>ts k. map_of (snd (timeline_Handle e ts)) k = (if timeline_key e = Some k then f (map_of ts k) k else map_of ts k)"
proof -
  have upd: "\<exists>f. \<forall>ts k. map_of (timeline_update key g ts) k = (if key = k then f (map_of ts k) k else map_of ts k)" for key g
    by (rule exI [of _ "\<lambda>old k. Some (g (case old of None \<Rightarrow> new_timeline k | Some r \<Rightarrow> r))"])
      (auto simp: timeline_update_def mget_def split: option.split)
  have keep: "\<exists>f. \<forall>ts k. map_of ts k = (if key = k then f (map_of ts k) k else map_of ts k)"
    for key :: "string \<times> string"
    by (rule exI [of _ "\<lambda>old k. old"]) simp
  consider "e_Type e = AIRequestSent" | "e_Type e = PersonaCompleted" | "e_Type e = PersonaFailed"
    | (other) "e_Type e \<notin> {AIRequestSent, PersonaCompleted, PersonaFailed}" by blast
  then show ?thesis
  proof cases
    case 1
    then show ?thesis
      by (cases "personaFromAggregate (e_AggregateID e) = []")
        (simp_all add: timeline_Handle_def timeline_key_def Let_def upd keep split del: if_split del: split_paired_All)
  next
    case 2
    then show ?thesis
      by (cases "as_completed (e_Payload e)") (simp_all add: timeline_Handle_def timeline_key_def Let_def upd keep split del: if_split del: split_paired_All)
  next
    case 3
    then show ?thesis
      by (cases "as_failed (e_Payload e)") (simp_all add: timeline_Handle_def timeline_key_def Let_def upd keep split del: if_split del: split_paired_All)
  next
    case other
    then have "timeline_Handle e ts = (True, ts)" "timeline_key e = None" for ts
      by (simp_all add: timeline_Handle_def timeline_key_def Let_def split: etype.split)
    then show ?thesis by (intro exI [of _ "\<lambda>old k. old"]) simp
  qed
qed

interpretation timeline: row_projection "\<lambda>e s. snd (timeline_Handle e s)" timeline_key map_of
  by unfold_locales (rule timeline_Handle_row)

lemma verdict_Handle_row:
  "\<exists>f. \<forall>s k. snd (verdict_Handle e s) k =
     (if (if e_Type e = VerdictRendered then Some (e_CorrelationID e) else None) = Some k then f (s k) k else s k)"
proof (cases "e_Type e = VerdictRendered \<and> as_verdict (e_Payload e) \<noteq> None")
  case False
  then have "snd (verdict_Handle e s) = s" for s by (auto simp: verdict_Handle_def)
  then show ?thesis by (intro exI [of _ "\<lambda>old k. old"]) simp
next
  case True
  then show ?thesis
    by (intro exI [of _ "\<lambda>old k. snd (verdict_Handle e (\<lambda>k. old)) k"]) (auto simp: verdict_Handle_def vget_def)
qed

interpretation verdicts: row_projection "\<lambda>e s. snd (verdict_Handle e s)"
  "\<lambda>e. if e_Type e = VerdictRendered then Some (e_CorrelationID e) else None" "\<lambda>s. s"
  by unfold_locales (rule verdict_Handle_row)

definition dwell_row :: "dwell_projection \<Rightarrow> string \<Rightarrow> int option \<times> (string \<rightharpoonup> dwell_record)" where
  "dwell_row s c = (dp_workflowStart s c, \<lambda>p. map_of (dp_records s) (c, p))"

lemma dwell_update_row:
  "dwell_row (dwell_update (c, p) f s) k = (if k = c
     then (fst (dwell_row s k), (snd (dwell_row s k))(p \<mapsto> f (case snd (dwell_row s k) p of None \<Rightarrow> new_dwell (c, p) | Some r \<Rightarrow> r)))
     else dwell_row s k)"
  by (auto simp: dwell_row_def dwell_update_def mget_def fun_eq_iff)

lemma dwell_start_row:
  "dwell_row (s\<lparr>dp_workflowStart := (case dp_workflowStart s c of None \<Rightarrow> (dp_workflowStart s)(c \<mapsto> t)
      | Some cur \<Rightarrow> if t < cur then (dp_workflowStart s)(c \<mapsto> t) else dp_workflowStart s)\<rparr>) k =
   (if k = c then (case fst (dwell_row s k) of None \<Rightarrow> (Some t, snd (dwell_row s k))
      | Some cur \<Rightarrow> if t < cur then (Some t, snd (dwell_row s k)) else dwell_row s k) else dwell_row s k)"
  by (auto simp: dwell_row_def split: option.split)

lemma dwell_Handle_row:
  "\<exists>f. \<forall>s k. dwell_row (snd (dwell_Handle env s)) k =
     (if corr_or_aggregate env = k then f (dwell_row s k) else dwell_row s k)"
proof -
  have upd: "\<exists>f. \<forall>s k. dwell_row (dwell_update (c, p) g s) k = (if c = k then f (dwell_row s k) else dwell_row s k)" for c p g
    by (rule exI [of _ "\<lambda>old. (fst old, (snd old)(p \<mapsto> g (case snd old p of None \<Rightarrow> new_dwell (c, p) | Some r \<Rightarrow> r)))"])
      (auto simp: dwell_update_row)
  have start: "\<exists>f. \<forall>s k. dwell_row (s\<lparr>dp_workflowStart := (case dp_workflowStart s c of None \<Rightarrow> (dp_workflowStart s)(c \<mapsto> t)
      | Some cur \<Rightarrow> if t < cur then (dp_workflowStart s)(c \<mapsto> t) else dp_workflowStart s)\<rparr>) k =
      (if c = k then f (dwell_row s k) else dwell_row s k)" for c t
    by (rule exI [of _ "\<lambda>old. case fst old of None \<Rightarrow> (Some t, snd old) | Some cur \<Rightarrow> if t < cur then (Some t, snd old) else old"])
      (auto simp: dwell_start_row)
  have keep: "\<exists>f. \<forall>s k. dwell_row s k = (if c = k then f (dwell_row s k) else dwell_row s k)" for c
    by (rule exI [of _ id]) simp
  have ai: "\<exists>f. \<forall>s k. dwell_row (snd (if b then (True, s) else (True, dwell_update (c, p) g s))) k =
      (if c = k then f (dwell_row s k) else dwell_row s k)" for b c p g
    by (cases b) (simp_all only: if_True if_False snd_conv keep upd)
  have other: "\<exists>f. \<forall>s k. dwell_row (snd (if b then (True, s\<lparr>dp_workflowStart := (case dp_workflowStart s c of
        None \<Rightarrow> (dp_workflowStart s)(c \<mapsto> t)
      | Some cur \<Rightarrow> if t < cur then (dp_workflowStart s)(c \<mapsto> t) else dp_workflowStart s)\<rparr>) else (True, s))) k =
      (if c = k then f (dwell_row s k) else dwell_row s k)" for b c t
    by (cases b) (simp_all only: if_True if_False snd_conv keep start)
  show ?thesis
    by (cases "e_Type env"; cases "e_Payload env")
      (simp_all add: dwell_Handle_def Let_def decode_defs upd start keep ai other split del: if_split)
qed

interpretation dwell: row_projection "\<lambda>e s. snd (dwell_Handle e s)" "\<lambda>e. Some (corr_or_aggregate e)" dwell_row
proof unfold_locales
  fix e :: envelope
  obtain f where "\<forall>s k. dwell_row (snd (dwell_Handle e s)) k =
     (if corr_or_aggregate e = k then f (dwell_row s k) else dwell_row s k)" using dwell_Handle_row [of e] by blast
  then show "\<exists>f. \<forall>s k. dwell_row (snd (dwell_Handle e s)) k =
     (if Some (corr_or_aggregate e) = Some k then f (dwell_row s k) k else dwell_row s k)"
    by (intro exI [of _ "\<lambda>old k. f old"]) simp
qed

end
