(* ===== verification/ProjectionRuns.thy ===== *)
theory ProjectionRuns imports Projections begin

text \<open>
  The projection runner (\<open>projection.go\<close>) and what its read models say about the log: the
  catch-up, whatever its batches and failures, folds a prefix of the log exactly once; a row
  depends on the events of its key only; the status row of a workflow agrees with the
  aggregate; the token totals add up.
\<close>

section \<open>The runner\<close>

record read_models =
  rm_status :: status_projection
  rm_tokens :: "(string, token_usage) gomap"
  rm_timelines :: timelines
  rm_verdicts :: "string \<rightharpoonup> verdict_record list"
  rm_dwell :: dwell_projection

definition empty_models :: read_models where
  "empty_models = \<lparr>rm_status = NewWorkflowStatusProjection, rm_tokens = [], rm_timelines = [],
     rm_verdicts = Map.empty, rm_dwell = NewDwellProjection\<rparr>"

text \<open>The error of one projector is logged; the others still see the event.\<close>

definition fanOut :: "envelope \<Rightarrow> read_models \<Rightarrow> read_models" where
  "fanOut env rm = rm\<lparr>rm_status := snd (status_Handle env (rm_status rm)),
     rm_tokens := snd (tokens_Handle env (rm_tokens rm)),
     rm_timelines := snd (timeline_Handle env (rm_timelines rm)),
     rm_verdicts := snd (verdict_Handle env (rm_verdicts rm)),
     rm_dwell := snd (dwell_Handle env (rm_dwell rm))\<rparr>"

definition catchUpBatchSize :: int where "catchUpBatchSize = 500"

definition project_batch :: "(int \<times> envelope) list \<Rightarrow> int \<times> read_models \<Rightarrow> int \<times> read_models" where
  "project_batch batch s = foldl (\<lambda>(_, rm) (pos, env). (pos, fanOut env rm)) s batch"

lemma project_batch_eq:
  "project_batch batch (p, rm) = ((if batch = [] then p else fst (last batch)), fold fanOut (map snd batch) rm)"
  by (induction batch arbitrary: p rm) (auto simp: project_batch_def)

text \<open>
  \<open>catchUp\<close>: \<open>fault p\<close> says that the load after position \<open>p\<close> fails. The
  result is whether it succeeded, the position and the read models.
\<close>

lemma page_advances:
  assumes "batch = LoadAll st p catchUpBatchSize" and "batch \<noteq> []"
  shows "length (filter (\<lambda>(pos, e). pos > fst (last batch)) (positioned (st_events st))) <
    length (filter (\<lambda>(pos, e). pos > p) (positioned (st_events st)))"
proof -
  let ?rows = "filter (\<lambda>(pos, e). pos > p) (positioned (st_events st))"
  have "set batch \<subseteq> set ?rows" unfolding assms(1) by (auto simp: LoadAll_def Let_def dest: in_set_takeD)
  then have l: "last batch \<in> set ?rows" using last_in_set [OF assms(2)] by blast
  then have "fst (last batch) > p" by (auto split: prod.splits)
  then have eq: "filter (\<lambda>(pos, e). pos > fst (last batch)) (positioned (st_events st)) =
      filter (\<lambda>(pos, e). pos > fst (last batch)) ?rows"
    by (auto intro!: filter_cong)
  have "length (filter (\<lambda>(pos, e). pos > fst (last batch)) ?rows) < length ?rows"
    by (rule length_filter_less [OF l]) (simp add: case_prod_beta)
  then show ?thesis unfolding eq .
qed

function catchUp :: "(int \<Rightarrow> bool) \<Rightarrow> store \<Rightarrow> int \<times> read_models \<Rightarrow> bool \<times> int \<times> read_models" where
  "catchUp fault st (p, rm) =
     (if fault p then (False, p, rm)
      else let batch = LoadAll st p catchUpBatchSize in
        if batch = [] then (True, p, rm)
        else let s' = project_batch batch (p, rm) in
          if int (length batch) < catchUpBatchSize then (True, s') else catchUp fault st s')"
  by pat_completeness auto

termination
  by (relation "measure (\<lambda>(fault, st, s). length (filter (\<lambda>(pos, e). pos > fst s) (positioned (st_events st))))")
    (auto simp: project_batch_eq intro: page_advances [OF refl])

section \<open>The catch-up\<close>

declare catchUp.simps [simp del]

lemma positioned_snd [simp]: "map snd (positioned es) = es"
  by (simp add: positioned_def del: upt_Suc)

lemma positioned_nth: "i < length es \<Longrightarrow> positioned es ! i = (int i + 1, es ! i)"
  by (simp add: positioned_def del: upt_Suc)

lemma length_positioned [simp]: "length (positioned es) = length es"
  by (simp add: positioned_def del: upt_Suc)

lemma page_last:
  assumes "n < length es" and "0 < k"
  shows "fst (last (take k (drop n (positioned es)))) = int (min (n + k) (length es))"
proof -
  let ?b = "take k (drop n (positioned es))"
  have ne: "?b \<noteq> []" using assms by simp
  have len: "length ?b = min k (length es - n)" by simp
  have "last ?b = ?b ! (length ?b - 1)" using ne by (rule last_conv_nth)
  also have "\<dots> = positioned es ! (n + (length ?b - 1))" using assms by (subst nth_take) auto
  also have "\<dots> = (int (n + (length ?b - 1)) + 1, es ! (n + (length ?b - 1)))"
    by (rule positioned_nth) (use assms len in auto)
  finally show ?thesis using assms len by auto
qed

lemma catch_up_prefix:
  assumes "n \<le> length (st_events st)"
  shows "\<exists>ok m. catchUp fault st (int n, rm) = (ok, int m, fold fanOut (take (m - n) (drop n (st_events st))) rm) \<and>
     n \<le> m \<and> m \<le> length (st_events st) \<and> (ok \<longrightarrow> m = length (st_events st)) \<and> (ok \<or> fault (int m))"
  using assms
proof (induction "length (st_events st) - n" arbitrary: n rm rule: less_induct)
  case less
  let ?es = "st_events st"
  let ?k = "nat catchUpBatchSize"
  define batch where "batch = LoadAll st (int n) catchUpBatchSize"
  have b: "batch = take ?k (drop n (positioned ?es))"
    by (simp add: batch_def LoadAll_page catchUpBatchSize_def)
  have evs: "map snd batch = take ?k (drop n ?es)"
    unfolding b by (metis drop_map positioned_snd take_map)
  show ?case
  proof (cases "fault (int n) \<or> batch = []")
    case True
    have "batch = [] \<longrightarrow> n = length ?es" using less.prems by (simp add: b catchUpBatchSize_def)
    then show ?thesis using True less.prems
      by (intro exI [of _ "\<not> fault (int n)"] exI [of _ n])
        (auto simp: catchUp.simps [of _ _ "int n"] Let_def batch_def [symmetric])
  next
    case False
    define m where "m = min (n + ?k) (length ?es)"
    have lt: "n < length ?es" using False b by (auto simp: catchUpBatchSize_def)
    then have m: "n < m" "m \<le> length ?es" by (auto simp: m_def catchUpBatchSize_def)
    have pb: "project_batch batch (int n, rm) = (int m, fold fanOut (take (m - n) (drop n ?es)) rm)"
    proof -
      have "take (m - n) (drop n ?es) = map snd batch" unfolding evs m_def by (auto simp: min_def)
      moreover have "fst (last batch) = int m"
        unfolding b m_def by (rule page_last [OF lt]) (simp add: catchUpBatchSize_def)
      ultimately show ?thesis using False by (simp add: project_batch_eq)
    qed
    have cu: "catchUp fault st (int n, rm) = (if int (length batch) < catchUpBatchSize
        then (True, int m, fold fanOut (take (m - n) (drop n ?es)) rm)
        else catchUp fault st (int m, fold fanOut (take (m - n) (drop n ?es)) rm))"
      using False by (simp add: catchUp.simps [of _ _ "int n"] batch_def [symmetric] pb)
    show ?thesis
    proof (cases "int (length batch) < catchUpBatchSize")
      case True
      have "length batch = min ?k (length ?es - n)" by (simp add: b)
      then have "length ?es \<le> n + ?k" using True by (simp add: catchUpBatchSize_def)
      then have "m = length ?es" by (simp add: m_def)
      then show ?thesis using cu True m by (intro exI [of _ True] exI [of _ m]) simp
    next
      case False
      have "length ?es - m < length ?es - n" using m lt by simp
      from less.hyps [OF this m(2), of "fold fanOut (take (m - n) (drop n ?es)) rm"]
      obtain ok m' where IH: "catchUp fault st (int m, fold fanOut (take (m - n) (drop n ?es)) rm) =
          (ok, int m', fold fanOut (take (m' - m) (drop m ?es)) (fold fanOut (take (m - n) (drop n ?es)) rm))"
        "m \<le> m'" "m' \<le> length ?es" "ok \<longrightarrow> m' = length ?es" "ok \<or> fault (int m')"
        by blast
      have "take ((m - n) + (m' - m)) (drop n ?es) = take (m - n) (drop n ?es) @ take (m' - m) (drop (m - n) (drop n ?es))"
        by (rule take_add)
      moreover have "(m - n) + (m' - m) = m' - n" "m - n + n = m" using m IH(2) by simp_all
      ultimately have "take (m' - n) (drop n ?es) = take (m - n) (drop n ?es) @ take (m' - m) (drop m ?es)" by simp
      then show ?thesis using cu False IH m by (intro exI [of _ ok] exI [of _ m']) simp
    qed
  qed
qed

text \<open>
  C38. The catch-up folds a prefix of the log into the read models: every event up to the
  position it reports, each exactly once and in the order of the log, however the log falls into
  batches and wherever a load fails; it always ends, and when it succeeds the prefix is the
  whole log.
\<close>

theorem catch_up_folds_a_prefix:
  assumes "n \<le> length (st_events st)"
  shows "\<exists>ok m. catchUp fault st (int n, rm) = (ok, int m, fold fanOut (take (m - n) (drop n (st_events st))) rm) \<and>
     n \<le> m \<and> m \<le> length (st_events st) \<and> (ok \<longrightarrow> m = length (st_events st)) \<and> (ok \<or> fault (int m))"
  by (rule catch_up_prefix [OF assms])

theorem catch_up_folds_a_prefix_witness:
  "catchUp (\<lambda>p. p > 0) (empty_store\<lparr>st_events := [sample_env WorkflowCompleted (POther [])]\<rparr>) (0, empty_models) =
     (True, 1, fanOut (sample_env WorkflowCompleted (POther [])) empty_models)"
proof -
  let ?st = "empty_store\<lparr>st_events := [sample_env WorkflowCompleted (POther [])]\<rparr>"
  obtain ok m where r: "catchUp (\<lambda>p. p > 0) ?st (int 0, empty_models) =
      (ok, int m, fold fanOut (take (m - 0) (drop 0 (st_events ?st))) empty_models)"
    "m \<le> 1" "ok \<longrightarrow> m = 1" "ok \<or> int m > 0"
    using catch_up_folds_a_prefix [of 0 ?st "\<lambda>p. p > 0" empty_models] by auto
  have "LoadAll ?st 0 catchUpBatchSize = [(1, sample_env WorkflowCompleted (POther []))]"
    by (simp add: LoadAll_def positioned_def catchUpBatchSize_def)
  then have "fst (catchUp (\<lambda>p. p > 0) ?st (int 0, empty_models))"
    by (subst catchUp.simps) (simp add: Let_def project_batch_eq catchUpBatchSize_def)
  then show ?thesis using r by simp
qed

section \<open>The status row and the aggregate\<close>

definition status_name :: "workflow_status \<Rightarrow> string" where
  "status_name s = (case s of StatusRequested \<Rightarrow> ''requested'' | StatusRunning \<Rightarrow> ''running''
     | StatusCompleted \<Rightarrow> ''completed'' | StatusFailed \<Rightarrow> ''failed'' | StatusCancelled \<Rightarrow> ''cancelled''
     | StatusPaused \<Rightarrow> ''paused'')"

definition row_status :: "status_projection \<Rightarrow> string \<Rightarrow> string" where
  "row_status sp a = (case status_Get sp a of None \<Rightarrow> [] | Some r \<Rightarrow> sr_Status r)"

lemma row_status_update: "row_status (status_update b f sp) a = (if a = b then sr_Status (f (status_getOrCreate sp b)) else row_status sp a)"
  by (simp add: row_status_def status_update_def status_Get_def)

lemma row_status_create: "sr_Status (status_getOrCreate sp a) = row_status sp a"
  by (simp add: row_status_def status_getOrCreate_def status_Get_def mget_def new_status_row_def split: option.split)

lemma row_status_hints [simp]: "row_status (sp\<lparr>sp_hintPersonas := h\<rparr>) a = row_status sp a"
  by (simp add: row_status_def status_Get_def)

lemma row_status_sync [simp]: "row_status (syncHintCount b sp) a = row_status sp a"
  by (simp add: syncHintCount_def row_status_update row_status_create)

lemma row_status_remove [simp]: "row_status (removeHintPersona env p sp) a = row_status sp a"
  by (simp add: removeHintPersona_def Let_def split: option.split)

lemma row_status_emit [simp]: "row_status (snd (handleHintEmitted env sp)) a = row_status sp a"
  by (simp add: handleHintEmitted_def Let_def split: option.split)

text \<open>One event: the row follows the aggregate, except for a retry.\<close>

definition readable :: "envelope \<Rightarrow> bool" where
  "readable e \<longleftrightarrow> payload_fits (e_Type e) (e_Payload e) \<and> (IsWorkflowStarted (e_Type e) \<longrightarrow> as_started (e_Payload e) \<noteq> None)"

lemma row_status_Handle:
  assumes "readable e"
  shows "row_status (snd (status_Handle e sp)) a =
    (if e_AggregateID e = a \<and> e_Type e \<noteq> WorkflowRetried
     then (case status_effect (e_Type e) of None \<Rightarrow> row_status sp a | Some s \<Rightarrow> status_name s) else row_status sp a)"
  using assms unfolding readable_def by (cases "e_Type e")
    (auto simp: status_Handle_def handle_lifecycle_def Let_def row_status_update row_status_create status_effect_def
      status_name_def payload_fits_def handleHintApproved_def handleHintRejected_def split: option.split)

lemma row_status_fold:
  assumes "list_all readable es" and "list_all (\<lambda>e. e_AggregateID e = a \<longrightarrow> e_Type e \<noteq> WorkflowRetried) es"
  shows "row_status (fold (\<lambda>e s. snd (status_Handle e s)) es sp) a =
    (let own = filter (\<lambda>e. e_AggregateID e = a) es in
     if list_ex (\<lambda>e. status_effect (e_Type e) \<noteq> None) own then status_name (w_Status (replay w own)) else row_status sp a)"
  using assms
proof (induction es rule: rev_induct)
  case (snoc e es)
  have "readable e" using snoc.prems by simp
  then show ?case using snoc by (auto simp: row_status_Handle Let_def Apply_Status split: option.splits)
qed simp

lemma models_fold:
  "rm_status (fold fanOut es rm) = fold (\<lambda>e s. snd (status_Handle e s)) es (rm_status rm)"
  "rm_tokens (fold fanOut es rm) = fold (\<lambda>e s. snd (tokens_Handle e s)) es (rm_tokens rm)"
  by (induction es arbitrary: rm) (simp_all add: fanOut_def)

lemma catch_up_all: "catchUp (\<lambda>p. False) st (0, rm) = (True, int (length (st_events st)), fold fanOut (st_events st) rm)"
proof -
  have "\<exists>ok m. catchUp (\<lambda>p. False) st (int 0, rm) = (ok, int m, fold fanOut (take (m - 0) (drop 0 (st_events st))) rm) \<and>
     0 \<le> m \<and> m \<le> length (st_events st) \<and> (ok \<longrightarrow> m = length (st_events st)) \<and> (ok \<or> False)"
    by (rule catch_up_prefix) simp
  then show ?thesis by auto
qed

text \<open>
  C17. After a catch-up the status that the read model shows for a workflow is the status of the
  aggregate replayed from its own stream, provided the payloads can be read and the workflow was
  never retried: \<open>WorkflowRetried\<close> sets the aggregate running, but the projection ignores it.
\<close>

theorem status_row_matches_aggregate:
  assumes "store_ok st" and "list_all readable (st_events st)"
    and "list_all (\<lambda>e. e_Type e \<noteq> WorkflowRetried) (rows_of st a)"
    and "list_ex (\<lambda>e. status_effect (e_Type e) \<noteq> None) (rows_of st a)"
  shows "row_status (rm_status (snd (snd (catchUp (\<lambda>p. False) st (0, empty_models))))) a =
    status_name (w_Status (replay (NewWorkflowAggregate a) (Load st a)))"
proof -
  have "list_all (\<lambda>e. e_AggregateID e = a \<longrightarrow> e_Type e \<noteq> WorkflowRetried) (st_events st)"
    using assms(3) by (auto simp: list_all_iff rows_of_def)
  from row_status_fold [OF assms(2) this, of NewWorkflowStatusProjection "NewWorkflowAggregate a"] show ?thesis
    using assms(1,4) by (simp add: catch_up_all models_fold empty_models_def Load_rows rows_of_def)
qed

theorem status_row_matches_aggregate_witness:
  "row_status (rm_status (snd (snd (catchUp (\<lambda>p. False) (empty_store\<lparr>st_events :=
     [sample_env WorkflowCompleted (POther [])]\<rparr>) (0, empty_models))))) ''wf'' = ''completed''"
proof -
  let ?st = "empty_store\<lparr>st_events := [sample_env WorkflowCompleted (POther [])]\<rparr>"
  have rows: "rows_of ?st ''wf'' = [sample_env WorkflowCompleted (POther [])]" by (simp add: rows_of_def sample_env_def)
  have ok: "store_ok ?st" by (auto simp: store_ok_def rows_of_def sample_env_def first_versions_def)
  have "w_Status (replay (NewWorkflowAggregate ''wf'') (Load ?st ''wf'')) = StatusCompleted"
    unfolding Load_rows [OF ok] rows by (simp add: Apply_Status status_effect_def sample_env_def)
  then show ?thesis
    using status_row_matches_aggregate [OF ok, of "''wf''"] rows
    by (simp add: readable_def payload_fits_def status_effect_def status_name_def sample_env_def empty_store_def)
qed

section \<open>Token totals\<close>

definition total_over :: "(string \<Rightarrow> bool) \<Rightarrow> (string, token_usage) gomap \<Rightarrow> int" where
  "total_over P m = sum_list (map (\<lambda>(k, tu). if P k then tu_Total tu else 0) m)"

lemma total_over_Nil [simp]: "total_over P [] = 0"
  by (simp add: total_over_def)

lemma total_over_put:
  "total_over P (mput m k tu) = total_over P m + (if P k then tu_Total tu - (case map_of m k of None \<Rightarrow> 0 | Some old \<Rightarrow> tu_Total old) else 0)"
  by (induction m) (auto simp: total_over_def mput_def split: option.splits)

lemma tokens_step_total:
  "total_over P (snd (tokens_Handle e m)) = total_over P m +
     (if e_Type e = AIResponseReceived \<and> P (e_AggregateID e) then ai_tokens e else 0)"
  by (auto simp: tokens_Handle_def Let_def total_over_put ai_tokens_def mget_def new_token_usage_def split: option.splits)

lemma tokens_fold_total:
  "total_over P (fold (\<lambda>e s. snd (tokens_Handle e s)) es m) = total_over P m +
     sum_list (map ai_tokens (filter (\<lambda>e. e_Type e = AIResponseReceived \<and> P (e_AggregateID e)) es))"
  by (induction es arbitrary: m) (simp_all add: tokens_step_total)

lemma ForWorkflow_total:
  "tu_Total (fst (tokens_ForWorkflow usage c)) = total_over (\<lambda>k. k = c \<or> has_prefix k (c @ '':'')) usage"
proof -
  have "tu_Total (fst (foldl (\<lambda>(result, found) (aggID, tu).
      if aggID = c \<or> has_prefix aggID (c @ '':'')
      then (result\<lparr>tu_Total := tu_Total result + tu_Total tu,
              tu_ByPersona := foldl (\<lambda>m (k, v). bump k v m) (tu_ByPersona result) (tu_ByPersona tu),
              tu_ByBackend := foldl (\<lambda>m (k, v). bump k v m) (tu_ByBackend result) (tu_ByBackend tu)\<rparr>, True)
      else (result, found)) (r, b) usage)) = tu_Total r + total_over (\<lambda>k. k = c \<or> has_prefix k (c @ '':'')) usage" for r :: token_usage and b
    by (induction usage arbitrary: r b) (auto simp: total_over_def)
  from this [of "new_token_usage c" False] show ?thesis
    unfolding tokens_ForWorkflow_def by (simp add: new_token_usage_def)
qed

text \<open>
  The token total shown for a workflow is the sum of the tokens of every AI response in the
  log whose aggregate is the workflow itself or one of its persona aggregates.
\<close>

theorem token_totals_add_up:
  "tu_Total (fst (tokens_ForWorkflow (rm_tokens (snd (snd (catchUp (\<lambda>p. False) st (0, empty_models))))) c)) =
   sum_list (map ai_tokens (filter (\<lambda>e. e_Type e = AIResponseReceived \<and>
     (e_AggregateID e = c \<or> has_prefix (e_AggregateID e) (c @ '':''))) (st_events st)))"
  by (simp add: catch_up_all models_fold ForWorkflow_total tokens_fold_total empty_models_def)

text \<open>
  The status row of a workflow is decided by its own events alone: two logs that agree on
  the lifecycle and hint events of a workflow, in order, show the same row, whatever other
  workflows did in between.
\<close>

theorem status_row_is_local:
  assumes "filter (\<lambda>e. status_key e = Some a) (st_events st) = filter (\<lambda>e. status_key e = Some a) (st_events st')"
  shows "status_Get (rm_status (snd (snd (catchUp (\<lambda>p. False) st (0, empty_models))))) a =
    status_Get (rm_status (snd (snd (catchUp (\<lambda>p. False) st' (0, empty_models))))) a"
  using status.row_interleaving [OF assms, of NewWorkflowStatusProjection]
  by (simp add: catch_up_all models_fold empty_models_def status_row_of_def)

theorem status_row_is_local_witness:
  "status_Get (rm_status (snd (snd (catchUp (\<lambda>p. False) (empty_store\<lparr>st_events :=
     [sample_env WorkflowCompleted (POther []), (sample_env WorkflowCancelled (POther []))\<lparr>e_AggregateID := ''other''\<rparr>]\<rparr>)
     (0, empty_models))))) ''wf'' =
   status_Get (rm_status (snd (snd (catchUp (\<lambda>p. False) (empty_store\<lparr>st_events :=
     [sample_env WorkflowCompleted (POther [])]\<rparr>) (0, empty_models))))) ''wf''"
  by (rule status_row_is_local) (simp add: status_key_def sample_env_def)

end
