(* ===== verification/Recovery.thy ===== *)
theory Recovery imports EngineLoop RunnerOutcomes ProjectionRuns begin

text \<open>
  \<open>internal/engine/recovery.go\<close>: the scan that runs once at startup. It walks the rows of
  the status read model, replays each running or paused workflow, restores its pause, or hands
  the handlers that are due to \<open>RecoverDispatch\<close>; then it warms the throttle and the queue.
\<close>

section \<open>Reading the log\<close>

record recovery_result =
  rr_Recovered :: int
  rr_PausedRestored :: int
  rr_Errors :: int

definition GetWorkflowDef :: "engine \<Rightarrow> string \<Rightarrow> workflow_def option" where
  "GetWorkflowDef eng i = map_of (en_workflows eng) i"

text \<open>Unlike \<open>loadAggregate\<close> the replay attaches no workflow definition.\<close>

definition replayAggregate :: "bool \<Rightarrow> store \<Rightarrow> string \<Rightarrow> store_error + aggregate" where
  "replayAggregate fault st a = (if fault then Inl ErrDriver else Inr (replay (NewWorkflowAggregate a) (Load st a)))"

definition hint_step :: "(string, unit) gomap \<Rightarrow> envelope \<Rightarrow> (string, unit) gomap" where
  "hint_step pending e = (case e_Type e of
      HintEmitted \<Rightarrow> (case as_hint (e_Payload e) of None \<Rightarrow> pending | Some p \<Rightarrow> mput pending (he_Persona p) ())
    | HintApproved \<Rightarrow> (case as_approved (e_Payload e) of None \<Rightarrow> pending | Some p \<Rightarrow> mdel pending (ha_Persona p))
    | HintRejected \<Rightarrow> (case as_rejected (e_Payload e) of None \<Rightarrow> pending | Some p \<Rightarrow> mdel pending (hr_Persona p))
    | _ \<Rightarrow> pending)"

definition detectHintPending :: "envelope list \<Rightarrow> string list" where
  "detectHintPending events = mkeys (foldl hint_step [] events)"

definition allRequiredDone :: "aggregate \<Rightarrow> workflow_def \<Rightarrow> bool" where
  "allRequiredDone agg def = (if list_ex (\<lambda>req. \<not> isset (w_CompletedPersonas agg) req) (wd_Required def) then False
     else length (wd_Required def) > 0)"

definition completion_of :: "string list \<Rightarrow> envelope \<Rightarrow> bool" where
  "completion_of names e = (e_Type e = PersonaCompleted \<and>
     (case as_completed (e_Payload e) of None \<Rightarrow> False | Some pc \<Rightarrow> pc_Persona pc \<in> set names))"

definition findWorkflowStartedEvent :: "envelope list \<Rightarrow> envelope option" where
  "findWorkflowStartedEvent events = List.find (\<lambda>e. IsWorkflowStarted (e_Type e)) events"

definition findPredecessorCompleted :: "envelope list \<Rightarrow> string list \<Rightarrow> envelope option" where
  "findPredecessorCompleted events predecessors = last_match (completion_of predecessors) events"

definition findLastPersonaCompleted :: "envelope list \<Rightarrow> envelope option" where
  "findLastPersonaCompleted events = last_match (\<lambda>e. e_Type e = PersonaCompleted) events"

definition findLastEventOfType :: "envelope list \<Rightarrow> etype \<Rightarrow> envelope option" where
  "findLastEventOfType events t = last_match (\<lambda>e. e_Type e = t) events"

text \<open>The last index whose element satisfies a test, -1 when there is none.\<close>

definition last_index :: "('a \<Rightarrow> bool) \<Rightarrow> 'a list \<Rightarrow> int" where
  "last_index P xs = (case last_match (\<lambda>i. P (xs ! i)) [0..<length xs] of None \<Rightarrow> - 1 | Some i \<Rightarrow> int i)"

definition isFeedbackRetrigger :: "string \<Rightarrow> workflow_def \<Rightarrow> envelope list \<Rightarrow> bool" where
  "isFeedbackRetrigger handlerName def events = (case map_of (wd_RetriggeredBy def) handlerName of
      None \<Rightarrow> False
    | Some triggers \<Rightarrow> FeedbackGenerated \<in> set triggers \<and>
        last_index (\<lambda>e. e_Type e = FeedbackGenerated) events > last_index (completion_of [handlerName]) events)"

definition eligible_trigger ::
    "aggregate \<Rightarrow> workflow_def \<Rightarrow> envelope list \<Rightarrow> string \<Rightarrow> string list \<Rightarrow> envelope option" where
  "eligible_trigger agg def events handlerName predecessors =
     (if isset (w_CompletedPersonas agg) handlerName then None
      else if isFeedbackRetrigger handlerName def events then findLastEventOfType events FeedbackGenerated
      else if length predecessors = 0 then findWorkflowStartedEvent events
      else if list_ex (\<lambda>pred. \<not> isset (w_CompletedPersonas agg) pred) predecessors then None
      else findPredecessorCompleted events predecessors)"

fun findEligible :: "aggregate \<Rightarrow> workflow_def \<Rightarrow> envelope list \<Rightarrow> (string, string list) gomap \<Rightarrow> (string \<times> envelope) list" where
  "findEligible agg def events [] = []"
| "findEligible agg def events ((handlerName, predecessors) # graph) =
     (case eligible_trigger agg def events handlerName predecessors of
        None \<Rightarrow> findEligible agg def events graph
      | Some trigger \<Rightarrow> (handlerName, trigger) # findEligible agg def events graph)"

definition findEligibleHandlers :: "aggregate \<Rightarrow> workflow_def \<Rightarrow> envelope list \<Rightarrow> (string \<times> envelope) list" where
  "findEligibleHandlers agg def events = findEligible agg def events (wd_Graph def)"

section \<open>One workflow\<close>

text \<open>
  Which loads fail, by workflow id, and which reads of the queue; the join checks inside \<open>RecoverDispatch\<close> take their
  failures from \<open>surround\<close>.
\<close>

record scan_faults =
  sf_load :: "string \<Rightarrow> bool"
  sf_corr :: "string \<Rightarrow> bool"
  sf_queue :: queue_faults

fun dispatch_eligible :: "surround \<Rightarrow> (string \<times> envelope) list \<Rightarrow> int \<times> runner \<Rightarrow> int \<times> runner" where
  "dispatch_eligible su [] s = s"
| "dispatch_eligible su ((handlerName, trigger) # rest) (n, r) =
     (case RecoverDispatch su handlerName trigger r of
        (Some err, r') \<Rightarrow> dispatch_eligible su rest (n, r')
      | (None, r') \<Rightarrow> dispatch_eligible su rest (n + 1, r'))"

definition republish :: "surround \<Rightarrow> envelope option \<Rightarrow> runner \<Rightarrow> runner" where
  "republish su trigger r = (case trigger of None \<Rightarrow> r
     | Some e \<Rightarrow> if su_closed su then r else r\<lparr>rn_published := rn_published r @ [e]\<rparr>)"

text \<open>The number of handlers dispatched and whether a pause was restored, or the error.\<close>

definition recoverWorkflow ::
    "scan_faults \<Rightarrow> surround \<Rightarrow> engine \<Rightarrow> string \<Rightarrow> runner \<Rightarrow> (store_error + int \<times> bool) \<times> runner" where
  "recoverWorkflow sf su eng a r = (case replayAggregate (sf_load sf a) (rn_store r) a of
      Inl err \<Rightarrow> (Inl err, r)
    | Inr agg \<Rightarrow> (case GetWorkflowDef eng (w_WorkflowID agg) of
          None \<Rightarrow> (Inr (0, False), r)
        | Some def \<Rightarrow>
            (let r1 = WarmCorrelationCache a (w_WorkflowID agg) r in
             if w_Status agg = StatusPaused then (Inr (0, True), WarmPauseState a r1)
             else if w_Status agg \<noteq> StatusRunning then (Inr (0, False), r1)
             else if sf_corr sf a then (Inl ErrDriver, r1)
             else let events = LoadByCorrelation (rn_store r) a in
               if length (detectHintPending events) > 0 then (Inr (0, True), WarmPauseState a r1)
               else if allRequiredDone agg def
               then (Inr (0, False), republish su (findLastPersonaCompleted events) r1)
               else (case dispatch_eligible su (findEligibleHandlers agg def events) (0, r1) of
                 (n, r2) \<Rightarrow> (Inr (n, False), r2)))))"

section \<open>The scan\<close>

definition recover_row ::
    "scan_faults \<Rightarrow> surround \<Rightarrow> engine \<Rightarrow> recovery_result \<times> string list \<times> runner \<Rightarrow> status_row \<Rightarrow> recovery_result \<times> string list \<times> runner" where
  "recover_row sf su eng = (\<lambda>(result, runningIDs, r) ws.
     if sr_Status ws \<notin> {''running'', ''paused''} then (result, runningIDs, r)
     else let ids = runningIDs @ [sr_AggregateID ws] in
       (case recoverWorkflow sf su eng (sr_AggregateID ws) r of
          (Inl err, r') \<Rightarrow> (result\<lparr>rr_Errors := rr_Errors result + 1\<rparr>, ids, r')
        | (Inr (recovered, paused), r') \<Rightarrow>
            (result\<lparr>rr_Recovered := rr_Recovered result + recovered,
               rr_PausedRestored := rr_PausedRestored result + (if paused then 1 else 0)\<rparr>, ids, r')))"

definition Recover ::
    "scan_faults \<Rightarrow> surround \<Rightarrow> int \<Rightarrow> status_projection \<Rightarrow> engine \<times> runner \<Rightarrow> recovery_result \<times> engine \<times> runner" where
  "Recover sf su now sp = (\<lambda>(eng, r).
     (case foldl (recover_row sf su eng) (\<lparr>rr_Recovered = 0, rr_PausedRestored = 0, rr_Errors = 0\<rparr>, [], r) (status_All sp) of
        (result, runningIDs, r') \<Rightarrow> (result, LoadQueuedWorkflows (sf_queue sf) (WarmThrottle now runningIDs eng), r')))"

section \<open>Dispatching the eligible handlers\<close>



lemma push_draining [simp]: "dq_draining (push item q) = dq_draining q"
  by (simp add: push_def Let_def)



text \<open>What a dispatch reads is not changed by the dispatches before it.\<close>

definition dispatch_view :: "runner \<Rightarrow> store \<times> resolver \<times> hookRegistry \<times> pauseController \<times> (string, handler) gomap" where
  "dispatch_view r = (rn_store r, rn_resolver r, rn_hooks r, rn_pauser r, rn_handlers r)"

lemma view_enqueue [simp]: "dispatch_view (enqueueAndDrain h e d r) = dispatch_view r"
  by (simp add: dispatch_view_def enqueueAndDrain_def enqueue_item_def Let_def split: prod.split)













section \<open>What is due, read off the log\<close>























section \<open>Nothing that is done is dispatched again\<close>







section \<open>Pending hints\<close>

definition pending_count :: "status_projection \<Rightarrow> string \<Rightarrow> int" where
  "pending_count sp c = (case status_Get sp c of None \<Rightarrow> 0 | Some r \<Rightarrow> sr_PendingHintsCount r)"

lemma pending_update:
  "pending_count (status_update a f sp) c = (if c = a then sr_PendingHintsCount (f (status_getOrCreate sp a)) else pending_count sp c)"
  by (simp add: pending_count_def status_update_def status_Get_def)

lemma pending_create: "sr_PendingHintsCount (status_getOrCreate sp a) = pending_count sp a"
  by (simp add: pending_count_def status_getOrCreate_def status_Get_def mget_def new_status_row_def split: option.split)

lemma pending_hints [simp]: "pending_count (sp\<lparr>sp_hintPersonas := h\<rparr>) c = pending_count sp c"
  by (simp add: pending_count_def status_Get_def)

lemma pending_sync: "pending_count (syncHintCount a sp) c =
    (if c = a then int (length (vget [] (sp_hintPersonas sp) a)) else pending_count sp c)"
  by (simp add: syncHintCount_def pending_update)

lemma sync_hints [simp]: "sp_hintPersonas (syncHintCount a sp) = sp_hintPersonas sp"
  by (simp add: syncHintCount_def status_update_def)

lemma lifecycle_hints:
  "sp_hintPersonas (snd (handle_lifecycle e sp)) = sp_hintPersonas sp"
  "pending_count (snd (handle_lifecycle e sp)) c = pending_count sp c"
  by (cases "e_Type e"; simp add: handle_lifecycle_def Let_def status_update_def split: option.split)
    (cases "e_Type e"; simp add: handle_lifecycle_def Let_def pending_update pending_create split: option.split)

text \<open>The projection and the scan keep the same set of personas.\<close>

definition hints_agree :: "string \<Rightarrow> status_projection \<Rightarrow> (string, unit) gomap \<Rightarrow> bool" where
  "hints_agree c sp pending \<longleftrightarrow> vget [] (sp_hintPersonas sp) c = pending \<and> pending_count sp c = int (length pending)"

definition is_hint :: "envelope \<Rightarrow> bool" where
  "is_hint e \<longleftrightarrow> e_Type e = HintEmitted \<or> e_Type e = HintApproved \<or> e_Type e = HintRejected"

lemma remove_hint_agree:
  assumes "hints_agree c sp pending" and "c \<noteq> []"
  shows "hints_agree c (removeHintPersona e p sp) (if corr_or_aggregate e = c then mdel pending p else pending)"
  using assms by (cases "sp_hintPersonas sp (corr_or_aggregate e)")
    (auto simp: hints_agree_def removeHintPersona_def Let_def pending_sync vget_def mdel_def split: if_splits)

lemma emit_hint_agree:
  assumes "hints_agree c sp pending" and "c \<noteq> []"
  shows "hints_agree c (snd (handleHintEmitted e sp)) (case as_hint (e_Payload e) of None \<Rightarrow> pending
     | Some h \<Rightarrow> if e_CorrelationID e = c then mput pending (he_Persona h) () else pending)"
  using assms by (auto simp: hints_agree_def handleHintEmitted_def Let_def pending_sync split: option.splits)

lemma Handle_hint_agree:
  assumes "hints_agree c sp pending" and "c \<noteq> []" and "is_hint e \<longrightarrow> e_CorrelationID e \<noteq> []"
  shows "hints_agree c (snd (status_Handle e sp)) (if e_CorrelationID e = c then hint_step pending e else pending)"
proof (cases "is_hint e")
  case False
  then have "status_Handle e sp = handle_lifecycle e sp" "hint_step pending e = pending"
    by (auto simp: is_hint_def status_Handle_def hint_step_def split: etype.split)
  then show ?thesis using assms(1) by (simp add: hints_agree_def lifecycle_hints)
next
  case True
  then have "corr_or_aggregate e = e_CorrelationID e" using assms(3) by (simp add: corr_or_aggregate_def)
  with True show ?thesis
    using remove_hint_agree [OF assms(1,2), of e] emit_hint_agree [OF assms(1,2), of e] assms(1)
    by (auto simp: is_hint_def status_Handle_def hint_step_def handleHintApproved_def handleHintRejected_def split: option.splits if_splits)
qed

text \<open>
  The number of pending hints that the read model shows for a workflow is the number of
  personas the recovery scan finds hint-pending in the log, when every hint event carries its
  correlation: a restart pauses exactly the workflows that show one.
\<close>

theorem pending_hints_agree:
  assumes "c \<noteq> []" and "list_all (\<lambda>e. is_hint e \<longrightarrow> e_CorrelationID e \<noteq> []) (st_events st)"
  shows "pending_count (rm_status (snd (snd (catchUp (\<lambda>p. False) st (0, empty_models))))) c =
    int (length (detectHintPending (LoadByCorrelation st c)))"
proof -
  have "hints_agree c (fold (\<lambda>e s. snd (status_Handle e s)) es sp) (foldl hint_step pending (filter (\<lambda>e. e_CorrelationID e = c) es))"
    if "list_all (\<lambda>e. is_hint e \<longrightarrow> e_CorrelationID e \<noteq> []) es" "hints_agree c sp pending" for es sp pending
    using that
  proof (induction es arbitrary: sp pending)
    case (Cons e es)
    then show ?case using Handle_hint_agree [OF Cons.prems(2) assms(1), of e] by (auto split: if_splits)
  qed simp
  from this [OF assms(2), of NewWorkflowStatusProjection "[]"] show ?thesis
    by (simp add: catch_up_all models_fold empty_models_def hints_agree_def LoadByCorrelation_def detectHintPending_def
        NewWorkflowStatusProjection_def pending_count_def status_Get_def)
qed

theorem pending_hints_agree_witness:
  "pending_count (rm_status (snd (snd (catchUp (\<lambda>p. False) (empty_store\<lparr>st_events :=
     [sample_env HintEmitted (PHintEmitted zero_hint)]\<rparr>) (0, empty_models))))) ''wf'' =
   int (length (detectHintPending (LoadByCorrelation (empty_store\<lparr>st_events :=
     [sample_env HintEmitted (PHintEmitted zero_hint)]\<rparr>) ''wf'')))"
  by (rule pending_hints_agree) (simp_all add: is_hint_def sample_env_def)

section \<open>What the scan misses\<close>

definition retried_log :: "envelope list" where
  "retried_log = sample_log [
     sample_env WorkflowRequested (PWorkflowRequested (zero_requested\<lparr>wr_WorkflowID := ''workspace-dev''\<rparr>)),
     sample_env (WorkflowStartedFor ''workspace-dev'') (PWorkflowStarted \<lparr>ws_WorkflowID = ''workspace-dev'', ws_Phases = [],
       ws_Source = [], ws_Ticket = [], ws_Prompt = []\<rparr>),
     sample_env WorkflowFailed (PWorkflowFailed \<lparr>wf_Reason = [], wf_Persona = ''workspace'', wf_FailureKind = FailureKindHandlerError,
       wf_Backend = [], wf_Stderr = []\<rparr>),
     sample_env WorkflowRetried (PWorkflowRetried (zero_retried\<lparr>wt_FromPhase := ''workspace''\<rparr>))]"

text \<open>
  A workflow that failed and was then retried is running, but its row still says
  \<open>failed\<close>: after a restart the scan passes over it, and nothing dispatches it again.
\<close>

theorem retried_workflow_not_recovered:
  "let st = empty_store\<lparr>st_events := retried_log\<rparr>;
       sp = fold (\<lambda>e s. snd (status_Handle e s)) (st_events st) NewWorkflowStatusProjection
   in w_Status (replay (NewWorkflowAggregate ''wf'') (Load st ''wf'')) = StatusRunning \<and>
      row_status sp ''wf'' = ''failed'' \<and>
      Recover sf su now sp (eng, r) = (\<lparr>rr_Recovered = 0, rr_PausedRestored = 0, rr_Errors = 0\<rparr>,
        LoadQueuedWorkflows (sf_queue sf) (WarmThrottle now [] eng), r)"
proof -
  have run: "w_Status (replay (NewWorkflowAggregate ''wf'') (Load (empty_store\<lparr>st_events := retried_log\<rparr>) ''wf'')) = StatusRunning"
    by code_simp
  have row: "map sr_Status (status_All (fold (\<lambda>e s. snd (status_Handle e s)) retried_log NewWorkflowStatusProjection)) = [''failed'']"
    "row_status (fold (\<lambda>e s. snd (status_Handle e s)) retried_log NewWorkflowStatusProjection) ''wf'' = ''failed''"
    by code_simp+
  then obtain ws where "status_All (fold (\<lambda>e s. snd (status_Handle e s)) retried_log NewWorkflowStatusProjection) = [ws]"
    "sr_Status ws = ''failed''" by auto
  then show ?thesis using run row(2) by (simp add: Let_def Recover_def recover_row_def)
qed

text \<open>
  In \<open>pr-review\<close> a reviewer whose failure was absorbed counts as completed for the
  engine, whose replay carries the workflow definition, but not for the scan, whose replay does
  not: after a restart the skipped reviewer is run again.
\<close>

theorem skipped_reviewer_rerun:
  "let st = empty_store\<lparr>st_events := sample_log [
         sample_env WorkflowRequested (PWorkflowRequested (zero_requested\<lparr>wr_WorkflowID := ''pr-review''\<rparr>)),
         sample_env (WorkflowStartedFor ''pr-review'') (POther []),
         done_event ''pr-workspace'', done_event ''pr-jira-context'', done_event ''pr-diff'',
         sample_env PersonaFailedTracked (PPersonaFailed (zero_failed\<lparr>pf_Persona := ''pr-security''\<rparr>))]\<rparr>;
       scan = replay (NewWorkflowAggregate ''wf'') (Load st ''wf'')
   in map_option (\<lambda>w. isset (w_CompletedPersonas w) ''pr-security'')
        (case loadAggregate False [(''pr-review'', PRReviewWorkflowDef)] st ''wf'' of Inr w \<Rightarrow> Some w | Inl e \<Rightarrow> None) = Some True \<and>
      ''pr-security'' \<in> set (map fst (findEligibleHandlers scan PRReviewWorkflowDef (LoadByCorrelation st ''wf'')))"
  by code_simp

end
