(* ===== verification/EventBus.thy ===== *)
theory EventBus imports EventStore begin

text \<open>
  \<open>internal/eventbus\<close>: the in-process bus (\<open>channel.go\<close>), the polling bus over the event
  store (\<open>outbox.go\<close>) and the handler middleware (\<open>middleware.go\<close>). A handler is a function
  on a world of type \<open>'w\<close>, whatever its subscribers share, and may return an error. The
  publications and the goroutines of the channel bus are steps of one system; \<open>pubsub\<close> is the
  contract of the subscription tables, which both buses keep.
\<close>

section \<open>Subscriptions\<close>

type_synonym 'w hfun = "envelope \<Rightarrow> 'w \<Rightarrow> 'w \<times> go_error option"

record 'w subscription =
  sb_id :: nat
  sb_name :: string
  sb_handler :: "'w hfun"
  sb_sync :: bool

text \<open>The tables of a bus; \<open>tp_counter\<close> is the package's \<open>subCounter\<close>.\<close>

record 'w topics =
  tp_subscribers :: "etype \<Rightarrow> 'w subscription list"
  tp_allSubs :: "'w subscription list"
  tp_middleware :: "('w hfun \<Rightarrow> 'w hfun) option"
  tp_counter :: nat

definition new_topics :: "('w hfun \<Rightarrow> 'w hfun) option \<Rightarrow> 'w topics" where
  "new_topics mw = \<lparr>tp_subscribers = (\<lambda>t. []), tp_allSubs = [], tp_middleware = mw, tp_counter = 0\<rparr>"

definition new_subscription :: "'w topics \<Rightarrow> 'w hfun \<Rightarrow> string \<Rightarrow> bool \<Rightarrow> 'w subscription" where
  "new_subscription tp handler name is_sync = \<lparr>sb_id = Suc (tp_counter tp), sb_name = name,
     sb_handler = (case tp_middleware tp of None \<Rightarrow> handler | Some mw \<Rightarrow> mw handler), sb_sync = is_sync\<rparr>"

text \<open>The token stands for the unsubscribe function: the table and the id it looks for.\<close>

definition Subscribe :: "etype \<Rightarrow> 'w hfun \<Rightarrow> string \<Rightarrow> bool \<Rightarrow> 'w topics \<Rightarrow> (etype option \<times> nat) \<times> 'w topics" where
  "Subscribe t handler name is_sync tp = (let sub = new_subscription tp handler name is_sync in
     ((Some t, sb_id sub), tp\<lparr>tp_subscribers := (tp_subscribers tp)(t := tp_subscribers tp t @ [sub]),
        tp_counter := sb_id sub\<rparr>))"

definition SubscribeAll :: "'w hfun \<Rightarrow> string \<Rightarrow> bool \<Rightarrow> 'w topics \<Rightarrow> (etype option \<times> nat) \<times> 'w topics" where
  "SubscribeAll handler name is_sync tp = (let sub = new_subscription tp handler name is_sync in
     ((None, sb_id sub), tp\<lparr>tp_allSubs := tp_allSubs tp @ [sub], tp_counter := sb_id sub\<rparr>))"

fun remove_sub :: "nat \<Rightarrow> 'w subscription list \<Rightarrow> 'w subscription list" where
  "remove_sub i [] = []"
| "remove_sub i (s # subs) = (if sb_id s = i then subs else s # remove_sub i subs)"

definition Unsubscribe :: "etype option \<times> nat \<Rightarrow> 'w topics \<Rightarrow> 'w topics" where
  "Unsubscribe = (\<lambda>(topic, i) tp. case topic of
      Some t \<Rightarrow> tp\<lparr>tp_subscribers := (tp_subscribers tp)(t := remove_sub i (tp_subscribers tp t))\<rparr>
    | None \<Rightarrow> tp\<lparr>tp_allSubs := remove_sub i (tp_allSubs tp)\<rparr>)"

text \<open>The copies that a publication takes of the two tables.\<close>

definition recipients :: "'w topics \<Rightarrow> etype \<Rightarrow> 'w subscription list" where
  "recipients tp t = tp_subscribers tp t @ tp_allSubs tp"

section \<open>The channel bus\<close>

text \<open>
  \<open>cb_record\<close> says which dead letters the recorder accepts, \<open>None\<close> without one;
  \<open>cb_running\<close> are the goroutines of \<open>dispatch\<close> that have not run yet.
\<close>

record 'w channelBus =
  cb_topics :: "'w topics"
  cb_closed :: bool
  cb_running :: "('w subscription \<times> envelope) list"
  cb_record :: "(dead_letter \<Rightarrow> bool) option"
  cb_dead :: "dead_letter list"

definition NewChannelBus :: "('w hfun \<Rightarrow> 'w hfun) option \<Rightarrow> (dead_letter \<Rightarrow> bool) option \<Rightarrow> 'w channelBus" where
  "NewChannelBus mw recorder = \<lparr>cb_topics = new_topics mw, cb_closed = False, cb_running = [], cb_record = recorder, cb_dead = []\<rparr>"

text \<open>\<open>show_time\<close> is the text of a timestamp; the ids are numbered by the letters written.\<close>

definition dead_letter_for ::
    "(nat \<Rightarrow> string) \<Rightarrow> (int \<Rightarrow> string) \<Rightarrow> nat \<Rightarrow> envelope \<Rightarrow> string \<Rightarrow> go_error \<Rightarrow> dead_letter" where
  "dead_letter_for uid show_time k env name err = \<lparr>dl_ID = uid k, dl_EventID = e_ID env, dl_Handler = name,
     dl_Error = error_text err, dl_Attempts = 1, dl_FailedAt = show_time (e_Timestamp env)\<rparr>"

definition recordDeadLetter ::
    "(nat \<Rightarrow> string) \<Rightarrow> (int \<Rightarrow> string) \<Rightarrow> envelope \<Rightarrow> string \<Rightarrow> go_error \<Rightarrow> 'w channelBus \<Rightarrow> 'w channelBus" where
  "recordDeadLetter uid show_time env name err b = (case cb_record b of None \<Rightarrow> b
     | Some accepts \<Rightarrow> (let dl = dead_letter_for uid show_time (length (cb_dead b)) env name err in
         if accepts dl then b\<lparr>cb_dead := cb_dead b @ [dl]\<rparr> else b))"

text \<open>The handler runs: the body of \<open>dispatchSync\<close> and of the goroutine of \<open>dispatch\<close>.\<close>

definition run_handler ::
    "(nat \<Rightarrow> string) \<Rightarrow> (int \<Rightarrow> string) \<Rightarrow> envelope \<Rightarrow> 'w subscription \<Rightarrow> 'w channelBus \<times> 'w \<Rightarrow> 'w channelBus \<times> 'w" where
  "run_handler uid show_time env sub = (\<lambda>(b, w). case sb_handler sub env w of
      (w', None) \<Rightarrow> (b, w')
    | (w', Some err) \<Rightarrow> (recordDeadLetter uid show_time env (sb_name sub) err b, w'))"

definition dispatch :: "envelope \<Rightarrow> 'w subscription \<Rightarrow> 'w channelBus \<Rightarrow> 'w channelBus" where
  "dispatch env sub b = b\<lparr>cb_running := cb_running b @ [(sub, env)]\<rparr>"

definition deliver_one ::
    "(nat \<Rightarrow> string) \<Rightarrow> (int \<Rightarrow> string) \<Rightarrow> envelope \<Rightarrow> 'w subscription \<Rightarrow> 'w channelBus \<times> 'w \<Rightarrow> 'w channelBus \<times> 'w" where
  "deliver_one uid show_time env sub s =
     (if sb_sync sub then run_handler uid show_time env sub s else (dispatch env sub (fst s), snd s))"

text \<open>\<open>Publish\<close> by itself: whether the bus accepted, and the state when it returns.\<close>

definition Publish ::
    "(nat \<Rightarrow> string) \<Rightarrow> (int \<Rightarrow> string) \<Rightarrow> envelope \<Rightarrow> 'w channelBus \<times> 'w \<Rightarrow> bool \<times> 'w channelBus \<times> 'w" where
  "Publish uid show_time env s = (if cb_closed (fst s) then (False, s)
     else (True, fold (deliver_one uid show_time env) (recipients (cb_topics (fst s)) (e_Type env)) s))"

definition Close :: "'w channelBus \<Rightarrow> 'w channelBus" where
  "Close b = b\<lparr>cb_closed := True\<rparr>"

section \<open>Interleaved publications\<close>

text \<open>
  \<open>bs_pubs\<close> are the calls of \<open>Publish\<close> in progress, each with what is left of its loop, and
  \<open>bs_tokens\<close> the unsubscribe functions handed out so far. Checking the closed flag and
  copying the tables are one step: a close in between has the effect of one right after it.
  The handler call of a goroutine is one step as well.
\<close>

record 'w bus_sys =
  bs_bus :: "'w channelBus"
  bs_world :: 'w
  bs_pubs :: "(envelope \<times> 'w subscription list) list"
  bs_tokens :: "(etype option \<times> nat) list"

definition bus_begin :: "envelope \<Rightarrow> 'w bus_sys \<Rightarrow> 'w bus_sys" where
  "bus_begin env s = (if cb_closed (bs_bus s) then s
     else s\<lparr>bs_pubs := bs_pubs s @ [(env, recipients (cb_topics (bs_bus s)) (e_Type env))]\<rparr>)"

definition drop_nth :: "nat \<Rightarrow> 'a list \<Rightarrow> 'a list" where
  "drop_nth i xs = take i xs @ drop (Suc i) xs"

definition bus_next :: "(nat \<Rightarrow> string) \<Rightarrow> (int \<Rightarrow> string) \<Rightarrow> nat \<Rightarrow> 'w bus_sys \<Rightarrow> 'w bus_sys" where
  "bus_next uid show_time i s = (case bs_pubs s ! i of
      (env, []) \<Rightarrow> s\<lparr>bs_pubs := drop_nth i (bs_pubs s)\<rparr>
    | (env, sub # subs) \<Rightarrow> (case deliver_one uid show_time env sub (bs_bus s, bs_world s) of
        (b, w) \<Rightarrow> s\<lparr>bs_bus := b, bs_world := w, bs_pubs := (bs_pubs s)[i := (env, subs)]\<rparr>))"

definition bus_run :: "(nat \<Rightarrow> string) \<Rightarrow> (int \<Rightarrow> string) \<Rightarrow> nat \<Rightarrow> 'w bus_sys \<Rightarrow> 'w bus_sys" where
  "bus_run uid show_time j s = (case cb_running (bs_bus s) ! j of (sub, env) \<Rightarrow>
     (case run_handler uid show_time env sub ((bs_bus s)\<lparr>cb_running := drop_nth j (cb_running (bs_bus s))\<rparr>, bs_world s) of
       (b, w) \<Rightarrow> s\<lparr>bs_bus := b, bs_world := w\<rparr>))"

definition subscribe_on :: "etype option \<Rightarrow> 'w hfun \<Rightarrow> string \<Rightarrow> bool \<Rightarrow> 'w topics \<Rightarrow> (etype option \<times> nat) \<times> 'w topics" where
  "subscribe_on topic h n y tp = (case topic of Some t \<Rightarrow> Subscribe t h n y tp | None \<Rightarrow> SubscribeAll h n y tp)"

text \<open>
  What clients and the scheduler do: subscribe (to a type, or to all), call the unsubscribe
  function of the n-th subscription, start a publication, let the i-th publication in progress
  go one step on, let the j-th goroutine run, close the bus.
\<close>

datatype 'w bus_act =
    ASubscribe "etype option" "'w hfun" string bool
  | AUnsubscribe nat
  | APublish envelope
  | ANext nat
  | ARun nat
  | AClose

definition with_topics :: "'w topics \<Rightarrow> 'w bus_sys \<Rightarrow> 'w bus_sys" where
  "with_topics tp s = s\<lparr>bs_bus := (bs_bus s)\<lparr>cb_topics := tp\<rparr>\<rparr>"

fun bus_op :: "(nat \<Rightarrow> string) \<Rightarrow> (int \<Rightarrow> string) \<Rightarrow> 'w bus_act \<Rightarrow> 'w bus_sys \<Rightarrow> 'w bus_sys" where
  "bus_op uid show_time (ASubscribe topic h n y) s = (case subscribe_on topic h n y (cb_topics (bs_bus s)) of
     (tok, tp) \<Rightarrow> (with_topics tp s)\<lparr>bs_tokens := bs_tokens s @ [tok]\<rparr>)"
| "bus_op uid show_time (AUnsubscribe n) s = (if n < length (bs_tokens s)
     then with_topics (Unsubscribe (bs_tokens s ! n) (cb_topics (bs_bus s))) s else s)"
| "bus_op uid show_time (APublish env) s = bus_begin env s"
| "bus_op uid show_time (ANext i) s = (if i < length (bs_pubs s) then bus_next uid show_time i s else s)"
| "bus_op uid show_time (ARun j) s = (if j < length (cb_running (bs_bus s)) then bus_run uid show_time j s else s)"
| "bus_op uid show_time AClose s = s\<lparr>bs_bus := Close (bs_bus s)\<rparr>"

definition bus_start_state :: "'w channelBus \<Rightarrow> 'w \<Rightarrow> 'w bus_sys" where
  "bus_start_state b w = \<lparr>bs_bus = b, bs_world = w, bs_pubs = [], bs_tokens = []\<rparr>"

section \<open>The polling bus\<close>

record 'w outboxBus =
  ob_topics :: "'w topics"
  ob_closed :: bool
  ob_notify :: bool
  ob_lastPosition :: int
  ob_batchSize :: int
  ob_record :: "(dead_letter \<Rightarrow> bool) option"
  ob_dead :: "dead_letter list"

definition NewOutboxBus :: "('w hfun \<Rightarrow> 'w hfun) option \<Rightarrow> (dead_letter \<Rightarrow> bool) option \<Rightarrow> int \<Rightarrow> int \<Rightarrow> 'w outboxBus" where
  "NewOutboxBus mw recorder start batchSize = \<lparr>ob_topics = new_topics mw, ob_closed = False, ob_notify = False,
     ob_lastPosition = start, ob_batchSize = batchSize, ob_record = recorder, ob_dead = []\<rparr>"

text \<open>A full notification channel drops the signal; a closed bus refuses.\<close>

definition outbox_Publish :: "'w outboxBus \<Rightarrow> bool \<times> 'w outboxBus" where
  "outbox_Publish b = (if ob_closed b then (False, b) else (True, b\<lparr>ob_notify := True\<rparr>))"

definition outbox_run ::
    "(nat \<Rightarrow> string) \<Rightarrow> (int \<Rightarrow> string) \<Rightarrow> envelope \<Rightarrow> 'w subscription \<Rightarrow> 'w outboxBus \<times> 'w \<Rightarrow> 'w outboxBus \<times> 'w" where
  "outbox_run uid show_time env sub = (\<lambda>(b, w). case sb_handler sub env w of
      (w', None) \<Rightarrow> (b, w')
    | (w', Some err) \<Rightarrow> (case ob_record b of None \<Rightarrow> (b, w')
        | Some accepts \<Rightarrow> (let dl = dead_letter_for uid show_time (length (ob_dead b)) env (sb_name sub) err in
            ((if accepts dl then b\<lparr>ob_dead := ob_dead b @ [dl]\<rparr> else b), w'))))"

definition dispatchEvent ::
    "(nat \<Rightarrow> string) \<Rightarrow> (int \<Rightarrow> string) \<Rightarrow> envelope \<Rightarrow> 'w outboxBus \<times> 'w \<Rightarrow> 'w outboxBus \<times> 'w" where
  "dispatchEvent uid show_time env s =
     fold (outbox_run uid show_time env) (recipients (ob_topics (fst s)) (e_Type env)) s"

text \<open>\<open>poll\<close> is the function the bus was built with; \<open>None\<close> is its error.\<close>

definition pollOnce ::
    "(nat \<Rightarrow> string) \<Rightarrow> (int \<Rightarrow> string) \<Rightarrow> (int \<Rightarrow> int \<Rightarrow> (int \<times> envelope) list option) \<Rightarrow> 'w outboxBus \<times> 'w \<Rightarrow> 'w outboxBus \<times> 'w" where
  "pollOnce uid show_time poll s = (case poll (ob_lastPosition (fst s)) (ob_batchSize (fst s)) of
      None \<Rightarrow> s
    | Some results \<Rightarrow> fold (\<lambda>(position, env) s. case dispatchEvent uid show_time env s of
          (b, w) \<Rightarrow> (b\<lparr>ob_lastPosition := position\<rparr>, w)) results s)"

end
