(* ===== verification/EventBusRuns.thy ===== *)
theory EventBusRuns imports EventBus ProjectionRuns "HOL-Library.Multiset" begin

text \<open>
  What the two buses promise: every delivery a publication owes happens exactly once, whatever
  the interleaving; the polling bus delivers the log in order; a subscription ends where its own
  unsubscribe function is called and nowhere else.
\<close>

section \<open>The contract of the subscription tables\<close>

locale pubsub =
  fixes valid :: "'b \<Rightarrow> bool" and subs :: "'b \<Rightarrow> etype \<Rightarrow> 'w subscription list"
    and add :: "etype option \<Rightarrow> 'w hfun \<Rightarrow> string \<Rightarrow> bool \<Rightarrow> 'b \<Rightarrow> (etype option \<times> nat) \<times> 'b"
    and remove :: "etype option \<times> nat \<Rightarrow> 'b \<Rightarrow> 'b"
  assumes valid_add: "valid b \<Longrightarrow> valid (snd (add topic h n y b))"
    and valid_remove: "valid b \<Longrightarrow> valid (remove tok b)"
    and add_subs: "valid b \<Longrightarrow> \<exists>s. sb_id s = snd (fst (add topic h n y b)) \<and> fst (fst (add topic h n y b)) = topic \<and>
      (\<forall>t. mset (subs (snd (add topic h n y b)) t) =
        mset (subs b t) + (if topic = None \<or> topic = Some t then {#s#} else {#}))"
    and add_fresh: "valid b \<Longrightarrow> s \<in> set (subs b t) \<Longrightarrow> sb_id s \<noteq> snd (fst (add topic h n y b))"
    and remove_others: "filter_mset (\<lambda>s. sb_id s \<noteq> i) (mset (subs (remove (topic, i) b) t)) =
      filter_mset (\<lambda>s. sb_id s \<noteq> i) (mset (subs b t))"
    and remove_gone: "valid b \<Longrightarrow> s \<in> set (subs (remove (fst (add topic h n y b)) (snd (add topic h n y b))) t) \<Longrightarrow>
      sb_id s \<noteq> snd (fst (add topic h n y b))"
    and remove_absent: "(\<And>t s. s \<in> set (subs b t) \<Longrightarrow> sb_id s \<noteq> i) \<Longrightarrow> subs (remove (topic, i) b) t = subs b t"
begin

text \<open>Unsubscribing undoes the subscription and nothing else, also when it is called twice.\<close>

lemma unsubscribe_undoes:
  assumes "valid b" and "add topic h n y b = (tok, b')"
  shows "mset (subs (remove tok b') t) = mset (subs b t) \<and> subs (remove tok (remove tok b')) t = subs (remove tok b') t"
proof -
  obtain s where s: "sb_id s = snd tok"
    "\<And>t. mset (subs b' t) = mset (subs b t) + (if topic = None \<or> topic = Some t then {#s#} else {#})"
    using add_subs [OF assms(1), of topic h n y] assms(2) by auto
  have keep: "filter_mset (\<lambda>x. sb_id x \<noteq> snd tok) (mset xs) = mset xs" if "\<And>x. x \<in> set xs \<Longrightarrow> sb_id x \<noteq> snd tok" for xs
    using that by (auto simp: filter_mset_eq_conv)
  have gone: "sb_id x \<noteq> snd tok" if "x \<in> set (subs (remove tok b') t)" for x t
    using remove_gone [OF assms(1), of x topic h n y t] that assms(2) by simp
  have "mset (subs (remove tok b') t) = filter_mset (\<lambda>x. sb_id x \<noteq> snd tok) (mset (subs (remove tok b') t))"
    by (rule keep [symmetric]) (rule gone)
  also have "\<dots> = filter_mset (\<lambda>x. sb_id x \<noteq> snd tok) (mset (subs b' t))"
    using remove_others [of "snd tok" "fst tok" b' t] by simp
  also have "\<dots> = mset (subs b t)"
    using s keep [of "subs b t"] add_fresh [OF assms(1), of _ t topic h n y] assms(2) by simp
  finally show ?thesis using remove_absent [of "remove tok b'" "snd tok" "fst tok" t] gone by simp
qed

end

section \<open>Both buses keep it\<close>

definition topics_ok :: "'w topics \<Rightarrow> bool" where
  "topics_ok tp \<longleftrightarrow> (\<forall>t. distinct (map sb_id (recipients tp t)) \<and> (\<forall>s \<in> set (recipients tp t). sb_id s \<le> tp_counter tp))"

lemma remove_sub_subset: "set (remove_sub i xs) \<subseteq> set xs"
  by (induction xs) auto

lemma remove_sub_distinct: "distinct (map sb_id xs) \<Longrightarrow> distinct (map sb_id (remove_sub i xs)) \<and> i \<notin> sb_id ` set (remove_sub i xs)"
  using remove_sub_subset by (induction xs) (auto, fastforce)

lemma remove_sub_others: "filter_mset (\<lambda>s. sb_id s \<noteq> i) (mset (remove_sub i xs)) = filter_mset (\<lambda>s. sb_id s \<noteq> i) (mset xs)"
  by (induction xs) auto

lemma remove_sub_absent: "\<forall>s \<in> set xs. sb_id s \<noteq> i \<Longrightarrow> remove_sub i xs = xs"
  by (induction xs) auto

lemma remove_sub_ids: "x \<in> set (map sb_id (remove_sub i xs)) \<Longrightarrow> x \<in> set (map sb_id xs)"
  using remove_sub_subset by fastforce

lemma recipients_Unsubscribe:
  "recipients (Unsubscribe (topic, i) tp) t = (if topic = Some t then remove_sub i (tp_subscribers tp t) else tp_subscribers tp t) @
     (if topic = None then remove_sub i (tp_allSubs tp) else tp_allSubs tp)"
  by (auto simp: recipients_def Unsubscribe_def split: option.split)

lemma recipients_subscribe:
  "recipients (snd (subscribe_on topic h n y tp)) t = tp_subscribers tp t @
     (if topic = Some t then [new_subscription tp h n y] else []) @ tp_allSubs tp @
     (if topic = None then [new_subscription tp h n y] else [])"
  by (auto simp: recipients_def subscribe_on_def Subscribe_def SubscribeAll_def Let_def split: option.split)

lemma token_subscribe: "fst (subscribe_on topic h n y tp) = (topic, Suc (tp_counter tp))"
  by (auto simp: subscribe_on_def Subscribe_def SubscribeAll_def new_subscription_def Let_def split: option.split)

lemma counter_subscribe [simp]: "tp_counter (snd (subscribe_on topic h n y tp)) = Suc (tp_counter tp)"
  by (auto simp: subscribe_on_def Subscribe_def SubscribeAll_def new_subscription_def Let_def split: option.split)

lemma counter_Unsubscribe [simp]: "tp_counter (Unsubscribe tok tp) = tp_counter tp"
  by (auto simp: Unsubscribe_def split: prod.split option.split)

lemma new_id [simp]: "sb_id (new_subscription tp h n y) = Suc (tp_counter tp)"
  by (simp add: new_subscription_def)

lemma recipients_sound: "topics_ok tp \<Longrightarrow> s \<in> set (tp_subscribers tp t) \<or> s \<in> set (tp_allSubs tp) \<Longrightarrow> sb_id s \<le> tp_counter tp"
  by (auto simp: topics_ok_def recipients_def)

lemma topics_ok_parts:
  assumes "topics_ok tp"
  shows "distinct (map sb_id (tp_subscribers tp t))" "distinct (map sb_id (tp_allSubs tp))"
    "sb_id ` set (tp_subscribers tp t) \<inter> sb_id ` set (tp_allSubs tp) = {}"
  using assms by (auto simp: topics_ok_def recipients_def)

lemma topics_ok_subscribe: "topics_ok tp \<Longrightarrow> topics_ok (snd (subscribe_on topic h n y tp))"
  using topics_ok_parts [of tp] recipients_sound [of tp]
  by (fastforce simp: topics_ok_def recipients_subscribe image_iff)

lemma topics_ok_Unsubscribe: "topics_ok tp \<Longrightarrow> topics_ok (Unsubscribe tok tp)"
  using topics_ok_parts [of tp] recipients_sound [of tp] remove_sub_subset remove_sub_distinct
  by (cases tok) (simp add: topics_ok_def recipients_Unsubscribe, fastforce simp: image_iff)

lemma unsubscribed_is_gone:
  assumes "topics_ok tp" and "s \<in> set (recipients (Unsubscribe (fst (subscribe_on topic h n y tp)) (snd (subscribe_on topic h n y tp))) t)"
  shows "sb_id s \<noteq> Suc (tp_counter tp)"
proof -
  have undo: "remove_sub (Suc (tp_counter tp)) (xs @ [new_subscription tp h n y]) = xs"
    if "\<forall>x \<in> set xs. sb_id x \<le> tp_counter tp" for xs
    using that by (induction xs) auto
  have "remove_sub (Suc (tp_counter tp)) (tp_subscribers tp t @ [new_subscription tp h n y]) = tp_subscribers tp t"
    "remove_sub (Suc (tp_counter tp)) (tp_allSubs tp @ [new_subscription tp h n y]) = tp_allSubs tp" for t
    using recipients_sound [OF assms(1)] by (blast intro: undo)+
  then have "set (recipients (Unsubscribe (fst (subscribe_on topic h n y tp)) (snd (subscribe_on topic h n y tp))) t)
      \<subseteq> set (recipients tp t)"
    by (cases topic) (auto simp: Unsubscribe_def subscribe_on_def Subscribe_def SubscribeAll_def Let_def recipients_def)
  then show ?thesis using assms(2) recipients_sound [OF assms(1)] by (fastforce simp: recipients_def)
qed

interpretation tables: pubsub topics_ok recipients subscribe_on Unsubscribe
proof
  fix b :: "'w topics" and topic :: "etype option" and h :: "'w hfun" and n y tok t i s
  show "topics_ok (snd (subscribe_on topic h n y b))" if "topics_ok b" using that by (rule topics_ok_subscribe)
  show "topics_ok (Unsubscribe tok b)" if "topics_ok b" using that by (rule topics_ok_Unsubscribe)
  show "\<exists>s. sb_id s = snd (fst (subscribe_on topic h n y b)) \<and> fst (fst (subscribe_on topic h n y b)) = topic \<and>
      (\<forall>t. mset (recipients (snd (subscribe_on topic h n y b)) t) =
        mset (recipients b t) + (if topic = None \<or> topic = Some t then {#s#} else {#}))"
    by (rule exI [of _ "new_subscription b h n y"])
      (simp add: token_subscribe recipients_subscribe recipients_def [of b])
  show "sb_id s \<noteq> snd (fst (subscribe_on topic h n y b))" if "topics_ok b" "s \<in> set (recipients b t)"
    using that by (fastforce simp: topics_ok_def token_subscribe)
  show "filter_mset (\<lambda>s. sb_id s \<noteq> i) (mset (recipients (Unsubscribe (topic, i) b) t)) =
      filter_mset (\<lambda>s. sb_id s \<noteq> i) (mset (recipients b t))"
    by (auto simp: recipients_Unsubscribe recipients_def [of b] remove_sub_others)
  show "sb_id s \<noteq> snd (fst (subscribe_on topic h n y b))"
    if "topics_ok b" "s \<in> set (recipients (Unsubscribe (fst (subscribe_on topic h n y b)) (snd (subscribe_on topic h n y b))) t)"
    using unsubscribed_is_gone [OF that] by (simp add: token_subscribe)
  show "recipients (Unsubscribe (topic, i) b) t = recipients b t" if "\<And>t s. s \<in> set (recipients b t) \<Longrightarrow> sb_id s \<noteq> i"
    using that by (cases topic) (auto simp: recipients_Unsubscribe recipients_def [of b] intro!: remove_sub_absent)
qed

section \<open>Every delivery happens once\<close>

text \<open>What the publications in progress still have to hand out.\<close>

definition pending :: "(envelope \<times> 'w subscription list) list \<Rightarrow> ('w subscription \<times> envelope) multiset" where
  "pending ps = mset (concat (map (\<lambda>(env, subs). map (\<lambda>sub. (sub, env)) subs) ps))"

lemma pending_append [simp]: "pending (ps @ qs) = pending ps + pending qs"
  by (simp add: pending_def)

lemma pending_Cons [simp]: "pending ((env, subs) # ps) = mset (map (\<lambda>sub. (sub, env)) subs) + pending ps"
  by (simp add: pending_def)

lemma pending_Nil [simp]: "pending [] = {#}"
  by (simp add: pending_def)

lemma pending_drop_nth: "i < length ps \<Longrightarrow> ps ! i = (env, []) \<Longrightarrow> pending (drop_nth i ps) = pending ps"
  by (subst (2) id_take_nth_drop [of i]) (simp_all add: drop_nth_def)

lemma pending_next:
  "i < length ps \<Longrightarrow> ps ! i = (env, sub # subs) \<Longrightarrow> pending ps = add_mset (sub, env) (pending (ps[i := (env, subs)]))"
  by (subst id_take_nth_drop [of i]) (simp_all add: upd_conv_take_nth_drop)

lemma mset_drop_nth: "i < length xs \<Longrightarrow> mset xs = add_mset (xs ! i) (mset (drop_nth i xs))"
  by (subst (1) id_take_nth_drop [of i xs]) (simp_all add: drop_nth_def)

lemma recordDeadLetter_keeps [simp]:
  "cb_running (recordDeadLetter uid show_time env name err b) = cb_running b"
  "cb_topics (recordDeadLetter uid show_time env name err b) = cb_topics b"
  "cb_closed (recordDeadLetter uid show_time env name err b) = cb_closed b"
  by (simp_all add: recordDeadLetter_def Let_def split: option.split)

lemma run_handler_keeps:
  "run_handler uid show_time env sub (b, w) = (b', w') \<Longrightarrow>
     cb_running b' = cb_running b \<and> cb_topics b' = cb_topics b \<and> cb_closed b' = cb_closed b \<and>
     w' = fst (sb_handler sub env w)"
  by (auto simp: run_handler_def split: prod.splits option.splits)

text \<open>
  The observation: the handler of the k-th subscription writes the pair of k and the event
  into a log of calls, next to whatever it does to the world. The middleware is any wrapper
  that calls the handler it wraps exactly once.
\<close>

type_synonym calls = "(nat \<times> envelope) list"

definition logged :: "nat \<Rightarrow> 'v hfun \<Rightarrow> (calls \<times> 'v) hfun" where
  "logged k h env = (\<lambda>(l, v). case h env v of (v', err) \<Rightarrow> ((l @ [(k, env)], v'), err))"

definition calls_once :: "((calls \<times> 'v) hfun \<Rightarrow> (calls \<times> 'v) hfun) option \<Rightarrow> bool" where
  "calls_once mw \<longleftrightarrow> (\<forall>m. mw = Some m \<longrightarrow>
     (\<forall>k h env l v. fst (fst (m (logged k h) env (l, v))) = l @ [(k, env)]))"

fun instrument :: "nat \<Rightarrow> 'v bus_act list \<Rightarrow> (calls \<times> 'v) bus_act list" where
  "instrument k [] = []"
| "instrument k (ASubscribe topic h n y # acts) = ASubscribe topic (logged k h) n y # instrument (Suc k) acts"
| "instrument k (AUnsubscribe n # acts) = AUnsubscribe n # instrument k acts"
| "instrument k (APublish env # acts) = APublish env # instrument k acts"
| "instrument k (ANext i # acts) = ANext i # instrument k acts"
| "instrument k (ARun j # acts) = ARun j # instrument k acts"
| "instrument k (AClose # acts) = AClose # instrument k acts"

text \<open>
  What the clients may expect, read off their acts alone: the subscriptions with the topic and
  whether they are still in force, whether the bus was closed, and the deliveries owed: an
  event published before the close is owed to every subscription in force that is general or
  for the event's type.
\<close>

type_synonym promise = "(etype option \<times> bool) list \<times> bool \<times> calls"

fun promised :: "'v bus_act \<Rightarrow> promise \<Rightarrow> promise" where
  "promised (ASubscribe topic h n y) (subs, shut, owed) = (subs @ [(topic, True)], shut, owed)"
| "promised (AUnsubscribe n) (subs, shut, owed) = (subs[n := (fst (subs ! n), False)], shut, owed)"
| "promised (APublish env) (subs, shut, owed) = (subs, shut, if shut then owed
     else owed @ map (\<lambda>k. (k, env)) (filter (\<lambda>k. subs ! k = (None, True) \<or> subs ! k = (Some (e_Type env), True))
       [0..<length subs]))"
| "promised (ANext i) p = p"
| "promised (ARun j) p = p"
| "promised AClose (subs, shut, owed) = (subs, True, owed)"

text \<open>The invariant that relates the two; ids start at one.\<close>

definition in_force :: "(etype option \<times> bool) list \<Rightarrow> etype option \<Rightarrow> nat list" where
  "in_force subs topic = map Suc (filter (\<lambda>k. subs ! k = (topic, True)) [0..<length subs])"

definition logs_as :: "(calls \<times> 'v) subscription \<Rightarrow> bool" where
  "logs_as sub \<longleftrightarrow> (\<forall>env l v. fst (fst (sb_handler sub env (l, v))) = l @ [(sb_id sub - 1, env)])"

definition tables_as :: "(calls \<times> 'v) topics \<Rightarrow> (etype option \<times> bool) list \<Rightarrow> bool" where
  "tables_as tp subs \<longleftrightarrow> calls_once (tp_middleware tp) \<and> tp_counter tp = length subs \<and>
     (\<forall>t. map sb_id (tp_subscribers tp t) = in_force subs (Some t) \<and> (\<forall>sub \<in> set (tp_subscribers tp t). logs_as sub)) \<and>
     map sb_id (tp_allSubs tp) = in_force subs None \<and> (\<forall>sub \<in> set (tp_allSubs tp). logs_as sub)"

definition in_flight :: "(calls \<times> 'v) bus_sys \<Rightarrow> ((calls \<times> 'v) subscription \<times> envelope) multiset" where
  "in_flight s = mset (cb_running (bs_bus s)) + pending (bs_pubs s)"

definition call_of :: "(calls \<times> 'v) subscription \<times> envelope \<Rightarrow> nat \<times> envelope" where
  "call_of = (\<lambda>(sub, env). (sb_id sub - 1, env))"

definition accounted :: "(calls \<times> 'v) bus_sys \<Rightarrow> promise \<Rightarrow> bool" where
  "accounted s = (\<lambda>(subs, shut, owed). cb_closed (bs_bus s) = shut \<and> tables_as (cb_topics (bs_bus s)) subs \<and>
     bs_tokens s = map (\<lambda>k. (fst (subs ! k), Suc k)) [0..<length subs] \<and>
     (\<forall>x \<in># in_flight s. logs_as (fst x)) \<and>
     mset owed = mset (fst (bs_world s)) + image_mset call_of (in_flight s))"

lemma in_force_snoc:
  "in_force (subs @ [(topic, True)]) t = in_force subs t @ (if topic = t then [Suc (length subs)] else [])"
proof -
  have "filter (\<lambda>k. (subs @ [(topic, True)]) ! k = (t, True)) [0..<length subs] =
      filter (\<lambda>k. subs ! k = (t, True)) [0..<length subs]"
    by (rule filter_cong) (simp_all add: nth_append)
  then show ?thesis by (simp add: in_force_def)
qed

lemma in_force_off:
  assumes "k < length subs"
  shows "in_force (subs[k := (topic, False)]) t =
    (if fst (subs ! k) = t then remove1 (Suc k) (in_force subs t) else in_force subs t)"
proof -
  let ?F = "filter (\<lambda>i. subs ! i = (t, True)) [0..<length subs]"
  have "in_force (subs[k := (topic, False)]) t = map Suc (filter (\<lambda>i. i \<noteq> k) ?F)"
    using assms by (auto simp: in_force_def nth_list_update intro!: filter_cong)
  also have "\<dots> = filter (\<lambda>i. i \<noteq> Suc k) (map Suc ?F)" by (simp add: filter_map comp_def)
  also have "\<dots> = remove1 (Suc k) (map Suc ?F)"
    by (subst distinct_remove1_removeAll) (auto simp: distinct_map removeAll_filter_not_eq intro!: filter_cong)
  finally have off: "in_force (subs[k := (topic, False)]) t = remove1 (Suc k) (in_force subs t)" by (simp add: in_force_def)
  moreover have "remove1 (Suc k) (in_force subs t) = in_force subs t" if "fst (subs ! k) \<noteq> t"
    using that by (intro remove1_idem) (auto simp: in_force_def)
  ultimately show ?thesis by simp
qed

lemma ids_remove_sub: "map sb_id (remove_sub i xs) = remove1 i (map sb_id xs)"
  by (induction xs) auto

lemma logs_as_new:
  assumes "calls_once (tp_middleware tp)" and "tp_counter tp = k"
  shows "logs_as (new_subscription tp (logged k h) n y)"
  using assms by (auto simp: logs_as_def new_subscription_def calls_once_def logged_def split: option.split prod.split)

lemma tables_as_subscribe:
  assumes "tables_as tp subs"
  shows "tables_as (snd (subscribe_on topic (logged (length subs) h) n y tp)) (subs @ [(topic, True)])"
  using assms logs_as_new [of tp "length subs" h n y]
  by (cases topic) (auto simp: tables_as_def subscribe_on_def Subscribe_def SubscribeAll_def Let_def in_force_snoc)

lemma remove_sub_all: "\<forall>x \<in> set xs. P x \<Longrightarrow> x \<in> set (remove_sub i xs) \<Longrightarrow> P x"
  using remove_sub_subset [of i xs] by auto

lemma tables_as_Unsubscribe:
  assumes "tables_as tp subs" and "k < length subs"
  shows "tables_as (Unsubscribe (fst (subs ! k), Suc k) tp) (subs[k := (fst (subs ! k), False)])"
  using assms
  by (cases "fst (subs ! k)")
    (auto simp: tables_as_def Unsubscribe_def in_force_off ids_remove_sub dest: remove_sub_all [where P = logs_as, rotated])

lemma tokens_snoc:
  "map (\<lambda>k. (fst ((subs @ [x]) ! k), Suc k)) [0..<Suc (length subs)] =
     map (\<lambda>k. (fst (subs ! k), Suc k)) [0..<length subs] @ [(fst x, Suc (length subs))]"
  by (auto simp: nth_append)

lemma accounted_subscribe:
  assumes "accounted s (subs, shut, owed)"
  shows "accounted (bus_op uid show_time (ASubscribe topic (logged (length subs) h) n y) s)
    (promised (ASubscribe topic h n y) (subs, shut, owed))"
  using assms tables_as_subscribe [of "cb_topics (bs_bus s)" subs topic h n y]
    token_subscribe [of topic "logged (length subs) h" n y "cb_topics (bs_bus s)"]
  by (cases "subscribe_on topic (logged (length subs) h) n y (cb_topics (bs_bus s))")
    (auto simp: accounted_def with_topics_def in_flight_def tables_as_def tokens_snoc simp del: upt_Suc)

lemma accounted_unsubscribe:
  assumes "accounted s p"
  shows "accounted (bus_op uid show_time (AUnsubscribe k) s) (promised (AUnsubscribe k) p)"
proof -
  obtain subs shut owed where p: "p = (subs, shut, owed)" by (cases p)
  show ?thesis
  proof (cases "k < length subs")
    case True
    then show ?thesis
      using assms tables_as_Unsubscribe [of "cb_topics (bs_bus s)" subs k]
      by (auto simp: p accounted_def with_topics_def in_flight_def nth_list_update intro!: map_cong)
  next
    case False
    then show ?thesis using assms by (simp add: p accounted_def list_update_beyond)
  qed
qed

lemma accounted_begin:
  assumes "accounted s (subs, shut, owed)"
  shows "accounted (bus_begin env s) (promised (APublish env) (subs, shut, owed))"
proof (cases shut)
  case True
  with assms show ?thesis by (simp add: accounted_def bus_begin_def)
next
  case False
  let ?rs = "recipients (cb_topics (bs_bus s)) (e_Type env)"
  let ?f = "\<lambda>topic. filter (\<lambda>k. subs ! k = (topic, True)) [0..<length subs]"
  have tab: "tables_as (cb_topics (bs_bus s)) subs" using assms by (simp add: accounted_def)
  have "map (\<lambda>sub. sb_id sub - 1) ?rs = map (\<lambda>i. i - 1) (map sb_id ?rs)" by simp
  also have "\<dots> = ?f (Some (e_Type env)) @ ?f None"
    using tab by (simp only: recipients_def tables_as_def map_append) (simp add: in_force_def comp_def)
  finally have ids: "map (\<lambda>sub. sb_id sub - 1) ?rs = ?f (Some (e_Type env)) @ ?f None" .
  have union: "mset (filter (\<lambda>k. subs ! k = (None, True) \<or> subs ! k = (Some t, True)) ks) =
      mset (filter (\<lambda>k. subs ! k = (Some t, True)) ks @ filter (\<lambda>k. subs ! k = (None, True)) ks)" for ks t
    by (induction ks) auto
  have "image_mset call_of (mset (map (\<lambda>sub. (sub, env)) ?rs)) = mset (map (\<lambda>k. (k, env)) (map (\<lambda>sub. sb_id sub - 1) ?rs))"
    by (simp add: call_of_def comp_def flip: mset_map)
  also have "\<dots> = mset (map (\<lambda>k. (k, env))
      (filter (\<lambda>k. subs ! k = (None, True) \<or> subs ! k = (Some (e_Type env), True)) [0..<length subs]))"
    unfolding ids mset_map union ..
  finally have new: "image_mset call_of (mset (map (\<lambda>sub. (sub, env)) ?rs)) = \<dots>" .
  have logs: "\<forall>sub \<in> set ?rs. logs_as sub" using tab by (auto simp: recipients_def tables_as_def)
  show ?thesis using assms False new logs
    by (auto simp: accounted_def bus_begin_def in_flight_def)
qed

lemma accounted_handler:
  assumes "run_handler uid show_time env sub (b, w) = (b', w')" and "logs_as sub"
  shows "mset (fst w') = mset (fst w) + {#call_of (sub, env)#}"
  using run_handler_keeps [OF assms(1)] assms(2) by (cases w) (simp add: logs_as_def call_of_def)

lemma accounted_next:
  assumes "accounted s p" and i: "i < length (bs_pubs s)"
  shows "accounted (bus_next uid show_time i s) p"
proof (cases "bs_pubs s ! i")
  case (Pair env subs)
  show ?thesis
  proof (cases subs)
    case Nil
    then show ?thesis using assms Pair pending_drop_nth [OF i]
      by (auto simp: accounted_def bus_next_def in_flight_def)
  next
    case (Cons sub rest)
    let ?P = "pending ((bs_pubs s)[i := (env, rest)])"
    have p: "pending (bs_pubs s) = add_mset (sub, env) ?P" using pending_next [OF i] Pair Cons by simp
    then have logs: "logs_as sub" using assms(1) by (auto simp: accounted_def in_flight_def)
    show ?thesis
    proof (cases "sb_sync sub")
      case True
      obtain b' w' where r: "run_handler uid show_time env sub (bs_bus s, bs_world s) = (b', w')" by (metis surj_pair)
      show ?thesis using assms(1) Pair Cons p True r run_handler_keeps [OF r] accounted_handler [OF r logs]
        by (auto simp: accounted_def bus_next_def deliver_one_def in_flight_def)
    next
      case False
      show ?thesis using assms(1) Pair Cons p False
        by (auto simp: accounted_def bus_next_def deliver_one_def dispatch_def in_flight_def)
    qed
  qed
qed

lemma accounted_run:
  assumes "accounted s p" and j: "j < length (cb_running (bs_bus s))"
  shows "accounted (bus_run uid show_time j s) p"
proof -
  obtain sub env where x: "cb_running (bs_bus s) ! j = (sub, env)" by fastforce
  let ?b = "(bs_bus s)\<lparr>cb_running := drop_nth j (cb_running (bs_bus s))\<rparr>"
  obtain b' w' where r: "run_handler uid show_time env sub (?b, bs_world s) = (b', w')" by (metis surj_pair)
  note m = mset_drop_nth [OF j, unfolded x]
  then have logs: "logs_as sub" using assms(1) by (auto simp: accounted_def in_flight_def)
  show ?thesis using assms(1) x r run_handler_keeps [OF r] accounted_handler [OF r logs] m
    by (auto simp: accounted_def bus_run_def in_flight_def)
qed

lemma accounted_runs:
  assumes "accounted s p" and "k = length (fst p)"
  shows "accounted (fold (bus_op uid show_time) (instrument k acts) s) (fold promised acts p)"
  using assms
proof (induction acts arbitrary: k s p)
  case (Cons act acts)
  obtain subs shut owed where p: "p = (subs, shut, owed)" by (cases p)
  show ?case
  proof (cases act)
    case (ASubscribe topic h n y)
    have "accounted (bus_op uid show_time (ASubscribe topic (logged (length subs) h) n y) s)
        (promised (ASubscribe topic h n y) (subs, shut, owed))"
      by (rule accounted_subscribe) (use Cons.prems(1) p in simp)
    from Cons.IH [OF this, of "Suc (length subs)"] show ?thesis using ASubscribe Cons.prems(2) by (simp add: p del: bus_op.simps)
  next
    case (AUnsubscribe n)
    then show ?thesis
      using Cons.IH [OF accounted_unsubscribe [OF Cons.prems(1), of uid show_time n], of k] Cons.prems(2)
      by (simp add: p del: bus_op.simps)
  next
    case (APublish env)
    have "accounted (bus_begin env s) (promised (APublish env) p)" "k = length (fst (promised (APublish env) p))"
      using accounted_begin [of s subs shut owed env] Cons.prems by (simp_all add: p)
    from Cons.IH [OF this] show ?thesis using APublish by (simp del: promised.simps)
  next
    case (ANext i)
    then show ?thesis using accounted_next [of s p] Cons by simp
  next
    case (ARun j)
    then show ?thesis using accounted_run [of s p] Cons by simp
  next
    case AClose
    have "accounted (s\<lparr>bs_bus := Close (bs_bus s)\<rparr>) (subs, True, owed)" "k = length (fst (subs, True, owed))"
      using Cons.prems by (simp_all add: p accounted_def Close_def in_flight_def)
    from Cons.IH [OF this] show ?thesis using AClose by (simp add: p)
  qed
qed simp

lemma accounted_start:
  assumes "calls_once mw"
  shows "accounted (bus_start_state (NewChannelBus mw recorder) ([], v)) ([], False, [])"
  using assms by (simp add: accounted_def bus_start_state_def NewChannelBus_def tables_as_def new_topics_def in_force_def in_flight_def)

lemma size_pending: "size (pending ps) = (\<Sum>(env, rest) \<leftarrow> ps. length rest)"
  by (induction ps) auto

text \<open>
  C15. In every interleaving of subscriptions, unsubscriptions, publications, handler
  goroutines and a close, with any middleware that calls its handler once, the calls that the
  handlers have seen are among the deliveries the clients' acts promise - each event published
  before the close, once for every subscription then in force that is general or for its type
  - none twice; what is missing is exactly as many calls as goroutines are waiting or
  publications have left to hand out, so when nothing is in progress every promised delivery
  has happened exactly once.
\<close>

theorem every_delivery_happens_once:
  assumes "calls_once mw"
    and "s = fold (bus_op uid show_time) (instrument 0 acts) (bus_start_state (NewChannelBus mw recorder) ([], v))"
    and "(subs, shut, owed) = fold promised acts ([], False, [])"
  shows "mset (fst (bs_world s)) \<subseteq># mset owed \<and>
    length owed = length (fst (bs_world s)) + length (cb_running (bs_bus s)) + (\<Sum>(env, rest) \<leftarrow> bs_pubs s. length rest) \<and>
    (bs_pubs s = [] \<and> cb_running (bs_bus s) = [] \<longrightarrow> mset (fst (bs_world s)) = mset owed)"
proof -
  have "accounted s (subs, shut, owed)"
    unfolding assms(2,3) by (rule accounted_runs [OF accounted_start [OF assms(1)]]) simp
  then have m: "mset owed = mset (fst (bs_world s)) + image_mset call_of (in_flight s)" by (simp add: accounted_def)
  then have "size (mset owed) = size (mset (fst (bs_world s))) + size (in_flight s)" by simp
  then have "length owed = length (fst (bs_world s)) + length (cb_running (bs_bus s)) + (\<Sum>(env, rest) \<leftarrow> bs_pubs s. length rest)"
    unfolding in_flight_def size_union size_pending size_mset by simp
  then show ?thesis using m by (simp add: in_flight_def)
qed

text \<open>
  A handler that writes its name into the world, and a run of a bus with a typed asynchronous
  and a general synchronous subscription.
\<close>

definition note_call :: "string \<Rightarrow> string list hfun" where
  "note_call name env w = (w @ [name], None)"

definition async_first :: "string list bus_act list" where
  "async_first = [ASubscribe (Some WorkflowStarted) (note_call ''persona'') ''persona'' False,
     ASubscribe None (note_call ''cache'') ''cache'' True,
     APublish (sample_env WorkflowStarted (POther [])), ANext 0, ARun 0, ANext 0, ANext 0]"

definition bus_result :: "(calls \<times> string list) bus_act list \<Rightarrow> (calls \<times> string list) bus_sys" where
  "bus_result acts = fold (bus_op (\<lambda>n. ''dl'') (\<lambda>t. ''t'')) acts (bus_start_state (NewChannelBus None None) ([], []))"

lemmas async_first_defs = bus_result_def async_first_def bus_start_state_def NewChannelBus_def new_topics_def
  subscribe_on_def SubscribeAll_def Subscribe_def new_subscription_def with_topics_def bus_begin_def bus_next_def
  bus_run_def deliver_one_def dispatch_def run_handler_def recipients_def drop_nth_def note_call_def logged_def
  sample_env_def

theorem every_delivery_happens_once_witness:
  "mset (fst (bs_world (bus_result (instrument 0 async_first)))) =
     {#(0, sample_env WorkflowStarted (POther [])), (1, sample_env WorkflowStarted (POther []))#}"
proof -
  let ?s = "bus_result (instrument 0 async_first)"
  let ?owed = "[(0, sample_env WorkflowStarted (POther [])), (1, sample_env WorkflowStarted (POther []))]"
  have c: "calls_once None" by (simp add: calls_once_def)
  have o: "([(Some WorkflowStarted, True), (None, True)], False, ?owed) = fold promised async_first ([], False, [])"
    by (simp add: async_first_def sample_env_def upt_rec)
  have "bs_pubs ?s = []" "cb_running (bs_bus ?s) = []" by (simp_all add: async_first_defs)
  with every_delivery_happens_once [OF c bus_result_def o] show ?thesis by simp
qed

text \<open>
  Synchronous subscribers do not run first: a publication walks the typed subscriptions before
  the general ones, whether they are synchronous or not, so the goroutine of an asynchronous
  persona handler can run to its end before the synchronous cache handler that it relies on.
\<close>

theorem typed_async_runs_before_sync:
  "bs_world (bus_result (instrument 0 async_first)) =
     ([(0, sample_env WorkflowStarted (POther [])), (1, sample_env WorkflowStarted (POther []))], [''persona'', ''cache''])"
  by (simp add: async_first_defs)

section \<open>The polling bus follows the log\<close>

text \<open>The bus next to its store: other goroutines append, the poll loop reads.\<close>

datatype outbox_act = OAppend bool string int "envelope list" | OPoll bool

definition outbox_poll :: "bool \<Rightarrow> store \<Rightarrow> int \<Rightarrow> int \<Rightarrow> (int \<times> envelope) list option" where
  "outbox_poll fault st p limit = (if fault then None else Some (LoadAll st p limit))"

fun outbox_op :: "(nat \<Rightarrow> string) \<Rightarrow> (int \<Rightarrow> string) \<Rightarrow> outbox_act \<Rightarrow> store \<times> 'w outboxBus \<times> 'w \<Rightarrow> store \<times> 'w outboxBus \<times> 'w" where
  "outbox_op uid show_time (OAppend fault a v es) (st, s) = (case Append fault a v es st of Inl err \<Rightarrow> (st, s) | Inr st' \<Rightarrow> (st', s))"
| "outbox_op uid show_time (OPoll fault) (st, s) = (st, pollOnce uid show_time (outbox_poll fault st) s)"

definition at_position :: "int \<Rightarrow> 'w outboxBus \<times> 'w \<Rightarrow> 'w outboxBus \<times> 'w" where
  "at_position p s = ((fst s)\<lparr>ob_lastPosition := p\<rparr>, snd s)"

lemma outbox_run_position: "outbox_run uid show_time env sub (at_position p s) = at_position p (outbox_run uid show_time env sub s)"
  by (cases s) (auto simp: outbox_run_def at_position_def Let_def split: prod.split option.split)

lemma dispatchEvent_position: "dispatchEvent uid show_time env (at_position p s) = at_position p (dispatchEvent uid show_time env s)"
proof -
  have "fold (outbox_run uid show_time env) subs (at_position p s) = at_position p (fold (outbox_run uid show_time env) subs s)" for subs
    by (induction subs arbitrary: s) (simp_all add: outbox_run_position)
  then show ?thesis by (simp add: dispatchEvent_def) (simp add: at_position_def)
qed

lemma dispatchEvent_keeps [simp]:
  "ob_lastPosition (fst (dispatchEvent uid show_time env s)) = ob_lastPosition (fst s)"
  "ob_batchSize (fst (dispatchEvent uid show_time env s)) = ob_batchSize (fst s)"
proof -
  have step: "ob_lastPosition (fst (outbox_run uid show_time env sub s)) = ob_lastPosition (fst s) \<and>
      ob_batchSize (fst (outbox_run uid show_time env sub s)) = ob_batchSize (fst s)" for sub s
    by (cases s) (auto simp: outbox_run_def Let_def split: prod.split option.split)
  have "ob_lastPosition (fst (fold (outbox_run uid show_time env) subs s)) = ob_lastPosition (fst s) \<and>
      ob_batchSize (fst (fold (outbox_run uid show_time env) subs s)) = ob_batchSize (fst s)" for subs
    by (induction subs arbitrary: s) (simp_all add: step)
  then show "ob_lastPosition (fst (dispatchEvent uid show_time env s)) = ob_lastPosition (fst s)"
    "ob_batchSize (fst (dispatchEvent uid show_time env s)) = ob_batchSize (fst s)"
    by (simp_all add: dispatchEvent_def)
qed

lemma at_position_twice [simp]: "at_position p (at_position q s) = at_position p s"
  by (simp add: at_position_def)

lemma at_position_same: "ob_lastPosition (fst s) = p \<Longrightarrow> at_position p s = s"
  by (cases s) (simp add: at_position_def)

text \<open>A page is handed out event by event, and the position ends at its last row.\<close>

lemma poll_page:
  "fold (\<lambda>(position, env) s. case dispatchEvent uid show_time env s of (b, w) \<Rightarrow> (b\<lparr>ob_lastPosition := position\<rparr>, w)) page s =
   at_position (if page = [] then ob_lastPosition (fst s) else fst (last page)) (fold (dispatchEvent uid show_time) (map snd page) s)"
proof (induction page arbitrary: s)
  case Nil
  then show ?case by (simp add: at_position_same)
next
  case (Cons x page)
  have step: "(case dispatchEvent uid show_time (snd x) s of (b, w) \<Rightarrow> (b\<lparr>ob_lastPosition := fst x\<rparr>, w)) =
      at_position (fst x) (dispatchEvent uid show_time (snd x) s)"
    by (simp add: at_position_def split: prod.split)
  have all: "fold (dispatchEvent uid show_time) es (at_position p s) = at_position p (fold (dispatchEvent uid show_time) es s)" for es p s
    by (induction es arbitrary: s) (simp_all add: dispatchEvent_position)
  show ?case using Cons [of "at_position (fst x) (dispatchEvent uid show_time (snd x) s)"]
    by (simp add: case_prod_beta step [unfolded case_prod_beta] all) (simp add: at_position_def)
qed

text \<open>The state that has delivered the first \<open>n\<close> events of the log, and nothing else.\<close>

definition delivered :: "(nat \<Rightarrow> string) \<Rightarrow> (int \<Rightarrow> string) \<Rightarrow> 'w outboxBus \<times> 'w \<Rightarrow> nat \<Rightarrow> store \<Rightarrow> 'w outboxBus \<times> 'w" where
  "delivered uid show_time s0 n st = at_position (int n) (fold (dispatchEvent uid show_time) (take n (st_events st)) s0)"

lemma fold_dispatch_batchSize [simp]:
  "ob_batchSize (fst (fold (dispatchEvent uid show_time) es s)) = ob_batchSize (fst s)"
  by (induction es arbitrary: s) simp_all

lemma fold_dispatch_position:
  "fold (dispatchEvent uid show_time) es (at_position p s) = at_position p (fold (dispatchEvent uid show_time) es s)"
  by (induction es arbitrary: s) (simp_all add: dispatchEvent_position)

lemma poll_delivers:
  assumes "n \<le> length (st_events st)" and "ob_batchSize (fst s0) = int k" and "0 < k"
  shows "pollOnce uid show_time (outbox_poll False st) (delivered uid show_time s0 n st) =
     delivered uid show_time s0 (min (n + k) (length (st_events st))) st"
proof -
  let ?es = "st_events st"
  let ?page = "take k (drop n (positioned ?es))"
  let ?s = "fold (dispatchEvent uid show_time) (take n ?es) s0"
  have at: "ob_lastPosition (fst (at_position p s)) = p" "ob_batchSize (fst (at_position p s)) = ob_batchSize (fst s)"
    for p and s :: "'a outboxBus \<times> 'a" by (simp_all add: at_position_def)
  have page: "map snd ?page = take k (drop n ?es)" by (simp add: take_map [symmetric] drop_map [symmetric])
  have "pollOnce uid show_time (outbox_poll False st) (at_position (int n) ?s) =
      at_position (if ?page = [] then int n else fst (last ?page)) (fold (dispatchEvent uid show_time) (take k (drop n ?es)) (at_position (int n) ?s))"
    using assms(2,3) by (simp add: pollOnce_def outbox_poll_def at LoadAll_page poll_page page)
  also have "\<dots> = at_position (if ?page = [] then int n else fst (last ?page)) (fold (dispatchEvent uid show_time) (take (n + k) ?es) s0)"
    by (simp add: fold_dispatch_position take_add)
  also have "(if ?page = [] then int n else fst (last ?page)) = int (min (n + k) (length ?es))"
    using assms(1,3) page_last [of n ?es k] by auto
  also have "take (n + k) ?es = take (min (n + k) (length ?es)) ?es" by (simp add: min_def)
  finally show ?thesis by (simp add: delivered_def)
qed

lemma append_extends: "Append fault a v es st = Inr st' \<Longrightarrow> \<exists>ys. st_events st' = st_events st @ ys"
  by (auto simp: Append_def dest: insert_rows_Inr split: if_splits sum.splits)

lemma outbox_step_prefix:
  assumes "n \<le> length (st_events st)" and "ob_batchSize (fst s0) = int k" and "0 < k"
  shows "\<exists>m st'. outbox_op uid show_time act (st, delivered uid show_time s0 n st) = (st', delivered uid show_time s0 m st') \<and>
     n \<le> m \<and> m \<le> length (st_events st') \<and> (act = OPoll False \<longrightarrow> st' = st \<and> m = min (n + k) (length (st_events st)))"
proof (cases act)
  case (OAppend fault a v es)
  show ?thesis
  proof (cases "Append fault a v es st")
    case (Inl err)
    then show ?thesis using OAppend assms(1) by auto
  next
    case (Inr st')
    then obtain ys where ys: "st_events st' = st_events st @ ys" using append_extends by blast
    then have "delivered uid show_time s0 n st = delivered uid show_time s0 n st'" using assms(1) by (simp add: delivered_def)
    then show ?thesis using OAppend Inr ys assms(1) by (intro exI [of _ n] exI [of _ st']) auto
  qed
next
  case (OPoll fault)
  show ?thesis
  proof (cases fault)
    case True
    then show ?thesis using OPoll assms(1) by (auto simp: pollOnce_def outbox_poll_def)
  next
    case False
    then show ?thesis using OPoll assms(1) poll_delivers [OF assms] by auto
  qed
qed

text \<open>
  C16. Whatever is appended between the polls and whichever polls fail, the polling bus has
  delivered a prefix of the log, each event once and in the order of the log, and its position
  is the length of that prefix; every further successful poll delivers a batch more of it.
\<close>

theorem outbox_delivers_in_order:
  assumes "ob_batchSize b = int k" and "0 < k" and "ob_lastPosition b = 0" and "st_events st = []"
    and "fold (outbox_op uid show_time) acts (st, b, w) = (st', s')"
  shows "\<exists>n \<le> length (st_events st'). s' = delivered uid show_time (b, w) n st' \<and>
    snd (outbox_op uid show_time (OPoll False) (st', s')) = delivered uid show_time (b, w) (min (n + k) (length (st_events st'))) st'"
proof -
  have run: "\<exists>n st'. fold (outbox_op uid show_time) acts (st, delivered uid show_time (b, w) m st) = (st', delivered uid show_time (b, w) n st') \<and>
      n \<le> length (st_events st')" if "m \<le> length (st_events st)" for m st
    using that
  proof (induction acts arbitrary: m st)
    case (Cons act acts)
    obtain m' st1 where "outbox_op uid show_time act (st, delivered uid show_time (b, w) m st) = (st1, delivered uid show_time (b, w) m' st1)"
      "m' \<le> length (st_events st1)"
      using outbox_step_prefix [OF Cons.prems, of "(b, w)" k uid show_time act] assms(1,2) by auto
    then show ?case using Cons.IH [of m' st1] by simp
  qed auto
  have "(b, w) = delivered uid show_time (b, w) 0 st" using assms(3) by (simp add: delivered_def at_position_same)
  then obtain n where n: "s' = delivered uid show_time (b, w) n st'" "n \<le> length (st_events st')"
    using run [of 0 st] assms(5) by auto
  then show ?thesis using poll_delivers [OF n(2), of "(b, w)" k uid show_time] assms(1,2) by auto
qed

definition one_reader :: "string list outboxBus" where
  "one_reader = (let b = NewOutboxBus None None 0 1 in
     b\<lparr>ob_topics := snd (SubscribeAll (note_call ''reader'') ''reader'' False (ob_topics b))\<rparr>)"

theorem outbox_delivers_in_order_witness:
  "\<exists>st' b' n. fold (outbox_op (\<lambda>n. ''dl'') (\<lambda>t. ''t'')) [OAppend False ''wf'' 0 [sample_env WorkflowCompleted (POther [])], OPoll True, OPoll False]
     (empty_store, one_reader, []) = (st', b', [''reader'']) \<and> (b', [''reader'']) = delivered (\<lambda>n. ''dl'') (\<lambda>t. ''t'') (one_reader, []) n st'"
proof -
  let ?acts = "[OAppend False ''wf'' 0 [sample_env WorkflowCompleted (POther [])], OPoll True, OPoll False]"
  obtain st' b' w' where r: "fold (outbox_op (\<lambda>n. ''dl'') (\<lambda>t. ''t'')) ?acts (empty_store, one_reader, []) = (st', b', w')"
    by (metis prod_cases3)
  have w: "snd (snd (fold (outbox_op (\<lambda>n. ''dl'') (\<lambda>t. ''t'')) ?acts (empty_store, one_reader, []))) = [''reader'']"
    by code_simp
  have "ob_batchSize one_reader = int 1" "(0::nat) < 1" "ob_lastPosition one_reader = 0" "st_events empty_store = []"
    by code_simp+
  from outbox_delivers_in_order [OF this r] show ?thesis using r w by auto
qed

end
