(* ===== verification/GoText.thy ===== *)
theory GoText imports Prelude begin

text \<open>
  The parts of Go's \<open>strings\<close>, \<open>path/filepath\<close> and \<open>regexp\<close> that the text parsers of the handlers
  call. A regular expression is a term; its matches at a position are the list of the
  end states in the order of preference, so the first one is the leftmost-first match of RE2.
\<close>

section \<open>Strings\<close>

definition nl :: char where "nl = char_of (10 :: nat)"
definition tick :: char where "tick = char_of (96 :: nat)"

definition upper_char :: "char \<Rightarrow> char" where
  "upper_char c = (let n = of_char c :: nat in if 97 \<le> n \<and> n \<le> 122 then char_of (n - 32) else c)"

definition to_upper :: "string \<Rightarrow> string" where
  "to_upper s = map upper_char s"

fun split_on :: "char \<Rightarrow> string \<Rightarrow> string list" where
  "split_on sep [] = [[]]"
| "split_on sep (c # s) = (if c = sep then [] # split_on sep s
     else case split_on sep s of [] \<Rightarrow> [[c]] | p # ps \<Rightarrow> (c # p) # ps)"

definition split_lines :: "string \<Rightarrow> string list" where
  "split_lines s = split_on nl s"

definition has_suffix :: "string \<Rightarrow> string \<Rightarrow> bool" where
  "has_suffix s p \<longleftrightarrow> has_prefix (rev s) (rev p)"

definition trim_prefix :: "string \<Rightarrow> string \<Rightarrow> string" where
  "trim_prefix s p = (if has_prefix s p then drop (length p) s else s)"

definition trim_suffix :: "string \<Rightarrow> string \<Rightarrow> string" where
  "trim_suffix s p = (if has_suffix s p then take (length s - length p) s else s)"

text \<open>\<open>strings.Trim\<close> with a cutset.\<close>

definition str_trim :: "string \<Rightarrow> string \<Rightarrow> string" where
  "str_trim s cutset = rev (dropWhile (\<lambda>c. c \<in> set cutset) (rev (dropWhile (\<lambda>c. c \<in> set cutset) s)))"

text \<open>\<open>strings.Fields\<close>: the maximal runs of other characters than white space.\<close>

fun fields_from :: "string \<Rightarrow> string \<Rightarrow> string list" where
  "fields_from acc [] = (if acc = [] then [] else [acc])"
| "fields_from acc (c # s) = (if is_space c then (if acc = [] then [] else [acc]) @ fields_from [] s
     else fields_from (acc @ [c]) s)"

definition str_fields :: "string \<Rightarrow> string list" where
  "str_fields s = fields_from [] s"

section \<open>Paths\<close>

definition slash :: char where "slash = CHR ''/''"

definition path_base :: "string \<Rightarrow> string" where
  "path_base p = (if p = [] then ''.'' else
     let q = rev (dropWhile (\<lambda>c. c = slash) (rev p)) in
     if q = [] then [slash] else rev (takeWhile (\<lambda>c. c \<noteq> slash) (rev q)))"

definition path_ext :: "string \<Rightarrow> string" where
  "path_ext p = (let l = rev (takeWhile (\<lambda>c. c \<noteq> slash) (rev p)) in
     if CHR ''.'' \<in> set l then CHR ''.'' # rev (takeWhile (\<lambda>c. c \<noteq> CHR ''.'') (rev l)) else [])"

section \<open>Regular expressions\<close>

definition between :: "char \<Rightarrow> char \<Rightarrow> char \<Rightarrow> bool" where
  "between a b c = ((of_char a :: nat) \<le> of_char c \<and> (of_char c :: nat) \<le> of_char b)"

definition is_digit :: "char \<Rightarrow> bool" where "is_digit c = between CHR ''0'' CHR ''9'' c"
definition is_alpha :: "char \<Rightarrow> bool" where "is_alpha c = (between CHR ''a'' CHR ''z'' c \<or> between CHR ''A'' CHR ''Z'' c)"
definition is_word :: "char \<Rightarrow> bool" where "is_word c = (is_digit c \<or> is_alpha c \<or> c = CHR ''_'')"

text \<open>\<open>\s\<close> is narrower than \<open>unicode.IsSpace\<close>: no vertical tab.\<close>

definition rx_space :: "char \<Rightarrow> bool" where "rx_space c = (is_space c \<and> of_char c \<noteq> (11 :: nat))"

datatype rx = REmpty | RSet "char \<Rightarrow> bool" | RSeq rx rx | RAlt rx rx | RStar rx | RGroup nat rx
  | RWordB | RBegin | REnd | RLineB | RLazy rx

text \<open>\<open>RLineB\<close> is \<open>^\<close> under \<open>(?m)\<close>, \<open>RLazy\<close> the star that takes as little as it can.\<close>

text \<open>A state: what has been read, backwards; what is left; the groups, the latest first.\<close>

type_synonym rx_state = "string \<times> string \<times> (nat \<times> string) list"

fun rx_star :: "(rx_state \<Rightarrow> rx_state list) \<Rightarrow> nat \<Rightarrow> rx_state \<Rightarrow> rx_state list" where
  "rx_star f 0 st = [st]"
| "rx_star f (Suc n) st =
     concat (map (\<lambda>st'. if length (fst (snd st')) < length (fst (snd st)) then rx_star f n st' else []) (f st)) @ [st]"

fun rx_lazy :: "(rx_state \<Rightarrow> rx_state list) \<Rightarrow> nat \<Rightarrow> rx_state \<Rightarrow> rx_state list" where
  "rx_lazy f 0 st = [st]"
| "rx_lazy f (Suc n) st =
     st # concat (map (\<lambda>st'. if length (fst (snd st')) < length (fst (snd st)) then rx_lazy f n st' else []) (f st))"

definition at_word :: "string \<Rightarrow> bool" where
  "at_word s = (case s of [] \<Rightarrow> False | c # s' \<Rightarrow> is_word c)"

fun rx_m :: "rx \<Rightarrow> rx_state \<Rightarrow> rx_state list" where
  "rx_m REmpty st = [st]"
| "rx_m (RSet P) (l, r, cs) = (case r of [] \<Rightarrow> [] | c # r' \<Rightarrow> if P c then [(c # l, r', cs)] else [])"
| "rx_m (RSeq a b) st = concat (map (rx_m b) (rx_m a st))"
| "rx_m (RAlt a b) st = rx_m a st @ rx_m b st"
| "rx_m (RStar a) st = rx_star (rx_m a) (length (fst (snd st))) st"
| "rx_m (RGroup n a) (l, r, cs) =
     map (\<lambda>(l', r', cs'). (l', r', (n, take (length r - length r') r) # cs')) (rx_m a (l, r, cs))"
| "rx_m RWordB (l, r, cs) = (if at_word l \<noteq> at_word r then [(l, r, cs)] else [])"
| "rx_m RBegin (l, r, cs) = (if l = [] then [(l, r, cs)] else [])"
| "rx_m REnd (l, r, cs) = (if r = [] then [(l, r, cs)] else [])"
| "rx_m RLineB (l, r, cs) = (case l of [] \<Rightarrow> [(l, r, cs)] | c # l' \<Rightarrow> if c = nl then [(l, r, cs)] else [])"
| "rx_m (RLazy a) st = rx_lazy (rx_m a) (length (fst (snd st))) st"

definition RPlus :: "rx \<Rightarrow> rx" where "RPlus a = RSeq a (RStar a)"
definition ROpt :: "rx \<Rightarrow> rx" where "ROpt a = RAlt a REmpty"
definition RChar :: "char \<Rightarrow> rx" where "RChar c = RSet (\<lambda>d. d = c)"
definition RLit :: "string \<Rightarrow> rx" where "RLit s = foldr (\<lambda>c. RSeq (RChar c)) s REmpty"

text \<open>A literal under \<open>(?i)\<close>.\<close>

definition RLit_i :: "string \<Rightarrow> rx" where
  "RLit_i s = foldr (\<lambda>c. RSeq (RSet (\<lambda>d. lower_char d = lower_char c))) s REmpty"

definition RSeqs :: "rx list \<Rightarrow> rx" where "RSeqs es = foldr RSeq es REmpty"

text \<open>The first match from a position on: the text from its start, and the state at its end.\<close>

fun rx_find_from :: "rx \<Rightarrow> string \<Rightarrow> string \<Rightarrow> (string \<times> rx_state) option" where
  "rx_find_from e l [] = (case rx_m e (l, [], []) of [] \<Rightarrow> None | st # sts \<Rightarrow> Some ([], st))"
| "rx_find_from e l (c # r) = (case rx_m e (l, c # r, []) of [] \<Rightarrow> rx_find_from e (c # l) r
     | st # sts \<Rightarrow> Some (c # r, st))"

definition MatchString :: "rx \<Rightarrow> string \<Rightarrow> bool" where
  "MatchString e s \<longleftrightarrow> rx_find_from e [] s \<noteq> None"

definition rx_groups :: "string \<times> rx_state \<Rightarrow> nat \<Rightarrow> string" where
  "rx_groups m i = (case m of (r0, l, r, cs) \<Rightarrow>
     if i = 0 then take (length r0 - length r) r0 else case map_of cs i of None \<Rightarrow> [] | Some t \<Rightarrow> t)"

definition FindStringSubmatch :: "rx \<Rightarrow> string \<Rightarrow> (nat \<Rightarrow> string) option" where
  "FindStringSubmatch e s = map_option rx_groups (rx_find_from e [] s)"

text \<open>
  All matches from left to right, for expressions that match no empty text; each match takes
  a character, so the length of the text is fuel enough.
\<close>

fun rx_all :: "nat \<Rightarrow> rx \<Rightarrow> string \<Rightarrow> string \<Rightarrow> (nat \<Rightarrow> string) list" where
  "rx_all 0 e l r = []"
| "rx_all (Suc n) e l r = (case rx_find_from e l r of None \<Rightarrow> []
     | Some (r0, l', r', cs) \<Rightarrow> rx_groups (r0, l', r', cs) # rx_all n e l' r')"

definition FindAllStringSubmatch :: "rx \<Rightarrow> string \<Rightarrow> (nat \<Rightarrow> string) list" where
  "FindAllStringSubmatch e s = rx_all (length s) e [] s"

fun rx_replace :: "nat \<Rightarrow> rx \<Rightarrow> (string \<Rightarrow> string) \<Rightarrow> string \<Rightarrow> string \<Rightarrow> string" where
  "rx_replace 0 e f l r = r"
| "rx_replace (Suc n) e f l r = (case rx_find_from e l r of None \<Rightarrow> r
     | Some (r0, l', r', cs) \<Rightarrow> take (length r - length r0) r @ f (take (length r0 - length r') r0) @ rx_replace n e f l' r')"

definition ReplaceAllStringFunc :: "rx \<Rightarrow> string \<Rightarrow> (string \<Rightarrow> string) \<Rightarrow> string" where
  "ReplaceAllStringFunc e s f = rx_replace (length s) e f [] s"

section \<open>Lemmas\<close>

lemma split_on_ne [simp]: "split_on sep s \<noteq> []"
  by (induction s) (auto split: list.split)

lemma split_on_none: "sep \<notin> set s \<Longrightarrow> split_on sep s = [s]"
  by (induction s) auto

lemma split_on_append: "split_on sep (a @ sep # b) = split_on sep a @ split_on sep b"
proof (induction a)
  case (Cons x a)
  obtain p ps where "split_on sep a = p # ps" by (cases "split_on sep a") simp_all
  then show ?case using Cons by simp
qed simp

lemma split_on_join: "str_join (split_on sep s) [sep] = s"
proof (induction s)
  case (Cons c s)
  obtain p ps where s: "split_on sep s = p # ps" by (cases "split_on sep s") simp_all
  then show ?case using Cons by (cases ps) simp_all
qed simp

lemma split_join:
  assumes "ls \<noteq> []" and "\<forall>l \<in> set ls. sep \<notin> set l"
  shows "split_on sep (str_join ls [sep]) = ls"
  using assms
proof (induction ls)
  case (Cons x ls)
  then show ?case by (cases ls) (simp_all add: split_on_none split_on_append)
qed simp

lemma has_suffix_iff: "has_suffix s p \<longleftrightarrow> (\<exists>t. s = t @ p)"
proof -
  have "has_suffix s p \<longleftrightarrow> (\<exists>t. rev s = rev p @ t)" by (simp add: has_suffix_def has_prefix_iff)
  also have "\<dots> \<longleftrightarrow> (\<exists>t. s = t @ p)" by (metis rev_append rev_rev_ident)
  finally show ?thesis .
qed

text \<open>A greedy run of one character class takes as much as it can and gives back one at a time.\<close>

lemma rx_star_set:
  assumes "length r \<le> n"
  shows "rx_star (rx_m (RSet P)) n (l, r, cs) =
    map (\<lambda>k. (rev (take k r) @ l, drop k r, cs)) (rev [0..<Suc (length (takeWhile P r))])"
  using assms
proof (induction n arbitrary: l r)
  case (Suc n)
  show ?case
  proof (cases r)
    case (Cons c r')
    show ?thesis
    proof (cases "P c")
      case True
      have "rev [0..<Suc (Suc m)] = map Suc (rev [0..<Suc m]) @ [0]" for m
        by (simp add: rev_map [symmetric] map_Suc_upt upt_conv_Cons del: upt_Suc)
      then show ?thesis using Suc Cons True by (simp add: comp_def del: upt_Suc)
    qed (simp add: Cons)
  qed simp
qed simp

lemma rx_m_star_set:
  "rx_m (RStar (RSet P)) (l, r, cs) =
    map (\<lambda>k. (rev (take k r) @ l, drop k r, cs)) (rev [0..<Suc (length (takeWhile P r))])"
  by (simp add: rx_star_set del: upt_Suc)

end
