(* ===== verification/ReviewConsolidator.thy ===== *)
theory ReviewConsolidator imports GoText EngineLoop RunnerOutcomes begin

text \<open>
  \<open>internal/handler/review_consolidator.go\<close>: the barrier that joins the verdicts of parallel
  reviewers on one developer iteration into at most one feedback. The handler keeps no state; a
  round is rebuilt from the correlation log.
\<close>

section \<open>The handler\<close>

definition ReviewConsolidatorName :: string where "ReviewConsolidatorName = ''review-consolidator''"

record consolidator =
  rc_reviewers :: "string list"
  rc_targetPersona :: string

text \<open>\<open>None\<close> is the panic on an empty join set; \<open>has_store\<close> says that a store was given.\<close>

definition NewReviewConsolidator :: "string list \<Rightarrow> string \<Rightarrow> bool \<Rightarrow> consolidator option" where
  "NewReviewConsolidator reviewers target has_store = (if reviewers = [] \<or> \<not> has_store then None
     else Some \<lparr>rc_reviewers = reviewers, rc_targetPersona = (if target = [] then ''developer'' else target)\<rparr>)"

text \<open>The verdict in an event, when it is one.\<close>

definition verdict_in :: "envelope \<Rightarrow> verdict option" where
  "verdict_in e = (if e_Type e = VerdictRendered then as_verdict (e_Payload e) else None)"

definition round_key :: "string list \<Rightarrow> envelope \<Rightarrow> string option" where
  "round_key reviewers e = (case verdict_in e of None \<Rightarrow> None
     | Some v \<Rightarrow> if v_DevTriggerID v = [] then None
         else if v_SourcePersona v \<notin> set reviewers then None else Some (v_DevTriggerID v))"

fun latest_round :: "string list \<Rightarrow> envelope list \<Rightarrow> string" where
  "latest_round reviewers [] = []"
| "latest_round reviewers (e # newest_first) =
     (case round_key reviewers e of None \<Rightarrow> latest_round reviewers newest_first | Some d \<Rightarrow> d)"

definition collect_verdict ::
    "string list \<Rightarrow> string \<Rightarrow> envelope \<Rightarrow> (string \<rightharpoonup> verdict) \<Rightarrow> (string \<rightharpoonup> verdict)" where
  "collect_verdict reviewers devTriggerID e bySource = (case verdict_in e of None \<Rightarrow> bySource
     | Some v \<Rightarrow> if v_DevTriggerID v \<noteq> devTriggerID then bySource
         else if v_SourcePersona v \<notin> set reviewers then bySource
         else bySource(v_SourcePersona v \<mapsto> v))"

definition pickRoundVerdicts :: "consolidator \<Rightarrow> envelope list \<Rightarrow> verdict list \<times> string" where
  "pickRoundVerdicts h events = (let devTriggerID = latest_round (rc_reviewers h) (rev events) in
     if devTriggerID = [] then ([], [])
     else let bySource = fold (collect_verdict (rc_reviewers h) devTriggerID) events Map.empty in
       (List.map_filter bySource (rc_reviewers h), devTriggerID))"

definition failing_verdict :: "verdict \<Rightarrow> bool" where
  "failing_verdict v = (v_Outcome v = VerdictFail \<and> \<not> v_Advisory v)"

definition failingVerdicts :: "verdict list \<Rightarrow> verdict list" where
  "failingVerdicts verdicts = filter failing_verdict verdicts"

definition targets :: "string \<Rightarrow> envelope \<Rightarrow> bool" where
  "targets target e = (e_Type e = FeedbackGenerated \<and>
     (case as_feedback (e_Payload e) of None \<Rightarrow> False | Some p \<Rightarrow> fb_TargetPersona p = target))"

definition countPriorFeedback :: "envelope list \<Rightarrow> string \<Rightarrow> int" where
  "countPriorFeedback events target = foldl (\<lambda>n e. if targets target e then n + 1 else n) 0 events"

text \<open>One failing verdict: its issues with the source in front, and the diagnostics so far.\<close>

definition tag :: "string \<Rightarrow> string \<Rightarrow> string" where
  "tag source text = ''['' @ source @ ''] '' @ text"

definition merged_issues :: "verdict \<Rightarrow> issue list" where
  "merged_issues v = map (\<lambda>i. i\<lparr>is_Description := tag (v_SourcePersona v) (is_Description i)\<rparr>) (v_Issues v) @
     (if v_Issues v = [] \<and> trim_space (v_Summary v) \<noteq> []
      then [\<lparr>is_Severity = ''minor'', is_Category = ''correctness'',
             is_Description = tag (v_SourcePersona v) (trim_space (v_Summary v)), is_File = [], is_Line = 0\<rparr>]
      else [])"

definition merge_diagnostics :: "verdict \<Rightarrow> string \<Rightarrow> string" where
  "merge_diagnostics v raw = (if v_RawDiagnostics v = [] then raw
     else raw @ (if raw \<noteq> [] then [nl] @ ''---'' @ [nl] else []) @
       ''['' @ v_SourcePersona v @ '']'' @ [nl] @ v_RawDiagnostics v)"

definition buildMergedFeedback :: "verdict list \<Rightarrow> string \<Rightarrow> int \<Rightarrow> feedback_generated" where
  "buildMergedFeedback failing target iteration = \<lparr>fb_TargetPersona = target,
     fb_SourcePersona = ReviewConsolidatorName, fb_Iteration = iteration,
     fb_Issues = concat (map merged_issues failing),
     fb_Summary = ''review-consolidator: merged feedback from '' @ str_join (map v_SourcePersona failing) '', '',
     fb_RawDiagnostics = fold merge_diagnostics failing []\<rparr>"

text \<open>\<open>loaded\<close> is the answer of the store, \<open>Inl\<close> the text of its error.\<close>

definition consolidator_Handle ::
    "runtime \<Rightarrow> consolidator \<Rightarrow> string + envelope list \<Rightarrow> envelope \<Rightarrow> string + envelope list" where
  "consolidator_Handle rt h loaded env = (case loaded of
      Inl err \<Rightarrow> Inl (''review-consolidator: load correlation '' @ e_CorrelationID env @ '': '' @ err)
    | Inr events \<Rightarrow> (case pickRoundVerdicts h events of (verdicts, devTriggerID) \<Rightarrow>
        if verdicts = [] then Inr []
        else let failing = failingVerdicts verdicts in
          if failing = [] then Inr []
          else Inr [WithSource (''handler:'' @ ReviewConsolidatorName) (NewEnv rt 0 FeedbackGenerated 1
            (PFeedbackGenerated (buildMergedFeedback failing (rc_targetPersona h)
              (countPriorFeedback events (rc_targetPersona h) + 1))))]))"

section \<open>The round\<close>

lemma latest_round_rev:
  "latest_round reviewers (rev events) = (case last_match (\<lambda>e. round_key reviewers e \<noteq> None) events of
     None \<Rightarrow> [] | Some e \<Rightarrow> the (round_key reviewers e))"
  by (induction events rule: rev_induct) (auto split: option.split)

lemma round_key_nonempty: "round_key reviewers e = Some d \<Longrightarrow> d \<noteq> []"
  by (auto simp: round_key_def split: option.splits if_splits)

text \<open>The verdict that counts for a reviewer: the last one it rendered on the iteration.\<close>

definition round_verdict :: "envelope list \<Rightarrow> string \<Rightarrow> string \<Rightarrow> verdict option" where
  "round_verdict events d p = (case last_match (\<lambda>e. case verdict_in e of None \<Rightarrow> False
       | Some v \<Rightarrow> v_DevTriggerID v = d \<and> v_SourcePersona v = p) events of
     None \<Rightarrow> None | Some e \<Rightarrow> verdict_in e)"

lemma collected:
  assumes "p \<in> set reviewers"
  shows "fold (collect_verdict reviewers d) events Map.empty p = round_verdict events d p"
  using assms
  by (induction events rule: rev_induct)
    (auto simp: round_verdict_def collect_verdict_def split: option.splits)

lemma pick_is_round_verdicts:
  "pickRoundVerdicts h events = (let d = latest_round (rc_reviewers h) (rev events) in
     (if d = [] then [] else List.map_filter (round_verdict events d) (rc_reviewers h), d))"
proof -
  have "List.map_filter (fold (collect_verdict (rc_reviewers h) d) events Map.empty) (rc_reviewers h) =
      List.map_filter (round_verdict events d) (rc_reviewers h)" for d
    by (simp add: List.map_filter_def collected cong: map_cong filter_cong)
  then show ?thesis by (simp add: pickRoundVerdicts_def Let_def)
qed

lemma countPriorFeedback_filter: "countPriorFeedback events target = int (length (filter (targets target) events))"
  unfolding countPriorFeedback_def by (induction events rule: rev_induct) simp_all

lemma handle_eq:
  "consolidator_Handle rt h (Inr events) env = Inr (case pickRoundVerdicts h events of (verdicts, d) \<Rightarrow>
     if failingVerdicts verdicts = [] then []
     else [WithSource (''handler:'' @ ReviewConsolidatorName) (NewEnv rt 0 FeedbackGenerated 1
       (PFeedbackGenerated (buildMergedFeedback (failingVerdicts verdicts) (rc_targetPersona h)
         (countPriorFeedback events (rc_targetPersona h) + 1))))])"
  by (auto simp: consolidator_Handle_def Let_def failingVerdicts_def split: prod.split)

definition round_of :: "consolidator \<Rightarrow> envelope list \<Rightarrow> string" where
  "round_of h events = latest_round (rc_reviewers h) (rev events)"

text \<open>The reviewers whose last verdict in the round is a failure that counts.\<close>

definition failing_reviewers :: "consolidator \<Rightarrow> envelope list \<Rightarrow> string list" where
  "failing_reviewers h events = (if round_of h events = [] then []
     else filter (\<lambda>p. case round_verdict events (round_of h events) p of None \<Rightarrow> False | Some v \<Rightarrow> failing_verdict v)
       (rc_reviewers h))"

lemma failing_picked:
  "failingVerdicts (fst (pickRoundVerdicts h events)) =
     map (\<lambda>p. the (round_verdict events (round_of h events) p)) (failing_reviewers h events)"
proof -
  have "filter failing_verdict (List.map_filter f ps) =
      map (\<lambda>p. the (f p)) (filter (\<lambda>p. case f p of None \<Rightarrow> False | Some v \<Rightarrow> failing_verdict v) ps)" for f and ps :: "string list"
    by (induction ps) (auto simp: List.map_filter_def split: option.splits)
  then show ?thesis
    by (simp add: failingVerdicts_def pick_is_round_verdicts failing_reviewers_def round_of_def [symmetric] Let_def)
qed

lemma round_verdict_source: "round_verdict events d p = Some v \<Longrightarrow> v_SourcePersona v = p"
proof (induction events rule: rev_induct)
  case Nil
  then show ?case by (simp add: round_verdict_def)
next
  case (snoc e events)
  then show ?case by (auto simp: round_verdict_def split: option.splits if_splits)
qed

lemma failing_sources:
  "map v_SourcePersona (failingVerdicts (fst (pickRoundVerdicts h events))) = failing_reviewers h events"
  unfolding failing_picked map_map
  by (rule map_idI) (auto simp: failing_reviewers_def dest: round_verdict_source split: if_splits option.splits)

section \<open>What a round is, read off the log\<close>

text \<open>
  The specification names the events of the log and the fields of their payloads only. The
  current developer iteration is the one the newest verdict of a joined reviewer refers to; a
  reviewer's verdict on it is the newest it rendered on it; it rejects when it fails and is
  not advisory.
\<close>

definition renders :: "envelope \<Rightarrow> string \<Rightarrow> string \<Rightarrow> verdict \<Rightarrow> bool" where
  "renders e p d v \<longleftrightarrow> e_Type e = VerdictRendered \<and> as_verdict (e_Payload e) = Some v \<and>
     v_SourcePersona v = p \<and> v_DevTriggerID v = d"

definition current_iteration :: "string list \<Rightarrow> envelope list \<Rightarrow> string \<Rightarrow> bool" where
  "current_iteration reviewers events d \<longleftrightarrow> d \<noteq> [] \<and>
     (\<exists>e. last_such (\<lambda>x. \<exists>p \<in> set reviewers. \<exists>d' v. d' \<noteq> [] \<and> renders x p d' v) events e \<and> (\<exists>p v. renders e p d v))"

definition rejects :: "string list \<Rightarrow> envelope list \<Rightarrow> string \<Rightarrow> verdict \<Rightarrow> bool" where
  "rejects reviewers events p v \<longleftrightarrow> v_Outcome v = VerdictFail \<and> \<not> v_Advisory v \<and>
     (\<exists>d e. current_iteration reviewers events d \<and> last_such (\<lambda>x. \<exists>v'. renders x p d v') events e \<and> renders e p d v)"

lemma verdict_in_iff: "verdict_in e = Some v \<longleftrightarrow> renders e (v_SourcePersona v) (v_DevTriggerID v) v"
  by (simp add: verdict_in_def renders_def)

lemma round_key_iff:
  "(round_key reviewers e \<noteq> None) = (\<exists>p \<in> set reviewers. \<exists>d v. d \<noteq> [] \<and> renders e p d v)"
  by (auto simp: round_key_def verdict_in_def renders_def split: option.split)

lemma current_iteration_iff: "current_iteration (rc_reviewers h) events d \<longleftrightarrow> round_of h events = d \<and> d \<noteq> []"
proof -
  let ?P = "\<lambda>e. round_key (rc_reviewers h) e \<noteq> None"
  have key: "(\<exists>p v. renders e p d v) \<longleftrightarrow> round_key (rc_reviewers h) e = Some d" if "?P e" for e
    using that by (auto simp: round_key_def verdict_in_def renders_def split: option.splits if_splits)
  have "current_iteration (rc_reviewers h) events d \<longleftrightarrow>
      d \<noteq> [] \<and> (\<exists>e. last_match ?P events = Some e \<and> (\<exists>p v. renders e p d v))"
    unfolding current_iteration_def round_key_iff [symmetric] last_match_iff ..
  also have "\<dots> \<longleftrightarrow> d \<noteq> [] \<and> (\<exists>e. last_match ?P events = Some e \<and> round_key (rc_reviewers h) e = Some d)"
    using key last_match_in [of ?P events] by blast
  also have "\<dots> \<longleftrightarrow> round_of h events = d \<and> d \<noteq> []"
    using last_match_in [of ?P events] by (auto simp: round_of_def latest_round_rev split: option.splits)
  finally show ?thesis .
qed

lemma round_verdict_iff:
  "round_verdict events d p = Some v \<longleftrightarrow>
     (\<exists>e. last_such (\<lambda>x. \<exists>v'. renders x p d v') events e \<and> renders e p d v)"
proof -
  let ?P = "\<lambda>e. case verdict_in e of None \<Rightarrow> False | Some v \<Rightarrow> v_DevTriggerID v = d \<and> v_SourcePersona v = p"
  have P: "?P = (\<lambda>x. \<exists>v'. renders x p d v')"
    by (auto simp: fun_eq_iff verdict_in_def renders_def split: option.split)
  have v: "verdict_in e = Some v \<longleftrightarrow> renders e p d v" if "?P e" for e
    using that by (auto simp: verdict_in_def renders_def split: option.splits if_splits)
  have "round_verdict events d p = Some v \<longleftrightarrow> (\<exists>e. last_match ?P events = Some e \<and> verdict_in e = Some v)"
    by (simp add: round_verdict_def split: option.split)
  also have "\<dots> \<longleftrightarrow> (\<exists>e. last_match ?P events = Some e \<and> renders e p d v)"
    using v last_match_in [of ?P events] by blast
  finally show ?thesis unfolding last_match_iff P .
qed

lemma rejects_iff:
  "rejects (rc_reviewers h) events p v \<longleftrightarrow>
     round_of h events \<noteq> [] \<and> round_verdict events (round_of h events) p = Some v \<and> failing_verdict v"
  by (auto simp: rejects_def current_iteration_iff round_verdict_iff failing_verdict_def)

lemma failing_reviewers_iff:
  "failing_reviewers h events = filter (\<lambda>p. \<exists>v. rejects (rc_reviewers h) events p v) (rc_reviewers h)"
  by (auto simp: failing_reviewers_def rejects_iff filter_empty_conv intro!: filter_cong split: option.split)

lemma rejects_all:
  "list_all2 (rejects (rc_reviewers h) events) (failing_reviewers h events)
     (map (\<lambda>p. the (round_verdict events (round_of h events) p)) (failing_reviewers h events))"
  by (auto simp: list_all2_map2 list_all2_same rejects_iff failing_reviewers_def split: if_splits option.splits)

text \<open>The diagnostics of the rejecting reviewers, each under its name, with rules between them.\<close>

lemma merge_all_diagnostics:
  "fold merge_diagnostics vs raw = str_join ((if raw = [] then [] else [raw]) @
     map (\<lambda>v. ''['' @ v_SourcePersona v @ '']'' @ [nl] @ v_RawDiagnostics v) (filter (\<lambda>v. v_RawDiagnostics v \<noteq> []) vs))
     ([nl] @ ''---'' @ [nl])"
proof (induction vs arbitrary: raw)
  case (Cons v vs)
  have join: "str_join ((x @ sep @ y) # zs) sep = str_join (x # y # zs) sep" for x y sep :: string and zs
    by (cases zs) simp_all
  show ?case
  proof (cases "v_RawDiagnostics v = []")
    case True
    then show ?thesis using Cons.IH [of raw] by (simp add: merge_diagnostics_def)
  next
    case False
    then show ?thesis
      using Cons.IH [of "merge_diagnostics v raw"]
        join [of raw "[nl] @ ''---'' @ [nl]" "''['' @ v_SourcePersona v @ '']'' @ [nl] @ v_RawDiagnostics v"]
      by (simp add: merge_diagnostics_def del: str_join.simps)
  qed
qed simp

lemma merged_issues_shown:
  "merged_issues v = (if v_Issues v \<noteq> []
     then map (\<lambda>i. i\<lparr>is_Description := ''['' @ v_SourcePersona v @ ''] '' @ is_Description i\<rparr>) (v_Issues v)
     else if trim_space (v_Summary v) = [] then []
     else [\<lparr>is_Severity = ''minor'', is_Category = ''correctness'',
            is_Description = ''['' @ v_SourcePersona v @ ''] '' @ trim_space (v_Summary v), is_File = [], is_Line = 0\<rparr>])"
  by (simp add: merged_issues_def tag_def)

section \<open>Properties\<close>

text \<open>
  C36. When the correlation log can be read, the consolidator emits nothing if no joined
  reviewer rejects the current developer iteration. Otherwise it emits one merged feedback: it
  goes to the configured persona, counts one more than the feedbacks the log has for it, names
  exactly the rejecting reviewers in the configured order, and carries in that order every
  issue of each of them under the reviewer's name - or, for a reviewer that lists none, its
  summary as a minor correctness issue unless it is blank - and the raw diagnostics of each.
\<close>

theorem one_merged_feedback_per_round:
  assumes "ps = filter (\<lambda>p. \<exists>v. rejects (rc_reviewers h) events p v) (rc_reviewers h)"
    and "out = consolidator_Handle rt h (Inr events) env"
  shows "(ps = [] \<longrightarrow> out = Inr []) \<and>
    (ps \<noteq> [] \<longrightarrow> (\<exists>e fb vs. out = Inr [e] \<and> e_Type e = FeedbackGenerated \<and> as_feedback (e_Payload e) = Some fb \<and>
       list_all2 (rejects (rc_reviewers h) events) ps vs \<and>
       fb_TargetPersona fb = rc_targetPersona h \<and> fb_SourcePersona fb = ''review-consolidator'' \<and>
       fb_Iteration fb = 1 + int (length (filter (\<lambda>x. e_Type x = FeedbackGenerated \<and>
         (\<exists>f. as_feedback (e_Payload x) = Some f \<and> fb_TargetPersona f = rc_targetPersona h)) events)) \<and>
       fb_Summary fb = ''review-consolidator: merged feedback from '' @ str_join ps '', '' \<and>
       fb_Issues fb = concat (map2 (\<lambda>p v.
         if v_Issues v \<noteq> []
         then map (\<lambda>i. i\<lparr>is_Description := ''['' @ p @ ''] '' @ is_Description i\<rparr>) (v_Issues v)
         else if trim_space (v_Summary v) = [] then []
         else [\<lparr>is_Severity = ''minor'', is_Category = ''correctness'',
                is_Description = ''['' @ p @ ''] '' @ trim_space (v_Summary v), is_File = [], is_Line = 0\<rparr>]) ps vs) \<and>
       fb_RawDiagnostics fb = str_join (map (\<lambda>(p, v). ''['' @ p @ '']'' @ [nl] @ v_RawDiagnostics v)
         (filter (\<lambda>(p, v). v_RawDiagnostics v \<noteq> []) (zip ps vs))) ([nl] @ ''---'' @ [nl])))"
proof -
  let ?vs = "failingVerdicts (fst (pickRoundVerdicts h events))"
  have ps: "ps = failing_reviewers h events" by (simp add: assms(1) failing_reviewers_iff)
  have src: "map v_SourcePersona ?vs = ps" by (simp add: ps failing_sources)
  have empty: "?vs = [] \<longleftrightarrow> ps = []" by (simp add: ps failing_picked)
  have all: "list_all2 (rejects (rc_reviewers h) events) ps ?vs" by (simp add: ps failing_picked rejects_all)
  have zip: "zip ps ?vs = map (\<lambda>v. (v_SourcePersona v, v)) ?vs"
    unfolding src [symmetric] by (simp add: zip_map1 zip_same_conv_map)
  have target: "targets t = (\<lambda>x. e_Type x = FeedbackGenerated \<and>
      (\<exists>f. as_feedback (e_Payload x) = Some f \<and> fb_TargetPersona f = t))" for t
    by (auto simp: targets_def fun_eq_iff split: option.split)
  let ?fb = "buildMergedFeedback ?vs (rc_targetPersona h) (countPriorFeedback events (rc_targetPersona h) + 1)"
  let ?e = "WithSource (''handler:'' @ ReviewConsolidatorName) (NewEnv rt 0 FeedbackGenerated 1 (PFeedbackGenerated ?fb))"
  have out: "out = Inr (if ps = [] then [] else [?e])"
    unfolding assms(2) handle_eq using empty by (simp add: case_prod_beta)
  have e: "e_Type ?e = FeedbackGenerated" "as_feedback (e_Payload ?e) = Some ?fb"
    by (simp_all add: WithSource_def NewEnv_def as_feedback_def)
  have issues: "fb_Issues ?fb = concat (map2 (\<lambda>p v.
         if v_Issues v \<noteq> []
         then map (\<lambda>i. i\<lparr>is_Description := ''['' @ p @ ''] '' @ is_Description i\<rparr>) (v_Issues v)
         else if trim_space (v_Summary v) = [] then []
         else [\<lparr>is_Severity = ''minor'', is_Category = ''correctness'',
                is_Description = ''['' @ p @ ''] '' @ trim_space (v_Summary v), is_File = [], is_Line = 0\<rparr>]) ps ?vs)"
    unfolding zip by (simp add: buildMergedFeedback_def comp_def)
      (rule arg_cong [where f = concat], rule map_cong [OF refl], simp add: merged_issues_shown)
  have diag: "fb_RawDiagnostics ?fb = str_join (map (\<lambda>(p, v). ''['' @ p @ '']'' @ [nl] @ v_RawDiagnostics v)
         (filter (\<lambda>(p, v). v_RawDiagnostics v \<noteq> []) (zip ps ?vs))) ([nl] @ ''---'' @ [nl])"
    unfolding zip by (simp add: buildMergedFeedback_def merge_all_diagnostics filter_map comp_def)
  have rest: "fb_TargetPersona ?fb = rc_targetPersona h" "fb_SourcePersona ?fb = ''review-consolidator''"
    "fb_Iteration ?fb = 1 + int (length (filter (targets (rc_targetPersona h)) events))"
    "fb_Summary ?fb = ''review-consolidator: merged feedback from '' @ str_join ps '', ''"
    by (simp_all add: buildMergedFeedback_def ReviewConsolidatorName_def countPriorFeedback_filter src)
  show ?thesis
    using out e all issues diag rest [unfolded target]
    by (intro conjI impI, simp) (intro exI [of _ ?e] exI [of _ ?fb] exI [of _ ?vs], simp)
qed

definition sample_rejection :: verdict where
  "sample_rejection = zero_verdict\<lparr>v_Outcome := VerdictFail, v_SourcePersona := ''qa'', v_DevTriggerID := ''d1'',
     v_Summary := ''no tests''\<rparr>"

lemma one_merged_feedback_per_round_witness:
  "\<exists>e fb. consolidator_Handle sample_rt \<lparr>rc_reviewers = [''reviewer'', ''qa''], rc_targetPersona = ''developer''\<rparr>
       (Inr [sample_env VerdictRendered (PVerdict sample_rejection)]) (sample_env PersonaCompleted (POther [])) = Inr [e] \<and>
     as_feedback (e_Payload e) = Some fb \<and> fb_TargetPersona fb = ''developer'' \<and>
     fb_Summary fb = ''review-consolidator: merged feedback from qa''"
proof -
  let ?h = "\<lparr>rc_reviewers = [''reviewer'', ''qa''], rc_targetPersona = ''developer''\<rparr>"
  let ?e = "sample_env VerdictRendered (PVerdict sample_rejection)"
  have one: "last_such P [x] y \<longleftrightarrow> x = y \<and> P x" for P and x y :: envelope
    by (auto simp: last_such_def Cons_eq_append_conv)
  have v: "renders ?e p d v \<longleftrightarrow> p = ''qa'' \<and> d = ''d1'' \<and> v = sample_rejection" for p d v
    by (auto simp: renders_def sample_env_def as_verdict_def sample_rejection_def)
  then have some: "Ex (renders ?e p d) \<longleftrightarrow> p = ''qa'' \<and> d = ''d1''" for p d by blast
  have fails: "v_Outcome sample_rejection = VerdictFail" "\<not> v_Advisory sample_rejection"
    by (simp_all add: sample_rejection_def zero_verdict_def)
  have cur: "current_iteration [''reviewer'', ''qa''] [?e] d \<longleftrightarrow> d = ''d1''" for d
    unfolding current_iteration_def one by (auto simp: v some)
  have "rejects [''reviewer'', ''qa''] [?e] p v \<longleftrightarrow> p = ''qa'' \<and> v = sample_rejection" for p v
    by (auto simp: rejects_def cur one v some fails)
  then have "[''qa''] = filter (\<lambda>p. \<exists>v. rejects (rc_reviewers ?h) [?e] p v) (rc_reviewers ?h)" by simp
  from conjunct2 [OF one_merged_feedback_per_round [OF this refl, of sample_rt "sample_env PersonaCompleted (POther [])"]]
  show ?thesis by fastforce
qed

text \<open>What the current round may look at: everything but verdicts of other rounds or other personas.\<close>

definition of_round :: "consolidator \<Rightarrow> string \<Rightarrow> envelope \<Rightarrow> bool" where
  "of_round h d e = (case verdict_in e of None \<Rightarrow> True
     | Some v \<Rightarrow> v_DevTriggerID v = d \<and> v_SourcePersona v \<in> set (rc_reviewers h))"

lemma round_verdict_of_round:
  assumes "p \<in> set (rc_reviewers h)"
  shows "round_verdict (filter (of_round h d) events) d p = round_verdict events d p"
  using assms by (induction events rule: rev_induct) (auto simp: round_verdict_def of_round_def split: option.splits)

lemma round_of_filter: "round_of h events = d \<Longrightarrow> round_of h (filter (of_round h d) events) = d"
proof (induction events rule: rev_induct)
  case (snoc e events)
  show ?case
  proof (cases "round_key (rc_reviewers h) e")
    case None
    then show ?thesis using snoc by (auto simp: round_of_def)
  next
    case (Some d')
    then have "d' = d" using snoc.prems by (simp add: round_of_def)
    moreover have "of_round h d' e" using Some by (auto simp: of_round_def round_key_def split: option.splits if_splits)
    ultimately show ?thesis using Some by (simp add: round_of_def)
  qed
qed (simp add: round_of_def)

text \<open>
  Iterations are never mixed: the verdicts of a round are those that remain when every verdict
  of another developer iteration, or of a persona outside the join set, is taken out of the log.
\<close>

theorem rounds_are_not_mixed:
  "pickRoundVerdicts h (filter (of_round h (round_of h events)) events) = pickRoundVerdicts h events"
  using round_of_filter [OF refl, of h events]
  by (simp add: pick_is_round_verdicts Let_def round_of_def [symmetric] round_verdict_of_round List.map_filter_def
      cong: map_cong filter_cong)

lemma targets_numbered: "length (filter (targets t) (filter (\<lambda>e. e_CorrelationID e = c) (numbered a v es))) =
    length (filter (targets t) (filter (\<lambda>e. e_CorrelationID e = c) es))"
  by (induction es arbitrary: v) (auto simp: numbered_Cons targets_def)

lemma persona_aggregate_other: "persona_aggregate c n \<noteq> c"
  by (simp add: persona_aggregate_def)

lemma LoadFrom_other:
  assumes "Load st' c = Load st c" and "store_ok st" and "store_ok st'"
  shows "LoadFrom st' c n = LoadFrom st c n"
  using assms by (simp add: LoadFrom_def Load_rows)

text \<open>
  The iteration limit does not see consolidated rounds. The runner stores the consolidator's
  result in the stream of the consolidator, so the aggregate that the engine loads for the next
  verdict is the same as before, feedback count included, while the consolidator's own count of
  the correlation grows by the feedback it has sent.
\<close>

theorem consolidated_rounds_uncounted:
  assumes "store_ok st" and "es \<noteq> []" and "\<forall>e \<in> set es. e_CorrelationID e = c"
    and "Append False (persona_aggregate c ReviewConsolidatorName) v es st = Inr st'"
  shows "loadAggregate fault ws st' c = loadAggregate fault ws st c \<and>
    countPriorFeedback (LoadByCorrelation st' c) target =
      countPriorFeedback (LoadByCorrelation st c) target + int (length (filter (targets target) es))"
proof -
  note a = Append_Inr [OF assms(4,1,2)]
  have ok: "store_ok st'" using store_ok_Append [OF assms(4,1)] .
  have other: "Load st' c = Load st c"
    using sqlite.append_load [OF assms(1,4), of c] persona_aggregate_other [of c] by (auto dest: sym)
  have snapshots: "LoadSnapshot st' c = LoadSnapshot st c" using a(1) by (simp add: LoadSnapshot_def)
  have "LoadFrom st' c = LoadFrom st c" by (rule ext) (rule LoadFrom_other [OF other assms(1) ok])
  then have "loadAggregate fault ws st' c = loadAggregate fault ws st c"
    unfolding loadAggregate_def other snapshots by (simp only:)
  moreover have "filter (\<lambda>e. e_CorrelationID e = c) es = es" using assms(3) by simp
  ultimately show ?thesis
    using a(1) targets_numbered [of target c "persona_aggregate c ReviewConsolidatorName" v es]
    by (simp add: LoadByCorrelation_def countPriorFeedback_filter del: filter_filter)
qed

definition merged_event :: envelope where
  "merged_event = (sample_env FeedbackGenerated (PFeedbackGenerated
     (zero_feedback\<lparr>fb_TargetPersona := ''developer'', fb_SourcePersona := ReviewConsolidatorName\<rparr>)))\<lparr>e_CorrelationID := ''wf''\<rparr>"

theorem consolidated_rounds_uncounted_witness:
  "\<exists>st'. Append False (persona_aggregate ''wf'' ReviewConsolidatorName) 0 [merged_event] empty_store = Inr st' \<and>
     loadAggregate False [] st' ''wf'' = loadAggregate False [] empty_store ''wf'' \<and>
     countPriorFeedback (LoadByCorrelation st' ''wf'') ''developer'' = 1"
proof -
  obtain st' where st': "Append False (persona_aggregate ''wf'' ReviewConsolidatorName) 0 [merged_event] empty_store = Inr st'"
    by (simp add: Append_def empty_store_def current_version_def rows_of_def)
  have "countPriorFeedback (LoadByCorrelation empty_store ''wf'') ''developer'' = 0" "targets ''developer'' merged_event"
    "\<forall>e \<in> set [merged_event]. e_CorrelationID e = ''wf''"
    by (simp_all add: countPriorFeedback_def LoadByCorrelation_def empty_store_def targets_def merged_event_def sample_env_def
        as_feedback_def zero_feedback_def)
  then show ?thesis
    using consolidated_rounds_uncounted [OF store_ok_empty _ _ st', of False "[]" "''developer''"] st' by simp
qed

end
