(* ===== verification/BackendRotation.thy ===== *)
theory BackendRotation imports GoText FailureClassify "HOL-Library.Word" "HOL-Library.Multiset" begin

unbundle bit_operations_syntax

text \<open>
  \<open>internal/backend\<close>: the rotation over several AI backends (\<open>round_robin.go\<close>, \<open>sticky.go\<close>) and
  how a review rotation is built from its configuration (\<open>factory.go\<close>). The shared counter and
  the hash are 64-bit words.
\<close>

section \<open>Capabilities and contexts\<close>

record capabilities =
  cp_MCP :: bool
  cp_SystemPrompt :: bool
  cp_SessionResume :: bool
  cp_TokenAccounting :: bool
  cp_ReasoningEffort :: bool

record backend =
  bk_Name :: string
  bk_Capabilities :: capabilities

text \<open>What a context carries: \<open>WithStickyKey\<close> and \<open>WithRotateOffset\<close> leave it alone when there is nothing to say.\<close>

record call_ctx =
  cx_sticky :: "string option"
  cx_offset :: "int option"

definition background :: call_ctx where
  "background = \<lparr>cx_sticky = None, cx_offset = None\<rparr>"

definition WithStickyKey :: "string \<Rightarrow> call_ctx \<Rightarrow> call_ctx" where
  "WithStickyKey key ctx = (if key = [] then ctx else ctx\<lparr>cx_sticky := Some key\<rparr>)"

definition WithRotateOffset :: "int \<Rightarrow> call_ctx \<Rightarrow> call_ctx" where
  "WithRotateOffset offset ctx = (if offset \<le> 0 then ctx else ctx\<lparr>cx_offset := Some offset\<rparr>)"

definition stickyKey :: "call_ctx \<Rightarrow> string" where
  "stickyKey ctx = (case cx_sticky ctx of None \<Rightarrow> [] | Some key \<Rightarrow> key)"

definition rotateOffset :: "call_ctx \<Rightarrow> int" where
  "rotateOffset ctx = (case cx_offset ctx of None \<Rightarrow> 0 | Some v \<Rightarrow> if v > 0 then v else 0)"

text \<open>FNV-1a, 64 bits.\<close>

definition fnv_step :: "64 word \<Rightarrow> char \<Rightarrow> 64 word" where
  "fnv_step h c = (h XOR word_of_nat (of_char c)) * 1099511628211"

definition fnv64a :: "string \<Rightarrow> 64 word" where
  "fnv64a key = foldl fnv_step 14695981039346656037 key"

definition stickyIndex :: "string \<Rightarrow> int \<Rightarrow> int" where
  "stickyIndex key n = (if n \<le> 0 then 0 else uint (fnv64a key mod word_of_int n))"

section \<open>The rotation\<close>

record rotation =
  rr_backends :: "backend list"
  rr_counter :: "64 word"
  rr_name :: string

definition NewRoundRobin :: "backend list \<Rightarrow> string + rotation" where
  "NewRoundRobin backends = (if backends = [] then Inl ''round-robin: at least one backend required''
     else Inr \<lparr>rr_backends = backends, rr_counter = 0,
       rr_name = ''round-robin('' @ str_join (map bk_Name backends) '','' @ '')''\<rparr>)"

definition sticky_slot :: "call_ctx \<Rightarrow> int \<Rightarrow> int" where
  "sticky_slot ctx n = (let idx = stickyIndex (stickyKey ctx) n; off = rotateOffset ctx in
     if off > 0 then (idx + off) mod n else idx)"

definition peekIndex :: "call_ctx \<Rightarrow> rotation \<Rightarrow> int" where
  "peekIndex ctx r = (if stickyKey ctx \<noteq> [] then sticky_slot ctx (int (length (rr_backends r))) else -1)"

definition selectIndex :: "call_ctx \<Rightarrow> rotation \<Rightarrow> int \<times> rotation" where
  "selectIndex ctx r = (let n = int (length (rr_backends r)) in
     if stickyKey ctx \<noteq> [] then (sticky_slot ctx n, r)
     else let c = rr_counter r + 1 in (uint ((c - 1) mod word_of_int n), r\<lparr>rr_counter := c\<rparr>))"

definition Select :: "call_ctx \<Rightarrow> rotation \<Rightarrow> backend \<times> rotation" where
  "Select ctx r = (case selectIndex ctx r of (i, r') \<Rightarrow> (rr_backends r ! nat i, r'))"

definition SelectCapable :: "call_ctx \<Rightarrow> (capabilities \<Rightarrow> bool) option \<Rightarrow> rotation \<Rightarrow> backend option \<times> rotation" where
  "SelectCapable ctx want r = (case want of
      None \<Rightarrow> (case Select ctx r of (b, r') \<Rightarrow> (Some b, r'))
    | Some P \<Rightarrow> (let idx = peekIndex ctx r in
        if idx \<ge> 0 \<and> P (bk_Capabilities (rr_backends r ! nat idx)) then (Some (rr_backends r ! nat idx), r)
        else (List.find (\<lambda>b. P (bk_Capabilities b)) (rr_backends r), r)))"

definition all_capabilities :: capabilities where
  "all_capabilities = \<lparr>cp_MCP = True, cp_SystemPrompt = True, cp_SessionResume = True,
     cp_TokenAccounting = True, cp_ReasoningEffort = True\<rparr>"

definition meet :: "capabilities \<Rightarrow> capabilities \<Rightarrow> capabilities" where
  "meet a c = \<lparr>cp_MCP = (cp_MCP a \<and> cp_MCP c), cp_SystemPrompt = (cp_SystemPrompt a \<and> cp_SystemPrompt c),
     cp_SessionResume = (cp_SessionResume a \<and> cp_SessionResume c),
     cp_TokenAccounting = (cp_TokenAccounting a \<and> cp_TokenAccounting c),
     cp_ReasoningEffort = (cp_ReasoningEffort a \<and> cp_ReasoningEffort c)\<rparr>"

definition Capabilities_of :: "rotation \<Rightarrow> capabilities" where
  "Capabilities_of r = foldl (\<lambda>caps b. meet caps (bk_Capabilities b)) all_capabilities (rr_backends r)"

section \<open>Configuration\<close>

definition ParseReviewBackendsEnv :: "string \<Rightarrow> string list" where
  "ParseReviewBackendsEnv value = (let v = trim_space value in
     if v = [] then [] else filter (\<lambda>p. p \<noteq> []) (map trim_space (split_on (CHR '','') v)))"

definition DefaultReviewBackends :: "string list" where
  "DefaultReviewBackends = [''antigravity'', ''claude'']"

text \<open>\<open>build\<close> is \<open>NewWithRecorder\<close>: a backend, or the text of the error for a name it does not know.\<close>

fun review_members :: "(string \<Rightarrow> string + backend) \<Rightarrow> string list \<Rightarrow> string list \<Rightarrow> backend list \<Rightarrow> string + backend list" where
  "review_members build [] seen backends = Inr backends"
| "review_members build (raw # names) seen backends = (let n = to_lower (trim_space raw) in
     if n = [] then review_members build names seen backends
     else if n \<in> set seen then Inl (''review backend '' @ go_quote n @ '' listed more than once'')
     else case build n of Inl err \<Rightarrow> Inl (''review backend: '' @ err)
       | Inr b \<Rightarrow> review_members build names (n # seen) (backends @ [b]))"

definition NewReviewBackend :: "(string \<Rightarrow> string + backend) \<Rightarrow> string list \<Rightarrow> string + (backend + rotation)" where
  "NewReviewBackend build names =
     (case review_members build (if names = [] then DefaultReviewBackends else names) [] [] of
        Inl err \<Rightarrow> Inl err
      | Inr backends \<Rightarrow> (case backends of
          [] \<Rightarrow> Inl ''review backend: no valid backends after parsing''
        | [b] \<Rightarrow> Inr (Inl b)
        | _ \<Rightarrow> map_sum id Inr (NewRoundRobin backends)))"

section \<open>Slots\<close>

lemma stickyIndex_bounds: "0 < n \<Longrightarrow> n < 2 ^ 64 \<Longrightarrow> 0 \<le> stickyIndex key n \<and> stickyIndex key n < n"
  by (simp add: stickyIndex_def uint_mod uint_word_of_int)

lemma sticky_slot_eq:
  assumes "0 < n" and "n < 2 ^ 64"
  shows "sticky_slot ctx n = (stickyIndex (stickyKey ctx) n + rotateOffset ctx) mod n"
  using stickyIndex_bounds [OF assms, of "stickyKey ctx"]
  by (auto simp: sticky_slot_def rotateOffset_def Let_def split: option.split)

lemma select_index_counter:
  assumes "stickyKey ctx = []" and "0 < n" and "n < 2 ^ 64" and "int (length (rr_backends r)) = n"
  shows "selectIndex ctx r = (uint (rr_counter r) mod n, r\<lparr>rr_counter := rr_counter r + 1\<rparr>)"
  using assms by (simp add: selectIndex_def Let_def uint_mod uint_word_of_int)

text \<open>Calls without a sticky key, one after the other.\<close>

fun select_many :: "nat \<Rightarrow> rotation \<Rightarrow> backend list" where
  "select_many 0 r = []"
| "select_many (Suc k) r = (case Select background r of (b, r') \<Rightarrow> b # select_many k r')"

lemma select_background:
  assumes "rr_backends r \<noteq> []" and "length (rr_backends r) < 2 ^ 64"
  shows "Select background r =
    (rr_backends r ! (unat (rr_counter r) mod length (rr_backends r)), r\<lparr>rr_counter := rr_counter r + 1\<rparr>)"
proof -
  have "selectIndex background r =
      (uint (rr_counter r) mod int (length (rr_backends r)), r\<lparr>rr_counter := rr_counter r + 1\<rparr>)"
    using assms by (intro select_index_counter) (simp_all add: background_def stickyKey_def of_nat_less_iff [symmetric] del: of_nat_less_iff)
  then show ?thesis by (simp add: Select_def nat_mod_distrib)
qed

lemma select_many_slots:
  assumes "rr_backends r \<noteq> []" and "length (rr_backends r) < 2 ^ 64" and "unat (rr_counter r) + k \<le> 2 ^ 64"
  shows "select_many k r = map (\<lambda>i. rr_backends r ! ((unat (rr_counter r) + i) mod length (rr_backends r))) [0..<k]"
  using assms
proof (induction k arbitrary: r)
  case (Suc k)
  let ?r = "r\<lparr>rr_counter := rr_counter r + 1\<rparr>"
  show ?case
  proof (cases k)
    case 0
    then show ?thesis using Suc.prems by (simp add: select_background)
  next
    case (Suc k')
    then have c: "unat (rr_counter r + 1) = Suc (unat (rr_counter r))"
      using Suc.prems(3) by (subst unat_add_lem [THEN iffD1]) auto
    have "select_many k ?r = map (\<lambda>i. rr_backends r ! ((Suc (unat (rr_counter r)) + i) mod length (rr_backends r))) [0..<k]"
      using Suc.IH [of ?r] Suc.prems c by simp
    then show ?thesis using Suc.prems
      by (simp add: select_background upt_conv_Cons map_Suc_upt [symmetric] comp_def del: upt_Suc)
  qed
qed simp

lemma rotate_slots: "xs \<noteq> [] \<Longrightarrow> map (\<lambda>i. xs ! ((c + i) mod length xs)) [0..<length xs] = rotate c xs"
  by (rule nth_equalityI) (simp_all add: nth_rotate)

lemma mset_rotate_back: "mset (rotate c xs) = mset xs"
  by (metis rotate_drop_take append_take_drop_id mset_append add.commute)

section \<open>Properties\<close>

text \<open>
  C37. The rotation is fair: as many calls without a sticky key as there are backends use every
  backend once, from every state of the shared counter that does not wrap meanwhile.
\<close>

theorem rotation_is_fair:
  assumes "NewRoundRobin backends = Inr r0" and "length backends < 2 ^ 64" and "r = r0\<lparr>rr_counter := k\<rparr>"
    and "unat k + length backends \<le> 2 ^ 64"
  shows "mset (select_many (length backends) r) = mset backends"
proof -
  have r: "rr_backends r = backends" "rr_counter r = k" "backends \<noteq> []"
    using assms(1,3) by (auto simp: NewRoundRobin_def split: if_splits)
  have "select_many (length backends) r = rotate (unat k) backends"
    using select_many_slots [of r "length backends"] rotate_slots [of backends "unat k"] assms(2,4) r by simp
  then show ?thesis by (simp add: mset_rotate_back)
qed

text \<open>
  The attempts of one persona on one workflow go round the rotation: attempt number \<open>a\<close>, which
  the handler makes with rotation offset \<open>a\<close>, runs on the \<open>a\<close>th backend after the sticky one, and
  no attempt moves the shared counter. So an automatic retry never lands on the backend that has
  just failed, unless it is the only one.
\<close>

theorem sticky_attempts_rotate:
  assumes "key \<noteq> []" and "rr_backends r \<noteq> []" and "length (rr_backends r) < 2 ^ 64"
  shows "map (\<lambda>a. Select (WithRotateOffset (int a) (WithStickyKey key background)) r) [0..<length (rr_backends r)] =
    map (\<lambda>b. (b, r)) (rotate (nat (stickyIndex key (int (length (rr_backends r))))) (rr_backends r))"
proof -
  let ?n = "int (length (rr_backends r))" and ?s = "nat (stickyIndex key (int (length (rr_backends r))))"
  have n: "0 < ?n" "?n < 2 ^ 64" using assms(2,3) by (simp_all add: of_nat_less_iff [symmetric] del: of_nat_less_iff)
  have "Select (WithRotateOffset (int a) (WithStickyKey key background)) r =
      (rr_backends r ! ((?s + a) mod length (rr_backends r)), r)" for a
  proof -
    let ?c = "WithRotateOffset (int a) (WithStickyKey key background)"
    have c: "stickyKey ?c = key" "rotateOffset ?c = int a"
      using assms(1) by (auto simp: WithRotateOffset_def WithStickyKey_def background_def stickyKey_def rotateOffset_def)
    have "sticky_slot ?c ?n = (stickyIndex key ?n + int a) mod ?n" using sticky_slot_eq [OF n, of ?c] c by simp
    moreover have "nat ((stickyIndex key ?n + int a) mod ?n) = (?s + a) mod length (rr_backends r)"
      using stickyIndex_bounds [OF n, of key] by (simp add: nat_mod_distrib nat_add_distrib)
    ultimately show ?thesis using assms(1) c by (simp add: Select_def selectIndex_def)
  qed
  then have "map (\<lambda>a. Select (WithRotateOffset (int a) (WithStickyKey key background)) r) [0..<length (rr_backends r)] =
      map (\<lambda>b. (b, r)) (map (\<lambda>i. rr_backends r ! ((?s + i) mod length (rr_backends r))) [0..<length (rr_backends r)])"
    by simp
  then show ?thesis by (simp only: rotate_slots [OF assms(2)])
qed

text \<open>
  Selection by capability finds a member that satisfies the demand whenever there is one, takes
  the member that the sticky key names when that one qualifies, and leaves the counter alone.
\<close>

theorem capable_member_found:
  assumes "rr_backends r \<noteq> []" and "length (rr_backends r) < 2 ^ 64"
  shows "case SelectCapable ctx (Some P) r of
      (None, r') \<Rightarrow> r' = r \<and> (\<forall>b \<in> set (rr_backends r). \<not> P (bk_Capabilities b))
    | (Some b, r') \<Rightarrow> r' = r \<and> b \<in> set (rr_backends r) \<and> P (bk_Capabilities b) \<and>
        (stickyKey ctx \<noteq> [] \<and> P (bk_Capabilities (fst (Select ctx r))) \<longrightarrow> b = fst (Select ctx r))"
proof -
  let ?n = "int (length (rr_backends r))"
  have n: "0 < ?n" "?n < 2 ^ 64" using assms by (simp_all add: of_nat_less_iff [symmetric] del: of_nat_less_iff)
  have slot: "0 \<le> sticky_slot ctx ?n \<and> sticky_slot ctx ?n < ?n" using sticky_slot_eq [OF n, of ctx] n by simp
  then have mem: "rr_backends r ! nat (sticky_slot ctx ?n) \<in> set (rr_backends r)" by (intro nth_mem) linarith
  show ?thesis
    using slot mem find_Some_iff [of "\<lambda>b. P (bk_Capabilities b)" "rr_backends r"]
      find_None_iff [of "\<lambda>b. P (bk_Capabilities b)" "rr_backends r"]
    by (auto simp: SelectCapable_def peekIndex_def Select_def selectIndex_def Let_def split: option.split)
qed

section \<open>Applied\<close>

definition no_capabilities :: capabilities where
  "no_capabilities = \<lparr>cp_MCP = False, cp_SystemPrompt = False, cp_SessionResume = False,
     cp_TokenAccounting = False, cp_ReasoningEffort = False\<rparr>"

definition codex :: backend where "codex = \<lparr>bk_Name = ''codex'', bk_Capabilities = no_capabilities\<rparr>"
definition claude :: backend where "claude = \<lparr>bk_Name = ''claude'', bk_Capabilities = all_capabilities\<rparr>"

definition two_backends :: rotation where
  "two_backends = \<lparr>rr_backends = [codex, claude], rr_counter = 0, rr_name = ''round-robin(codex,claude)''\<rparr>"

lemma two_backends_new: "NewRoundRobin [codex, claude] = Inr two_backends"
  by (simp add: NewRoundRobin_def two_backends_def codex_def claude_def)

theorem rotation_is_fair_witness: "mset (select_many 2 (two_backends\<lparr>rr_counter := 7\<rparr>)) = {#codex, claude#}"
proof -
  have l: "length [codex, claude] = 2" "length [codex, claude] < 2 ^ 64" "unat (7 :: 64 word) + length [codex, claude] \<le> 2 ^ 64"
    by simp_all
  have "mset (select_many 2 (two_backends\<lparr>rr_counter := 7\<rparr>)) = mset [codex, claude]"
    using rotation_is_fair [OF two_backends_new l(2) refl l(3)] unfolding l(1) .
  then show ?thesis by simp
qed

theorem sticky_attempts_rotate_witness:
  "[Select (WithRotateOffset 0 (WithStickyKey ''wf:qa'' background)) two_backends,
    Select (WithRotateOffset 1 (WithStickyKey ''wf:qa'' background)) two_backends] =
     map (\<lambda>b. (b, two_backends)) (rotate (nat (stickyIndex ''wf:qa'' 2)) [codex, claude])"
proof -
  have "rr_backends two_backends = [codex, claude]" by (simp add: two_backends_def)
  then show ?thesis using sticky_attempts_rotate [of "''wf:qa''" two_backends] by simp
qed

theorem capable_member_found_witness:
  "case SelectCapable background (Some cp_MCP) two_backends of (b, r') \<Rightarrow> b = Some claude \<and> r' = two_backends"
proof -
  have v: "fst (SelectCapable background (Some cp_MCP) two_backends) = Some claude"
    by (simp add: SelectCapable_def peekIndex_def stickyKey_def background_def two_backends_def codex_def claude_def
        no_capabilities_def all_capabilities_def)
  show ?thesis
    using capable_member_found [of two_backends cp_MCP background] v
    by (simp add: two_backends_def case_prod_beta split: option.splits prod.splits)
qed

end
