(* ===== verification/Middleware.thy ===== *)
theory Middleware imports EventBus begin

text \<open>
  \<open>internal/eventbus/middleware.go\<close>. A middleware takes a handler to a handler; one with state of
  its own works on the world together with that state. The clock and the range order of a map
  are arguments.
\<close>

section \<open>Chains and retries\<close>

definition Chain :: "('w hfun \<Rightarrow> 'w hfun) list \<Rightarrow> 'w hfun \<Rightarrow> 'w hfun" where
  "Chain middlewares next = fold (\<lambda>m h. m h) (rev middlewares) next"

text \<open>
  The loop from one attempt on: \<open>left\<close> more attempts are allowed; \<open>ended k\<close> is the error of the
  context when it ends during the wait after attempt \<open>k\<close>.
\<close>

fun retry_loop :: "(nat \<Rightarrow> go_error option) \<Rightarrow> string \<Rightarrow> nat \<Rightarrow> nat \<Rightarrow> 'w hfun \<Rightarrow> 'w hfun" where
  "retry_loop ended after attempt left next env w = (case next env w of
      (w', None) \<Rightarrow> (w', None)
    | (w', Some err) \<Rightarrow> (case left of
        0 \<Rightarrow> (w', Some (Wrapped (after @ error_text err) err))
      | Suc left' \<Rightarrow> (case ended attempt of
          Some e \<Rightarrow> (w', Some e)
        | None \<Rightarrow> retry_loop ended after (Suc attempt) left' next env w')))"

text \<open>With a negative bound the loop body never runs and the nil error is wrapped.\<close>

definition RetryMiddleware :: "(nat \<Rightarrow> go_error option) \<Rightarrow> int \<Rightarrow> 'w hfun \<Rightarrow> 'w hfun" where
  "RetryMiddleware ended maxRetries next env w = (let after = ''after '' @ itoa maxRetries @ '' retries: '' in
     if maxRetries < 0 then (w, Some (ErrorText (after @ ''%!w(<nil>)'')))
     else retry_loop ended after 0 (nat maxRetries) next env w)"

section \<open>The circuit breaker\<close>

datatype breaker_state = CircuitClosed | CircuitOpen | CircuitHalfOpen

record breaker =
  br_failures :: int
  br_state :: breaker_state
  br_lastFailTime :: int

definition new_breaker :: breaker where
  "new_breaker = \<lparr>br_failures = 0, br_state = CircuitClosed, br_lastFailTime = 0\<rparr>"

text \<open>The two critical sections of a call, before and after the handler runs.\<close>

definition breaker_admit :: "int \<Rightarrow> int \<Rightarrow> breaker \<Rightarrow> bool \<times> breaker" where
  "breaker_admit resetTimeout now b = (if br_state b = CircuitOpen
     then if now - br_lastFailTime b > resetTimeout then (True, b\<lparr>br_state := CircuitHalfOpen\<rparr>) else (False, b)
     else (True, b))"

definition breaker_settle :: "int \<Rightarrow> int \<Rightarrow> bool \<Rightarrow> breaker \<Rightarrow> breaker" where
  "breaker_settle threshold now failed b = (if failed
     then let b1 = b\<lparr>br_failures := br_failures b + 1, br_lastFailTime := now\<rparr> in
       if br_failures b1 \<ge> threshold then b1\<lparr>br_state := CircuitOpen\<rparr> else b1
     else let b1 = b\<lparr>br_failures := 0\<rparr> in
       if br_state b1 = CircuitHalfOpen then b1\<lparr>br_state := CircuitClosed\<rparr> else b1)"

text \<open>A call that nothing interleaves with; the handler returns at time \<open>later\<close>.\<close>

definition CircuitBreakerMiddleware :: "int \<Rightarrow> int \<Rightarrow> int \<Rightarrow> int \<Rightarrow> 'w hfun \<Rightarrow> ('w \<times> breaker) hfun" where
  "CircuitBreakerMiddleware threshold resetTimeout now later next env = (\<lambda>(w, b).
     case breaker_admit resetTimeout now b of
       (False, b1) \<Rightarrow> ((w, b1), Some (ErrorText (''circuit breaker open for event '' @ type_name (e_Type env))))
     | (True, b1) \<Rightarrow> (case next env w of (w', r) \<Rightarrow> ((w', breaker_settle threshold later (r \<noteq> None) b1), r)))"

section \<open>Idempotency\<close>

text \<open>\<open>order\<close> is the order in which the runtime ranges over the map.\<close>

definition evict :: "(string list \<Rightarrow> string list) \<Rightarrow> int \<Rightarrow> string list \<Rightarrow> string list" where
  "evict order maxSize processed = (if int (length processed) > maxSize
     then let gone = take (max 1 (nat (maxSize div 2))) (order processed) in filter (\<lambda>i. i \<notin> set gone) processed
     else processed)"

definition IdempotencyMiddleware :: "(string list \<Rightarrow> string list) \<Rightarrow> int \<Rightarrow> 'w hfun \<Rightarrow> ('w \<times> string list) hfun" where
  "IdempotencyMiddleware order maxSize next env = (\<lambda>(w, processed).
     if e_ID env \<in> set processed then ((w, processed), None)
     else let processed' = evict order maxSize (processed @ [e_ID env]) in
       case next env w of (w', r) \<Rightarrow> ((w', processed'), r))"

section \<open>Chains and retries: properties\<close>

lemma Chain_foldr: "Chain ms next = foldr (\<lambda>m h. m h) ms next"
  by (simp add: Chain_def foldr_conv_fold)

lemma Chain_append: "Chain (ms @ ns) next = Chain ms (Chain ns next)"
  by (simp add: Chain_foldr)

text \<open>The world after \<open>k\<close> calls of the handler.\<close>

definition after_calls :: "'w hfun \<Rightarrow> envelope \<Rightarrow> nat \<Rightarrow> 'w \<Rightarrow> 'w" where
  "after_calls h env k w = ((\<lambda>w. fst (h env w)) ^^ k) w"

lemma after_calls_0 [simp]: "after_calls h env 0 w = w"
  by (simp add: after_calls_def)

lemma after_calls_Suc: "after_calls h env (Suc k) w = after_calls h env k (fst (h env w))"
  unfolding after_calls_def by (simp only: funpow_Suc_right comp_def)

declare retry_loop.simps [simp del]

lemma retry_loop_success: "h env w = (w', None) \<Longrightarrow> retry_loop ended after a left h env w = (w', None)"
  by (subst retry_loop.simps) simp

lemma retry_loop_failure:
  "h env w = (w', Some err) \<Longrightarrow> retry_loop ended after a 0 h env w = (w', Some (Wrapped (after @ error_text err) err))"
  by (subst retry_loop.simps) simp

lemma retry_loop_again:
  "h env w = (w', Some err) \<Longrightarrow> ended a = None \<Longrightarrow>
     retry_loop ended after a (Suc left) h env w = retry_loop ended after (Suc a) left h env w'"
  by (subst retry_loop.simps) simp

text \<open>What a run of attempts amounts to: \<open>k\<close> failures, and then a success or the last attempt.\<close>

definition settles :: "'w hfun \<Rightarrow> envelope \<Rightarrow> 'w \<Rightarrow> nat \<Rightarrow> nat \<Rightarrow> 'w \<times> go_error option \<Rightarrow> bool" where
  "settles h env w left k res \<longleftrightarrow> fst res = after_calls h env (Suc k) w \<and>
     (\<forall>j < k. snd (h env (after_calls h env j w)) \<noteq> None) \<and>
     (snd res = None \<longleftrightarrow> snd (h env (after_calls h env k w)) = None) \<and>
     (snd (h env (after_calls h env k w)) = None \<or> k = left)"

lemma settles_more:
  assumes "h env w = (w', Some err)" and "settles h env w' left k res"
  shows "settles h env w (Suc left) (Suc k) res"
proof -
  have s: "after_calls h env (Suc j) w = after_calls h env j w'" for j
    by (simp add: after_calls_Suc assms(1))
  have "snd (h env (after_calls h env j w)) \<noteq> None" if "j < Suc k" for j
    using that assms(2) by (cases j) (simp_all add: assms(1) s settles_def)
  then show ?thesis using assms(2) by (simp only: settles_def s) simp
qed

lemma retry_loop_result:
  assumes "\<And>k. ended k = None"
  shows "\<exists>k \<le> left. settles h env w left k (retry_loop ended after a left h env w)"
proof (induction left arbitrary: a w)
  case 0
  obtain w' r where h: "h env w = (w', r)" by (metis prod.exhaust)
  then show ?case
    by (cases r) (simp_all add: settles_def after_calls_def retry_loop_success retry_loop_failure)
next
  case (Suc left)
  obtain w' r where h: "h env w = (w', r)" by (metis prod.exhaust)
  show ?case
  proof (cases r)
    case None
    then show ?thesis using h by (intro exI [of _ 0]) (simp add: settles_def after_calls_def retry_loop_success)
  next
    case (Some err)
    then have h': "h env w = (w', Some err)" using h by simp
    obtain k where "k \<le> left" "settles h env w' left k (retry_loop ended after (Suc a) left h env w')"
      using Suc.IH [of w' "Suc a"] by blast
    then have "settles h env w (Suc left) (Suc k) (retry_loop ended after (Suc a) left h env w')" "Suc k \<le> Suc left"
      using settles_more [where h = h, OF h'] by simp_all
    then show ?thesis unfolding retry_loop_again [where h = h, OF h' assms] by blast
  qed
qed

text \<open>
  A retried handler is called until its first success, or once more than the bound when it never
  succeeds; the call as a whole succeeds exactly when one of these calls does.
\<close>

theorem retry_until_first_success:
  assumes "\<And>k. ended k = None" and "0 \<le> maxRetries"
  shows "\<exists>k \<le> nat maxRetries. settles h env w (nat maxRetries) k (RetryMiddleware ended maxRetries h env w)"
  using retry_loop_result [OF assms(1)] assms(2) by (simp add: RetryMiddleware_def Let_def)

definition flaky :: "nat hfun" where
  "flaky env w = (Suc w, if w < 2 then Some (ErrorText ''busy'') else None)"

theorem retry_until_first_success_witness:
  "RetryMiddleware (\<lambda>k. None) 5 flaky (sample_env WorkflowCompleted (POther [])) 0 = (3, None)"
proof -
  let ?e = "sample_env WorkflowCompleted (POther [])"
  obtain k where k: "settles flaky ?e 0 (nat 5) k (RetryMiddleware (\<lambda>k. None) 5 flaky ?e 0)"
    using retry_until_first_success [of "\<lambda>k. None" 5 flaky ?e 0] by auto
  have c: "after_calls flaky e j 0 = j" for e j
    by (induction j) (simp_all add: after_calls_def flaky_def)
  have "\<not> 2 < k" using k unfolding settles_def c by (auto simp: flaky_def split: if_splits)
  moreover have "\<not> k < 2" using k unfolding settles_def c by (auto simp: flaky_def split: if_splits)
  ultimately have "k = 2" by simp
  then show ?thesis using k unfolding settles_def c by (simp add: flaky_def prod_eq_iff)
qed

section \<open>The breaker: properties\<close>

lemma breaker_call:
  "CircuitBreakerMiddleware threshold resetTimeout now later h env (w, b) =
     (if br_state b = CircuitOpen \<and> now - br_lastFailTime b \<le> resetTimeout
      then ((w, b), Some (ErrorText (''circuit breaker open for event '' @ type_name (e_Type env))))
      else ((fst (h env w), breaker_settle threshold later (snd (h env w) \<noteq> None)
               (if br_state b = CircuitOpen then b\<lparr>br_state := CircuitHalfOpen\<rparr> else b)), snd (h env w)))"
  by (auto simp: CircuitBreakerMiddleware_def breaker_admit_def split: prod.split)

text \<open>A run of calls, each with its time of entry and return; the result is the world, the breaker and the answers.\<close>

fun breaker_calls :: "int \<Rightarrow> int \<Rightarrow> 'w hfun \<Rightarrow> (int \<times> int \<times> envelope) list \<Rightarrow> 'w \<times> breaker \<Rightarrow> ('w \<times> breaker) \<times> go_error option list" where
  "breaker_calls threshold resetTimeout h [] s = (s, [])"
| "breaker_calls threshold resetTimeout h ((now, later, env) # calls) s =
     (case CircuitBreakerMiddleware threshold resetTimeout now later h env s of (s', r) \<Rightarrow>
       (case breaker_calls threshold resetTimeout h calls s' of (s'', rs) \<Rightarrow> (s'', r # rs)))"

text \<open>Between calls the breaker is closed and below its threshold, or open and at it.\<close>

definition breaker_ok :: "int \<Rightarrow> breaker \<Rightarrow> bool" where
  "breaker_ok threshold b \<longleftrightarrow> 0 \<le> br_failures b \<and>
     (br_state b = CircuitClosed \<and> br_failures b < threshold \<or> br_state b = CircuitOpen \<and> threshold \<le> br_failures b)"

lemma breaker_ok_call:
  assumes "breaker_ok threshold b" and "0 < threshold"
  shows "breaker_ok threshold (snd (fst (CircuitBreakerMiddleware threshold resetTimeout now later h env (w, b))))"
  using assms by (auto simp: breaker_call breaker_settle_def breaker_ok_def Let_def)

lemma breaker_ok_calls:
  assumes "breaker_ok threshold b" and "0 < threshold"
  shows "breaker_ok threshold (snd (fst (breaker_calls threshold resetTimeout h calls (w, b))))"
  using assms
proof (induction calls arbitrary: w b)
  case (Cons c calls)
  obtain now later env where c: "c = (now, later, env)" by (cases c)
  obtain w' b' r where s: "CircuitBreakerMiddleware threshold resetTimeout now later h env (w, b) = ((w', b'), r)"
    by (metis prod.exhaust)
  then have "breaker_ok threshold b'" using breaker_ok_call [OF Cons.prems, of resetTimeout now later h env w] by simp
  then show ?case using Cons.IH [of b' w'] Cons.prems(2) by (simp add: c s case_prod_beta)
qed simp

text \<open>
  Called one at a time, the breaker is open exactly when the threshold of consecutive failures
  has been reached, it is never left half open, and an open breaker turns a call away untouched
  until the reset time has passed since the last failure.
\<close>

theorem breaker_opens_at_threshold:
  assumes "0 < threshold" and "breaker_calls threshold resetTimeout h calls (w, new_breaker) = ((w', b), rs)"
  shows "(br_state b = CircuitOpen \<longleftrightarrow> threshold \<le> br_failures b) \<and> br_state b \<noteq> CircuitHalfOpen \<and>
    (br_state b = CircuitOpen \<and> now - br_lastFailTime b \<le> resetTimeout \<longrightarrow>
       fst (CircuitBreakerMiddleware threshold resetTimeout now later h env (w', b)) = (w', b))"
proof -
  have "breaker_ok threshold new_breaker" using assms(1) by (simp add: breaker_ok_def new_breaker_def)
  then have "breaker_ok threshold b"
    using breaker_ok_calls [OF _ assms(1), of new_breaker resetTimeout h calls w] assms(2) by simp
  then show ?thesis using assms(1) by (auto simp: breaker_ok_def breaker_call)
qed

text \<open>
  Overlapping calls break this: when a call that started before the breaker opened succeeds
  late, the count is reset while the breaker stays open; after the reset time the failing probe
  does not open it again, and it admits every call from then on until the threshold is reached anew.
\<close>

definition late_success :: breaker where
  "late_success = breaker_settle 3 30 False (breaker_settle 3 12 True (breaker_settle 3 11 True (breaker_settle 3 10 True new_breaker)))"

theorem late_success_disarms_breaker:
  "br_state late_success = CircuitOpen \<and>
   (let (admitted, b1) = breaker_admit 60 100 late_success; b2 = breaker_settle 3 101 True b1 in
      admitted \<and> br_state b2 = CircuitHalfOpen \<and> fst (breaker_admit 60 102 b2))"
  by (simp add: late_success_def breaker_settle_def breaker_admit_def new_breaker_def)

section \<open>Idempotency: properties\<close>

lemma length_filter_less: "x \<in> set xs \<Longrightarrow> \<not> P x \<Longrightarrow> length (filter P xs) < length xs"
  by (induction xs) (auto simp: less_Suc_eq_le)

lemma evict_bound:
  assumes "set (order processed) = set processed" and "0 \<le> maxSize" and "int (length processed) \<le> maxSize + 1"
  shows "int (length (evict order maxSize processed)) \<le> maxSize"
proof (cases "int (length processed) > maxSize")
  case True
  then have "processed \<noteq> []" using assms(2) by auto
  then obtain x xs where x: "order processed = x # xs" using assms(1) by (cases "order processed") auto
  then have "x \<in> set processed" using assms(1) by auto
  moreover have "x \<in> set (take (max 1 (nat (maxSize div 2))) (order processed))"
    by (cases "max 1 (nat (maxSize div 2))") (auto simp: x)
  ultimately have "length (evict order maxSize processed) < length processed"
    using True unfolding evict_def Let_def by (simp add: length_filter_less [where x = x])
  then show ?thesis using assms(3) by linarith
qed (simp add: evict_def)

text \<open>
  The memory of the idempotency middleware never exceeds its bound, whatever the range order of
  the map, and an event that it remembers never reaches the handler again.
\<close>

theorem idempotency_memory_bounded:
  assumes "\<And>ids. set (order ids) = set ids" and "0 \<le> maxSize" and "int (length seen) \<le> maxSize"
  shows "case IdempotencyMiddleware order maxSize h env (w, seen) of ((w', seen'), r) \<Rightarrow>
    int (length seen') \<le> maxSize \<and> (e_ID env \<in> set seen \<longrightarrow> w' = w \<and> r = None \<and> seen' = seen)"
proof -
  have "int (length (evict order maxSize (seen @ [e_ID env]))) \<le> maxSize"
    by (rule evict_bound) (use assms in simp_all)
  then show ?thesis using assms(3) by (auto simp: IdempotencyMiddleware_def Let_def split: prod.split)
qed

text \<open>
  The event is remembered before the handler has run, so under a retry the second attempt is
  taken for a duplicate and reports success: the failure is lost and the work is never done.
\<close>

theorem retry_over_idempotency_loses_failure:
  "RetryMiddleware (\<lambda>k. None) 3 (IdempotencyMiddleware id 100 flaky) (sample_env WorkflowCompleted (POther [])) (0, []) =
     ((1, [''e1'']), None) \<and>
   snd (flaky (sample_env WorkflowCompleted (POther [])) 0) \<noteq> None"
  by code_simp

section \<open>Applied\<close>

definition failing_handler :: "nat hfun" where
  "failing_handler env w = (Suc w, Some (ErrorText ''down''))"

theorem breaker_opens_at_threshold_witness:
  "let s = fst (breaker_calls 2 60 failing_handler [(1, 2, sample_env WorkflowCompleted (POther [])), (3, 4, sample_env WorkflowCompleted (POther []))] (0, new_breaker))
   in br_state (snd s) = CircuitOpen \<and>
      fst (CircuitBreakerMiddleware 2 60 10 11 failing_handler (sample_env WorkflowCompleted (POther [])) s) = s"
proof -
  let ?e = "sample_env WorkflowCompleted (POther [])"
  let ?s = "fst (breaker_calls 2 60 failing_handler [(1, 2, ?e), (3, 4, ?e)] (0, new_breaker))"
  obtain w b rs where r: "breaker_calls 2 60 failing_handler [(1, 2, ?e), (3, 4, ?e)] (0, new_breaker) = ((w, b), rs)"
    by (metis prod.exhaust)
  have v: "br_state (snd ?s) = CircuitOpen \<and> br_lastFailTime (snd ?s) = 4"
    by (simp add: breaker_call failing_handler_def new_breaker_def breaker_settle_def)
  show ?thesis
    using breaker_opens_at_threshold [OF _ r, of 10 11 ?e] v unfolding r Let_def by simp
qed

theorem idempotency_memory_bounded_witness:
  "case IdempotencyMiddleware rev 1 flaky (sample_env WorkflowCompleted (POther [])) (5, [''e1'']) of ((w', seen'), r) \<Rightarrow>
     w' = 5 \<and> length seen' = 1"
proof -
  have "e_ID (sample_env WorkflowCompleted (POther [])) = ''e1''" by (simp add: sample_env_def)
  then show ?thesis
    using idempotency_memory_bounded [where order = rev and maxSize = 1 and seen = "[''e1'']" and h = flaky and w = 5
        and env = "sample_env WorkflowCompleted (POther [])"]
    by (auto split: prod.splits)
qed

end
