(* ===== verification/HandlerRegistry.thy ===== *)
theory HandlerRegistry imports DispatchQueue EventStore "HOL-Library.Multiset" begin

text \<open>
  Three registries: of handlers with their index by event type (\<open>internal/handler/registry.go\<close>),
  the sentinel that watches it (\<open>internal/engine/sentinel.go\<close>), and of event schemas with their
  migrations (\<open>internal/event/registry.go\<close>, \<open>internal/eventstore/upcasting.go\<close>).
\<close>

section \<open>Handlers\<close>

record hreg =
  hg_handlers :: "(string, handler) gomap"
  hg_byEvent :: "etype \<Rightarrow> handler list"

definition NewRegistry :: hreg where
  "NewRegistry = \<lparr>hg_handlers = [], hg_byEvent = (\<lambda>t. [])\<rparr>"

definition add_at :: "handler \<Rightarrow> etype \<Rightarrow> (etype \<Rightarrow> handler list) \<Rightarrow> etype \<Rightarrow> handler list" where
  "add_at h t m = m(t := m t @ [h])"

definition index_add :: "handler \<Rightarrow> (etype \<Rightarrow> handler list) \<Rightarrow> etype \<Rightarrow> handler list" where
  "index_add h = fold (add_at h) (h_Subscribes h)"

fun remove_named :: "string \<Rightarrow> handler list \<Rightarrow> handler list" where
  "remove_named name [] = []"
| "remove_named name (h # hs) = (if h_Name h = name then hs else h # remove_named name hs)"

definition remove_at :: "string \<Rightarrow> etype \<Rightarrow> (etype \<Rightarrow> handler list) \<Rightarrow> etype \<Rightarrow> handler list" where
  "remove_at name t m = m(t := remove_named name (m t))"

definition index_remove :: "string \<Rightarrow> handler \<Rightarrow> (etype \<Rightarrow> handler list) \<Rightarrow> etype \<Rightarrow> handler list" where
  "index_remove name h = fold (remove_at name) (h_Subscribes h)"

text \<open>\<open>init\<close> and \<open>shutdown\<close> are the lifecycle hooks; a handler without them answers \<open>None\<close>.\<close>

definition Register :: "(handler \<Rightarrow> string option) \<Rightarrow> handler \<Rightarrow> hreg \<Rightarrow> string + hreg" where
  "Register init h r = (let name = h_Name h in
     if map_of (hg_handlers r) name \<noteq> None then Inl (''handler: '' @ go_quote name @ '' already registered'')
     else case init h of Some err \<Rightarrow> Inl (''handler: init '' @ go_quote name @ '': '' @ err)
       | None \<Rightarrow> Inr \<lparr>hg_handlers = mput (hg_handlers r) name h, hg_byEvent = index_add h (hg_byEvent r)\<rparr>)"

definition Unregister :: "(handler \<Rightarrow> string option) \<Rightarrow> string \<Rightarrow> hreg \<Rightarrow> string + hreg" where
  "Unregister shutdown name r = (case map_of (hg_handlers r) name of
      None \<Rightarrow> Inl (''handler: '' @ go_quote name @ '' not registered'')
    | Some h \<Rightarrow> (case shutdown h of Some err \<Rightarrow> Inl (''handler: shutdown '' @ go_quote name @ '': '' @ err)
       | None \<Rightarrow> Inr \<lparr>hg_handlers = mdel (hg_handlers r) name, hg_byEvent = index_remove name h (hg_byEvent r)\<rparr>))"

definition Replace :: "(handler \<Rightarrow> string option) \<Rightarrow> string \<Rightarrow> handler \<Rightarrow> hreg \<Rightarrow> string + hreg" where
  "Replace init name new r =
     (if h_Name new \<noteq> name then Inl (''handler: replacement name '' @ go_quote (h_Name new) @ '' does not match existing '' @ go_quote name)
      else case map_of (hg_handlers r) name of
        None \<Rightarrow> Inl (''handler: '' @ go_quote name @ '' not registered'')
      | Some old \<Rightarrow> (case init new of Some err \<Rightarrow> Inl (''handler: init replacement '' @ go_quote name @ '': '' @ err)
         | None \<Rightarrow> Inr \<lparr>hg_handlers = mput (hg_handlers r) name new,
             hg_byEvent = index_add new (index_remove name old (hg_byEvent r))\<rparr>))"

definition reg_Get :: "hreg \<Rightarrow> string \<Rightarrow> handler option" where
  "reg_Get r name = map_of (hg_handlers r) name"

definition HandlersFor :: "hreg \<Rightarrow> etype \<Rightarrow> handler list" where
  "HandlersFor r t = hg_byEvent r t"

definition reg_All :: "hreg \<Rightarrow> handler list" where
  "reg_All r = map snd (hg_handlers r)"

definition reg_Names :: "hreg \<Rightarrow> string list" where
  "reg_Names r = mkeys (hg_handlers r)"

definition ShutdownAll :: "(handler \<Rightarrow> string option) \<Rightarrow> hreg \<Rightarrow> string list" where
  "ShutdownAll shutdown r = List.map_filter (\<lambda>h. map_option
     (\<lambda>err. ''handler: shutdown '' @ go_quote (h_Name h) @ '': '' @ err) (shutdown h)) (reg_All r)"

section \<open>The index\<close>

lemma count_index_add:
  "count_list (index_add h m t) x = count_list (m t) x + (if x = h then count_list (h_Subscribes h) t else 0)"
proof -
  have "count_list (fold (add_at h) ts m t) x = count_list (m t) x + (if x = h then count_list ts t else 0)" for ts
    by (induction ts arbitrary: m) (simp_all add: add_at_def)
  then show ?thesis by (simp add: index_add_def)
qed

text \<open>In a list whose only handler of that name is \<open>h\<close>.\<close>

definition only_named :: "string \<Rightarrow> handler \<Rightarrow> handler list \<Rightarrow> bool" where
  "only_named name h hs \<longleftrightarrow> h_Name h = name \<and> (\<forall>x \<in> set hs. h_Name x = name \<longrightarrow> x = h)"

lemma count_remove_named:
  "only_named name h hs \<Longrightarrow> count_list (remove_named name hs) x = count_list hs x - (if x = h then 1 else 0)"
proof (induction hs)
  case (Cons y hs)
  then show ?case by (cases "h_Name y = name") (auto simp: only_named_def)
qed simp

lemma only_named_remove: "only_named name h hs \<Longrightarrow> only_named name h (remove_named name hs)"
proof -
  have "set (remove_named name hs) \<subseteq> set hs" by (induction hs) auto
  then show "only_named name h hs \<Longrightarrow> ?thesis" by (auto simp: only_named_def)
qed

lemma count_index_remove:
  assumes "\<And>t. only_named name h (m t)"
  shows "count_list (index_remove name h m t) x = count_list (m t) x - (if x = h then count_list (h_Subscribes h) t else 0)"
proof -
  have "count_list (fold (remove_at name) ts m t) x = count_list (m t) x - (if x = h then count_list ts t else 0)" for ts
    using assms
  proof (induction ts arbitrary: m)
    case (Cons u ts)
    have keep: "only_named name h (remove_at name u m t')" for t'
      using Cons.prems only_named_remove [of name h "m u"] by (simp add: remove_at_def)
    show ?case using Cons.IH [OF keep] count_remove_named [OF Cons.prems [of u]] by (simp add: remove_at_def)
  qed simp
  then show ?thesis by (simp add: index_remove_def)
qed

text \<open>
  The invariant: every key is the name of its handler, and the index lists a handler under a
  type as often as it subscribes to it if it is registered, and not at all otherwise.
\<close>

definition registered :: "hreg \<Rightarrow> handler \<Rightarrow> bool" where
  "registered r h \<longleftrightarrow> map_of (hg_handlers r) (h_Name h) = Some h"

definition reg_ok :: "hreg \<Rightarrow> bool" where
  "reg_ok r \<longleftrightarrow> (\<forall>n h. map_of (hg_handlers r) n = Some h \<longrightarrow> h_Name h = n) \<and>
     (\<forall>t h. count_list (hg_byEvent r t) h = (if registered r h then count_list (h_Subscribes h) t else 0))"

lemma reg_ok_name: "reg_ok r \<Longrightarrow> map_of (hg_handlers r) n = Some h \<Longrightarrow> h_Name h = n"
  by (simp add: reg_ok_def)

lemma reg_ok_count:
  "reg_ok r \<Longrightarrow> count_list (hg_byEvent r t) h = (if registered r h then count_list (h_Subscribes h) t else 0)"
  by (simp add: reg_ok_def)

lemma reg_okI:
  assumes "\<And>n h. map_of (hg_handlers r) n = Some h \<Longrightarrow> h_Name h = n"
    and "\<And>t h. count_list (hg_byEvent r t) h = (if registered r h then count_list (h_Subscribes h) t else 0)"
  shows "reg_ok r"
  using assms by (simp add: reg_ok_def)

lemma in_set_count: "x \<in> set xs \<longleftrightarrow> count_list xs x \<noteq> 0"
  by (simp add: count_list_0_iff)

lemma reg_ok_member: "reg_ok r \<Longrightarrow> h \<in> set (hg_byEvent r t) \<longleftrightarrow> registered r h \<and> t \<in> set (h_Subscribes h)"
  by (simp add: in_set_count reg_ok_count)

lemma reg_ok_only:
  assumes "reg_ok r" and "map_of (hg_handlers r) name = Some h"
  shows "only_named name h (hg_byEvent r t)"
  using assms reg_ok_name [OF assms] by (auto simp: only_named_def reg_ok_member registered_def)

lemma reg_ok_new: "reg_ok NewRegistry"
  by (rule reg_okI) (simp_all add: NewRegistry_def registered_def)

text \<open>Adding a handler under a free name, and taking one out.\<close>

lemma reg_ok_add:
  assumes "reg_ok r" and "map_of (hg_handlers r) (h_Name h) = None"
  shows "reg_ok \<lparr>hg_handlers = mput (hg_handlers r) (h_Name h) h, hg_byEvent = index_add h (hg_byEvent r)\<rparr>" (is "reg_ok ?r")
proof (rule reg_okI)
  fix n x
  assume "map_of (hg_handlers ?r) n = Some x"
  then show "h_Name x = n" using reg_ok_name [OF assms(1), of n x] by (cases "n = h_Name h") simp_all
next
  fix t x
  show "count_list (hg_byEvent ?r t) x = (if registered ?r x then count_list (h_Subscribes x) t else 0)"
    using assms(2) reg_ok_count [OF assms(1), of t x]
    by (cases "h_Name x = h_Name h") (auto simp: count_index_add registered_def)
qed

lemma reg_ok_remove:
  assumes "reg_ok r" and "map_of (hg_handlers r) name = Some h"
  shows "reg_ok \<lparr>hg_handlers = mdel (hg_handlers r) name, hg_byEvent = index_remove name h (hg_byEvent r)\<rparr>" (is "reg_ok ?r")
proof (rule reg_okI)
  fix n x
  assume "map_of (hg_handlers ?r) n = Some x"
  then show "h_Name x = n" using reg_ok_name [OF assms(1), of n x] by (cases "n = name") simp_all
next
  fix t x
  show "count_list (hg_byEvent ?r t) x = (if registered ?r x then count_list (h_Subscribes x) t else 0)"
    using assms(2) reg_ok_count [OF assms(1), of t x] reg_ok_name [OF assms] count_index_remove [of name h "hg_byEvent r" t x, OF reg_ok_only [OF assms]]
    by (cases "h_Name x = name") (auto simp: registered_def)
qed

lemma reg_ok_Register: "reg_ok r \<Longrightarrow> Register init h r = Inr r' \<Longrightarrow> reg_ok r'"
  using reg_ok_add [of r h] by (auto simp: Register_def Let_def split: if_splits option.splits)

lemma reg_ok_Unregister: "reg_ok r \<Longrightarrow> Unregister shutdown name r = Inr r' \<Longrightarrow> reg_ok r'"
  using reg_ok_remove [of r name] by (auto simp: Unregister_def split: option.splits)

lemma reg_ok_Replace:
  assumes "reg_ok r" and "Replace init name new r = Inr r'"
  shows "reg_ok r'"
proof -
  obtain old where old: "map_of (hg_handlers r) name = Some old" and n: "h_Name new = name"
    and r': "r' = \<lparr>hg_handlers = mput (hg_handlers r) name new,
      hg_byEvent = index_add new (index_remove name old (hg_byEvent r))\<rparr>"
    using assms(2) by (auto simp: Replace_def split: option.splits if_splits)
  let ?r = "\<lparr>hg_handlers = mdel (hg_handlers r) name, hg_byEvent = index_remove name old (hg_byEvent r)\<rparr>"
  have "reg_ok \<lparr>hg_handlers = mput (hg_handlers ?r) (h_Name new) new, hg_byEvent = index_add new (hg_byEvent ?r)\<rparr>"
    by (rule reg_ok_add [OF reg_ok_remove [OF assms(1) old]]) (simp add: n)
  moreover have "map_of (mput (mdel (hg_handlers r) name) name new) = map_of (mput (hg_handlers r) name new)" by simp
  ultimately show ?thesis unfolding r' reg_ok_def registered_def by (simp add: n)
qed

section \<open>The index agrees with the handlers\<close>

datatype reg_op = RegOp handler | UnregOp string | ReplaceOp string handler

fun reg_step :: "(handler \<Rightarrow> string option) \<Rightarrow> (handler \<Rightarrow> string option) \<Rightarrow> reg_op \<Rightarrow> hreg \<Rightarrow> hreg" where
  "reg_step init shutdown (RegOp h) r = (case Register init h r of Inl err \<Rightarrow> r | Inr r' \<Rightarrow> r')"
| "reg_step init shutdown (UnregOp n) r = (case Unregister shutdown n r of Inl err \<Rightarrow> r | Inr r' \<Rightarrow> r')"
| "reg_step init shutdown (ReplaceOp n h) r = (case Replace init n h r of Inl err \<Rightarrow> r | Inr r' \<Rightarrow> r')"

lemma reg_ok_step: "reg_ok r \<Longrightarrow> reg_ok (reg_step init shutdown act r)"
  by (cases act) (auto dest: reg_ok_Register reg_ok_Unregister reg_ok_Replace split: sum.split)

text \<open>
  Whatever is registered, replaced and removed, and whichever lifecycle hooks fail, the index
  answers for an event type with exactly the handlers that are registered and subscribe to it.
\<close>

theorem index_agrees_with_handlers:
  "set (HandlersFor (fold (reg_step init shutdown) ops NewRegistry) t) =
     {h. reg_Get (fold (reg_step init shutdown) ops NewRegistry) (h_Name h) = Some h \<and> t \<in> set (h_Subscribes h)}"
proof -
  let ?r = "fold (reg_step init shutdown) ops NewRegistry"
  have "reg_ok (fold (reg_step init shutdown) ops r)" if "reg_ok r" for r
    using that by (induction ops arbitrary: r) (simp_all add: reg_ok_step)
  then have ok: "reg_ok ?r" using reg_ok_new by blast
  then show ?thesis by (auto simp: HandlersFor_def reg_Get_def reg_ok_member registered_def)
qed

section \<open>The sentinel\<close>

definition internalEvents :: "etype list" where
  "internalEvents = [WorkflowRequested, WorkflowStarted, WorkflowCompleted, WorkflowFailed, WorkflowCancelled,
     WorkflowPaused, WorkflowResumed, WorkflowRerouted, PersonaCompleted, PersonaFailed, PersonaFailedTracked,
     VerdictRendered, VerdictTracked, FeedbackGenerated, FeedbackConsumed, TokenBudgetExceeded, AIRequestSent,
     AIRequestStarted, AIResponseReceived, AIStructuredOutput, CompensationStarted, CompensationCompleted,
     OperatorGuidance, HintEmitted, HintApproved, HintRejected, UnhandledEventDetected, DispatchDropped,
     DispatchStarted, KnowledgeUnavailable, VerdictGroundingSummary, ContextCodebase, ContextSchema, ContextGit,
     ContextEnrichment, WorkspaceReady, ChildWorkflowCompleted, PRCommentPosted]"

record unhandled_event =
  ue_EventType :: string
  ue_EventID :: string
  ue_CorrelationID :: string
  ue_Source :: string

text \<open>\<open>marshal\<close> is the JSON text of the payload.\<close>

definition alert :: "runtime \<Rightarrow> (unhandled_event \<Rightarrow> string) \<Rightarrow> envelope \<Rightarrow> envelope" where
  "alert rt marshal env = WithSource ''sentinel'' (WithCausation (e_ID env) (WithCorrelation (e_CorrelationID env)
     (NewEnv rt 0 UnhandledEventDetected 1 (POther (marshal \<lparr>ue_EventType = type_name (e_Type env), ue_EventID = e_ID env,
        ue_CorrelationID = e_CorrelationID env, ue_Source = e_Source env\<rparr>)))))"

definition sentinel_Handle :: "runtime \<Rightarrow> (unhandled_event \<Rightarrow> string) \<Rightarrow> hreg \<Rightarrow> envelope \<Rightarrow> envelope list" where
  "sentinel_Handle rt marshal reg env = (if e_Type env \<in> set internalEvents \<or> IsWorkflowStarted (e_Type env) then []
     else if HandlersFor reg (e_Type env) \<noteq> [] then [] else [alert rt marshal env])"

lemma sentinel_never_cascades: "e \<in> set (sentinel_Handle rt marshal reg env) \<Longrightarrow> sentinel_Handle rt' marshal' reg' e = []"
  by (auto simp: sentinel_Handle_def alert_def internalEvents_def WithSource_def WithCausation_def WithCorrelation_def
      NewEnv_def split: if_splits)

text \<open>Every retry is reported as unhandled, although the persona runner subscribes to it.\<close>

lemma sentinel_reports_retries:
  assumes "e_Type env = WorkflowRetried" and "\<forall>h \<in> set (reg_All reg). h_Subscribes h = []" and "reg_ok reg"
  shows "sentinel_Handle rt marshal reg env = [alert rt marshal env]"
proof -
  have "h \<notin> set (hg_byEvent reg WorkflowRetried)" for h
    using assms(2,3) by (auto simp: reg_ok_member registered_def reg_All_def dest!: map_of_SomeD)
  then have "hg_byEvent reg WorkflowRetried = []" by (cases "hg_byEvent reg WorkflowRetried") auto
  then show ?thesis using assms(1) by (simp add: sentinel_Handle_def internalEvents_def HandlersFor_def)
qed

section \<open>Event schemas\<close>

text \<open>\<open>'p\<close> is the JSON text of a payload; an upcaster may fail with the text of its error.\<close>

type_synonym 'p upcaster = "'p \<Rightarrow> string + 'p"

record 'p registration =
  rg_Description :: string
  rg_CurrentVersion :: int
  rg_Upcasters :: "int \<rightharpoonup> 'p upcaster"

type_synonym 'p schemas = "etype \<rightharpoonup> 'p registration"

definition RegisterType :: "etype \<Rightarrow> string \<Rightarrow> int \<Rightarrow> 'p schemas \<Rightarrow> 'p schemas" where
  "RegisterType t description currentVersion r =
     r(t \<mapsto> \<lparr>rg_Description = description, rg_CurrentVersion = currentVersion, rg_Upcasters = Map.empty\<rparr>)"

definition RegisterUpcaster :: "etype \<Rightarrow> int \<Rightarrow> 'p upcaster \<Rightarrow> 'p schemas \<Rightarrow> string + 'p schemas" where
  "RegisterUpcaster t fromVersion u r = (case r t of
      None \<Rightarrow> Inl (''event type '' @ go_quote (type_name t) @ '' not registered'')
    | Some reg \<Rightarrow> Inr (r(t \<mapsto> reg\<lparr>rg_Upcasters := (rg_Upcasters reg)(fromVersion \<mapsto> u)\<rparr>)))"

definition right_arrow :: string where
  "right_arrow = [char_of (226 :: nat), char_of (134 :: nat), char_of (146 :: nat)]"

text \<open>The loop; the error carries the version at which it stopped.\<close>

function upcast_loop :: "(int \<rightharpoonup> 'p upcaster) \<Rightarrow> string \<Rightarrow> int \<Rightarrow> int \<Rightarrow> 'p \<Rightarrow> (int \<times> string) + 'p" where
  "upcast_loop ups name v currentVersion p = (if v < currentVersion
     then case ups v of
        None \<Rightarrow> Inl (v, ''no upcaster for '' @ go_quote name @ '' from version '' @ itoa v @ '' to '' @ itoa (v + 1))
      | Some u \<Rightarrow> (case u p of
          Inl err \<Rightarrow> Inl (v, ''upcast '' @ go_quote name @ '' v'' @ itoa v @ right_arrow @ ''v'' @ itoa (v + 1) @ '': '' @ err)
        | Inr p' \<Rightarrow> upcast_loop ups name (v + 1) currentVersion p')
     else Inr p)"
  by auto
termination
  by (relation "measure (\<lambda>(ups, name, v, currentVersion, p). nat (currentVersion - v))") auto

declare upcast_loop.simps [simp del]

definition Upcast :: "'p schemas \<Rightarrow> etype \<Rightarrow> int \<Rightarrow> 'p \<Rightarrow> (int \<times> string) + 'p \<times> int" where
  "Upcast r t schemaVersion payload = (case r t of
      None \<Rightarrow> Inr (payload, schemaVersion)
    | Some reg \<Rightarrow> (case upcast_loop (rg_Upcasters reg) (type_name t) schemaVersion (rg_CurrentVersion reg) payload of
        Inl e \<Rightarrow> Inl e | Inr p \<Rightarrow> Inr (p, rg_CurrentVersion reg)))"

definition upcast_event :: "payload schemas \<Rightarrow> envelope \<Rightarrow> string + envelope" where
  "upcast_event r e = (case Upcast r (e_Type e) (e_SchemaVersion e) (e_Payload e) of
      Inl (v, err) \<Rightarrow> Inl (''eventstore: upcast event '' @ e_ID e @ '' (type='' @ type_name (e_Type e) @ '', v'' @
        itoa (e_SchemaVersion e) @ ''): '' @ err)
    | Inr (p, v) \<Rightarrow> Inr (e\<lparr>e_Payload := p, e_SchemaVersion := v\<rparr>))"

fun upcastAll :: "payload schemas \<Rightarrow> envelope list \<Rightarrow> string + envelope list" where
  "upcastAll r [] = Inr []"
| "upcastAll r (e # es) = (case upcast_event r e of Inl err \<Rightarrow> Inl err
     | Inr e' \<Rightarrow> (case upcastAll r es of Inl err \<Rightarrow> Inl err | Inr es' \<Rightarrow> Inr (e' # es')))"

definition default_descriptions :: "(etype \<times> string) list" where
  "default_descriptions = [(WorkflowRequested, ''User requests a workflow run''), (WorkflowStarted, ''Engine begins executing a workflow''),
      (WorkflowCompleted, ''Workflow finishes successfully''), (WorkflowFailed, ''Workflow fails''),
      (WorkflowCancelled, ''Workflow is cancelled''), (WorkflowRetried, ''Workflow is retried from a specific phase''),
      (AIRequestSent, ''AI backend call is made''), (AIRequestStarted, ''AI backend subprocess is exec'' @ [char_of (39 :: nat)] @ ''d''),
      (AIResponseReceived, ''AI backend returns''), (AIStructuredOutput, ''Structured output extracted from AI response''),
      (VerdictRendered, ''Review/QA verdict is rendered''), (FeedbackGenerated, ''Feedback is prepared for a retry''),
      (FeedbackConsumed, ''Handler acknowledges feedback''), (TokenBudgetExceeded, ''Cumulative token usage exceeds budget''),
      (CompensationStarted, ''Rollback begins''), (CompensationCompleted, ''Rollback finishes''),
      (PersonaCompleted, ''Persona handler finishes successfully''), (PersonaFailed, ''Persona handler fails''),
      (PRCommentPosted, ''Rick posted a PR comment''), (DispatchDropped, ''PersonaRunner admission-gate drop (diagnostic)''),
      (DispatchStarted, ''PersonaRunner handler-execution start (diagnostic)''),
      (KnowledgeUnavailable, ''persona ran without optional knowledge (backend not tool-capable)''),
      (VerdictGroundingSummary, ''pr-category-review grounding filter outcome (forensics)'')]"

definition DefaultRegistry :: "'p schemas" where
  "DefaultRegistry = fold (\<lambda>(t, d). RegisterType t d 1) default_descriptions Map.empty"

lemma upcast_loop_split:
  assumes "v \<le> k" and "k \<le> n"
  shows "upcast_loop ups name v n p = (case upcast_loop ups name v k p of Inl e \<Rightarrow> Inl e | Inr p' \<Rightarrow> upcast_loop ups name k n p')"
  using assms
proof (induction ups name v n p rule: upcast_loop.induct)
  case (1 ups name v n p)
  show ?case
  proof (cases "v < k")
    case True
    show ?thesis
    proof (cases "ups v")
      case None
      then show ?thesis using True 1(3) by (simp add: upcast_loop.simps [of ups name v])
    next
      case (Some u)
      then show ?thesis using True 1(1) [OF _ Some, of "projr (u p)"] 1(3)
        by (cases "u p") (simp_all add: upcast_loop.simps [of ups name v])
    qed
  next
    case False
    then have "v = k" using 1(2) by simp
    then show ?thesis by (simp add: upcast_loop.simps [of ups name k k])
  qed
qed

text \<open>
  Migration can be done in stages: bringing a payload to an older schema first and to the
  current one from there is bringing it to the current one at once, errors included, when the
  older registry has the same upcasters.
\<close>

theorem upcasting_in_stages:
  assumes "r t = Some reg" and "old t = Some (reg\<lparr>rg_CurrentVersion := k\<rparr>)" and "v \<le> k" and "k \<le> rg_CurrentVersion reg"
  shows "Upcast r t v p = (case Upcast old t v p of Inl e \<Rightarrow> Inl e | Inr (p', k') \<Rightarrow> Upcast r t k' p')"
  using upcast_loop_split [OF assms(3,4), of "rg_Upcasters reg" "type_name t" p] assms(1,2)
  by (auto simp: Upcast_def split: sum.split)

text \<open>An event of a newer schema than the registry knows keeps its payload and is relabelled as the older one.\<close>

lemma newer_event_is_relabelled:
  "r t = Some reg \<Longrightarrow> rg_CurrentVersion reg < v \<Longrightarrow> Upcast r t v p = Inr (p, rg_CurrentVersion reg)"
  by (simp add: Upcast_def upcast_loop.simps)

lemma default_version: "DefaultRegistry t = Some reg \<Longrightarrow> rg_CurrentVersion reg = 1"
proof -
  have "rg_CurrentVersion reg = 1" if "fold (\<lambda>(t, d). RegisterType t d 1) ts m t = Some reg"
    "\<And>t reg. m t = Some reg \<Longrightarrow> rg_CurrentVersion reg = 1" for ts and m :: "'a schemas"
    using that
  proof (induction ts arbitrary: m)
    case (Cons x ts)
    obtain u d where x: "x = (u, d)" by (cases x)
    show ?case
    proof (rule Cons.IH [of "RegisterType u d 1 m"])
      show "fold (\<lambda>(t, d). RegisterType t d 1) ts (RegisterType u d 1 m) t = Some reg" using Cons.prems(1) by (simp add: x)
    next
      fix t' reg'
      assume "RegisterType u d 1 m t' = Some reg'"
      then show "rg_CurrentVersion reg' = 1" using Cons.prems(2) [of t' reg'] by (auto simp: RegisterType_def split: if_splits)
    qed
  qed simp
  then show "DefaultRegistry t = Some reg \<Longrightarrow> ?thesis" unfolding DefaultRegistry_def by (metis option.distinct(1))
qed

text \<open>With the default registry, loading through the upcasting store changes nothing.\<close>

lemma upcastAll_default: "\<forall>e \<in> set es. e_SchemaVersion e = 1 \<Longrightarrow> upcastAll DefaultRegistry es = Inr es"
proof (induction es)
  case (Cons e es)
  have "Upcast DefaultRegistry (e_Type e) 1 (e_Payload e) = Inr (e_Payload e, 1)"
  proof (cases "(DefaultRegistry :: payload schemas) (e_Type e)")
    case (Some reg)
    then show ?thesis by (simp add: Upcast_def default_version [OF Some] upcast_loop.simps)
  qed (simp add: Upcast_def)
  then show ?case using Cons by (simp add: upcast_event_def)
qed simp

definition v2_schemas :: "string schemas" where
  "v2_schemas = [AIRequestSent \<mapsto> \<lparr>rg_Description = [], rg_CurrentVersion = 3,
     rg_Upcasters = [1 \<mapsto> (\<lambda>p. Inr (p @ ''+'')), 2 \<mapsto> (\<lambda>p. Inr (p @ ''*''))]\<rparr>]"

theorem upcasting_in_stages_witness:
  "Upcast v2_schemas AIRequestSent 1 ''x'' = Upcast v2_schemas AIRequestSent 2 ''x+'' \<and>
   Upcast v2_schemas AIRequestSent 2 ''x+'' = Inr (''x+*'', 3)"
proof -
  let ?reg = "the (v2_schemas AIRequestSent)"
  let ?old = "[AIRequestSent \<mapsto> ?reg\<lparr>rg_CurrentVersion := 2\<rparr>]"
  have s: "v2_schemas AIRequestSent = Some ?reg" "?old AIRequestSent = Some (?reg\<lparr>rg_CurrentVersion := 2\<rparr>)" "2 \<le> rg_CurrentVersion ?reg"
    by (simp_all add: v2_schemas_def)
  have "Upcast ?old AIRequestSent 1 ''x'' = Inr (''x+'', 2)"
    by (simp add: Upcast_def v2_schemas_def upcast_loop.simps)
  moreover have "Upcast v2_schemas AIRequestSent 2 ''x+'' = Inr (''x+*'', 3)"
    by (simp add: Upcast_def v2_schemas_def upcast_loop.simps)
  ultimately show ?thesis using upcasting_in_stages [of v2_schemas AIRequestSent ?reg ?old 2 1 "''x''", OF s(1,2) _ s(3)] by simp
qed

end
