(* ===== verification/ReviewVerdict.thy ===== *)
theory ReviewVerdict imports GoText EventStore begin

text \<open>
  \<open>internal/handler/review.go\<close>, first half: how the text of an AI reviewer becomes a verdict and
  a list of issues.
\<close>

section \<open>The verdict\<close>

definition VerdictSourceExplicitPass :: string where "VerdictSourceExplicitPass = ''explicit_pass''"
definition VerdictSourceExplicitFail :: string where "VerdictSourceExplicitFail = ''explicit_fail''"
definition VerdictSourceDefaultOptimistic :: string where "VerdictSourceDefaultOptimistic = ''default_optimistic''"
definition VerdictSourceDowngradedNoGrounded :: string where
  "VerdictSourceDowngradedNoGrounded = ''downgraded_no_grounded''"

record parsed_verdict =
  pv_Outcome :: verdict_outcome
  pv_Summary :: string
  pv_Source :: string

text \<open>The candidates of the summary, from the line before the verdict upwards, five at most.\<close>

definition fence :: string where "fence = [tick, tick, tick]"

definition extractSummary :: "string list \<Rightarrow> nat \<Rightarrow> string" where
  "extractSummary lines verdictIdx =
     (case List.find (\<lambda>line. line \<noteq> [] \<and> \<not> has_prefix line fence \<and> \<not> has_prefix line ''#'')
        (map trim_space (take 5 (rev (take verdictIdx lines)))) of
      None \<Rightarrow> ''review failed'' | Some line \<Rightarrow> line)"

definition upper_line :: "string \<Rightarrow> string" where
  "upper_line line = to_upper (trim_space line)"

fun scan_verdict :: "string list \<Rightarrow> nat list \<Rightarrow> parsed_verdict option" where
  "scan_verdict lines [] = None"
| "scan_verdict lines (i # is) = (let upper = upper_line (lines ! i) in
     if str_contains upper ''VERDICT:'' \<and> str_contains upper ''FAIL'' then
       Some \<lparr>pv_Outcome = VerdictFail, pv_Summary = extractSummary lines i, pv_Source = VerdictSourceExplicitFail\<rparr>
     else if str_contains upper ''VERDICT:'' \<and> str_contains upper ''PASS'' then
       Some \<lparr>pv_Outcome = VerdictPass, pv_Summary = ''passed review'', pv_Source = VerdictSourceExplicitPass\<rparr>
     else scan_verdict lines is)"

definition ParseVerdict :: "string \<Rightarrow> parsed_verdict" where
  "ParseVerdict text = (let lines = split_lines text in
     case scan_verdict lines (rev [0..<length lines]) of
       Some v \<Rightarrow> v
     | None \<Rightarrow> \<lparr>pv_Outcome = VerdictPass, pv_Summary = ''no explicit verdict found; defaulting to pass'',
         pv_Source = VerdictSourceDefaultOptimistic\<rparr>)"

section \<open>File references\<close>

definition wrap64 :: "int \<Rightarrow> int" where
  "wrap64 x = (x + 2 ^ 63) mod 2 ^ 64 - 2 ^ 63"

definition parseLineNumber :: "string \<Rightarrow> int" where
  "parseLineNumber raw = foldl (\<lambda>line c. wrap64 (line * 10 + (of_char c - 48))) 0 (takeWhile is_digit raw)"

definition ref_char :: "char \<Rightarrow> bool" where
  "ref_char c = (is_alpha c \<or> is_digit c \<or> c \<in> set ''_./-'')"

definition ext_char :: "char \<Rightarrow> bool" where
  "ext_char c = (is_alpha c \<or> is_digit c \<or> c \<in> set ''_-'')"

definition file_rx :: rx where
  "file_rx = RAlt (RSeq (RPlus (RSet ref_char)) (ROpt (RSeq (RChar CHR ''.'') (RPlus (RSet ext_char))))) (RLit_i ''Makefile'')"

definition digits_rx :: rx where "digits_rx = RPlus (RSet is_digit)"
definition spaces_rx :: rx where "spaces_rx = RPlus (RSet rx_space)"
definition line_word_rx :: rx where "line_word_rx = RSeq (RLit_i ''line'') (ROpt (RLit_i ''s''))"

definition fileColonLineRefRe :: rx where
  "fileColonLineRefRe = RSeqs [RWordB, RGroup 1 file_rx, RChar CHR '':'', RGroup 2 digits_rx, RWordB]"

definition fileLineWordRefRe :: rx where
  "fileLineWordRefRe = RSeqs [RGroup 1 (RSeqs [ROpt (RChar tick), RGroup 2 file_rx, ROpt (RChar tick)]),
     spaces_rx, line_word_rx, spaces_rx, RGroup 3 digits_rx]"

definition lineWordRefRe :: rx where
  "lineWordRefRe = RSeqs [RWordB, line_word_rx, spaces_rx, RGroup 1 digits_rx, RWordB]"

definition codeSpanRefRe :: rx where
  "codeSpanRefRe = RSeqs [RChar tick, RGroup 1 (RPlus (RSet (\<lambda>c. c \<noteq> tick))), RChar tick]"

definition looksLikeSourceRef :: "string \<Rightarrow> bool" where
  "looksLikeSourceRef candidate = (candidate \<noteq> [] \<and> (candidate = ''Makefile'' \<or>
     to_lower (path_ext candidate) \<in> set [''.go'', ''.sh'', ''.md'', ''.yaml'', ''.yml'', ''.toml'', ''.json'', ''.ts'',
       ''.tsx'', ''.js'', ''.jsx'', ''.sql'', ''.proto'']))"

definition extractFileRef :: "string \<Rightarrow> string \<times> int" where
  "extractFileRef desc = (case FindStringSubmatch fileColonLineRefRe desc of
      Some m \<Rightarrow> (m 1, parseLineNumber (m 2))
    | None \<Rightarrow> (case FindStringSubmatch fileLineWordRefRe desc of
        Some m \<Rightarrow> (str_trim (m 2) [tick], parseLineNumber (m 3))
      | None \<Rightarrow> (let line = (case FindStringSubmatch lineWordRefRe desc of None \<Rightarrow> 0 | Some m \<Rightarrow> parseLineNumber (m 1)) in
          case List.find looksLikeSourceRef (map (\<lambda>m. trim_space (m 1)) (FindAllStringSubmatch codeSpanRefRe desc)) of
            Some candidate \<Rightarrow> (candidate, line)
          | None \<Rightarrow> (case List.find looksLikeSourceRef (map (\<lambda>t. str_trim t (tick # ''*()[]{}:,.'')) (str_fields desc)) of
              Some candidate \<Rightarrow> (candidate, line)
            | None \<Rightarrow> ([], line)))))"

section \<open>Classification\<close>

definition mentions :: "string list \<Rightarrow> string \<Rightarrow> bool" where
  "mentions words lower = list_ex (\<lambda>w. str_contains lower w) words"

definition classifySeverity :: "string \<Rightarrow> string" where
  "classifySeverity desc = (let lower = to_lower desc in
     if mentions [''critical'', ''security'', ''injection'', ''vulnerability'', ''credential'', ''xss'', ''deadlock'', ''data loss''] lower
     then ''critical''
     else if mentions [''missing'', ''error handling'', ''race condition'', ''breaking change'', ''goroutine leak'', ''silent fail'', ''partial write''] lower
     then ''major'' else ''minor'')"

definition category_words :: "(string \<times> string list) list" where
  "category_words = [
    (''security'', [''security'', ''injection'', ''auth'', ''vulnerability'', ''credential'', ''secret'', ''xss'', ''csrf'']),
    (''concurrency'', [''race condition'', ''deadlock'', ''mutex'', ''goroutine leak'', ''channel'', ''concurrent'',
       ''synchronization'', ''toctou'', ''concurrent map'']),
    (''error_handling'', [''error handling'', ''swallowed error'', ''unwrapped'', ''naked return'', ''missing context'',
       ''err != nil'', ''error ignored'', ''bare log'']),
    (''observability'', [''observability'', ''logging'', ''tracing'', ''metric'', ''silent fail'', ''correlation'', ''debug'', ''monitor'']),
    (''api_contract'', [''breaking change'', ''api contract'', ''backward compat'', ''removed field'', ''response shape'',
       ''status code'', ''proto'', ''schema break'']),
    (''idempotency'', [''idempoten'', ''dedup'', ''retry-unsafe'', ''replay'']),
    (''integration'', [''integration'', ''contract test'', ''end-to-end'', ''e2e'']),
    (''data'', [''data integrity'', ''migration'', ''partial write'', ''data loss'', ''rollback'', ''schema migration'', ''orphan'']),
    (''testing'', [''test'', ''coverage'']),
    (''performance'', [''performance'', ''n+1'', ''index'', ''latency'', ''unbounded'', ''slow query'']),
    (''good_hygiene'', [''naming'', ''style'', ''format'', ''code smell'', ''dead code'', ''magic number'', ''complexity'', ''anti-pattern''])]"

definition classifyCategory :: "string \<Rightarrow> string" where
  "classifyCategory desc = (let lower = to_lower desc in
     case List.find (\<lambda>(c, words). mentions words lower) category_words of None \<Rightarrow> ''correctness'' | Some (c, words) \<Rightarrow> c)"

section \<open>Issues\<close>

definition numberedIssueRe :: rx where
  "numberedIssueRe = RSeqs [RBegin, RStar (RSet rx_space),
     RAlt (RSeqs [digits_rx, RSet (\<lambda>c. c = CHR ''.'' \<or> c = CHR '')''), RStar (RSet rx_space)])
          (RSeq (RChar CHR ''-'') spaces_rx),
     RGroup 1 (RPlus (RSet (\<lambda>c. c \<noteq> nl)))]"

definition parsed_issue :: "string \<Rightarrow> issue" where
  "parsed_issue description = (case extractFileRef description of (file, line) \<Rightarrow>
     \<lparr>is_Severity = classifySeverity description, is_Category = classifyCategory description,
      is_Description = description, is_File = file, is_Line = line\<rparr>)"

definition issue_line :: "string \<Rightarrow> issue option" where
  "issue_line l = (case FindStringSubmatch numberedIssueRe l of None \<Rightarrow> None
     | Some m \<Rightarrow> (let description = trim_space (m 1) in if description = [] then None else Some (parsed_issue description)))"

definition fail_line :: "string \<Rightarrow> bool" where
  "fail_line l = (str_contains (upper_line l) ''VERDICT:'' \<and> str_contains (upper_line l) ''FAIL'')"

definition ParseIssues :: "string \<Rightarrow> verdict_outcome \<Rightarrow> issue list" where
  "ParseIssues text outcome = (if outcome \<noteq> VerdictFail then []
     else case dropWhile (\<lambda>l. \<not> fail_line l) (split_lines text) of [] \<Rightarrow> []
       | l # after \<Rightarrow> List.map_filter issue_line after)"

section \<open>What a verdict depends on\<close>

definition pass_line :: "string \<Rightarrow> bool" where
  "pass_line l = (\<not> fail_line l \<and> str_contains (upper_line l) ''VERDICT:'' \<and> str_contains (upper_line l) ''PASS'')"

lemma scan_verdict_map:
  "map_option pv_Outcome (scan_verdict lines is) =
     (case List.find (\<lambda>l. fail_line l \<or> pass_line l) (map (\<lambda>i. lines ! i) is) of None \<Rightarrow> None
      | Some l \<Rightarrow> Some (if fail_line l then VerdictFail else VerdictPass))"
  by (induction "is") (auto simp: Let_def fail_line_def pass_line_def)

lemma scan_verdict_source:
  "map_option pv_Source (scan_verdict lines is) =
     (case List.find (\<lambda>l. fail_line l \<or> pass_line l) (map (\<lambda>i. lines ! i) is) of None \<Rightarrow> None
      | Some l \<Rightarrow> Some (if fail_line l then VerdictSourceExplicitFail else VerdictSourceExplicitPass))"
  by (induction "is") (auto simp: Let_def fail_line_def pass_line_def)

lemma rev_lines: "map (\<lambda>i. lines ! i) (rev [0..<length lines]) = rev lines"
  by (simp add: rev_map [symmetric] map_nth)

text \<open>The last line that carries a verdict decides; without one the review passes.\<close>

lemma verdict_by_last_line:
  "pv_Outcome (ParseVerdict text) = (case List.find (\<lambda>l. fail_line l \<or> pass_line l) (rev (split_lines text)) of
     None \<Rightarrow> VerdictPass | Some l \<Rightarrow> if fail_line l then VerdictFail else VerdictPass)"
  "pv_Source (ParseVerdict text) = (case List.find (\<lambda>l. fail_line l \<or> pass_line l) (rev (split_lines text)) of
     None \<Rightarrow> VerdictSourceDefaultOptimistic
   | Some l \<Rightarrow> if fail_line l then VerdictSourceExplicitFail else VerdictSourceExplicitPass)"
  using scan_verdict_map [of "split_lines text" "rev [0..<length (split_lines text)]"]
    scan_verdict_source [of "split_lines text" "rev [0..<length (split_lines text)]"]
  by (auto simp: ParseVerdict_def Let_def rev_lines split: option.splits)

end
