(* ===== verification/DiffGrounding.thy ===== *)
theory DiffGrounding imports ReviewVerdict OutputGuard begin

text \<open>
  \<open>internal/handler/review.go\<close>, second half: the grounding of a reviewer's findings in the lines
  that the pull request adds, and the review handler around it. A map that the code ranges over
  is a list, whose order stands for the order of the runtime.
\<close>

section \<open>The scope of a diff\<close>

record grounding_scope =
  sc_changedFiles :: "string list"
  sc_changedLines :: "(string, (int, string) gomap) gomap"

definition empty_scope :: grounding_scope where
  "empty_scope = \<lparr>sc_changedFiles = [], sc_changedLines = []\<rparr>"

definition add_file :: "string \<Rightarrow> grounding_scope \<Rightarrow> grounding_scope" where
  "add_file f sc = (if f \<in> set (sc_changedFiles sc) then sc else sc\<lparr>sc_changedFiles := sc_changedFiles sc @ [f]\<rparr>)"

definition add_line :: "string \<Rightarrow> int \<Rightarrow> string \<Rightarrow> grounding_scope \<Rightarrow> grounding_scope" where
  "add_line f n text sc = sc\<lparr>sc_changedLines := mput (sc_changedLines sc) f
     (mput (mget [] (sc_changedLines sc) f) n text)\<rparr>"

definition hunkHeaderRe :: rx where
  "hunkHeaderRe = RSeqs [RBegin, RLit ''@@ -'', digits_rx, ROpt (RSeq (RChar CHR '','') digits_rx), RLit '' +'',
     RGroup 1 digits_rx, ROpt (RSeq (RChar CHR '','') digits_rx), RLit '' @@'']"

text \<open>One line of the diff; the state is the scope, the current file and the line number in the new file.\<close>

definition diff_line :: "string \<Rightarrow> grounding_scope \<times> string \<times> int \<Rightarrow> grounding_scope \<times> string \<times> int" where
  "diff_line line = (\<lambda>(sc, currentFile, currentNewLine).
     if has_prefix line ''+++ b/'' then
       (let f = trim_prefix line ''+++ b/'' in (add_file f sc, f, currentNewLine))
     else if has_prefix line ''@@ '' then (case FindStringSubmatch hunkHeaderRe line of
         None \<Rightarrow> (sc, currentFile, 0)
       | Some m \<Rightarrow> (sc, currentFile, parseLineNumber (m 1)))
     else if currentFile = [] \<or> currentNewLine = 0 then (sc, currentFile, currentNewLine)
     else if has_prefix line ''+'' \<and> \<not> has_prefix line ''+++'' then
       (add_line currentFile currentNewLine (trim_space (drop 1 line)) sc, currentFile, currentNewLine + 1)
     else if has_prefix line '' '' then (sc, currentFile, currentNewLine + 1)
     else (sc, currentFile, currentNewLine))"

definition parseUnifiedDiff :: "string \<Rightarrow> grounding_scope \<Rightarrow> grounding_scope" where
  "parseUnifiedDiff diff sc = fst (fold diff_line (split_lines diff) (sc, [], 0))"

definition extractDiffBlock :: "string \<Rightarrow> string" where
  "extractDiffBlock summary = (case str_index summary (fence @ ''diff'' @ [nl]) of None \<Rightarrow> []
     | Some i \<Rightarrow> (let rest = drop (i + length (fence @ ''diff'' @ [nl])) summary in
         case str_index rest (nl # fence) of None \<Rightarrow> [] | Some j \<Rightarrow> take j rest))"

definition listed_file :: "string \<Rightarrow> bool \<times> grounding_scope \<Rightarrow> bool \<times> grounding_scope" where
  "listed_file line = (\<lambda>(inFileList, sc). let trimmed = trim_space line in
     if trimmed = ''## PR Changed Files'' then (True, sc)
     else if trimmed = ''## PR Diff'' then (False, sc)
     else if inFileList \<and> has_prefix trimmed (''- '' @ [tick]) \<and> has_suffix trimmed [tick]
     then (inFileList, add_file (trim_suffix (trim_prefix trimmed (''- '' @ [tick])) [tick]) sc)
     else (inFileList, sc))"

definition parsePRDiffGroundingScope :: "string \<Rightarrow> grounding_scope \<times> bool" where
  "parsePRDiffGroundingScope summary = (let sc = snd (fold listed_file (split_lines summary) (False, empty_scope));
      diff = extractDiffBlock summary in
    if diff = [] then (sc, sc_changedFiles sc \<noteq> [])
    else let sc' = parseUnifiedDiff diff sc in
      (sc', sc_changedFiles sc' \<noteq> [] \<or> sc_changedLines sc' \<noteq> []))"

text \<open>The first snapshot of the diff in the correlation log; \<open>None\<close> is a missing store or its error.\<close>

definition diff_summary :: "envelope \<Rightarrow> string option" where
  "diff_summary e = (if e_Type e \<noteq> ContextEnrichment then None
     else case as_enrichment (e_Payload e) of None \<Rightarrow> None
       | Some p \<Rightarrow> if ce_Kind p \<noteq> ''pr-diff'' \<or> ce_Summary p = [] then None else Some (ce_Summary p))"

definition loadPRDiffGroundingScope :: "envelope list option \<Rightarrow> string \<Rightarrow> grounding_scope \<times> bool" where
  "loadPRDiffGroundingScope loaded correlationID = (case loaded of None \<Rightarrow> (empty_scope, False)
     | Some events \<Rightarrow> if correlationID = [] then (empty_scope, False)
         else case List.map_filter diff_summary events of [] \<Rightarrow> (empty_scope, False)
           | summary # others \<Rightarrow> parsePRDiffGroundingScope summary)"

section \<open>Code spans\<close>

text \<open>What follows an opening run of \<open>n\<close> backticks: the content and the text after the closing run.\<close>

function close_span :: "nat \<Rightarrow> string \<Rightarrow> string \<Rightarrow> (string \<times> string) option" where
  "close_span n acc [] = None"
| "close_span n acc (c # s) = (if c \<noteq> tick then close_span n (acc @ [c]) s
     else let k = length (takeWhile (\<lambda>d. d = tick) (c # s)); rest = drop k (c # s) in
       if k = n then Some (acc, rest) else close_span n (acc @ replicate k tick) rest)"
  by pat_completeness auto
termination
  by (relation "measure (\<lambda>(n, acc, s). length s)") auto

lemma close_span_shorter: "close_span n acc s = Some (content, rest) \<Longrightarrow> length rest \<le> length s"
proof (induction n acc s rule: close_span.induct)
  case (2 n acc c s)
  show ?case
  proof (cases "c \<noteq> tick")
    case True
    then show ?thesis using 2 by auto
  next
    case False
    then show ?thesis using 2 by (auto simp: Let_def split: if_splits) (meson diff_le_self le_SucI le_trans)
  qed
qed simp

function extractCodeSpanContents :: "string \<Rightarrow> string list" where
  "extractCodeSpanContents [] = []"
| "extractCodeSpanContents (c # s) = (if c \<noteq> tick then extractCodeSpanContents s
     else let run = length (takeWhile (\<lambda>d. d = tick) (c # s)); after = drop run (c # s) in
       case close_span run [] after of None \<Rightarrow> extractCodeSpanContents after
       | Some (raw, rest) \<Rightarrow> (let content = trim_space (str_trim (trim_space raw) [tick]) in
           (if content \<noteq> [] then [content] else []) @ extractCodeSpanContents rest))"
  by pat_completeness auto
termination
  by (relation "measure length") (auto dest!: close_span_shorter)

declare close_span.simps [simp del] extractCodeSpanContents.simps [simp del]

definition fileLineTokenRe :: rx where
  "fileLineTokenRe = RSeqs [RBegin, RPlus (RSet (\<lambda>c. c \<noteq> slash)), RChar CHR ''.'', RPlus (RSet is_word), RChar CHR '':'',
     digits_rx, REnd]"

definition ident_rx :: rx where
  "ident_rx = RSeq (RSet (\<lambda>c. is_alpha c \<or> c = CHR ''_'')) (RStar (RSet is_word))"

definition identifierLikeTokenRe :: rx where
  "identifierLikeTokenRe = RSeqs [RBegin, ident_rx, RStar (RSeq (RChar CHR ''.'') ident_rx),
     ROpt (RSeqs [RChar CHR ''('', RStar (RSet (\<lambda>c. c \<noteq> CHR '')'')), RChar CHR '')'']), REnd]"

definition groundingTokens :: "string \<Rightarrow> string list" where
  "groundingTokens description = filter (\<lambda>token. \<not> (token = [] \<or> token = ''Makefile'' \<or> slash \<in> set token) \<and>
     \<not> MatchString fileLineTokenRe token) (extractCodeSpanContents description)"

section \<open>Grounding one issue\<close>

fun resolve_loop :: "string \<Rightarrow> string \<Rightarrow> string list \<Rightarrow> string \<Rightarrow> string" where
  "resolve_loop ref base [] m = m"
| "resolve_loop ref base (candidate # cs) m =
     (if has_suffix candidate (slash # ref) then candidate
      else if path_base candidate = base then (if m \<noteq> [] \<and> m \<noteq> candidate then [] else resolve_loop ref base cs candidate)
      else resolve_loop ref base cs m)"

definition resolveFile :: "grounding_scope \<Rightarrow> string \<Rightarrow> string" where
  "resolveFile sc ref0 = (let ref = str_trim ref0 [tick, CHR '' ''] in
     if ref = [] then [] else if ref \<in> set (sc_changedFiles sc) then ref
     else resolve_loop ref (path_base ref) (sc_changedFiles sc) [])"

definition matchesChangedLine :: "grounding_scope \<Rightarrow> string \<Rightarrow> int \<Rightarrow> string \<Rightarrow> bool" where
  "matchesChangedLine sc file line description = (case map_of (sc_changedLines sc) file of None \<Rightarrow> False
     | Some lines \<Rightarrow> (let nearbyText = concat (map (\<lambda>text. text @ [nl])
           (List.map_filter (map_of lines) [line - 1, line, line + 1])) in
         nearbyText \<noteq> [] \<and> list_all (\<lambda>token. str_contains nearbyText token) (groundingTokens description)))"

definition minAnchorTokenLen :: nat where "minAnchorTokenLen = 8"

definition anchor_token :: "string \<Rightarrow> bool" where
  "anchor_token tok = (MatchString identifierLikeTokenRe tok \<and> length tok \<ge> minAnchorTokenLen)"

definition strip_citation :: "string \<Rightarrow> string" where
  "strip_citation cited = (if MatchString fileLineTokenRe (trim_space (take (length cited - 2) (drop 1 cited))) then [] else cited)"

definition rescueByFileScope :: "grounding_scope \<Rightarrow> issue \<Rightarrow> issue option" where
  "rescueByFileScope sc i = (let file = resolveFile sc (is_File i) in
     if file = [] then None else case map_of (sc_changedLines sc) file of None \<Rightarrow> None
     | Some lines \<Rightarrow> if lines = [] then None
         else let tokens = groundingTokens (is_Description i); blob = concat (map (\<lambda>(n, text). text @ [nl]) lines) in
           if list_ex (\<lambda>tok. anchor_token tok \<and> str_contains blob tok) tokens
           then Some (i\<lparr>is_File := file, is_Line := 0,
             is_Description := trim_space (ReplaceAllStringFunc codeSpanRefRe (is_Description i) strip_citation)\<rparr>)
           else None)"

datatype drop_reason = FileNotInScope | NoLineCited | LineNotInChanged | TokenNotNearLine | RescuedFileScope

definition reason_name :: "drop_reason \<Rightarrow> string" where
  "reason_name r = (case r of FileNotInScope \<Rightarrow> ''file_not_in_scope'' | NoLineCited \<Rightarrow> ''no_line_cited''
     | LineNotInChanged \<Rightarrow> ''line_not_in_changed'' | TokenNotNearLine \<Rightarrow> ''token_not_near_line''
     | RescuedFileScope \<Rightarrow> ''rescued_file_scope'')"

text \<open>\<open>Inl\<close> is a dropped issue with its reason; a kept one says whether it was rescued.\<close>

definition groundIssue :: "grounding_scope \<Rightarrow> issue \<Rightarrow> drop_reason + issue \<times> bool" where
  "groundIssue sc i0 = (let i = (if is_File i0 = [] then (case extractFileRef (is_Description i0) of (f, n) \<Rightarrow>
         i0\<lparr>is_File := f, is_Line := n\<rparr>) else i0);
       file = resolveFile sc (is_File i) in
     if file = [] then Inl FileNotInScope
     else if is_Line i \<le> 0 then (case rescueByFileScope sc i of Some r \<Rightarrow> Inr (r, True) | None \<Rightarrow> Inl NoLineCited)
     else case map_of (sc_changedLines sc) file of None \<Rightarrow> Inl LineNotInChanged
       | Some lines \<Rightarrow> if \<not> matchesChangedLine sc file (is_Line i) (is_Description i)
           then (case rescueByFileScope sc i of Some r \<Rightarrow> Inr (r, True)
             | None \<Rightarrow> if map_of lines (is_Line i) \<noteq> None then Inl TokenNotNearLine else Inl LineNotInChanged)
           else Inr (i\<lparr>is_File := file\<rparr>, False))"

section \<open>Grounding a review\<close>

text \<open>The issues that survive, the number rescued, and the tally of the reasons.\<close>

definition ground_step ::
    "grounding_scope \<Rightarrow> issue \<Rightarrow> issue list \<times> int \<times> (string, int) gomap \<Rightarrow> issue list \<times> int \<times> (string, int) gomap" where
  "ground_step sc i = (\<lambda>(grounded, rescued, reasons). case groundIssue sc i of
      Inr (g, True) \<Rightarrow> (grounded @ [g], rescued + 1,
        mput reasons (reason_name RescuedFileScope) (mget 0 reasons (reason_name RescuedFileScope) + 1))
    | Inr (g, False) \<Rightarrow> (grounded @ [g], rescued, reasons)
    | Inl r \<Rightarrow> (grounded, rescued, mput reasons (reason_name r) (mget 0 reasons (reason_name r) + 1)))"

definition compactIssueDescription :: "issue \<Rightarrow> string" where
  "compactIssueDescription i = (let location = (if is_Line i > 0 then is_File i @ '':'' @ itoa (is_Line i) else is_File i);
      desc = trim_space (is_Description i) in
     if location = [] \<or> str_contains desc location \<or> str_contains desc (path_base (is_File i)) then desc
     else [tick] @ location @ [tick] @ '' '' @ em_dash @ '' '' @ desc)"

definition numbered_lines :: "issue list \<Rightarrow> string" where
  "numbered_lines issues = concat (map (\<lambda>(k, i). itoa (int k + 1) @ ''. '' @ compactIssueDescription i @ [nl])
     (zip [0..<length issues] issues))"

definition buildCompactPRCategoryReviewOutput :: "parsed_verdict \<Rightarrow> issue list \<Rightarrow> string" where
  "buildCompactPRCategoryReviewOutput verdict issues =
     (if pv_Outcome verdict \<noteq> VerdictFail \<or> issues = []
      then ''No grounded issues found in the changed lines for this review category.'' @ [nl, nl] @ ''VERDICT: PASS''
      else trim_space ((if pv_Summary verdict \<noteq> [] then pv_Summary verdict @ [nl, nl] else []) @
        ''VERDICT: FAIL'' @ [nl, nl] @ numbered_lines issues))"

definition buildGroundingSummary ::
    "runtime \<Rightarrow> string \<Rightarrow> verdict_outcome \<Rightarrow> verdict_outcome \<Rightarrow> int \<Rightarrow> int \<Rightarrow> int \<Rightarrow> (string, int) gomap \<Rightarrow> envelope" where
  "buildGroundingSummary rt name original final originalCount groundedCount rescued dropReasons =
     WithSource (''handler:'' @ name) (NewEnv rt 0 VerdictGroundingSummary 1 (PGroundingSummary
       \<lparr>gs_Reviewer = name, gs_OriginalCount = originalCount, gs_GroundedCount = groundedCount,
        gs_DropReasons = dropReasons, gs_RescuedCount = rescued, gs_OriginalOutcome = original, gs_FinalOutcome = final\<rparr>))"

definition groundPRCategoryReview ::
    "runtime \<Rightarrow> string \<Rightarrow> envelope list option \<Rightarrow> string \<Rightarrow> string \<Rightarrow> parsed_verdict \<Rightarrow> issue list \<Rightarrow>
     string \<times> parsed_verdict \<times> issue list \<times> envelope" where
  "groundPRCategoryReview rt name loaded correlationID responseText verdict issues =
     (case loadPRDiffGroundingScope loaded correlationID of
       (sc, False) \<Rightarrow> (responseText, verdict, issues,
         buildGroundingSummary rt name (pv_Outcome verdict) (pv_Outcome verdict) (int (length issues)) (int (length issues)) 0 [])
     | (sc, True) \<Rightarrow> (case fold (ground_step sc) issues ([], 0, []) of (grounded0, rescued, dropReasons) \<Rightarrow>
         let verdict' = (if pv_Outcome verdict = VerdictFail \<and> grounded0 = []
               then \<lparr>pv_Outcome = VerdictPass, pv_Summary = ''no grounded issues found in the changed lines for this review category'',
                     pv_Source = VerdictSourceDowngradedNoGrounded\<rparr>
               else verdict);
             grounded = (if pv_Outcome verdict' \<noteq> VerdictFail then [] else grounded0)
         in (buildCompactPRCategoryReviewOutput verdict' grounded, verdict', grounded,
             buildGroundingSummary rt name (pv_Outcome verdict) (pv_Outcome verdict') (int (length issues))
               (int (length grounded)) rescued dropReasons)))"

section \<open>The review handler\<close>

record review_handler =
  rh_name :: string
  rh_targetPersona :: string

definition isPRCategoryReviewer :: "review_handler \<Rightarrow> bool" where
  "isPRCategoryReviewer h = (rh_name h \<in> set [''pr-security'', ''pr-concurrency'', ''pr-error-handling'',
     ''pr-observability'', ''pr-api-contract'', ''pr-idempotency'', ''pr-testing'', ''pr-integration'',
     ''pr-performance'', ''pr-data'', ''pr-hygiene'', ''pr-vendor-resilience'', ''pr-docs-concordance''])"

definition unmarshalOutput :: "string \<Rightarrow> bool \<Rightarrow> string" where
  "unmarshalOutput out structured = (if structured then out
     else case json_string out of Some text \<Rightarrow> text | None \<Rightarrow> out)"

definition extractResponseText :: "envelope list \<Rightarrow> string" where
  "extractResponseText events = (case List.map_filter (\<lambda>e. if e_Type e \<noteq> AIResponseReceived then None
       else as_ai_response (e_Payload e)) events of
     [] \<Rightarrow> [] | p # others \<Rightarrow> unmarshalOutput (ar_Output p) (ar_Structured p))"

text \<open>\<open>quote\<close> is \<open>json.Marshal\<close> of a string.\<close>

fun rewriteAIResponseText :: "(string \<Rightarrow> string) \<Rightarrow> string \<Rightarrow> string \<Rightarrow> envelope list \<Rightarrow> envelope list" where
  "rewriteAIResponseText quote text rawText [] = []"
| "rewriteAIResponseText quote text rawText (e # es) =
     (if e_Type e \<noteq> AIResponseReceived then e # rewriteAIResponseText quote text rawText es
      else case as_ai_response (e_Payload e) of None \<Rightarrow> e # es
        | Some p \<Rightarrow> (let p1 = p\<lparr>ar_Structured := False, ar_Output := quote text\<rparr>;
              p2 = (if rawText \<noteq> [] \<and> rawText \<noteq> text then p1\<lparr>ar_OutputRaw := quote rawText\<rparr> else p1)
            in e\<lparr>e_Payload := PAIResponse p2\<rparr> # es))"

text \<open>
  \<open>ai False\<close> is the answer of the AI handler, \<open>ai True\<close> its answer under the reinforced prompt;
  \<open>Inl\<close> is its error.
\<close>

definition review_Handle ::
    "runtime \<Rightarrow> (string \<Rightarrow> string) \<Rightarrow> review_handler \<Rightarrow> (bool \<Rightarrow> string + envelope list) \<Rightarrow> envelope list option \<Rightarrow>
     envelope \<Rightarrow> string + envelope list" where
  "review_Handle rt quote h ai loaded env = (case ai False of Inl err \<Rightarrow> Inl err
     | Inr aiEvents0 \<Rightarrow>
       let aiEvents = (if pv_Source (ParseVerdict (extractResponseText aiEvents0)) = VerdictSourceDefaultOptimistic
             then (case ai True of Inl rerr \<Rightarrow> aiEvents0 | Inr retryEvents \<Rightarrow> retryEvents) else aiEvents0);
           responseText = extractResponseText aiEvents;
           verdict = ParseVerdict responseText;
           issues = ParseIssues responseText (pv_Outcome verdict);
           rendered = (\<lambda>v is. WithSource (''handler:'' @ rh_name h) (NewEnv rt 1 VerdictRendered 1 (PVerdict
             (zero_verdict\<lparr>v_Persona := rh_targetPersona h, v_SourcePersona := rh_name h, v_Outcome := pv_Outcome v,
              v_Issues := is, v_Summary := pv_Summary v, v_Source := pv_Source v, v_DevTriggerID := e_ID env\<rparr>))))
       in Inr (if isPRCategoryReviewer h
         then (case groundPRCategoryReview rt (rh_name h) loaded (e_CorrelationID env) responseText verdict issues of
             (text', verdict', issues', summaryEvt) \<Rightarrow>
               rewriteAIResponseText quote text' responseText aiEvents @ [rendered verdict' issues', summaryEvt])
         else aiEvents @ [rendered verdict issues]))"

end
