(* ===== verification/PrDiff.thy ===== *)
theory PrDiff imports DiffGrounding begin

text \<open>
  \<open>internal/handler/pr_diff.go\<close>: the summary of a pull request's diff that the reviewers read, and
  the scope that \<open>review.go\<close> reads back from it.
\<close>

section \<open>Rendering the diff\<close>

definition prDiffMaxBytes :: nat where "prDiffMaxBytes = 512 * 1024"

record diff_file =
  df_Path :: string
  df_Added :: int
  df_Removed :: int
  df_Binary :: bool

text \<open>The value that \<open>strconv.Atoi\<close> returns beside its error: 0 for bad syntax, the nearest bound out of range.\<close>

definition atoi_value :: "string \<Rightarrow> int" where
  "atoi_value s = (case atoi s of Some i \<Rightarrow> i
     | None \<Rightarrow> (let ds = (if has_prefix s ''-'' \<or> has_prefix s ''+'' then drop 1 s else s) in
         if ds = [] \<or> digits_val 0 ds = None then 0 else if has_prefix s ''-'' then - (2 ^ 63) else 2 ^ 63 - 1))"

definition tab :: char where "tab = char_of (9 :: nat)"

text \<open>\<open>strings.SplitN\<close> with the limit 3, where it finds three parts.\<close>

definition split_3 :: "string \<Rightarrow> (string \<times> string \<times> string) option" where
  "split_3 s = (case split_on tab s of a # b # c # cs \<Rightarrow> Some (a, b, str_join (c # cs) [tab]) | _ \<Rightarrow> None)"

definition numstat_line :: "string \<Rightarrow> diff_file option" where
  "numstat_line line = (if line = [] then None else case split_3 line of None \<Rightarrow> None
     | Some (a, r, path) \<Rightarrow> Some \<lparr>df_Path = path, df_Added = atoi_value a, df_Removed = atoi_value r, df_Binary = (a = ''-'')\<rparr>)"

text \<open>\<open>git workspacePath args\<close> is the output of a git command; \<open>None\<close> is its error.\<close>

definition generateWorkspaceDiff ::
    "(string \<Rightarrow> string list \<Rightarrow> string option) \<Rightarrow> string \<Rightarrow> string \<Rightarrow> string \<times> diff_file list \<times> bool" where
  "generateWorkspaceDiff git workspacePath base =
     (if workspacePath = [] \<or> base = [] then ([], [], False)
      else case git workspacePath [''rev-parse'', ''--is-inside-work-tree''] of None \<Rightarrow> ([], [], False)
      | Some inside \<Rightarrow> (let spec = ''origin/'' @ base @ ''...HEAD'' in
         case git workspacePath [''diff'', ''--numstat'', spec] of None \<Rightarrow> ([], [], False)
         | Some nsOut \<Rightarrow> (let files = List.map_filter numstat_line (split_lines nsOut) in
             case git workspacePath [''diff'', spec] of None \<Rightarrow> ([], files, False)
             | Some dOut \<Rightarrow> (dOut, files, True))))"

definition manifest_line :: "diff_file \<Rightarrow> string" where
  "manifest_line f = ''- '' @ [tick] @ df_Path f @ [tick] @
     (if df_Binary f then '' (binary)'' else '' (+'' @ itoa (df_Added f) @ '' / -'' @ itoa (df_Removed f) @ '')'')"

definition manifest_header :: "diff_file list \<Rightarrow> string" where
  "manifest_header files = ''## PR Changed Files ('' @ itoa (int (length files)) @ '' files, +'' @
     itoa (sum_list (map df_Added files)) @ '' / -'' @ itoa (sum_list (map df_Removed files)) @ '' LOC)''"

definition truncate_body :: "string \<Rightarrow> string" where
  "truncate_body diff = (let cut = take prDiffMaxBytes diff; before = dropWhile (\<lambda>c. c \<noteq> nl) (rev cut) in
     case before of [] \<Rightarrow> cut | c # b \<Rightarrow> if b = [] then cut else rev b)"

definition diff_heading :: "bool \<Rightarrow> string" where
  "diff_heading truncated = (if truncated then ''## PR Diff (TRUNCATED after '' @ itoa (int prDiffMaxBytes) @ '' bytes '' @
       em_dash @ '' review is partial. File manifest above is complete; diff body below covers only the first portion of the changes.)''
     else ''## PR Diff'')"

definition diff_document :: "diff_file list \<Rightarrow> bool \<Rightarrow> string \<Rightarrow> string" where
  "diff_document files truncated body = manifest_header files @ [nl, nl] @
     concat (map (\<lambda>f. manifest_line f @ [nl]) files) @ [nl] @ diff_heading truncated @ [nl, nl] @
     fence @ ''diff'' @ [nl] @ body @ [nl] @ fence @ [nl]"

definition buildWorkspaceDiffEnrichment :: "(string \<Rightarrow> string list \<Rightarrow> string option) \<Rightarrow> string \<Rightarrow> string \<Rightarrow> context_enrichment" where
  "buildWorkspaceDiffEnrichment git workspacePath base = (case generateWorkspaceDiff git workspacePath base of
      (diff, files, ok) \<Rightarrow> if \<not> ok then \<lparr>ce_Source = [], ce_Kind = [], ce_Summary = []\<rparr>
        else let truncated = length diff > prDiffMaxBytes; body = (if truncated then truncate_body diff else diff) in
          \<lparr>ce_Source = ''pr-workspace'', ce_Kind = (if truncated then ''pr-diff-truncated'' else ''pr-diff''),
           ce_Summary = diff_document files truncated body\<rparr>)"

definition fetchWorkspaceRawDiff :: "(string \<Rightarrow> string list \<Rightarrow> string option) \<Rightarrow> string \<Rightarrow> string \<Rightarrow> string" where
  "fetchWorkspaceRawDiff git workspacePath base =
     (if workspacePath = [] \<or> base = [] then []
      else case git workspacePath [''rev-parse'', ''--is-inside-work-tree''] of None \<Rightarrow> []
      | Some inside \<Rightarrow> (case git workspacePath [''diff'', ''origin/'' @ base @ ''...HEAD''] of None \<Rightarrow> [] | Some out \<Rightarrow> out))"

end
