(* ===== verification/DiffScope.thy ===== *)
theory DiffScope imports PrDiff begin

text \<open>
  The round trip of a pull request's diff: from its hunks through the output of git, the summary of
  \<open>handler/pr_diff.go\<close> and the parsers of \<open>handler/review.go\<close> back to the added lines.
\<close>

section \<open>First matches\<close>

definition rx_first :: "rx \<Rightarrow> rx_state \<Rightarrow> rx_state option" where
  "rx_first e st = (case rx_m e st of [] \<Rightarrow> None | t # ts \<Rightarrow> Some t)"

lemma first_REmpty: "rx_first REmpty st = Some st"
  by (simp add: rx_first_def)

lemma first_RSeq: "rx_first a st = Some t \<Longrightarrow> rx_first b t = Some u \<Longrightarrow> rx_first (RSeq a b) st = Some u"
  by (auto simp: rx_first_def split: list.splits)

lemma first_RSeqs_Cons: "rx_first a st = Some t \<Longrightarrow> rx_first (RSeqs es) t = Some u \<Longrightarrow> rx_first (RSeqs (a # es)) st = Some u"
  by (simp add: RSeqs_def first_RSeq)

lemma first_RSeqs_Nil: "rx_first (RSeqs []) st = Some st"
  by (simp add: RSeqs_def first_REmpty)

lemma first_RChar: "rx_first (RChar c) (l, c # r, cs) = Some (c # l, r, cs)"
  by (simp add: rx_first_def RChar_def)

lemma first_RChar_None: "(case r of [] \<Rightarrow> True | d # r' \<Rightarrow> d \<noteq> c) \<Longrightarrow> rx_first (RChar c) (l, r, cs) = None"
  by (auto simp: rx_first_def RChar_def split: list.splits)

lemma first_RLit: "rx_first (RLit s) (l, s @ r, cs) = Some (rev s @ l, r, cs)"
proof (induction s arbitrary: l)
  case (Cons c s)
  have "RLit (c # s) = RSeq (RChar c) (RLit s)" by (simp add: RLit_def)
  then show ?case using Cons by (simp add: first_RSeq [OF first_RChar])
qed (simp add: RLit_def first_REmpty)

lemma first_ROpt_some: "rx_first a st = Some t \<Longrightarrow> rx_first (ROpt a) st = Some t"
  by (auto simp: rx_first_def ROpt_def split: list.splits)

lemma first_ROpt_none: "rx_first a st = None \<Longrightarrow> rx_first (ROpt a) st = Some st"
  by (auto simp: rx_first_def ROpt_def split: list.splits)

lemma first_RSeq_none: "rx_first a st = None \<Longrightarrow> rx_first (RSeq a b) st = None"
  by (auto simp: rx_first_def split: list.splits)

lemma first_RGroup:
  "rx_first a (l, x @ r, cs) = Some (rev x @ l, r, cs) \<Longrightarrow>
   rx_first (RGroup n a) (l, x @ r, cs) = Some (rev x @ l, r, (n, x) # cs)"
  by (auto simp: rx_first_def split: list.splits)

lemma first_RStar_set:
  assumes "list_all P x" and "case r of [] \<Rightarrow> True | d # r' \<Rightarrow> \<not> P d"
  shows "rx_first (RStar (RSet P)) (l, x @ r, cs) = Some (rev x @ l, r, cs)"
proof -
  have "takeWhile P (x @ r) = x"
    using assms by (cases r) (auto simp: list_all_iff takeWhile_append2)
  then show ?thesis by (simp add: rx_first_def rx_m_star_set del: rx_m.simps)
qed

lemma first_RPlus_set:
  assumes "x \<noteq> []" and "list_all P x" and "case r of [] \<Rightarrow> True | d # r' \<Rightarrow> \<not> P d"
  shows "rx_first (RPlus (RSet P)) (l, x @ r, cs) = Some (rev x @ l, r, cs)"
proof -
  obtain c y where x: "x = c # y" using assms(1) by (cases x) auto
  have "rx_first (RSet P) (l, x @ r, cs) = Some (c # l, y @ r, cs)" using assms(2) x by (simp add: rx_first_def)
  moreover have "rx_first (RStar (RSet P)) (c # l, y @ r, cs) = Some (rev y @ c # l, r, cs)"
    using assms(2,3) x by (intro first_RStar_set) simp_all
  ultimately show ?thesis by (simp add: RPlus_def first_RSeq x)
qed

lemma FindStringSubmatch_begin:
  "rx_first e ([], s, []) = Some (l, r, cs) \<Longrightarrow> FindStringSubmatch e s = Some (rx_groups (s, l, r, cs))"
  by (cases s) (auto simp: rx_first_def FindStringSubmatch_def split: list.splits)

section \<open>Decimal numbers\<close>

lemma digit_of: "d < 10 \<Longrightarrow> is_digit (char_of (48 + d)) \<and> of_char (char_of (48 + d) :: char) = 48 + d" for d :: nat
  by (simp add: is_digit_def between_def)

lemma digit_value: "d < 10 \<Longrightarrow> (of_char (char_of (48 + d) :: char) :: int) = 48 + int d" for d :: nat
  using digit_of [of d] by (metis of_nat_add of_nat_numeral of_nat_of_char)

lemma nat_digits_digits: "list_all is_digit (nat_digits n) \<and> nat_digits n \<noteq> []"
proof (induction n rule: nat_digits.induct)
  case (1 n)
  then show ?case using digit_of [of n] digit_of [of "n mod 10"] by (subst (1 2) nat_digits.simps) auto
qed

lemma itoa_digits: "0 \<le> n \<Longrightarrow> list_all is_digit (itoa n) \<and> itoa n \<noteq> []"
  by (simp add: itoa_def nat_digits_digits)

lemma wrap64_id: "- (2 ^ 63) \<le> x \<Longrightarrow> x < 2 ^ 63 \<Longrightarrow> wrap64 x = x"
  by (simp add: wrap64_def)

lemma digits_value:
  "int n < 2 ^ 63 \<Longrightarrow> foldl (\<lambda>line c. wrap64 (line * 10 + (of_char c - 48))) 0 (nat_digits n) = int n"
proof (induction n rule: nat_digits.induct)
  case (1 n)
  show ?case
  proof (cases "n < 10")
    case True
    then show ?thesis using digit_value [of n] by (subst nat_digits.simps) (simp add: wrap64_id)
  next
    case False
    have v: "int (n div 10) * 10 + int (n mod 10) = int n" by presburger
    show ?thesis using 1 False v wrap64_id [of "int n"] digit_value [of "n mod 10"]
      by (subst nat_digits.simps) simp
  qed
qed

lemma parse_itoa: "0 \<le> n \<Longrightarrow> n < 2 ^ 63 \<Longrightarrow> parseLineNumber (itoa n) = n"
proof -
  assume n: "0 \<le> n" "n < 2 ^ 63"
  show ?thesis using digits_value [of "nat n"] nat_digits_digits [of "nat n"] n
    by (simp add: parseLineNumber_def itoa_def list_all_iff takeWhile_eq_all_conv [THEN iffD2])
qed

section \<open>Diffs\<close>

text \<open>The lines of a hunk, and a hunk: the start and length in the old file and in the new one.\<close>

datatype diff_row = Ctx string | Add string | Del string | NoEol

record hunk =
  hk_old :: "int \<times> int"
  hk_new :: "int \<times> int"
  hk_heading :: string
  hk_rows :: "diff_row list"

fun row_line :: "diff_row \<Rightarrow> string" where
  "row_line (Ctx t) = CHR '' '' # t"
| "row_line (Add t) = CHR ''+'' # t"
| "row_line (Del t) = CHR ''-'' # t"
| "row_line NoEol = char_of (92 :: nat) # '' No newline at end of file''"

text \<open>A length of one is left out.\<close>

definition range_text :: "int \<times> int \<Rightarrow> string" where
  "range_text r = (case r of (start, n) \<Rightarrow> itoa start @ (if n = 1 then [] else CHR '','' # itoa n))"

definition hunk_header :: "hunk \<Rightarrow> string" where
  "hunk_header h = ''@@ -'' @ range_text (hk_old h) @ '' +'' @ range_text (hk_new h) @ '' @@'' @ hk_heading h"

lemma first_range_tail:
  assumes "0 \<le> n" and "case r of [] \<Rightarrow> False | d # r' \<Rightarrow> \<not> is_digit d \<and> d \<noteq> CHR '',''"
  shows "rx_first (ROpt (RSeq (RChar CHR '','') digits_rx)) (l, (if n = 1 then [] else CHR '','' # itoa n) @ r, cs)
    = Some (rev (if n = 1 then [] else CHR '','' # itoa n) @ l, r, cs)"
proof (cases "n = 1")
  case True
  have "rx_first (RSeq (RChar CHR '','') digits_rx) (l, r, cs) = None"
    using assms(2) by (intro first_RSeq_none first_RChar_None) (auto split: list.splits)
  then show ?thesis using True by (simp add: first_ROpt_none)
next
  case False
  have "rx_first digits_rx (CHR '','' # l, itoa n @ r, cs) = Some (rev (itoa n) @ CHR '','' # l, r, cs)"
    using itoa_digits [OF assms(1)] assms(2) unfolding digits_rx_def
    by (intro first_RPlus_set) (auto split: list.splits)
  then show ?thesis using False by (simp add: first_ROpt_some first_RSeq [OF first_RChar])
qed

text \<open>The texts hold no line break, and an added line does not look like a file header.\<close>

definition header_ok :: "hunk \<Rightarrow> bool" where
  "header_ok h \<longleftrightarrow> 0 \<le> fst (hk_old h) \<and> 0 \<le> snd (hk_old h) \<and> 0 \<le> fst (hk_new h) \<and> fst (hk_new h) < 2 ^ 63 \<and>
     0 \<le> snd (hk_new h) \<and> nl \<notin> set (hk_heading h) \<and> list_all (\<lambda>r. nl \<notin> set (row_line r)) (hk_rows h)"

fun row_ok :: "diff_row \<Rightarrow> bool" where
  "row_ok (Add t) = (\<not> has_prefix t ''++'')"
| "row_ok r = True"

lemma first_digits:
  "0 \<le> n \<Longrightarrow> (case r of [] \<Rightarrow> True | d # r' \<Rightarrow> \<not> is_digit d) \<Longrightarrow>
   rx_first digits_rx (l, itoa n @ r, cs) = Some (rev (itoa n) @ l, r, cs)"
  unfolding digits_rx_def using itoa_digits [of n] by (intro first_RPlus_set) auto

definition length_rx :: rx where "length_rx = ROpt (RSeq (RChar CHR '','') digits_rx)"

definition length_text :: "int \<Rightarrow> string" where
  "length_text n = (if n = 1 then [] else CHR '','' # itoa n)"

lemma range_text_eq: "range_text (start, n) = itoa start @ length_text n"
  by (simp add: range_text_def length_text_def)

lemma first_length:
  "0 \<le> n \<Longrightarrow> rx_first length_rx (l, length_text n @ CHR '' '' # r, cs) = Some (rev (length_text n) @ l, CHR '' '' # r, cs)"
proof -
  assume "0 \<le> n"
  moreover have "\<not> is_digit CHR '' ''" by (simp add: is_digit_def between_def)
  ultimately show ?thesis
    using first_range_tail [of n "CHR '' '' # r"] by (simp add: length_rx_def length_text_def)
qed

lemma length_text_stop: "case length_text n @ CHR '' '' # r of [] \<Rightarrow> True | d # r' \<Rightarrow> \<not> is_digit d"
  by (simp add: length_text_def is_digit_def between_def)

text \<open>The second half of a hunk header, whose start is group \<open>k\<close>.\<close>

lemma first_new_range:
  assumes "0 \<le> n1" and "0 \<le> n2"
  shows "\<exists>l'. rx_first (RSeqs [RLit '' +'', RGroup k digits_rx, length_rx, RLit '' @@''])
     (l, '' +'' @ itoa n1 @ length_text n2 @ '' @@'' @ rest, cs) = Some (l', rest, (k, itoa n1) # cs)"
  apply (rule exI)
  apply (rule first_RSeqs_Cons [OF first_RLit])
  apply (rule first_RSeqs_Cons [OF first_RGroup])
   apply (rule first_digits [OF assms(1)])
   apply (use length_text_stop in simp)
  apply (rule first_RSeqs_Cons)
   apply (use first_length assms in simp)
  apply (rule first_RSeqs_Cons [OF first_RLit [where s = "'' @@''", simplified]])
  apply (rule first_RSeqs_Nil)
  done

lemma header_text:
  assumes "hk_old h = (o1, o2)" and "hk_new h = (n1, n2)"
  shows "hunk_header h = ''@@ -'' @ itoa o1 @ length_text o2 @ '' +'' @ itoa n1 @ length_text n2 @ '' @@'' @ hk_heading h"
  by (simp add: hunk_header_def range_text_eq assms)

lemma hunk_header_matches:
  assumes "header_ok h"
  shows "\<exists>m. FindStringSubmatch hunkHeaderRe (hunk_header h) = Some m \<and> m 1 = itoa (fst (hk_new h))"
proof -
  obtain o1 o2 n1 n2 where h: "hk_old h = (o1, o2)" "hk_new h = (n1, n2)" by fastforce
  have nn: "0 \<le> o1" "0 \<le> o2" "0 \<le> n1" "0 \<le> n2" using assms by (simp_all add: header_ok_def h)
  define rest where "rest = hk_heading h"
  define tl where "tl = '' +'' @ itoa n1 @ length_text n2 @ '' @@'' @ rest"
  have e: "hunk_header h = ''@@ -'' @ itoa o1 @ length_text o2 @ tl" by (simp add: header_text [OF h] tl_def rest_def)
  obtain s where s: "tl = CHR '' '' # s" by (simp add: tl_def)
  obtain l where l: "rx_first (RSeqs [RLit '' +'', RGroup 1 digits_rx, length_rx, RLit '' @@''])
      (rev (length_text o2) @ rev (itoa o1) @ rev ''@@ -'', tl, []) = Some (l, rest, [(1, itoa n1)])"
    using first_new_range [OF nn(3,4), of 1] unfolding tl_def by blast
  have "rx_first hunkHeaderRe ([], hunk_header h, []) = Some (l, rest, [(1, itoa n1)])"
    unfolding hunkHeaderRe_def length_rx_def [symmetric] e
    apply (rule first_RSeqs_Cons [where t = "([], ''@@ -'' @ itoa o1 @ length_text o2 @ tl, [])"])
     apply (simp add: rx_first_def)
    apply (rule first_RSeqs_Cons [OF first_RLit])
    apply (rule first_RSeqs_Cons [OF first_digits [OF nn(1)]])
     apply (use length_text_stop s in simp)
    apply (rule first_RSeqs_Cons [where t = "(rev (length_text o2) @ rev (itoa o1) @ rev ''@@ -'', tl, [])"])
     apply (use first_length [OF nn(2)] s in simp)
    apply (rule l)
    done
  then show ?thesis using FindStringSubmatch_begin by (fastforce simp: rx_groups_def h)
qed

text \<open>The added lines with their numbers in the new file.\<close>

fun added :: "int \<Rightarrow> diff_row list \<Rightarrow> (int \<times> string) list" where
  "added n [] = []"
| "added n (Ctx t # rs) = added (n + 1) rs"
| "added n (Add t # rs) = (n, trim_space t) # added (n + 1) rs"
| "added n (Del t # rs) = added n rs"
| "added n (NoEol # rs) = added n rs"

text \<open>
  The changes of one file: a text with hunks, a deleted text, or a change without hunks (binary,
  renamed, mode). The extended header lines come first.
\<close>

datatype file_diff = Changed "string list" string string "hunk list" | Deleted "string list" string "hunk list"
  | NoText "string list"

definition hunk_lines :: "hunk \<Rightarrow> string list" where
  "hunk_lines h = hunk_header h # map row_line (hk_rows h)"

fun file_lines :: "file_diff \<Rightarrow> string list" where
  "file_lines (Changed ext old f hs) = ext @ [''--- '' @ old, ''+++ b/'' @ f] @ concat (map hunk_lines hs)"
| "file_lines (Deleted ext old hs) = ext @ [''--- '' @ old, ''+++ /dev/null''] @ concat (map hunk_lines hs)"
| "file_lines (NoText ext) = ext"

definition plain :: "string \<Rightarrow> bool" where
  "plain l \<longleftrightarrow> \<not> has_prefix l ''+'' \<and> \<not> has_prefix l '' '' \<and> \<not> has_prefix l ''@@ '' \<and> \<not> has_prefix l [tick] \<and> nl \<notin> set l"

fun file_ok :: "file_diff \<Rightarrow> bool" where
  "file_ok (Changed ext old f hs) = (list_all plain ext \<and> nl \<notin> set old \<and> nl \<notin> set f \<and> f \<noteq> [] \<and>
     list_all (\<lambda>h. header_ok h \<and> 0 < fst (hk_new h) \<and> list_all row_ok (hk_rows h)) hs)"
| "file_ok (Deleted ext old hs) = (list_all plain ext \<and> nl \<notin> set old \<and> list_all (\<lambda>h. header_ok h \<and> fst (hk_new h) = 0 \<and>
     list_all (\<lambda>r. case r of Del t \<Rightarrow> True | NoEol \<Rightarrow> True | _ \<Rightarrow> False) (hk_rows h)) hs)"
| "file_ok (NoText ext) = list_all plain ext"

fun added_lines :: "file_diff \<Rightarrow> (string \<times> (int \<times> string) list) list" where
  "added_lines (Changed ext old f hs) = [(f, concat (map (\<lambda>h. added (fst (hk_new h)) (hk_rows h)) hs))]"
| "added_lines d = []"

definition add_lines :: "string \<Rightarrow> (int \<times> string) list \<Rightarrow> grounding_scope \<Rightarrow> grounding_scope" where
  "add_lines f xs = fold (\<lambda>(n, t). add_line f n t) xs"

fun file_scope :: "file_diff \<Rightarrow> grounding_scope \<Rightarrow> grounding_scope" where
  "file_scope (Changed ext old f hs) sc =
     add_lines f (concat (map (\<lambda>h. added (fst (hk_new h)) (hk_rows h)) hs)) (add_file f sc)"
| "file_scope d sc = sc"

subsection \<open>The lines of the diff\<close>

lemma add_lines_append: "add_lines f (xs @ ys) sc = add_lines f ys (add_lines f xs sc)"
  by (simp add: add_lines_def)

lemma diff_line_plain: "plain l \<Longrightarrow> diff_line l st = st"
  by (cases st) (auto simp: diff_line_def plain_def has_prefix_iff)

lemma fold_plain: "list_all plain ls \<Longrightarrow> fold diff_line ls st = st"
  by (induction ls arbitrary: st) (simp_all add: diff_line_plain)

lemma backslash: "(char_of (92 :: nat) :: char) \<noteq> CHR '' ''" "(char_of (92 :: nat) :: char) \<noteq> CHR ''+''"
  by code_simp+

lemma diff_line_add:
  assumes "f \<noteq> []" and "n > 0" and "\<not> has_prefix t ''++''"
  shows "diff_line (CHR ''+'' # t) (sc, f, n) = (add_line f n (trim_space t) sc, f, n + 1)"
proof -
  have "\<not> has_prefix (CHR ''+'' # t) ''+++ b/''" "\<not> has_prefix (CHR ''+'' # t) ''+++''"
    using assms(3) by (auto simp: has_prefix_iff)
  then show ?thesis using assms by (simp add: diff_line_def has_prefix_def)
qed

lemma line_step:
  assumes "f \<noteq> []" and "0 < n" and "row_ok r"
  shows "\<exists>n' > 0. diff_line (row_line r) (sc, f, n) = (add_lines f (added n [r]) sc, f, n') \<and>
    (\<forall>rs. added n (r # rs) = added n [r] @ added n' rs)"
  using assms by (cases r) (auto simp: diff_line_add, auto simp: diff_line_def has_prefix_def add_lines_def backslash)

lemma fold_rows:
  "f \<noteq> [] \<Longrightarrow> 0 < n \<Longrightarrow> list_all row_ok rows \<Longrightarrow>
   \<exists>n' > 0. fold diff_line (map row_line rows) (sc, f, n) = (add_lines f (added n rows) sc, f, n')"
proof (induction rows arbitrary: sc n)
  case (Cons r rows)
  obtain n1 where n1: "n1 > 0" "diff_line (row_line r) (sc, f, n) = (add_lines f (added n [r]) sc, f, n1)"
    "added n (r # rows) = added n [r] @ added n1 rows"
    using line_step [of f n r sc] Cons.prems by auto
  then show ?case using Cons.IH [of n1 "add_lines f (added n [r]) sc"] Cons.prems
    by (simp add: add_lines_append)
qed (auto simp: add_lines_def)

lemma fold_header:
  assumes "header_ok h"
  shows "diff_line (hunk_header h) (sc, f, n) = (sc, f, fst (hk_new h))"
proof -
  obtain m where "FindStringSubmatch hunkHeaderRe (hunk_header h) = Some m" "m 1 = itoa (fst (hk_new h))"
    using hunk_header_matches [OF assms] by blast
  moreover have "has_prefix (hunk_header h) ''@@ ''" "\<not> has_prefix (hunk_header h) ''+++ b/''"
    by (simp_all add: hunk_header_def has_prefix_def)
  ultimately show ?thesis using assms parse_itoa by (simp add: diff_line_def header_ok_def)
qed

lemma fold_hunks:
  "f \<noteq> [] \<Longrightarrow> list_all (\<lambda>h. header_ok h \<and> 0 < fst (hk_new h) \<and> list_all row_ok (hk_rows h)) hs \<Longrightarrow>
   \<exists>n'. fold diff_line (concat (map hunk_lines hs)) (sc, f, n) =
     (add_lines f (concat (map (\<lambda>h. added (fst (hk_new h)) (hk_rows h)) hs)) sc, f, n')"
proof (induction hs arbitrary: sc n)
  case (Cons h hs)
  obtain n1 where "fold diff_line (map row_line (hk_rows h)) (sc, f, fst (hk_new h)) =
      (add_lines f (added (fst (hk_new h)) (hk_rows h)) sc, f, n1)"
    using fold_rows [of f "fst (hk_new h)" "hk_rows h" sc] Cons.prems by auto
  then show ?case
    using Cons.IH [of "add_lines f (added (fst (hk_new h)) (hk_rows h)) sc" n1] Cons.prems
    by (simp add: hunk_lines_def fold_header add_lines_append)
qed (simp add: add_lines_def)

lemma fold_deleted_rows:
  "list_all (\<lambda>r. case r of Del t \<Rightarrow> True | NoEol \<Rightarrow> True | _ \<Rightarrow> False) rows \<Longrightarrow>
   fold diff_line (map row_line rows) st = st"
proof (induction rows)
  case (Cons r rows)
  have "diff_line (row_line r) st = st"
    using Cons.prems by (cases r; cases st) (auto simp: diff_line_def has_prefix_def backslash)
  then show ?case using Cons by simp
qed simp

lemma fold_deleted_hunks:
  "list_all (\<lambda>h. header_ok h \<and> fst (hk_new h) = 0 \<and>
     list_all (\<lambda>r. case r of Del t \<Rightarrow> True | NoEol \<Rightarrow> True | _ \<Rightarrow> False) (hk_rows h)) hs \<Longrightarrow>
   \<exists>n'. fold diff_line (concat (map hunk_lines hs)) (sc, f, n) = (sc, f, n')"
  by (induction hs arbitrary: n) (auto simp: hunk_lines_def fold_header fold_deleted_rows)

lemma diff_line_names:
  "diff_line (''--- '' @ old) st = st" "diff_line ''+++ /dev/null'' st = st"
  "diff_line (''+++ b/'' @ f) (sc, g, n) = (add_file f sc, f, n)"
  by (cases st; simp add: diff_line_def has_prefix_def trim_prefix_def)+

lemma fold_file:
  assumes "file_ok d"
  shows "\<exists>f n. fold diff_line (file_lines d) st = (file_scope d (fst st), f, n)"
proof (cases d)
  case (Changed ext old f hs)
  obtain sc g n where st: "st = (sc, g, n)" by (cases st) auto
  show ?thesis using assms fold_hunks [of f hs "add_file f sc" n]
    by (auto simp: Changed st fold_plain diff_line_names simp del: append.simps)
next
  case (Deleted ext old hs)
  obtain sc g n where st: "st = (sc, g, n)" by (cases st) auto
  show ?thesis using assms fold_deleted_hunks [of hs sc g n]
    by (auto simp: Deleted st fold_plain diff_line_names simp del: append.simps)
next
  case (NoText ext)
  then show ?thesis using assms by (cases st) (auto simp: fold_plain)
qed

lemma fold_files:
  "list_all file_ok ds \<Longrightarrow> fst (fold diff_line (concat (map file_lines ds)) st) = fold file_scope ds (fst st)"
proof (induction ds arbitrary: st)
  case (Cons d ds)
  obtain f n where "fold diff_line (file_lines d) st = (file_scope d (fst st), f, n)"
    using fold_file [of d st] Cons.prems by auto
  then show ?case using Cons by simp
qed simp

section \<open>The summary\<close>

definition unlines :: "string list \<Rightarrow> string" where
  "unlines ls = concat (map (\<lambda>l. l @ [nl]) ls)"

lemma split_unlines_append:
  "list_all (\<lambda>l. nl \<notin> set l) ls \<Longrightarrow> split_lines (unlines ls @ s) = ls @ split_lines s"
proof (induction ls)
  case (Cons l ls)
  have "unlines (l # ls) @ s = l @ nl # (unlines ls @ s)" by (simp add: unlines_def)
  then show ?case using Cons split_on_append [of nl l "unlines ls @ s"] split_on_none [of nl l]
    by (simp add: split_lines_def)
qed (simp add: unlines_def)

lemma plus_id: "((+) (0 :: nat)) = id" "((+) (Suc n)) = (\<lambda>k. Suc (n + k))"
  by auto

lemma index_skip:
  assumes "needle = n # ns" and "n \<notin> set a"
  shows "str_index (a @ s) needle = map_option ((+) (length a)) (str_index s needle)"
  using assms(2)
proof (induction a)
  case (Cons c a)
  have "\<not> has_prefix (c # a @ s) needle" using Cons.prems assms(1) by (auto simp: has_prefix_iff)
  then show ?case using Cons by (simp add: option.map_comp comp_def)
qed (simp add: plus_id option.map_id)

lemma index_here: "has_prefix s needle \<Longrightarrow> s \<noteq> [] \<Longrightarrow> str_index s needle = Some 0"
  by (cases s) simp_all

text \<open>Texts in which no occurrence of the needle starts.\<close>

definition skips :: "string \<Rightarrow> string \<Rightarrow> bool" where
  "skips needle a \<longleftrightarrow> (\<forall>s. str_index (a @ s) needle = map_option ((+) (length a)) (str_index s needle))"

lemma skips_append: "skips needle a \<Longrightarrow> skips needle b \<Longrightarrow> skips needle (a @ b)"
  by (auto simp: skips_def option.map_comp comp_def ac_simps intro: option.map_cong)

lemma skips_free: "n \<notin> set a \<Longrightarrow> skips (n # ns) a"
  by (simp add: skips_def index_skip)

lemma skips_concat: "list_all (skips needle) as \<Longrightarrow> skips needle (concat as)"
  by (induction as) (simp_all add: skips_append, simp add: skips_def plus_id option.map_id)

lemma skips_tick: "a \<noteq> [] \<Longrightarrow> tick \<notin> set a \<Longrightarrow> skips (fence @ rest) (tick # a)"
proof -
  assume a: "a \<noteq> []" "tick \<notin> set a"
  then obtain c b where cb: "a = c # b" "c \<noteq> tick" by (cases a) auto
  have "\<not> has_prefix (tick # a @ s) (fence @ rest)" for s using cb by (simp add: fence_def has_prefix_def)
  moreover have "skips (fence @ rest) a" using skips_free [of tick a] a(2) by (simp add: fence_def)
  ultimately show ?thesis by (simp add: skips_def option.map_comp comp_def plus_id)
qed

lemma index_after: "skips needle a \<Longrightarrow> needle \<noteq> [] \<Longrightarrow> str_index (a @ needle @ s) needle = Some (length a)"
  using index_here [of "needle @ s" needle] by (simp add: skips_def)

lemma nat_digits_ascii: "set (nat_digits n) \<subseteq> Collect is_digit"
  using nat_digits_digits [of n] by (auto simp: list_all_iff)

lemma itoa_chars: "c \<in> set (itoa n) \<Longrightarrow> is_digit c \<or> c = CHR ''-''"
  using nat_digits_ascii by (auto simp: itoa_def split: if_splits)

lemma itoa_plain: "tick \<notin> set (itoa n)" "nl \<notin> set (itoa n)"
proof -
  have "\<not> is_digit tick" "tick \<noteq> CHR ''-''" "\<not> is_digit nl" "nl \<noteq> CHR ''-''" by code_simp+
  then show "tick \<notin> set (itoa n)" "nl \<notin> set (itoa n)" using itoa_chars by blast+
qed

definition path_ok :: "diff_file \<Rightarrow> bool" where
  "path_ok f \<longleftrightarrow> df_Path f \<noteq> [] \<and> tick \<notin> set (df_Path f) \<and> nl \<notin> set (df_Path f)"

definition sizes_text :: "diff_file \<Rightarrow> string" where
  "sizes_text f = (if df_Binary f then '' (binary)'' else '' (+'' @ itoa (df_Added f) @ '' / -'' @ itoa (df_Removed f) @ '')'')"

lemma literal_plain:
  "list_all (\<lambda>s. tick \<notin> set s \<and> nl \<notin> set s) ['' (binary)'', '' (+'', '' / -'', '')'', ''- '', ''## PR Changed Files ('', '' files, +'', '' LOC)'', ''## PR Diff'']"
  "tick \<noteq> nl" "tick \<noteq> CHR '' ''"
  by code_simp+

lemma sizes_plain: "tick \<notin> set (sizes_text f)" "nl \<notin> set (sizes_text f)"
  using literal_plain itoa_plain by (auto simp: sizes_text_def)

lemma header_plain: "tick \<notin> set (manifest_header files)" "nl \<notin> set (manifest_header files)"
  using literal_plain itoa_plain by (auto simp: manifest_header_def)

lemma manifest_line_eq: "manifest_line f = ''- '' @ [tick] @ df_Path f @ [tick] @ sizes_text f"
  by (simp add: manifest_line_def sizes_text_def)

lemma skips_plain: "tick \<notin> set a \<Longrightarrow> skips (fence @ rest) a"
  using skips_free [of tick a] by (simp add: fence_def)

lemma skips_manifest: "path_ok f \<Longrightarrow> skips (fence @ rest) (manifest_line f @ [nl])"
proof -
  assume f: "path_ok f"
  have "sizes_text f \<noteq> []" by (simp add: sizes_text_def)
  then have "skips (fence @ rest) (''- '' @ (tick # df_Path f) @ (tick # sizes_text f) @ [nl])"
    using f literal_plain sizes_plain by (intro skips_append skips_tick skips_plain) (auto simp: path_ok_def)
  then show ?thesis by (simp add: manifest_line_eq)
qed

lemma manifest_line_nl: "path_ok f \<Longrightarrow> nl \<notin> set (manifest_line f)"
  using literal_plain sizes_plain by (auto simp: manifest_line_eq path_ok_def)

definition diff_lines :: "file_diff list \<Rightarrow> string list" where
  "diff_lines ds = concat (map file_lines ds)"

definition diff_text :: "file_diff list \<Rightarrow> string" where
  "diff_text ds = unlines (diff_lines ds)"

definition body_line :: "string \<Rightarrow> bool" where
  "body_line l \<longleftrightarrow> \<not> has_prefix l [tick] \<and> nl \<notin> set l"

lemma body_literals:
  "list_all (\<lambda>s. nl \<notin> set s) [''--- '', ''+++ b/'', ''+++ /dev/null'', ''@@ -'', '' +'', '' @@'', '','']"
  "list_all (\<lambda>s. \<not> has_prefix s [tick]) [''--- '', ''+++ b/'', ''+++ /dev/null'', ''@@ -'']"
  by code_simp+

lemma body_line_prefix: "s \<noteq> [] \<Longrightarrow> \<not> has_prefix s [tick] \<Longrightarrow> nl \<notin> set s \<Longrightarrow> nl \<notin> set t \<Longrightarrow> body_line (s @ t)"
  by (cases s) (auto simp: body_line_def has_prefix_def)

lemma hunk_lines_body: "header_ok h \<Longrightarrow> list_all body_line (hunk_lines h)"
proof -
  assume h: "header_ok h"
  have "nl \<notin> set (range_text r)" for r
    using itoa_plain body_literals by (cases r) (auto simp: range_text_def)
  then have "body_line (hunk_header h)"
    using h body_literals unfolding hunk_header_def by (intro body_line_prefix) (auto simp: header_ok_def)
  moreover have "\<not> has_prefix (row_line r) [tick]" for r
  proof -
    have "tick \<noteq> CHR '' ''" "tick \<noteq> CHR ''+''" "tick \<noteq> CHR ''-''" "tick \<noteq> char_of (92 :: nat)" by code_simp+
    then show ?thesis by (cases r) (auto simp: has_prefix_def)
  qed
  ultimately show ?thesis using h by (auto simp: hunk_lines_def body_line_def header_ok_def list_all_iff)
qed

lemma file_lines_body: "file_ok d \<Longrightarrow> list_all body_line (file_lines d)"
proof -
  have hs: "header_ok h \<Longrightarrow> l \<in> set (hunk_lines h) \<Longrightarrow> body_line l" for h l
    using hunk_lines_body by (auto simp: list_all_iff)
  have ext: "list_all plain ext \<Longrightarrow> list_all body_line ext" for ext
    by (auto simp: list_all_iff plain_def body_line_def)
  have names: "nl \<notin> set f \<Longrightarrow> body_line (''--- '' @ f) \<and> body_line (''+++ b/'' @ f) \<and> body_line ''+++ /dev/null''" for f
    using body_literals body_line_prefix [of "''--- ''" f] body_line_prefix [of "''+++ b/''" f] body_line_prefix [of "''+++ /dev/null''" "[]"] by auto
  assume "file_ok d"
  then show ?thesis using hs ext names
    by (cases d) (auto simp: list_all_iff simp del: append.simps)
qed

lemma index_close:
  "list_all body_line ls \<Longrightarrow> str_index (unlines ls @ nl # fence @ s) (nl # fence) = Some (length (unlines ls))"
proof (induction ls)
  case Nil
  show ?case using index_here [OF has_prefix_append [of "nl # fence" s]] by (simp add: unlines_def)
next
  case (Cons l ls)
  define X where "X = unlines ls @ nl # fence @ s"
  have e: "unlines (l # ls) @ nl # fence @ s = l @ nl # X" by (simp add: unlines_def X_def)
  have "\<not> has_prefix X fence"
  proof (cases ls)
    case Nil
    then show ?thesis using literal_plain by (simp add: X_def unlines_def has_prefix_def fence_def)
  next
    case (Cons k ks)
    then show ?thesis using Cons.prems literal_plain
      by (cases k) (auto simp: X_def unlines_def has_prefix_def fence_def body_line_def)
  qed
  then have "\<not> has_prefix (nl # X) (nl # fence)" by (simp add: has_prefix_def)
  then show ?case unfolding e using Cons index_skip [of "nl # fence" nl fence l "nl # X"]
    by (simp add: X_def body_line_def unlines_def)
qed

definition preamble :: "diff_file list \<Rightarrow> string list" where
  "preamble files = [manifest_header files, []] @ map manifest_line files @ [[], ''## PR Diff'', []]"

lemma document_parts:
  "diff_document files False body = unlines (preamble files) @ fence @ ''diff'' @ [nl] @ body @ nl # fence @ [nl]"
  by (simp add: diff_document_def preamble_def unlines_def diff_heading_def comp_def)

lemma skips_preamble: "list_all path_ok files \<Longrightarrow> skips (fence @ rest) (unlines (preamble files))"
proof -
  assume files: "list_all path_ok files"
  have "list_all (skips (fence @ rest)) (map (\<lambda>l. l @ [nl]) (preamble files))"
    using files header_plain literal_plain
    by (auto simp: preamble_def list_all_iff skips_manifest intro!: skips_plain)
  then show ?thesis by (simp add: unlines_def skips_concat)
qed

lemma extract_document:
  assumes "list_all path_ok files" and "list_all file_ok ds"
  shows "extractDiffBlock (diff_document files False (diff_text ds)) = diff_text ds"
proof -
  let ?n = "fence @ ''diff'' @ [nl]"
  have "str_index (diff_document files False (diff_text ds)) ?n = Some (length (unlines (preamble files)))"
    using index_after [OF skips_preamble [OF assms(1), of "''diff'' @ [nl]"], of "diff_text ds @ nl # fence @ [nl]"]
    by (simp add: document_parts)
  moreover have "drop (length (unlines (preamble files)) + length ?n) (diff_document files False (diff_text ds)) =
      diff_text ds @ nl # fence @ [nl]"
    by (simp add: document_parts fence_def)
  moreover have "list_all body_line (diff_lines ds)"
    using assms(2) file_lines_body by (auto simp: diff_lines_def list_all_iff)
  then have "str_index (diff_text ds @ nl # fence @ [nl]) (nl # fence) = Some (length (diff_text ds))"
    using index_close by (simp add: diff_text_def)
  ultimately show ?thesis by (simp add: extractDiffBlock_def Let_def del: append_assoc)
qed

lemma mem_dropWhile: "c \<in> set s \<Longrightarrow> \<not> P c \<Longrightarrow> c \<in> set (dropWhile P s)"
  by (induction s) auto

lemma mem_trim: "c \<in> set s \<Longrightarrow> \<not> is_space c \<Longrightarrow> c \<in> set (trim_space s)"
  by (simp add: trim_space_def mem_dropWhile)

definition no_title :: "string \<Rightarrow> bool" where
  "no_title l \<longleftrightarrow> trim_space l \<noteq> ''## PR Changed Files''"

lemma fold_listed: "list_all no_title ls \<Longrightarrow> fold listed_file ls (False, sc) = (False, sc)"
  by (induction ls) (auto simp: listed_file_def no_title_def Let_def)

lemma no_title_literals: "list_all no_title [[], ''## PR Diff'', fence @ ''diff'', fence]"
  by code_simp

lemma no_title_preamble: "list_all no_title (preamble files)"
proof -
  have "CHR ''('' \<in> set (manifest_header files)" by (simp add: manifest_header_def)
  then have "CHR ''('' \<in> set (trim_space (manifest_header files))" by (rule mem_trim) code_simp
  then have "no_title (manifest_header files)" by (auto simp: no_title_def)
  moreover have "no_title (manifest_line f)" for f
  proof -
    have "tick \<in> set (trim_space (manifest_line f))" by (rule mem_trim) (simp add: manifest_line_def, code_simp)
    moreover have "tick \<notin> set ''## PR Changed Files''" by code_simp
    ultimately show ?thesis by (metis no_title_def)
  qed
  ultimately show ?thesis using no_title_literals by (auto simp: preamble_def list_all_iff)
qed

lemma lines_of_document:
  assumes "list_all path_ok files" and "list_all file_ok ds"
  shows "split_lines (diff_document files False (diff_text ds)) =
    preamble files @ (fence @ ''diff'') # diff_lines ds @ [[], fence, []]"
proof -
  let ?ls = "preamble files @ (fence @ ''diff'') # diff_lines ds @ [[], fence]"
  have "nl \<notin> set fence" "nl \<notin> set ''diff''" "nl \<notin> set ''## PR Diff''" by code_simp+
  moreover have "list_all body_line (diff_lines ds)"
    using assms(2) file_lines_body by (auto simp: diff_lines_def list_all_iff)
  ultimately have "list_all (\<lambda>l. nl \<notin> set l) ?ls"
    using assms(1) header_plain manifest_line_nl by (auto simp: preamble_def list_all_iff body_line_def)
  then have "split_lines (unlines ?ls @ []) = ?ls @ split_lines []" by (rule split_unlines_append)
  moreover have "unlines ?ls @ [] = diff_document files False (diff_text ds)"
    by (simp add: document_parts diff_text_def unlines_def)
  ultimately show ?thesis by (simp add: split_lines_def)
qed

lemma parse_document:
  assumes "list_all path_ok files" and "list_all file_ok ds" and "list_all no_title (diff_lines ds)"
  shows "fst (parsePRDiffGroundingScope (diff_document files False (diff_text ds))) = fold file_scope ds empty_scope"
proof -
  have listed: "fold listed_file (split_lines (diff_document files False (diff_text ds))) (False, empty_scope) = (False, empty_scope)"
    using assms(3) no_title_preamble no_title_literals unfolding lines_of_document [OF assms(1,2)]
    by (intro fold_listed) (auto simp: list_all_iff)
  have nls: "list_all (\<lambda>l. nl \<notin> set l) (diff_lines ds)"
    using assms(2) file_lines_body by (fastforce simp: diff_lines_def list_all_iff body_line_def)
  have lines: "split_lines (diff_text ds) = diff_lines ds @ [[]]"
    using split_unlines_append [OF nls, of "[]"] by (simp add: diff_text_def split_lines_def)
  have "diff_line [] st = st" for st by (rule diff_line_plain) (simp add: plain_def has_prefix_def)
  then have parse: "parseUnifiedDiff (diff_text ds) empty_scope = fold file_scope ds empty_scope"
    using fold_files [OF assms(2), of "(empty_scope, [], 0)"] by (simp add: parseUnifiedDiff_def lines diff_lines_def)
  have "diff_text ds = [] \<Longrightarrow> parseUnifiedDiff [] empty_scope = empty_scope"
    by (simp add: parseUnifiedDiff_def split_lines_def diff_line_def has_prefix_def)
  then show ?thesis
    using parse by (auto simp: parsePRDiffGroundingScope_def Let_def listed extract_document [OF assms(1,2)])
qed

section \<open>What the scope contains\<close>

definition scope_paths :: "file_diff list \<Rightarrow> (string \<times> (int \<times> string) list) list" where
  "scope_paths ds = concat (map added_lines ds)"

lemma scope_paths_Cons: "scope_paths (d # ds) = added_lines d @ scope_paths ds"
  by (simp add: scope_paths_def)

lemma files_add_lines [simp]: "sc_changedFiles (add_lines f xs sc) = sc_changedFiles sc"
  by (induction xs arbitrary: sc) (auto simp: add_lines_def add_line_def)

lemma files_add_file [simp]: "set (sc_changedFiles (add_file f sc)) = insert f (set (sc_changedFiles sc))"
  "sc_changedLines (add_file f sc) = sc_changedLines sc"
  by (auto simp: add_file_def)

lemma lookup_add_lines:
  "map_of (mget [] (sc_changedLines (add_lines f xs sc)) g) =
     (if g = f then map_of (mget [] (sc_changedLines sc) f) ++ map_of (rev xs) else map_of (mget [] (sc_changedLines sc) g))"
proof (induction xs arbitrary: sc)
  case (Cons x xs)
  obtain n t where x: "x = (n, t)" by (cases x)
  have "add_lines f (x # xs) sc = add_lines f xs (add_line f n t sc)" by (simp add: add_lines_def x)
  then show ?case using Cons by (auto simp: x add_line_def map_add_def fun_eq_iff split: option.split)
qed (simp add: add_lines_def)

lemma file_scope_files: "set (sc_changedFiles (fold file_scope ds sc)) = set (sc_changedFiles sc) \<union> set (map fst (scope_paths ds))"
proof (induction ds arbitrary: sc)
  case (Cons d ds)
  then show ?case by (cases d) (auto simp: scope_paths_def)
qed (simp add: scope_paths_def)

lemma file_scope_other:
  "f \<notin> set (map fst (scope_paths ds)) \<Longrightarrow>
   map_of (mget [] (sc_changedLines (fold file_scope ds sc)) f) = map_of (mget [] (sc_changedLines sc) f)"
proof (induction ds arbitrary: sc)
  case (Cons d ds)
  then show ?case by (cases d) (auto simp: scope_paths_def lookup_add_lines)
qed simp

lemma file_scope_lookup:
  "distinct (map fst (scope_paths ds)) \<Longrightarrow> (f, xs) \<in> set (scope_paths ds) \<Longrightarrow>
   map_of (mget [] (sc_changedLines (fold file_scope ds sc)) f) = map_of (mget [] (sc_changedLines sc) f) ++ map_of (rev xs)"
proof (induction ds arbitrary: sc)
  case (Cons d ds)
  show ?case
  proof (cases d)
    case (Changed ext old g hs)
    show ?thesis
    proof (cases "f = g")
      case True
      then have "f \<notin> set (map fst (scope_paths ds))" "xs = concat (map (\<lambda>h. added (fst (hk_new h)) (hk_rows h)) hs)"
        using Cons.prems by (auto simp: scope_paths_Cons Changed rev_image_eqI)
      then show ?thesis using True by (simp add: file_scope_other Changed lookup_add_lines)
    next
      case False
      then have "(f, xs) \<in> set (scope_paths ds)" using Cons.prems(2) by (auto simp: scope_paths_Cons Changed)
      then show ?thesis using Cons False by (simp add: scope_paths_Cons Changed lookup_add_lines)
    qed
  qed (use Cons in \<open>simp_all add: scope_paths_Cons\<close>)
qed (simp add: scope_paths_def)

text \<open>
  C24. Reviewers are anchored to the added lines. In a work tree with a known base, where git
  answers and its diff \<open>ds\<close> of the pull request is at most 512 KiB (a longer one is cut and not
  read back at all), the scope that the grounding filter reads from the rendered summary has
  the files that the new side names, and of each file exactly the added lines, without
  surrounding blanks, under their numbers in the new file - provided that paths are non-empty
  and have neither backticks nor line breaks, no file occurs twice, hunk numbers fit in 63 bits,
  no line of the diff reads as the title of the file list, and no added line itself begins with
  two plus signs: such a line prints as a file header, is lost and shifts the numbers behind it
  (the finding about \<open>increment_line_is_lost\<close>).
\<close>
theorem scope_is_the_added_lines:
  assumes git: "git ws [''rev-parse'', ''--is-inside-work-tree''] \<noteq> None"
      "git ws [''diff'', ''--numstat'', ''origin/'' @ base @ ''...HEAD''] = Some ns"
      "git ws [''diff'', ''origin/'' @ base @ ''...HEAD''] = Some (diff_text ds)"
      "ws \<noteq> []" "base \<noteq> []"
    and paths: "list_all path_ok (List.map_filter numstat_line (split_lines ns))"
    and diffs: "list_all file_ok ds" "list_all no_title (diff_lines ds)" "distinct (map fst (scope_paths ds))"
    and small: "length (diff_text ds) \<le> prDiffMaxBytes"
    and p: "buildWorkspaceDiffEnrichment git ws base = p" and scope: "parsePRDiffGroundingScope (ce_Summary p) = (sc, ok)"
  shows "ce_Kind p = ''pr-diff'' \<and> set (sc_changedFiles sc) = set (map fst (scope_paths ds)) \<and>
    (\<forall>(f, xs) \<in> set (scope_paths ds). map_of (mget [] (sc_changedLines sc) f) = map_of (rev xs))"
proof -
  define files where "files = List.map_filter numstat_line (split_lines ns)"
  have doc: "ce_Kind p = ''pr-diff''" "ce_Summary p = diff_document files False (diff_text ds)"
    using git small p by (auto simp: buildWorkspaceDiffEnrichment_def generateWorkspaceDiff_def Let_def files_def)
  then have "sc = fold file_scope ds empty_scope"
    using scope parse_document [OF paths [folded files_def] diffs(1,2)] by (metis fst_conv)
  then show ?thesis using doc file_scope_lookup [OF diffs(3), of _ _ empty_scope]
    by (auto simp: file_scope_files empty_scope_def)
qed

definition sample_diff :: "file_diff list" where
  "sample_diff = [Changed [''diff --git a/x.go b/x.go''] ''a/x.go'' ''x.go''
     [\<lparr>hk_old = (3, 2), hk_new = (3, 3), hk_heading = '' func f'', hk_rows = [Ctx ''a'', Del ''b'', Add ''  c'', Add ''d'']\<rparr>],
     NoText [''rename from y.go'']]"

definition sample_git :: "string \<Rightarrow> string list \<Rightarrow> string option" where
  "sample_git ws args = (if args = [''rev-parse'', ''--is-inside-work-tree''] then Some ''true''
     else if args = [''diff'', ''--numstat'', ''origin/main...HEAD''] then Some (''2'' @ [tab] @ ''1'' @ [tab] @ ''x.go'')
     else if args = [''diff'', ''origin/main...HEAD''] then Some (diff_text sample_diff) else None)"

theorem scope_is_the_added_lines_witness:
  "map_of (mget [] (sc_changedLines (fst (parsePRDiffGroundingScope (ce_Summary
     (buildWorkspaceDiffEnrichment sample_git ''/w'' ''main''))))) ''x.go'') 4 = Some ''c''"
proof -
  let ?p = "buildWorkspaceDiffEnrichment sample_git ''/w'' ''main''"
  obtain sc ok where sc: "parsePRDiffGroundingScope (ce_Summary ?p) = (sc, ok)" by fastforce
  have ns: "List.map_filter numstat_line (split_lines (''2'' @ [tab] @ ''1'' @ [tab] @ ''x.go'')) =
      [\<lparr>df_Path = ''x.go'', df_Added = 2, df_Removed = 1, df_Binary = False\<rparr>]" by code_simp
  have "\<forall>(f, xs) \<in> set (scope_paths sample_diff). map_of (mget [] (sc_changedLines sc) f) = map_of (rev xs)"
  proof (rule scope_is_the_added_lines [of sample_git "''/w''" "''main''" _ sample_diff ?p sc ok, THEN conjunct2, THEN conjunct2])
    show "list_all path_ok (List.map_filter numstat_line (split_lines (''2'' @ [tab] @ ''1'' @ [tab] @ ''x.go'')))"
      unfolding ns by code_simp
    show "list_all file_ok sample_diff" "list_all no_title (diff_lines sample_diff)"
      "distinct (map fst (scope_paths sample_diff))"
      by code_simp+
    have "length (diff_text sample_diff) < 200" by code_simp
    then show "length (diff_text sample_diff) \<le> prDiffMaxBytes" by (simp add: prDiffMaxBytes_def)
  qed (simp_all add: sample_git_def sc)
  moreover have "(''x.go'', [(4, ''c''), (5, ''d'')]) \<in> set (scope_paths sample_diff)" by code_simp
  ultimately have "map_of (mget [] (sc_changedLines sc) ''x.go'') = map_of (rev [(4, ''c''), (5, ''d'')])" by blast
  then show ?thesis by (simp add: sc)
qed

end
