(* ===== verification/GroundingRuns.thy ===== *)
theory GroundingRuns imports DiffScope begin

text \<open>
  What the grounding of a review guarantees: a failing verdict of a category reviewer rests on
  findings in the diff, and every finding is accounted for; and where the parsers fall short.
\<close>

section \<open>Kept findings\<close>

lemma resolve_loop_in: "resolve_loop ref base cs m \<in> insert [] (insert m (set cs))"
  by (induction ref base cs m rule: resolve_loop.induct) auto

lemma resolveFile_in: "resolveFile sc ref \<noteq> [] \<Longrightarrow> resolveFile sc ref \<in> set (sc_changedFiles sc)"
  using resolve_loop_in [of "str_trim ref [tick, CHR '' '']" "path_base (str_trim ref [tick, CHR '' ''])"
      "sc_changedFiles sc" "[]"]
  by (auto simp: resolveFile_def Let_def split: if_splits)

text \<open>The issue names a changed file and, unless it is rescued at file scope, a line next to an added one.\<close>

definition in_diff :: "grounding_scope \<Rightarrow> issue \<Rightarrow> bool" where
  "in_diff sc i \<longleftrightarrow> is_File i \<in> set (sc_changedFiles sc) \<and>
     (\<exists>lines. map_of (sc_changedLines sc) (is_File i) = Some lines \<and>
        (is_Line i = 0 \<and> lines \<noteq> [] \<or>
         0 < is_Line i \<and> (\<exists>n \<in> {is_Line i - 1, is_Line i, is_Line i + 1}. map_of lines n \<noteq> None)))"

lemma rescue_in_diff: "rescueByFileScope sc i = Some r \<Longrightarrow> in_diff sc r"
  by (auto simp: rescueByFileScope_def in_diff_def Let_def resolveFile_in split: if_splits option.splits)

lemma matches_near:
  assumes "matchesChangedLine sc f n d" and "map_of (sc_changedLines sc) f = Some lines"
  shows "\<exists>k \<in> {n - 1, n, n + 1}. map_of lines k \<noteq> None"
proof (rule ccontr)
  assume "\<not> ?thesis"
  then have "List.map_filter (map_of lines) [n - 1, n, n + 1] = []" by (auto simp: List.map_filter_simps)
  then show False using assms by (simp add: matchesChangedLine_def)
qed

lemma kept_in_diff: "groundIssue sc i = Inr (g, b) \<Longrightarrow> in_diff sc g"
  unfolding groundIssue_def Let_def
  by (auto split: if_splits option.splits prod.splits dest!: rescue_in_diff)
    (auto simp: in_diff_def resolveFile_in dest!: matches_near)

definition kept :: "grounding_scope \<Rightarrow> issue list \<Rightarrow> issue list" where
  "kept sc is = List.map_filter (\<lambda>i. case groundIssue sc i of Inl r \<Rightarrow> None | Inr (g, b) \<Rightarrow> Some g) is"

text \<open>The reason that the tally counts for an issue, if any.\<close>

definition reason_of :: "grounding_scope \<Rightarrow> issue \<Rightarrow> drop_reason option" where
  "reason_of sc i = (case groundIssue sc i of Inl r \<Rightarrow> Some r | Inr (g, b) \<Rightarrow> if b then Some RescuedFileScope else None)"

lemma reason_name_inj [simp]: "reason_name r = reason_name r' \<longleftrightarrow> r = r'"
  by (cases r; cases r') (simp_all add: reason_name_def)

lemma fold_ground_kept: "fst (fold (ground_step sc) is (gs, n, rs)) = gs @ kept sc is"
proof (induction "is" arbitrary: gs n rs)
  case (Cons i "is")
  then show ?case
    by (auto simp: ground_step_def kept_def List.map_filter_simps split: sum.splits prod.splits bool.splits)
qed (simp add: kept_def List.map_filter_simps)

lemma fold_ground_reasons:
  "mget 0 (snd (snd (fold (ground_step sc) is (gs, n, rs)))) (reason_name r) =
     mget 0 rs (reason_name r) + int (length (filter (\<lambda>i. reason_of sc i = Some r) is))"
proof (induction "is" arbitrary: gs n rs)
  case (Cons i "is")
  then show ?case
    by (auto simp: ground_step_def reason_of_def split: sum.splits prod.splits bool.splits)
qed simp


lemma drop_is_not_rescue: "groundIssue sc i \<noteq> Inl RescuedFileScope"
  by (auto simp: groundIssue_def Let_def split: if_splits option.splits prod.splits)

lemma fold_ground_rescued:
  "fst (snd (fold (ground_step sc) is (gs, n, rs))) =
     n + int (length (filter (\<lambda>i. reason_of sc i = Some RescuedFileScope) is))"
proof (induction "is" arbitrary: gs n rs)
  case (Cons i "is")
  then show ?case using drop_is_not_rescue [of sc i]
    by (auto simp: ground_step_def reason_of_def split: sum.splits prod.splits bool.splits)
qed simp

definition drop_reasons :: "drop_reason list" where
  "drop_reasons = [FileNotInScope, NoLineCited, LineNotInChanged, TokenNotNearLine]"

lemma kept_or_dropped:
  "length is = length (kept sc is) +
     sum_list (map (\<lambda>r. length (filter (\<lambda>i. reason_of sc i = Some r) is)) drop_reasons)"
proof (induction "is")
  case (Cons i "is")
  show ?case
  proof (cases "groundIssue sc i")
    case (Inl r)
    then have "r \<noteq> RescuedFileScope" using drop_is_not_rescue by metis
    then show ?thesis using Cons Inl
      by (cases r) (simp_all add: kept_def reason_of_def drop_reasons_def List.map_filter_simps)
  next
    case (Inr gb)
    obtain g b where "gb = (g, b)" by (cases gb)
    then show ?thesis using Cons Inr
      by (cases b) (simp_all add: kept_def reason_of_def drop_reasons_def List.map_filter_simps)
  qed
qed (simp add: kept_def drop_reasons_def List.map_filter_simps)

text \<open>The result of a grounded review.\<close>

lemma ground_review:
  assumes "loadPRDiffGroundingScope loaded cid = (sc, True)"
    and "groundPRCategoryReview rt name loaded cid text v issues = (text', v', issues', summary)"
  shows "issues' = (if pv_Outcome v = VerdictFail then kept sc issues else [])"
    and "pv_Outcome v' = VerdictFail \<longleftrightarrow> pv_Outcome v = VerdictFail \<and> kept sc issues \<noteq> []"
    and "e_Payload summary = PGroundingSummary \<lparr>gs_Reviewer = name, gs_OriginalCount = int (length issues),
        gs_GroundedCount = int (length issues'), gs_DropReasons = snd (snd (fold (ground_step sc) issues ([], 0, []))),
        gs_RescuedCount = fst (snd (fold (ground_step sc) issues ([], 0, []))),
        gs_OriginalOutcome = pv_Outcome v, gs_FinalOutcome = pv_Outcome v'\<rparr>"
    and "text' = buildCompactPRCategoryReviewOutput v' issues'"
proof -
  obtain gs n rs where f: "fold (ground_step sc) issues ([], 0, []) = (gs, n, rs)"
    by (cases "fold (ground_step sc) issues ([], 0, [])") auto
  have k: "kept sc issues = gs" using fold_ground_kept [of sc issues "[]" 0 "[]"] f by simp
  have r: "(if pv_Outcome v = VerdictFail then gs else []) = issues' \<and>
      (pv_Outcome v' = VerdictFail \<longleftrightarrow> pv_Outcome v = VerdictFail \<and> gs \<noteq> []) \<and>
      summary = buildGroundingSummary rt name (pv_Outcome v) (pv_Outcome v') (int (length issues)) (int (length issues')) n rs \<and>
      text' = buildCompactPRCategoryReviewOutput v' issues'"
    using assms by (auto simp: groundPRCategoryReview_def Let_def f split: if_splits)
  show "issues' = (if pv_Outcome v = VerdictFail then kept sc issues else [])"
    and "pv_Outcome v' = VerdictFail \<longleftrightarrow> pv_Outcome v = VerdictFail \<and> kept sc issues \<noteq> []"
    using r by (auto simp: k)
  show "e_Payload summary = PGroundingSummary \<lparr>gs_Reviewer = name, gs_OriginalCount = int (length issues),
        gs_GroundedCount = int (length issues'), gs_DropReasons = snd (snd (fold (ground_step sc) issues ([], 0, []))),
        gs_RescuedCount = fst (snd (fold (ground_step sc) issues ([], 0, []))),
        gs_OriginalOutcome = pv_Outcome v, gs_FinalOutcome = pv_Outcome v'\<rparr>"
    using r by (auto simp: f buildGroundingSummary_def WithSource_def NewEnv_def)
  show "text' = buildCompactPRCategoryReviewOutput v' issues'" using r by auto
qed

lemma set_kept: "g \<in> set (kept sc is) \<Longrightarrow> in_diff sc g"
  by (auto simp: kept_def List.map_filter_def split: sum.splits prod.splits dest!: kept_in_diff)

lemma rewrite_keeps_verdicts:
  "e \<in> set (rewriteAIResponseText quote text raw es) \<Longrightarrow> e_Type e = VerdictRendered \<Longrightarrow> e \<in> set es"
  by (induction es) (auto simp: Let_def split: if_splits option.splits)

text \<open>
  C23. A category reviewer whose pull request has a readable diff fails it only with findings in the
  changed files, each next to an added line or rescued at file scope; a passing verdict has none.
\<close>
theorem failing_review_is_grounded:
  assumes reviewer: "isPRCategoryReviewer h"
    and scope: "loadPRDiffGroundingScope loaded (e_CorrelationID env) = (sc, True)"
    and ai: "\<And>b es e. ai b = Inr es \<Longrightarrow> e \<in> set es \<Longrightarrow> e_Type e \<noteq> VerdictRendered"
    and out: "review_Handle rt quote h ai loaded env = Inr out"
    and e: "e \<in> set out" "e_Type e = VerdictRendered" "e_Payload e = PVerdict p"
  shows "(\<forall>i \<in> set (v_Issues p). in_diff sc i) \<and> (v_Outcome p = VerdictFail \<longleftrightarrow> v_Issues p \<noteq> [])"
proof -
  obtain es resp v issues text' v' issues' summary
    where es: "ai False = Inr es \<or> ai True = Inr es"
      and g: "groundPRCategoryReview rt (rh_name h) loaded (e_CorrelationID env) resp v issues = (text', v', issues', summary)"
      and e': "e \<in> set (rewriteAIResponseText quote text' resp es) \<or> e = summary \<or>
        e_Payload e = PVerdict (zero_verdict\<lparr>v_Persona := rh_targetPersona h, v_SourcePersona := rh_name h,
          v_Outcome := pv_Outcome v', v_Issues := issues', v_Summary := pv_Summary v', v_Source := pv_Source v',
          v_DevTriggerID := e_ID env\<rparr>)"
    using out e(1) reviewer
    by (auto simp: review_Handle_def Let_def WithSource_def NewEnv_def split: sum.splits if_splits prod.splits) blast+
  note r = ground_review [OF scope g]
  have "e \<noteq> summary" using r(3) e(3) by auto
  moreover have "e \<notin> set (rewriteAIResponseText quote text' resp es)"
    using es ai e(2) rewrite_keeps_verdicts by blast
  ultimately have "v_Issues p = issues'" "v_Outcome p = pv_Outcome v'" using e' e(3) by auto
  then show ?thesis using r(1,2) by (auto intro: set_kept)
qed

text \<open>
  C25. The forensic summary of a grounded failing review accounts for every finding: those kept and
  those counted under a reason of rejection add up, and the rescued ones are counted twice over.
\<close>
theorem every_finding_is_accounted_for:
  assumes scope: "loadPRDiffGroundingScope loaded cid = (sc, True)"
    and out: "groundPRCategoryReview rt name loaded cid text v issues = (text', v', issues', summary)"
    and fail: "pv_Outcome v = VerdictFail"
  shows "\<exists>g. e_Payload summary = PGroundingSummary g \<and> gs_OriginalCount g = int (length issues) \<and>
    gs_GroundedCount g = int (length issues') \<and>
    gs_GroundedCount g + sum_list (map (\<lambda>r. mget 0 (gs_DropReasons g) (reason_name r)) drop_reasons) = gs_OriginalCount g \<and>
    gs_RescuedCount g = mget 0 (gs_DropReasons g) (reason_name RescuedFileScope)"
proof -
  note r = ground_review [OF scope out]
  have "issues' = kept sc issues" using r(1) fail by simp
  then show ?thesis using r(3) kept_or_dropped [of issues sc]
    by (simp add: fold_ground_reasons fold_ground_rescued drop_reasons_def)
qed

section \<open>A review\<close>

definition plain_rt :: runtime where
  "plain_rt = \<lparr>rt_uid = (\<lambda>k. ''id''), rt_now = 0, rt_getenv = (\<lambda>v. [])\<rparr>"

definition plain_env :: "etype \<Rightarrow> payload \<Rightarrow> envelope" where
  "plain_env t p = (NewEnv plain_rt 0 t 1 p)\<lparr>e_CorrelationID := ''c''\<rparr>"

definition sample_enrichment :: context_enrichment where
  "sample_enrichment = \<lparr>ce_Source = ''pr-workspace'', ce_Kind = ''pr-diff'', ce_Summary = diff_document [] False (diff_text sample_diff)\<rparr>"

definition sample_log :: "envelope list" where
  "sample_log = [plain_env ContextEnrichment (PContextEnrichment sample_enrichment)]"

definition sample_review :: string where
  "sample_review = ''Broken'' @ [nl] @ ''VERDICT: FAIL'' @ [nl] @ ''1. x.go:4 wrong''"

definition sample_ai :: "bool \<Rightarrow> string + envelope list" where
  "sample_ai b = Inr [plain_env AIResponseReceived (PAIResponse \<lparr>ar_Persona = [], ar_Backend = [], ar_TokensUsed = 0,
     ar_DurationMS = 0, ar_Structured = True, ar_Output = sample_review, ar_OutputRaw = []\<rparr>)]"

definition sample_reviewer :: review_handler where
  "sample_reviewer = \<lparr>rh_name = ''pr-security'', rh_targetPersona = ''developer''\<rparr>"

definition sample_trigger :: envelope where "sample_trigger = plain_env WorkflowStarted (POther [])"

definition sample_out :: "envelope list" where
  "sample_out = projr (review_Handle plain_rt id sample_reviewer sample_ai (Some sample_log) sample_trigger)"

lemma sample_scope:
  "snd (loadPRDiffGroundingScope (Some sample_log) (e_CorrelationID sample_trigger))"
  by code_simp

lemma sample_verdict:
  "case sample_out of [a, b, c] \<Rightarrow> e_Type b = VerdictRendered \<and> (case as_verdict (e_Payload b) of None \<Rightarrow> False
     | Some p \<Rightarrow> v_Outcome p = VerdictFail \<and> map is_Line (v_Issues p) = [4]) | _ \<Rightarrow> False"
  by code_simp

theorem failing_review_is_grounded_witness:
  "\<exists>p. as_verdict (e_Payload (sample_out ! 1)) = Some p \<and> v_Outcome p = VerdictFail \<and> map is_Line (v_Issues p) = [4] \<and>
     (\<forall>i \<in> set (v_Issues p). in_diff (fst (loadPRDiffGroundingScope (Some sample_log) (e_CorrelationID sample_trigger))) i)"
proof -
  obtain sc where sc: "loadPRDiffGroundingScope (Some sample_log) (e_CorrelationID sample_trigger) = (sc, True)"
    using sample_scope by (metis prod.collapse)
  obtain a b c where l: "sample_out = [a, b, c]" using sample_verdict by (auto split: list.splits)
  then obtain p where "as_verdict (e_Payload b) = Some p \<and> v_Outcome p = VerdictFail \<and> map is_Line (v_Issues p) = [4]"
      "e_Type b = VerdictRendered"
    using sample_verdict unfolding l by (cases "as_verdict (e_Payload b)") auto
  then have p: "as_verdict (e_Payload (sample_out ! 1)) = Some p" "v_Outcome p = VerdictFail" "map is_Line (v_Issues p) = [4]"
    and e: "sample_out ! 1 \<in> set sample_out" "e_Type (sample_out ! 1) = VerdictRendered"
    unfolding l by simp_all
  then have pay: "e_Payload (sample_out ! 1) = PVerdict p" by (auto simp: as_verdict_def split: payload.splits)
  have out: "review_Handle plain_rt id sample_reviewer sample_ai (Some sample_log) sample_trigger = Inr sample_out"
    by (simp add: sample_out_def review_Handle_def sample_ai_def Let_def)
  have "isPRCategoryReviewer sample_reviewer" by code_simp
  moreover have "sample_ai b = Inr es \<Longrightarrow> e \<in> set es \<Longrightarrow> e_Type e \<noteq> VerdictRendered" for b es e
    by (auto simp: sample_ai_def plain_env_def NewEnv_def)
  ultimately have "(\<forall>i \<in> set (v_Issues p). in_diff sc i) \<and> (v_Outcome p = VerdictFail \<longleftrightarrow> v_Issues p \<noteq> [])"
    using e by (intro failing_review_is_grounded [OF _ sc _ out _ _ pay]) auto
  then show ?thesis using p sc by (intro exI [of _ p]) simp
qed

definition two_issues :: "issue list" where
  "two_issues = [\<lparr>is_Severity = ''minor'', is_Category = ''data'', is_Description = ''wrong'', is_File = ''x.go'', is_Line = 4\<rparr>,
     \<lparr>is_Severity = ''minor'', is_Category = ''data'', is_Description = ''odd'', is_File = ''z.go'', is_Line = 9\<rparr>]"

definition failed_parse :: parsed_verdict where
  "failed_parse = \<lparr>pv_Outcome = VerdictFail, pv_Summary = ''Broken'', pv_Source = VerdictSourceExplicitFail\<rparr>"

theorem every_finding_is_accounted_for_witness:
  "\<exists>g. e_Payload (snd (snd (snd (groundPRCategoryReview plain_rt ''pr-data'' (Some sample_log) ''c'' [] failed_parse two_issues)))) =
      PGroundingSummary g \<and>
    gs_OriginalCount g = 2 \<and> gs_GroundedCount g + sum_list (map (\<lambda>r. mget 0 (gs_DropReasons g) (reason_name r)) drop_reasons) = 2"
proof -
  obtain resp v issues summary where g: "groundPRCategoryReview plain_rt ''pr-data'' (Some sample_log) ''c'' [] failed_parse two_issues =
      (resp, v, issues, summary)" by (metis prod.collapse)
  have "e_CorrelationID sample_trigger = ''c''" by (simp add: sample_trigger_def plain_env_def)
  then obtain sc where "loadPRDiffGroundingScope (Some sample_log) ''c'' = (sc, True)"
    using sample_scope by (metis prod.collapse)
  from every_finding_is_accounted_for [OF this g] show ?thesis
    unfolding g by (auto simp: failed_parse_def two_issues_def)
qed

section \<open>Where the parsers fall short\<close>

text \<open>
  A passing verdict line that contains the letters of \<open>FAIL\<close> is read as a failure, whatever
  comes before it.
\<close>

lemma passing_line_read_as_failure:
  assumes "nl \<notin> set l" and "str_contains (upper_line l) ''VERDICT: PASS''" and "str_contains (upper_line l) ''FAIL''"
  shows "pv_Outcome (ParseVerdict (before @ nl # l)) = VerdictFail"
proof -
  have "str_contains (upper_line l) ''VERDICT:''"
    using assms(2) unfolding str_contains_iff by (metis append_Cons append_assoc append_Nil)
  then have "fail_line l" using assms(3) by (simp add: fail_line_def)
  moreover have "rev (split_lines (before @ nl # l)) = l # rev (split_on nl before)"
    using assms(1) by (simp add: split_lines_def split_on_append split_on_none)
  ultimately show ?thesis by (simp add: verdict_by_last_line)
qed

lemma passing_line_example: "pv_Outcome (ParseVerdict ''VERDICT: PASS (no failures)'') = VerdictFail"
  by code_simp

text \<open>Issues are read after the first failing line, the verdict comes from the last one.\<close>

lemma quoted_verdict_adds_issues:
  "map is_Description (ParseIssues (''End with VERDICT: FAIL or PASS'' @ [nl] @ ''1. read x'' @ [nl] @ ''VERDICT: FAIL'' @ [nl] @ ''1. bug'')
     VerdictFail) = [''read x'', ''bug'']"
  by code_simp

text \<open>An added line that starts with two plus signs is taken for a file header, and the lines after it move up by one.\<close>

definition plus_diff :: "file_diff list" where
  "plus_diff = [Changed [] ''a/x.c'' ''x.c'' [\<lparr>hk_old = (1, 0), hk_new = (1, 2), hk_heading = [], hk_rows = [Add ''++i;'', Add ''y'']\<rparr>]]"

lemma increment_line_is_lost:
  "map_of (concat (map added_lines plus_diff)) ''x.c'' = Some [(1, ''++i;''), (2, ''y'')]"
  "map_of (sc_changedLines (parseUnifiedDiff (diff_text plus_diff) empty_scope)) ''x.c'' = Some [(1, ''y'')]"
  by code_simp+

text \<open>Of two changed files that end in the cited path, the order of the runtime's map picks one.\<close>

lemma ambiguous_suffix_is_resolved:
  "resolveFile \<lparr>sc_changedFiles = [''a/m/x.go'', ''b/m/x.go''], sc_changedLines = []\<rparr> ''m/x.go'' = ''a/m/x.go''"
  "resolveFile \<lparr>sc_changedFiles = [''b/m/x.go'', ''a/m/x.go''], sc_changedLines = []\<rparr> ''m/x.go'' = ''b/m/x.go''"
  "resolveFile \<lparr>sc_changedFiles = [''a/m/x.go'', ''b/m/x.go''], sc_changedLines = []\<rparr> ''x.go'' = ''a/m/x.go''"
  by code_simp+

text \<open>The manifest that the summary carries is never read back: its title has a count after it.\<close>

lemma manifest_is_not_read: "fold listed_file (preamble files) (False, sc) = (False, sc)"
  by (rule fold_listed [OF no_title_preamble])

text \<open>The summary of a diff that was cut is no scope at all.\<close>

lemma cut_diff_is_no_scope:
  "e_Payload e = PContextEnrichment p \<Longrightarrow> ce_Kind p = ''pr-diff-truncated'' \<Longrightarrow> loadPRDiffGroundingScope (Some [e]) cid = (empty_scope, False)"
  by (simp add: loadPRDiffGroundingScope_def diff_summary_def as_enrichment_def List.map_filter_simps)

lemma correctness_reviewer_is_not_grounded: "rh_name h = ''pr-correctness'' \<Longrightarrow> \<not> isPRCategoryReviewer h"
  by (simp add: isPRCategoryReviewer_def)

end
