(* ===== verification/PrConsolidator.thy ===== *)
theory PrConsolidator imports DiffScope GoJson begin

text \<open>
  \<open>internal/handler/pr_consolidator.go\<close>: the handler that turns the reviews of the categories into
  one review on GitHub. GitHub is a record of functions on a state of its own, the AI backend a
  function; JSON texts are read and written by the functions of \<open>GoJson\<close>.
\<close>

section \<open>Inputs from the correlation\<close>

record consolidation =
  ci_Source :: string
  ci_Prompt :: string
  ci_outputs :: "(string, string) gomap"
  ci_path :: string
  ci_base :: string
  ci_truncated :: bool
  ci_skipped :: "string list"

definition no_inputs :: consolidation where
  "no_inputs = \<lparr>ci_Source = [], ci_Prompt = [], ci_outputs = [], ci_path = [], ci_base = [], ci_truncated = False,
     ci_skipped = []\<rparr>"

definition infrastructure :: "string list" where
  "infrastructure = [''pr-workspace'', ''pr-jira-context'', ''pr-consolidator'', ''pr-cleanup'']"

definition read_input :: "envelope \<Rightarrow> consolidation \<Rightarrow> consolidation" where
  "read_input e c =
     (if e_Type e = WorkflowRequested then (case as_requested (e_Payload e) of None \<Rightarrow> c
         | Some p \<Rightarrow> c\<lparr>ci_Source := wr_Source p, ci_Prompt := wr_Prompt p\<rparr>)
      else if e_Type e = WorkspaceReady then (case as_workspace (e_Payload e) of None \<Rightarrow> c
         | Some p \<Rightarrow> if wy_Path p = [] then c else c\<lparr>ci_path := wy_Path p, ci_base := wy_Base p\<rparr>)
      else if e_Type e = ContextEnrichment then (case as_enrichment (e_Payload e) of None \<Rightarrow> c
         | Some p \<Rightarrow> if ce_Kind p = ''pr-diff-truncated'' then c\<lparr>ci_truncated := True\<rparr>
             else if ce_Kind p = ''stale-references'' then c\<lparr>ci_outputs := mput (ci_outputs c) ''pr-stale-reference'' (ce_Summary p)\<rparr>
             else c)
      else if e_Type e = AIResponseReceived then (case as_ai_response (e_Payload e) of None \<Rightarrow> c
         | Some p \<Rightarrow> (let key = trim_prefix (e_Source e) ''handler:'' in
             c\<lparr>ci_outputs := mput (ci_outputs c) (if key = [] then ar_Persona p else key)
                 (unmarshalOutput (ar_Output p) (ar_Structured p))\<rparr>))
      else if e_Type e = PersonaFailed then (case as_failed (e_Payload e) of None \<Rightarrow> c
         | Some p \<Rightarrow> if has_prefix (pf_Persona p) ''pr-'' \<and> pf_Persona p \<notin> set infrastructure
             then c\<lparr>ci_skipped := List.insert (pf_Persona p) (ci_skipped c)\<rparr> else c)
      else c)"

definition extractConsolidatorInputs :: "envelope list \<Rightarrow> consolidation" where
  "extractConsolidatorInputs events = (let c = fold read_input events no_inputs in c\<lparr>ci_skipped := sort (ci_skipped c)\<rparr>)"

section \<open>Downgrades\<close>

text \<open>The review as the downgrades see it: comments stay raw, a missing list is \<open>None\<close>.\<close>

record raw_review =
  rw_Summary :: string
  rw_Event :: string
  rw_Comments :: "string list option"
  rw_Unanchored :: "string list option"

definition decode_raw_review :: "string \<Rightarrow> raw_review option" where
  "decode_raw_review text = (case json_parse text of None \<Rightarrow> None
     | Some v \<Rightarrow> (case object_members v of None \<Rightarrow> None
       | Some ms \<Rightarrow> (case (string_field ms ''summary'', string_field ms ''event'',
             list_field (\<lambda>x. Some (fst x)) ms ''comments'', list_field string_element ms ''unanchored'') of
           (Some s, Some e, Some cs, Some us) \<Rightarrow> Some \<lparr>rw_Summary = s, rw_Event = e, rw_Comments = cs, rw_Unanchored = us\<rparr>
         | _ \<Rightarrow> None)))"

definition json_member :: "string \<Rightarrow> string \<Rightarrow> string" where
  "json_member name v = [quote_mark] @ name @ [quote_mark] @ '':'' @ v"

definition json_list :: "string list \<Rightarrow> string" where
  "json_list xs = ''['' @ str_join xs '','' @ '']''"

definition marshal_raw_review :: "raw_review \<Rightarrow> string" where
  "marshal_raw_review p = ''{'' @ json_member ''summary'' (marshal_string (rw_Summary p)) @ '','' @
     json_member ''event'' (marshal_string (rw_Event p)) @ '','' @
     json_member ''comments'' (case rw_Comments p of None \<Rightarrow> ''null'' | Some cs \<Rightarrow> json_list (map (compact_text False False 0) cs)) @ '','' @
     json_member ''unanchored'' (case rw_Unanchored p of None \<Rightarrow> ''null'' | Some us \<Rightarrow> json_list (map marshal_string us)) @ ''}''"

definition no_nil :: "raw_review \<Rightarrow> raw_review" where
  "no_nil p = p\<lparr>rw_Comments := Some (case rw_Comments p of None \<Rightarrow> [] | Some cs \<Rightarrow> cs),
     rw_Unanchored := Some (case rw_Unanchored p of None \<Rightarrow> [] | Some us \<Rightarrow> us)\<rparr>"

definition warning_sign :: string where
  "warning_sign = map char_of [226, 154, 160, 239, 184, 143 :: nat]"

definition skipped_caveat :: "string list \<Rightarrow> string" where
  "skipped_caveat skipped = ''> '' @ warning_sign @ '' **Partial review.** '' @ itoa (int (length skipped)) @
     '' reviewer(s) could not produce a verdict and were skipped: '' @ str_join skipped '', '' @
     ''. Those dimensions were NOT evaluated. Retry via '' @ [tick] @ ''rick_workflow_control action=retry'' @ [tick] @
     '' if they are load-bearing for this PR.'' @ [nl, nl]"

definition downgradeApproveOnSkippedReviewers :: "string \<Rightarrow> string list \<Rightarrow> string" where
  "downgradeApproveOnSkippedReviewers aiOutput skipped = (if skipped = [] then aiOutput
     else case decode_raw_review (trim_space aiOutput) of None \<Rightarrow> aiOutput
     | Some p \<Rightarrow> marshal_raw_review (no_nil (p\<lparr>rw_Summary := skipped_caveat skipped @ rw_Summary p,
         rw_Event := (if rw_Event p = ''APPROVE'' then ''COMMENT'' else rw_Event p)\<rparr>)))"

definition truncated_caveat :: string where
  "truncated_caveat = ''> '' @ warning_sign @ '' **Partial review.** The PR diff exceeded the reviewer context budget (>512 KB). Each category reviewer saw only the first ~512 KB of hunks; findings outside that window will not appear here. Treat this as a sanity check, not an approval. Manual review recommended for completeness.'' @ [nl, nl]"

definition downgradeApproveOnTruncatedDiff :: "string \<Rightarrow> string" where
  "downgradeApproveOnTruncatedDiff aiOutput = (case decode_raw_review (trim_space aiOutput) of None \<Rightarrow> aiOutput
     | Some p \<Rightarrow> if rw_Event p \<noteq> ''APPROVE'' then aiOutput
         else marshal_raw_review (no_nil (p\<lparr>rw_Event := ''COMMENT'', rw_Summary := truncated_caveat @ rw_Summary p\<rparr>)))"

section \<open>The prompt\<close>

definition prCategoryReviewerLabels :: "(string \<times> string) list" where
  "prCategoryReviewerLabels = [(''pr-security'', ''Security Review''), (''pr-concurrency'', ''Concurrency Review''),
     (''pr-error-handling'', ''Error Handling Review''), (''pr-observability'', ''Observability Review''),
     (''pr-api-contract'', ''API Contract Review''), (''pr-idempotency'', ''Idempotency Review''),
     (''pr-testing'', ''Testing Review''), (''pr-integration'', ''Integration Review''),
     (''pr-performance'', ''Performance Review''), (''pr-data'', ''Data Integrity Review''),
     (''pr-hygiene'', ''Code Hygiene Review''), (''pr-vendor-resilience'', ''Vendor Resilience Review''),
     (''pr-docs-concordance'', ''Docs/Code Concordance Review''), (''pr-correctness'', ''Behavioral Correctness Review'')]"

definition reviewer_section :: "(string, string) gomap \<Rightarrow> string \<times> string \<Rightarrow> string" where
  "reviewer_section outputs = (\<lambda>(key, label). let output = mget [] outputs key in
     ''---'' @ [nl] @ ''### '' @ label @ [nl, nl] @ (if output = [] then ''(no output)'' else output) @ [nl, nl])"

definition diff_section :: "string \<Rightarrow> string" where
  "diff_section diff = (if trim_space diff = []
     then ''(diff unavailable '' @ em_dash @ '' prefer '' @ [tick] @ ''unanchored'' @ [tick] @ '' entries over inventing file:line)'' @ [nl, nl]
     else ''Use this diff to anchor inline comments. Only emit a '' @ [tick] @ ''comment'' @ [tick] @ '' when its '' @ [tick] @ ''path'' @ [tick] @
       '' + '' @ [tick] @ ''line'' @ [tick] @ '' are present in a hunk below. Any finding that cannot be grounded to an exact line goes in '' @
       [tick] @ ''unanchored'' @ [tick] @ ''.'' @ [nl, nl] @ fence @ ''diff'' @ [nl] @ diff @ [nl] @ fence @ [nl, nl])"

definition buildConsolidationPrompt :: "consolidation \<Rightarrow> string \<Rightarrow> string" where
  "buildConsolidationPrompt c diff = ''## PR Review Consolidation Task'' @ [nl, nl] @ ''Source: '' @ ci_Source c @ [nl, nl] @
     (if ci_Prompt c \<noteq> [] then ''**PR Description / Task Context**:'' @ [nl] @ ci_Prompt c @ [nl, nl] else []) @
     concat (map (reviewer_section (ci_outputs c)) prCategoryReviewerLabels) @
     (let stale = mget [] (ci_outputs c) ''pr-stale-reference'' in if trim_space stale = [] then []
       else ''---'' @ [nl] @ ''### Documentation Reference Check (advisory, non-blocking)'' @ [nl, nl] @ stale @ [nl, nl]) @
     ''---'' @ [nl] @ ''## PR Diff'' @ [nl, nl] @ diff_section diff @ ''---'' @ [nl, nl] @
     ''Produce the consolidated review as a single JSON object conforming to the schema in your system prompt. Output JSON only '' @
     em_dash @ '' no prose, no code fences.''"

section \<open>The review\<close>

record review_comment =
  cc_Path :: string
  cc_Line :: int
  cc_Side :: string
  cc_Body :: string

record consolidator_review =
  cr_Summary :: string
  cr_Event :: string
  cr_Comments :: "review_comment list"
  cr_Unanchored :: "string list"

definition comment_element :: "string \<times> json \<Rightarrow> review_comment option" where
  "comment_element e = (case object_members (snd e) of None \<Rightarrow> None
     | Some ms \<Rightarrow> (case (string_field ms ''path'', int_field ms ''line'', string_field ms ''side'', string_field ms ''body'') of
         (Some p, Some l, Some s, Some b) \<Rightarrow> Some \<lparr>cc_Path = p, cc_Line = l, cc_Side = s, cc_Body = b\<rparr> | _ \<Rightarrow> None))"

definition decode_review :: "string \<Rightarrow> consolidator_review option" where
  "decode_review text = (case json_parse text of None \<Rightarrow> None
     | Some v \<Rightarrow> (case object_members v of None \<Rightarrow> None
       | Some ms \<Rightarrow> (case (string_field ms ''summary'', string_field ms ''event'',
             list_field comment_element ms ''comments'', list_field string_element ms ''unanchored'') of
           (Some s, Some e, Some cs, Some us) \<Rightarrow> Some \<lparr>cr_Summary = s, cr_Event = e,
             cr_Comments = (case cs of None \<Rightarrow> [] | Some l \<Rightarrow> l), cr_Unanchored = (case us of None \<Rightarrow> [] | Some l \<Rightarrow> l)\<rparr>
         | _ \<Rightarrow> None)))"

text \<open>How many characters the object takes whose opening brace is the first one.\<close>

fun object_length :: "int \<Rightarrow> bool \<Rightarrow> bool \<Rightarrow> string \<Rightarrow> nat option" where
  "object_length depth inStr escaped [] = None"
| "object_length depth inStr escaped (c # s) = map_option Suc
     (if inStr then (if escaped then object_length depth True False s
         else if c = bs_mark then object_length depth True True s
         else object_length depth (c \<noteq> quote_mark) False s)
      else if c = quote_mark then object_length depth True False s
      else if c = CHR ''{'' then object_length (depth + 1) False False s
      else if c = CHR ''}'' then (if depth - 1 = 0 then Some 0 else object_length (depth - 1) False False s)
      else object_length depth False False s)"

definition extractJSONObject :: "string \<Rightarrow> string" where
  "extractJSONObject s = (let t = dropWhile (\<lambda>c. c \<noteq> CHR ''{'') s in
     case object_length 0 False False t of None \<Rightarrow> [] | Some k \<Rightarrow> take k t)"

text \<open>\<open>jerr\<close> is the text of the error that \<open>json.Unmarshal\<close> gives.\<close>

definition parseConsolidatorJSON :: "(string \<Rightarrow> string) \<Rightarrow> string \<Rightarrow> string + consolidator_review" where
  "parseConsolidatorJSON jerr raw = (let t = extractJSONObject raw in
     if t = [] then Inl ''no JSON object found in AI output''
     else case decode_review t of None \<Rightarrow> Inl (''unmarshal consolidator JSON: '' @ jerr t) | Some r \<Rightarrow> Inr r)"

section \<open>Anchors\<close>

record diff_anchors =
  an_right :: "(string, (int, bool) gomap) gomap"
  an_left :: "(string, (int, bool) gomap) gomap"

definition newDiffAnchors :: diff_anchors where
  "newDiffAnchors = \<lparr>an_right = [], an_left = []\<rparr>"

definition anchor_allows :: "diff_anchors \<Rightarrow> string \<Rightarrow> int \<Rightarrow> string \<Rightarrow> bool" where
  "anchor_allows d path line side = (if path = [] \<or> line \<le> 0 then False
     else case map_of (if to_lower side = ''left'' then an_left d else an_right d) path of None \<Rightarrow> False
       | Some lines \<Rightarrow> mget False lines line)"

definition consolidatorHunkHeaderRe :: rx where
  "consolidatorHunkHeaderRe = RSeqs [RBegin, RLit ''@@ -'', RGroup 1 digits_rx, ROpt (RSeq (RChar CHR '','') digits_rx),
     RLit '' +'', RGroup 2 digits_rx, ROpt (RSeq (RChar CHR '','') digits_rx), RLit '' @@'']"

definition stripDiffPathPrefix :: "string \<Rightarrow> string" where
  "stripDiffPathPrefix s0 = (let s = trim_space (takeWhile (\<lambda>c. c \<noteq> tab) s0) in
     if s = ''/dev/null'' then [] else if has_prefix s ''a/'' \<or> has_prefix s ''b/'' then drop 2 s else s)"

definition ensure_path :: "string \<Rightarrow> (string, (int, bool) gomap) gomap \<Rightarrow> (string, (int, bool) gomap) gomap" where
  "ensure_path p m = (if map_of m p = None then mput m p [] else m)"

definition set_anchor :: "string \<Rightarrow> int \<Rightarrow> (string, (int, bool) gomap) gomap \<Rightarrow> (string, (int, bool) gomap) gomap" where
  "set_anchor p n m = mput m p (mput (mget [] m p) n True)"

record anchor_scan =
  as_anchors :: diff_anchors
  as_path :: string
  as_old :: int
  as_new :: int
  as_inHunk :: bool

definition anchor_right :: "anchor_scan \<Rightarrow> diff_anchors \<Rightarrow> diff_anchors" where
  "anchor_right st d = d\<lparr>an_right := set_anchor (as_path st) (as_new st) (an_right d)\<rparr>"

definition anchor_left :: "anchor_scan \<Rightarrow> diff_anchors \<Rightarrow> diff_anchors" where
  "anchor_left st d = d\<lparr>an_left := set_anchor (as_path st) (as_old st) (an_left d)\<rparr>"

definition anchor_line :: "string \<Rightarrow> anchor_scan \<Rightarrow> anchor_scan" where
  "anchor_line line st =
     (if has_prefix line ''+++ '' then
        (let p = stripDiffPathPrefix (trim_prefix line ''+++ ''); d = as_anchors st in
          st\<lparr>as_path := p, as_inHunk := False, as_anchors :=
            (if p = [] then d else d\<lparr>an_right := ensure_path p (an_right d), an_left := ensure_path p (an_left d)\<rparr>)\<rparr>)
      else if has_prefix line ''--- '' then st\<lparr>as_inHunk := False\<rparr>
      else if has_prefix line ''@@'' then (case FindStringSubmatch consolidatorHunkHeaderRe line of
          None \<Rightarrow> st\<lparr>as_inHunk := False\<rparr>
        | Some m \<Rightarrow> st\<lparr>as_old := atoi_value (m 1), as_new := atoi_value (m 2), as_inHunk := (as_path st \<noteq> [])\<rparr>)
      else if as_inHunk st \<and> has_prefix line ''+'' then
        st\<lparr>as_anchors := anchor_right st (as_anchors st), as_new := as_new st + 1\<rparr>
      else if as_inHunk st \<and> has_prefix line ''-'' then
        st\<lparr>as_anchors := anchor_left st (as_anchors st), as_old := as_old st + 1\<rparr>
      else if as_inHunk st \<and> has_prefix line '' '' then
        st\<lparr>as_anchors := anchor_left st (anchor_right st (as_anchors st)), as_new := as_new st + 1, as_old := as_old st + 1\<rparr>
      else st)"

text \<open>The lines of a \<open>bufio.Scanner\<close>: without their ends, up to the first one that overflows the buffer.\<close>

definition chomp :: "string \<Rightarrow> string" where
  "chomp l = trim_suffix l [char_of (13 :: nat)]"

definition scan_lines :: "nat \<Rightarrow> string \<Rightarrow> string list" where
  "scan_lines limit s = (let ls = split_lines s; ls' = (if last ls = [] then butlast ls else ls) in
     map chomp (takeWhile (\<lambda>l. length l < limit) ls'))"

definition scan_limit :: nat where "scan_limit = 10 * 1024 * 1024"

definition parseDiffAnchors :: "string \<Rightarrow> diff_anchors" where
  "parseDiffAnchors diff = (if diff = [] then newDiffAnchors
     else as_anchors (fold anchor_line (scan_lines scan_limit diff)
       \<lparr>as_anchors = newDiffAnchors, as_path = [], as_old = 0, as_new = 0, as_inHunk = False\<rparr>))"

section \<open>Comments and body\<close>

definition comment_side :: "review_comment \<Rightarrow> string" where
  "comment_side c = (let side = to_upper (trim_space (cc_Side c)) in
     if side \<noteq> ''LEFT'' \<and> side \<noteq> ''RIGHT'' then ''RIGHT'' else side)"

definition unanchored_text :: "review_comment \<Rightarrow> string" where
  "unanchored_text c = ''**'' @ (if cc_Path c = [] then ''(unknown path)'' else cc_Path c) @ '':'' @ itoa (cc_Line c) @ ''** '' @
     em_dash @ '' '' @ trim_space (cc_Body c)"

definition split_comment :: "diff_anchors \<Rightarrow> review_comment \<Rightarrow> review_comment list \<times> string list \<Rightarrow> review_comment list \<times> string list" where
  "split_comment anchors c = (\<lambda>(valid, unanchored).
     if trim_space (cc_Body c) = [] then (valid, unanchored)
     else if \<not> anchor_allows anchors (cc_Path c) (cc_Line c) (comment_side c) then (valid, unanchored @ [unanchored_text c])
     else (valid @ [c\<lparr>cc_Side := comment_side c\<rparr>], unanchored))"

definition splitComments :: "consolidator_review \<Rightarrow> diff_anchors \<Rightarrow> review_comment list \<times> string list" where
  "splitComments review anchors = fold (split_comment anchors) (cr_Comments review) ([], cr_Unanchored review)"

definition renderReviewBody :: "string \<Rightarrow> string list \<Rightarrow> string" where
  "renderReviewBody summary unanchored = (let trimmed = trim_space summary in
     (if trimmed = [] then ''Review completed.'' else trimmed) @
     (if unanchored = [] then [] else [nl, nl] @ ''### Additional findings'' @ [nl, nl] @
        concat (map (\<lambda>item. ''- '' @ trim_space item @ [nl]) unanchored)))"

definition inlineOnlyReviewBody :: string where "inlineOnlyReviewBody = ''See inline comments.''"

definition normalizeReviewEvent :: "string \<Rightarrow> string" where
  "normalizeReviewEvent raw = (let e = to_upper (trim_space raw) in
     if e = ''APPROVE'' then ''APPROVE''
     else if e \<in> set [''REQUEST_CHANGES'', ''REQUESTCHANGES'', ''REQUEST CHANGES''] then ''REQUEST_CHANGES'' else ''COMMENT'')"

definition consolidatorReviewMarker :: "string \<Rightarrow> string" where
  "consolidatorReviewMarker headSHA = ''<!-- rick-pr-consolidator:'' @ headSHA @ '' -->''"

section \<open>Posting\<close>

record review_payload =
  rp_CommitID :: string
  rp_Event :: string
  rp_Body :: string
  rp_Comments :: "review_comment list"

text \<open>
  GitHub: every call takes the repository and the number of the pull request; \<open>None\<close> is the error
  of a read, and \<open>Some\<close> the text of the error of a write.
\<close>

record 'w github =
  gh_headSHA :: "string \<Rightarrow> string \<Rightarrow> 'w \<Rightarrow> string option"
  gh_reviewBodies :: "string \<Rightarrow> string \<Rightarrow> 'w \<Rightarrow> string list option"
  gh_viewerDidAuthor :: "string \<Rightarrow> string \<Rightarrow> 'w \<Rightarrow> bool option"
  gh_postReview :: "string \<Rightarrow> string \<Rightarrow> review_payload \<Rightarrow> 'w \<Rightarrow> string option \<times> 'w"
  gh_postComment :: "string \<Rightarrow> string \<Rightarrow> string \<Rightarrow> 'w \<Rightarrow> string option \<times> 'w"

definition isSelfAuthorRejection :: "string option \<Rightarrow> bool" where
  "isSelfAuthorRejection err = (case err of None \<Rightarrow> False
     | Some text \<Rightarrow> let msg = to_lower text in
         str_contains msg ''approve your own'' \<or> str_contains msg ''request changes on your own'')"

definition counts_text :: "review_comment list \<Rightarrow> string list \<Rightarrow> string" where
  "counts_text comments unanchored = ''('' @ itoa (int (length comments)) @ '' inline, '' @ itoa (int (length unanchored)) @ '' unanchored)''"

definition pr_name :: "string \<Rightarrow> string \<Rightarrow> string" where
  "pr_name fullRepo prNumber = fullRepo @ ''#'' @ prNumber"

text \<open>The last resort: the review without its inline comments.\<close>

definition post_without_comments ::
    "'w github \<Rightarrow> string \<Rightarrow> string \<Rightarrow> string \<Rightarrow> review_payload \<Rightarrow> string \<Rightarrow> 'w \<Rightarrow> (string + string) \<times> 'w" where
  "post_without_comments gh repo pr body payload err w =
     (if rp_Comments payload = [] then (Inl (''post review: '' @ err), w)
      else case gh_postReview gh repo pr (payload\<lparr>rp_Comments := [],
          rp_Body := body @ [nl, nl] @ ''> Note: inline comments could not be attached; collapsed into this summary.''\<rparr>) w of
        (Some fbErr, w') \<Rightarrow> (Inl (''post review: '' @ err @ '' (fallback also failed: '' @ fbErr @ '')''), w')
      | (None, w') \<Rightarrow> (Inr (''Posted review to '' @ pr_name repo pr @ '' as '' @ rp_Event payload @ '' (inline comments dropped after 422)''), w'))"

definition post_payload ::
    "'w github \<Rightarrow> string \<Rightarrow> string \<Rightarrow> string \<Rightarrow> string \<Rightarrow> string list \<Rightarrow> review_payload \<Rightarrow> 'w \<Rightarrow> (string + string) \<times> 'w" where
  "post_payload gh repo pr body originalEvent unanchored payload w = (case gh_postReview gh repo pr payload w of
      (None, w1) \<Rightarrow> (Inr (''Posted review to '' @ pr_name repo pr @ '' as '' @ rp_Event payload @
         (if rp_Event payload \<noteq> originalEvent then '' (downgraded from '' @ originalEvent @ '': viewer authored PR)'' else []) @
         '' '' @ counts_text (rp_Comments payload) unanchored), w1)
    | (Some err, w1) \<Rightarrow>
        if isSelfAuthorRejection (Some err) \<and> rp_Event payload \<noteq> ''COMMENT'' then
          (let retry = payload\<lparr>rp_Event := ''COMMENT''\<rparr> in case gh_postReview gh repo pr retry w1 of
             (None, w2) \<Rightarrow> (Inr (''Posted review to '' @ pr_name repo pr @ '' as COMMENT (downgraded from '' @ rp_Event payload @
                '' after self-author rejection) '' @ counts_text (rp_Comments retry) unanchored), w2)
           | (Some retryErr, w2) \<Rightarrow> post_without_comments gh repo pr body retry retryErr w2)
        else post_without_comments gh repo pr body payload err w1)"

definition already_posted :: "'w github \<Rightarrow> string \<Rightarrow> string \<Rightarrow> string \<Rightarrow> 'w \<Rightarrow> bool" where
  "already_posted gh repo pr headSHA w = (headSHA \<noteq> [] \<and> (case gh_reviewBodies gh repo pr w of None \<Rightarrow> False
     | Some bodies \<Rightarrow> list_ex (\<lambda>b. str_contains b (consolidatorReviewMarker headSHA)) bodies))"

definition review_body :: "consolidator_review \<Rightarrow> review_comment list \<Rightarrow> string list \<Rightarrow> string \<Rightarrow> string" where
  "review_body review valid unanchored headSHA =
     (if valid \<noteq> [] \<and> unanchored = [] then inlineOnlyReviewBody else renderReviewBody (cr_Summary review) unanchored) @
     (if headSHA \<noteq> [] then [nl, nl] @ consolidatorReviewMarker headSHA else [])"

definition posted_event :: "'w github \<Rightarrow> string \<Rightarrow> string \<Rightarrow> 'w \<Rightarrow> string \<Rightarrow> string" where
  "posted_event gh repo pr w eventType = (if eventType \<noteq> ''COMMENT'' \<and> gh_viewerDidAuthor gh repo pr w = Some True
     then ''COMMENT'' else eventType)"

definition postConsolidatedReview ::
    "'w github \<Rightarrow> (string \<Rightarrow> string) \<Rightarrow> string \<Rightarrow> string \<Rightarrow> string \<Rightarrow> string \<Rightarrow> 'w \<Rightarrow> (string + string) \<times> 'w" where
  "postConsolidatedReview gh jerr repo pr diff aiOutput w =
     (let headSHA = (case gh_headSHA gh repo pr w of None \<Rightarrow> [] | Some sha \<Rightarrow> sha) in
      if already_posted gh repo pr headSHA w
      then (Inr (''Review already posted to '' @ pr_name repo pr @ '' at '' @ headSHA @ '' (idempotent skip)''), w)
      else case parseConsolidatorJSON jerr aiOutput of
        Inl err \<Rightarrow> (case gh_postComment gh repo pr aiOutput w of
            (Some fbErr, w') \<Rightarrow> (Inl (''JSON parse failed ('' @ err @ '') and fallback pr comment failed: '' @ fbErr), w')
          | (None, w') \<Rightarrow> (Inr (''Posted fallback issue comment to '' @ pr_name repo pr @ '' (AI JSON parse failed: '' @ err @ '')''), w'))
      | Inr review \<Rightarrow> (case splitComments review (parseDiffAnchors diff) of (valid, unanchored) \<Rightarrow>
          let body = review_body review valid unanchored headSHA; originalEvent = normalizeReviewEvent (cr_Event review)
          in post_payload gh repo pr body originalEvent unanchored
            \<lparr>rp_CommitID = headSHA, rp_Event = posted_event gh repo pr w originalEvent, rp_Body = body, rp_Comments = valid\<rparr> w))"

section \<open>The commands behind GitHub\<close>

text \<open>Each takes the output of a \<open>gh\<close> command; \<open>None\<close> is its failure.\<close>

definition trim_right_nl :: "string \<Rightarrow> string" where
  "trim_right_nl s = rev (dropWhile (\<lambda>c. c = nl) (rev s))"

definition listPRReviewBodies :: "string option \<Rightarrow> string list option" where
  "listPRReviewBodies out = map_option (\<lambda>o'. split_lines (trim_right_nl o')) out"

definition fetchPRHeadSHA :: "string option \<Rightarrow> string option" where
  "fetchPRHeadSHA out = (case out of None \<Rightarrow> None | Some text \<Rightarrow> (case json_parse text of None \<Rightarrow> None
     | Some v \<Rightarrow> (case object_members v of None \<Rightarrow> None | Some ms \<Rightarrow> map_option trim_space (string_field ms ''headRefOid''))))"

definition cut_at :: "char \<Rightarrow> string \<Rightarrow> (string \<times> string) option" where
  "cut_at c s = (case dropWhile (\<lambda>d. d \<noteq> c) s of [] \<Rightarrow> None | x # rest \<Rightarrow> Some (takeWhile (\<lambda>d. d \<noteq> c) s, rest))"

definition queryViewerDidAuthor :: "(string \<Rightarrow> string \<Rightarrow> int \<Rightarrow> string option) \<Rightarrow> string \<Rightarrow> string \<Rightarrow> bool option" where
  "queryViewerDidAuthor query fullRepo prNumber = (case cut_at slash fullRepo of None \<Rightarrow> None
     | Some (owner, repo) \<Rightarrow> (case atoi prNumber of None \<Rightarrow> None
       | Some num \<Rightarrow> (case query owner repo num of None \<Rightarrow> None
         | Some out \<Rightarrow> (if trim_space out = ''true'' then Some True else if trim_space out = ''false'' then Some False else None))))"

definition fetchPRRawDiff ::
    "(string \<Rightarrow> string list \<Rightarrow> string option) \<Rightarrow> (string \<Rightarrow> string \<Rightarrow> string option) \<Rightarrow> string \<Rightarrow> string \<Rightarrow> string \<Rightarrow> string \<Rightarrow> string" where
  "fetchPRRawDiff git ghDiff path base repo pr = (let d = fetchWorkspaceRawDiff git path base in
     if d \<noteq> [] then d else case ghDiff repo pr of None \<Rightarrow> [] | Some out \<Rightarrow> out)"

section \<open>The handler\<close>

definition prSourcePattern :: rx where
  "prSourcePattern = RSeqs [RBegin, RLit ''gh:'', RGroup 1 (RSeqs [RPlus (RSet (\<lambda>c. c \<noteq> slash)), RChar slash,
     RPlus (RSet (\<lambda>c. c \<noteq> CHR ''#''))]), RChar CHR ''#'', RGroup 2 digits_rx, REnd]"

definition parsePRSource :: "string \<Rightarrow> string + string \<times> string" where
  "parsePRSource source = (case FindStringSubmatch prSourcePattern source of
      None \<Rightarrow> Inl (''expected format gh:owner/repo#N, got '' @ go_quote source) | Some m \<Rightarrow> Inr (m 1, m 2))"

record ai_request =
  rq_SystemPrompt :: string
  rq_UserPrompt :: string
  rq_Model :: string
  rq_WorkDir :: string
  rq_Yolo :: bool
  rq_Sticky :: string

definition ConsolidatorModel :: string where "ConsolidatorModel = ''claude-haiku-4-5-20251001''"

record pr_consolidator =
  hc_model :: string
  hc_workDir :: string
  hc_systemPrompt :: "string + string"

definition callAI :: "(ai_request \<Rightarrow> string + string) \<Rightarrow> pr_consolidator \<Rightarrow> envelope \<Rightarrow> consolidation \<Rightarrow> string \<Rightarrow> string + string" where
  "callAI ai h env c diff = (case hc_systemPrompt h of Inl err \<Rightarrow> Inl (''load system prompt: '' @ err)
     | Inr systemPrompt \<Rightarrow> (case ai \<lparr>rq_SystemPrompt = systemPrompt, rq_UserPrompt = buildConsolidationPrompt c diff,
           rq_Model = hc_model h, rq_WorkDir = (if ci_path c \<noteq> [] then ci_path c else hc_workDir h), rq_Yolo = False,
           rq_Sticky = (if e_CorrelationID env \<noteq> [] then e_CorrelationID env @ '':pr-consolidator'' else [])\<rparr> of
         Inl err \<Rightarrow> Inl (''backend: '' @ err) | Inr out \<Rightarrow> Inr out))"

definition downgrade :: "consolidation \<Rightarrow> string \<Rightarrow> string" where
  "downgrade c aiOutput = (let a = (if ci_truncated c then downgradeApproveOnTruncatedDiff aiOutput else aiOutput) in
     if ci_skipped c \<noteq> [] then downgradeApproveOnSkippedReviewers a (ci_skipped c) else a)"

text \<open>\<open>rawDiff\<close> is \<open>fetchRawDiff\<close> for the workspace and its base.\<close>

definition pr_consolidator_Handle ::
    "runtime \<Rightarrow> 'w github \<Rightarrow> (string \<Rightarrow> string) \<Rightarrow> (string \<Rightarrow> string \<Rightarrow> string \<Rightarrow> string \<Rightarrow> string) \<Rightarrow> (ai_request \<Rightarrow> string + string) \<Rightarrow>
     pr_consolidator \<Rightarrow> (string + envelope list) \<Rightarrow> envelope \<Rightarrow> 'w \<Rightarrow> (string + envelope list) \<times> 'w" where
  "pr_consolidator_Handle rt gh jerr rawDiff ai h loaded env w = (case loaded of
      Inl err \<Rightarrow> (Inl (''pr-consolidator: load correlation chain: '' @ err), w)
    | Inr events \<Rightarrow> (let c = extractConsolidatorInputs events in case parsePRSource (ci_Source c) of
        Inl err \<Rightarrow> (Inl (''pr-consolidator: parse source '' @ go_quote (ci_Source c) @ '': '' @ err), w)
      | Inr (fullRepo, prNumber) \<Rightarrow> (let diff = rawDiff (ci_path c) (ci_base c) fullRepo prNumber in
          case callAI ai h env c diff of
            Inl err \<Rightarrow> (Inl (''pr-consolidator: AI call: '' @ err), w)
          | Inr aiOutput \<Rightarrow> (case postConsolidatedReview gh jerr fullRepo prNumber diff (downgrade c aiOutput) w of
              (Inl err, w') \<Rightarrow> (Inl (''pr-consolidator: post review: '' @ err), w')
            | (Inr summary, w') \<Rightarrow> (Inr [WithSource ''handler:pr-consolidator'' (NewEnv rt 0 ContextEnrichment 1
                (PContextEnrichment \<lparr>ce_Source = ''pr-consolidator'', ce_Kind = ''pr-review'', ce_Summary = summary\<rparr>))], w')))))"

end
