(* ===== verification/PrConsolidatorRuns.thy ===== *)
theory PrConsolidatorRuns imports PrConsolidator begin

text \<open>
  What the pull-request consolidator guarantees: its anchors are the lines of the hunks, what it
  posts is anchored, nothing of the review vanishes from an accepted post, and a second run on
  the same commit posts nothing; and the paths on which these fail.
\<close>

section \<open>Anchors are the lines of the diff\<close>

fun right_rows :: "int \<Rightarrow> diff_row list \<Rightarrow> int set" where
  "right_rows n [] = {}"
| "right_rows n (Ctx t # rs) = insert n (right_rows (n + 1) rs)"
| "right_rows n (Add t # rs) = insert n (right_rows (n + 1) rs)"
| "right_rows n (Del t # rs) = right_rows n rs"
| "right_rows n (NoEol # rs) = right_rows n rs"

fun left_rows :: "int \<Rightarrow> diff_row list \<Rightarrow> int set" where
  "left_rows n [] = {}"
| "left_rows n (Ctx t # rs) = insert n (left_rows (n + 1) rs)"
| "left_rows n (Add t # rs) = left_rows n rs"
| "left_rows n (Del t # rs) = insert n (left_rows (n + 1) rs)"
| "left_rows n (NoEol # rs) = left_rows n rs"

text \<open>The lines of a file in the diff, by side.\<close>

definition hunk_rows :: "bool \<Rightarrow> hunk list \<Rightarrow> int set" where
  "hunk_rows left hs = (\<Union>h \<in> set hs. if left then left_rows (fst (hk_old h)) (hk_rows h) else right_rows (fst (hk_new h)) (hk_rows h))"

text \<open>
  Anchors are filed under the name on the new side. A deleted file has none there
  (\<open>+++ /dev/null\<close>): the parser's path is empty, so it stays outside the hunks and passes
  over their lines.
\<close>

definition diff_rows :: "bool \<Rightarrow> file_diff list \<Rightarrow> string \<Rightarrow> int set" where
  "diff_rows left ds f = (\<Union>d \<in> set ds. case d of Changed ext old g hs \<Rightarrow> if g = f then hunk_rows left hs else {} | _ \<Rightarrow> {})"

text \<open>Rows that do not look like a file header, and clean paths.\<close>

fun anchor_row :: "diff_row \<Rightarrow> bool" where
  "anchor_row (Add t) = (\<not> has_prefix t ''++ '')"
| "anchor_row (Del t) = (\<not> has_prefix t ''-- '')"
| "anchor_row r = True"

definition anchor_ext :: "string \<Rightarrow> bool" where
  "anchor_ext l \<longleftrightarrow> \<not> has_prefix l ''+'' \<and> \<not> has_prefix l ''-'' \<and> \<not> has_prefix l '' '' \<and> \<not> has_prefix l ''@@''"

fun anchor_file :: "file_diff \<Rightarrow> bool" where
  "anchor_file (Changed ext old f hs) = (list_all anchor_ext ext \<and> stripDiffPathPrefix (''b/'' @ f) = f \<and>
     f \<noteq> [] \<and> chomp (''+++ b/'' @ f) = ''+++ b/'' @ f \<and>
     list_all (\<lambda>h. header_ok h \<and> fst (hk_old h) < 2 ^ 63 \<and> list_all anchor_row (hk_rows h)) hs)"
| "anchor_file (Deleted ext old hs) = (list_all anchor_ext ext \<and>
     list_all (\<lambda>h. header_ok h \<and> fst (hk_old h) < 2 ^ 63 \<and> list_all anchor_row (hk_rows h)) hs)"
| "anchor_file (NoText ext) = list_all anchor_ext ext"

subsection \<open>Numbers\<close>

lemma digit_val_digit: "d < 10 \<Longrightarrow> digit_val (char_of (48 + d)) = Some d"
  by (simp add: digit_val_def)

lemma digits_val_append: "digits_val a (xs @ ys) = (case digits_val a xs of None \<Rightarrow> None | Some b \<Rightarrow> digits_val b ys)"
  by (induction xs arbitrary: a) (auto split: option.split)

lemma digits_val_nat: "digits_val 0 (nat_digits n) = Some n"
proof (induction n rule: nat_digits.induct)
  case (1 n)
  show ?case
  proof (cases "n < 10")
    case True
    then show ?thesis by (subst nat_digits.simps) (simp add: digit_val_digit)
  next
    case False
    then show ?thesis using 1 digit_val_digit [of "n mod 10"]
      by (subst nat_digits.simps) (simp add: digits_val_append mult_div_mod_eq)
  qed
qed

lemma atoi_itoa:
  assumes "0 \<le> n" and "n < 2 ^ 63"
  shows "atoi_value (itoa n) = n"
proof -
  have d: "list_all is_digit (itoa n)" "itoa n \<noteq> []" using itoa_digits [OF assms(1)] by auto
  then obtain c cs where c: "itoa n = c # cs" by (cases "itoa n") auto
  have "\<not> is_digit CHR ''-''" "\<not> is_digit CHR ''+''" by code_simp+
  then have "c \<noteq> CHR ''-''" "c \<noteq> CHR ''+''" using d c by auto
  moreover have "digits_val 0 (itoa n) = Some (nat n)" using assms by (simp add: itoa_def digits_val_nat)
  ultimately have "atoi (itoa n) = Some n" using assms by (simp add: atoi_def c)
  then show ?thesis by (simp add: atoi_value_def)
qed

subsection \<open>One line\<close>

lemma chomp_last: "chomp s = (if s \<noteq> [] \<and> last s = char_of (13 :: nat) then butlast s else s)"
proof (cases s rule: rev_cases)
  case (snoc t c)
  then show ?thesis by (auto simp: chomp_def trim_suffix_def has_suffix_iff)
qed (simp add: chomp_def trim_suffix_def has_suffix_iff)

lemma chomp_Cons: "c \<noteq> char_of (13 :: nat) \<Longrightarrow> chomp (c # t) = c # chomp t"
  by (simp add: chomp_last)

lemma chomp_append: "a \<noteq> [] \<Longrightarrow> last a \<noteq> char_of (13 :: nat) \<Longrightarrow> chomp (a @ t) = a @ chomp t"
  by (auto simp: chomp_last last_append butlast_append)

lemma chomp_prefix: "has_prefix (chomp t) p \<Longrightarrow> has_prefix t p"
  by (auto simp: chomp_last has_prefix_iff split: if_splits) (metis append.assoc append_butlast_last_id)

definition marks :: "(string, (int, bool) gomap) gomap \<Rightarrow> string \<Rightarrow> int set" where
  "marks m f = {n. mget False (mget [] m f) n}"

lemma marks_set: "marks (set_anchor f n m) g = marks m g \<union> (if g = f then {n} else {})"
  by (auto simp: marks_def set_anchor_def)

lemma marks_ensure: "marks (ensure_path f m) g = marks m g"
  by (auto simp: marks_def ensure_path_def mget_def split: option.splits)

lemma allows_marks:
  "anchor_allows d path line side \<longleftrightarrow> path \<noteq> [] \<and> 0 < line \<and>
     line \<in> marks (if to_lower side = ''left'' then an_left d else an_right d) path"
  by (auto simp: anchor_allows_def marks_def mget_def split: option.splits)

text \<open>What one step adds on both sides.\<close>

definition adds :: "string \<Rightarrow> int set \<Rightarrow> int set \<Rightarrow> anchor_scan \<Rightarrow> anchor_scan \<Rightarrow> bool" where
  "adds f R L st st' \<longleftrightarrow> (\<forall>g. marks (an_right (as_anchors st')) g = marks (an_right (as_anchors st)) g \<union> (if g = f then R else {})) \<and>
     (\<forall>g. marks (an_left (as_anchors st')) g = marks (an_left (as_anchors st)) g \<union> (if g = f then L else {}))"

lemma adds_refl: "adds f {} {} st st"
  by (simp add: adds_def)

lemma adds_trans: "adds f R L st st' \<Longrightarrow> adds f R' L' st' st'' \<Longrightarrow> adds f (R \<union> R') (L \<union> L') st st''"
  by (simp add: adds_def Un_assoc)

definition in_file :: "string \<Rightarrow> anchor_scan \<Rightarrow> bool" where
  "in_file f st \<longleftrightarrow> as_path st = f \<and> as_inHunk st"

lemma row_chars: "CHR '' '' \<noteq> char_of (13 :: nat)" "CHR ''+'' \<noteq> char_of (13 :: nat)" "CHR ''-'' \<noteq> char_of (13 :: nat)"
  "chomp (row_line NoEol) = row_line NoEol" "(char_of (92 :: nat) :: char) \<notin> set ''+-@ ''"
  by code_simp+

lemma line_of_rows:
  assumes "as_inHunk st"
  shows "anchor_line (CHR '' '' # t) st = st\<lparr>as_anchors := anchor_left st (anchor_right st (as_anchors st)),
      as_new := as_new st + 1, as_old := as_old st + 1\<rparr>"
    and "\<not> has_prefix t ''++ '' \<Longrightarrow>
      anchor_line (CHR ''+'' # t) st = st\<lparr>as_anchors := anchor_right st (as_anchors st), as_new := as_new st + 1\<rparr>"
    and "\<not> has_prefix t ''-- '' \<Longrightarrow>
      anchor_line (CHR ''-'' # t) st = st\<lparr>as_anchors := anchor_left st (as_anchors st), as_old := as_old st + 1\<rparr>"
    and "anchor_line (row_line NoEol) st = st"
  using assms row_chars(5) by (simp_all add: anchor_line_def has_prefix_def)

lemma adds_rows:
  "adds (as_path st) {as_new st} {as_old st} st (st\<lparr>as_anchors := anchor_left st (anchor_right st (as_anchors st)), as_new := n, as_old := k\<rparr>)"
  "adds (as_path st) {as_new st} {} st (st\<lparr>as_anchors := anchor_right st (as_anchors st), as_new := n\<rparr>)"
  "adds (as_path st) {} {as_old st} st (st\<lparr>as_anchors := anchor_left st (as_anchors st), as_old := k\<rparr>)"
  by (simp_all add: adds_def anchor_left_def anchor_right_def marks_set)

lemma anchor_row_step:
  assumes "in_file f st" and "anchor_row r"
  shows "\<exists>st'. anchor_line (chomp (row_line r)) st = st' \<and> in_file f st' \<and>
    adds f (right_rows (as_new st) [r]) (left_rows (as_old st) [r]) st st' \<and>
    (\<forall>rs. right_rows (as_new st) (r # rs) = right_rows (as_new st) [r] \<union> right_rows (as_new st') rs \<and>
       left_rows (as_old st) (r # rs) = left_rows (as_old st) [r] \<union> left_rows (as_old st') rs)"
proof -
  have f: "f = as_path st" and h: "as_inHunk st" using assms(1) by (simp_all add: in_file_def)
  show ?thesis
  proof (cases r)
    case (Ctx t)
    have e: "anchor_line (chomp (row_line r)) st = st\<lparr>as_anchors := anchor_left st (anchor_right st (as_anchors st)),
        as_new := as_new st + 1, as_old := as_old st + 1\<rparr>"
      by (simp only: Ctx row_line.simps chomp_Cons [OF row_chars(1)] line_of_rows(1) [OF h])
    show ?thesis unfolding e f using h adds_rows(1) [of st]
      by (intro exI [of _ "st\<lparr>as_anchors := anchor_left st (anchor_right st (as_anchors st)),
        as_new := as_new st + 1, as_old := as_old st + 1\<rparr>"]) (simp add: in_file_def Ctx)
  next
    case (Add t)
    then have p: "\<not> has_prefix (chomp t) ''++ ''" using assms(2) chomp_prefix by auto
    have e: "anchor_line (chomp (row_line r)) st = st\<lparr>as_anchors := anchor_right st (as_anchors st), as_new := as_new st + 1\<rparr>"
      by (simp only: Add row_line.simps chomp_Cons [OF row_chars(2)] line_of_rows(2) [OF h p])
    show ?thesis unfolding e f using h adds_rows(2) [of st]
      by (intro exI [of _ "st\<lparr>as_anchors := anchor_right st (as_anchors st), as_new := as_new st + 1\<rparr>"]) (simp add: in_file_def Add)
  next
    case (Del t)
    then have p: "\<not> has_prefix (chomp t) ''-- ''" using assms(2) chomp_prefix by auto
    have e: "anchor_line (chomp (row_line r)) st = st\<lparr>as_anchors := anchor_left st (as_anchors st), as_old := as_old st + 1\<rparr>"
      by (simp only: Del row_line.simps chomp_Cons [OF row_chars(3)] line_of_rows(3) [OF h p])
    show ?thesis unfolding e f using h adds_rows(3) [of st]
      by (intro exI [of _ "st\<lparr>as_anchors := anchor_left st (as_anchors st), as_old := as_old st + 1\<rparr>"]) (simp add: in_file_def Del)
  next
    case NoEol
    have e: "anchor_line (chomp (row_line r)) st = st" by (simp only: NoEol row_chars(4) line_of_rows(4) [OF h])
    show ?thesis unfolding e using assms(1) by (intro exI [of _ st]) (simp add: NoEol adds_refl)
  qed
qed

lemma anchor_rows:
  "in_file f st \<Longrightarrow> list_all anchor_row rows \<Longrightarrow>
   \<exists>st'. fold anchor_line (map (\<lambda>r. chomp (row_line r)) rows) st = st' \<and> in_file f st' \<and>
     adds f (right_rows (as_new st) rows) (left_rows (as_old st) rows) st st'"
proof (induction rows arbitrary: st)
  case (Cons r rows)
  have r: "anchor_row r" using Cons.prems(2) by simp
  obtain st1 where st1: "anchor_line (chomp (row_line r)) st = st1" "in_file f st1"
    "adds f (right_rows (as_new st) [r]) (left_rows (as_old st) [r]) st st1"
    "right_rows (as_new st) (r # rows) = right_rows (as_new st) [r] \<union> right_rows (as_new st1) rows"
    "left_rows (as_old st) (r # rows) = left_rows (as_old st) [r] \<union> left_rows (as_old st1) rows"
    using anchor_row_step [OF Cons.prems(1), of r] r by metis
  define st2 where "st2 = fold anchor_line (map (\<lambda>r. chomp (row_line r)) rows) st1"
  have "in_file f st2" "adds f (right_rows (as_new st1) rows) (left_rows (as_old st1) rows) st1 st2"
    using Cons.IH [OF st1(2)] Cons.prems by (simp_all add: st2_def)
  then show ?case using adds_trans [OF st1(3)] by (simp add: st1(1,4,5) st2_def [symmetric])
qed (simp add: adds_refl)

subsection \<open>Hunks and files\<close>

lemma chomp_header: "chomp (hunk_header h) = hunk_header (h\<lparr>hk_heading := chomp (hk_heading h)\<rparr>)"
proof -
  define pre where "pre = ''@@ -'' @ range_text (hk_old h) @ '' +'' @ range_text (hk_new h) @ '' @@''"
  have "hunk_header h = pre @ hk_heading h" and "pre \<noteq> []" and "last pre = CHR ''@''"
    by (simp_all add: hunk_header_def pre_def)
  moreover have "CHR ''@'' \<noteq> char_of (13 :: nat)" by code_simp
  moreover have "hunk_header (h\<lparr>hk_heading := t\<rparr>) = pre @ t" for t by (simp add: hunk_header_def pre_def)
  ultimately show ?thesis by (simp add: chomp_append)
qed

lemma anchor_header_matches:
  assumes "header_ok h"
  shows "\<exists>m. FindStringSubmatch consolidatorHunkHeaderRe (hunk_header h) = Some m \<and>
    m 1 = itoa (fst (hk_old h)) \<and> m 2 = itoa (fst (hk_new h))"
proof -
  obtain o1 o2 n1 n2 where h: "hk_old h = (o1, o2)" "hk_new h = (n1, n2)" by fastforce
  have nn: "0 \<le> o1" "0 \<le> o2" "0 \<le> n1" "0 \<le> n2" using assms by (simp_all add: header_ok_def h)
  define rest where "rest = hk_heading h"
  define tl where "tl = '' +'' @ itoa n1 @ length_text n2 @ '' @@'' @ rest"
  have e: "hunk_header h = ''@@ -'' @ itoa o1 @ length_text o2 @ tl" by (simp add: header_text [OF h] tl_def rest_def)
  obtain s where s: "tl = CHR '' '' # s" by (simp add: tl_def)
  obtain l where l: "rx_first (RSeqs [RLit '' +'', RGroup 2 digits_rx, length_rx, RLit '' @@''])
      (rev (length_text o2) @ rev (itoa o1) @ rev ''@@ -'', tl, [(1, itoa o1)]) = Some (l, rest, [(2, itoa n1), (1, itoa o1)])"
    using first_new_range [OF nn(3,4), of 2] unfolding tl_def by blast
  have "rx_first consolidatorHunkHeaderRe ([], hunk_header h, []) = Some (l, rest, [(2, itoa n1), (1, itoa o1)])"
    unfolding consolidatorHunkHeaderRe_def length_rx_def [symmetric] e
    apply (rule first_RSeqs_Cons [where t = "([], ''@@ -'' @ itoa o1 @ length_text o2 @ tl, [])"])
     apply (simp add: rx_first_def)
    apply (rule first_RSeqs_Cons [OF first_RLit])
    apply (rule first_RSeqs_Cons [OF first_RGroup [OF first_digits [OF nn(1)]]])
     apply (use length_text_stop s in simp)
    apply (rule first_RSeqs_Cons [where t = "(rev (length_text o2) @ rev (itoa o1) @ rev ''@@ -'', tl, [(1, itoa o1)])"])
     apply (use first_length [OF nn(2)] s in simp)
    apply (rule l)
    done
  then show ?thesis using FindStringSubmatch_begin by (fastforce simp: rx_groups_def h)
qed

lemma anchor_header:
  assumes "header_ok h" and "fst (hk_old h) < 2 ^ 63"
  shows "anchor_line (chomp (hunk_header h)) st =
    st\<lparr>as_old := fst (hk_old h), as_new := fst (hk_new h), as_inHunk := (as_path st \<noteq> [])\<rparr>"
proof -
  define h' where "h' = h\<lparr>hk_heading := chomp (hk_heading h)\<rparr>"
  have "set (chomp t) \<subseteq> set t" for t by (auto simp: chomp_last dest: in_set_butlastD)
  then have "header_ok h'" using assms(1) by (auto simp: header_ok_def h'_def)
  then obtain m where m: "FindStringSubmatch consolidatorHunkHeaderRe (hunk_header h') = Some m"
      "m 1 = itoa (fst (hk_old h))" "m 2 = itoa (fst (hk_new h))"
    using anchor_header_matches [of h'] by (auto simp: h'_def)
  have "\<not> has_prefix (hunk_header h') ''+++ ''" "\<not> has_prefix (hunk_header h') ''--- ''" "has_prefix (hunk_header h') ''@@''"
    by (simp_all add: hunk_header_def has_prefix_def)
  moreover have "chomp (hunk_header h) = hunk_header h'" by (simp add: chomp_header h'_def)
  moreover have "0 \<le> fst (hk_old h)" "0 \<le> fst (hk_new h)" "fst (hk_new h) < 2 ^ 63"
    using assms(1) by (simp_all add: header_ok_def)
  ultimately show ?thesis using m assms(2) by (simp add: anchor_line_def atoi_itoa)
qed

lemma anchor_hunk:
  assumes "as_path st = f" and "f \<noteq> []" and "header_ok h" and "fst (hk_old h) < 2 ^ 63" and "list_all anchor_row (hk_rows h)"
  shows "\<exists>st'. fold anchor_line (map chomp (hunk_lines h)) st = st' \<and> as_path st' = f \<and>
    adds f (right_rows (fst (hk_new h)) (hk_rows h)) (left_rows (fst (hk_old h)) (hk_rows h)) st st'"
proof -
  define st1 where "st1 = st\<lparr>as_old := fst (hk_old h), as_new := fst (hk_new h), as_inHunk := True\<rparr>"
  have "in_file f st1" using assms(1) by (simp add: in_file_def st1_def)
  from anchor_rows [OF this assms(5)] obtain st' where "fold anchor_line (map (\<lambda>r. chomp (row_line r)) (hk_rows h)) st1 = st'"
    "in_file f st'" "adds f (right_rows (as_new st1) (hk_rows h)) (left_rows (as_old st1) (hk_rows h)) st1 st'" by blast
  then show ?thesis using assms(1,2) anchor_header [OF assms(3,4), of st]
    by (auto simp: hunk_lines_def st1_def in_file_def adds_def comp_def)
qed

lemma adds_scan: "adds f R L (st\<lparr>as_path := p, as_inHunk := b\<rparr>) st' = adds f R L st st'"
  by (simp add: adds_def)

lemma anchor_hunks:
  "as_path st = f \<Longrightarrow> f \<noteq> [] \<Longrightarrow>
   list_all (\<lambda>h. header_ok h \<and> fst (hk_old h) < 2 ^ 63 \<and> list_all anchor_row (hk_rows h)) hs \<Longrightarrow>
   \<exists>st'. fold anchor_line (map chomp (concat (map hunk_lines hs))) st = st' \<and>
     adds f (hunk_rows False hs) (hunk_rows True hs) st st'"
proof (induction hs arbitrary: st)
  case (Cons h hs)
  have h: "header_ok h" "fst (hk_old h) < 2 ^ 63" "list_all anchor_row (hk_rows h)" using Cons.prems(3) by simp_all
  obtain st1 where st1: "fold anchor_line (map chomp (hunk_lines h)) st = st1" "as_path st1 = f"
      "adds f (right_rows (fst (hk_new h)) (hk_rows h)) (left_rows (fst (hk_old h)) (hk_rows h)) st st1"
    using anchor_hunk [OF Cons.prems(1,2) h] by blast
  obtain st2 where "fold anchor_line (map chomp (concat (map hunk_lines hs))) st1 = st2"
      "adds f (hunk_rows False hs) (hunk_rows True hs) st1 st2"
    using Cons.IH [OF st1(2) Cons.prems(2)] Cons.prems(3) by auto
  then show ?case using adds_trans [OF st1(3)] by (simp add: st1(1) hunk_rows_def)
qed (simp add: adds_refl hunk_rows_def)

lemma row_outside: "\<not> as_inHunk st \<Longrightarrow> anchor_row r \<Longrightarrow> anchor_line (chomp (row_line r)) st = st"
proof (cases r)
  case (Add t)
  assume "\<not> as_inHunk st" "anchor_row r"
  moreover from this have "\<not> has_prefix (chomp t) ''++ ''" using chomp_prefix by (auto simp: Add)
  ultimately show ?thesis by (simp add: Add chomp_Cons row_chars anchor_line_def has_prefix_def)
next
  case (Del t)
  assume "\<not> as_inHunk st" "anchor_row r"
  moreover from this have "\<not> has_prefix (chomp t) ''-- ''" using chomp_prefix by (auto simp: Del)
  ultimately show ?thesis by (simp add: Del chomp_Cons row_chars anchor_line_def has_prefix_def)
next
  case (Ctx t)
  assume "\<not> as_inHunk st"
  then show ?thesis by (simp add: Ctx chomp_Cons row_chars anchor_line_def has_prefix_def)
next
  case NoEol
  assume "\<not> as_inHunk st"
  then show ?thesis using row_chars(5) by (simp only: NoEol row_chars(4)) (simp add: anchor_line_def has_prefix_def)
qed

lemma hunks_outside:
  "as_path st = [] \<Longrightarrow>
   list_all (\<lambda>h. header_ok h \<and> fst (hk_old h) < 2 ^ 63 \<and> list_all anchor_row (hk_rows h)) hs \<Longrightarrow>
   as_anchors (fold anchor_line (map chomp (concat (map hunk_lines hs))) st) = as_anchors st"
proof (induction hs arbitrary: st)
  case (Cons h hs)
  define st1 where "st1 = st\<lparr>as_old := fst (hk_old h), as_new := fst (hk_new h), as_inHunk := False\<rparr>"
  have rows: "list_all anchor_row rs \<Longrightarrow> fold anchor_line (map (\<lambda>r. chomp (row_line r)) rs) st1 = st1" for rs
    by (induction rs) (simp_all add: row_outside st1_def)
  have "fold anchor_line (map chomp (hunk_lines h)) st = st1"
    using Cons.prems rows [of "hk_rows h"] by (simp add: hunk_lines_def anchor_header st1_def comp_def)
  then show ?case using Cons by (simp add: st1_def)
qed simp

lemma ext_line: "anchor_ext l \<Longrightarrow> anchor_line (chomp l) st = st"
proof -
  assume l: "anchor_ext l"
  have "\<not> has_prefix (chomp l) ''+''" "\<not> has_prefix (chomp l) ''-''" "\<not> has_prefix (chomp l) '' ''" "\<not> has_prefix (chomp l) ''@@''"
    using l chomp_prefix by (auto simp: anchor_ext_def)
  then show ?thesis by (auto simp: anchor_line_def has_prefix_iff)
qed

lemma ext_lines: "list_all anchor_ext ls \<Longrightarrow> fold anchor_line (map chomp ls) st = st"
  by (induction ls arbitrary: st) (simp_all add: ext_line)

lemma old_name: "anchor_line (chomp (''--- '' @ old)) st = st\<lparr>as_inHunk := False\<rparr>"
  using chomp_append [of "''--- ''" old] row_chars(1) by (simp add: anchor_line_def has_prefix_def)

lemma new_name:
  assumes "stripDiffPathPrefix (''b/'' @ f) = f" and "f \<noteq> []" and "chomp (''+++ b/'' @ f) = ''+++ b/'' @ f"
  shows "\<exists>st'. anchor_line (chomp (''+++ b/'' @ f)) st = st' \<and> as_path st' = f \<and> adds f {} {} st st'"
proof -
  have t: "trim_prefix (''+++ b/'' @ f) ''+++ '' = ''b/'' @ f" by (simp add: trim_prefix_def has_prefix_def)
  have "has_prefix (''+++ b/'' @ f) ''+++ ''" by (simp add: has_prefix_def)
  then show ?thesis unfolding assms(3) using assms(1,2)
    by (simp add: anchor_line_def t Let_def adds_def marks_ensure del: append.simps)
qed

lemma null_name:
  "has_prefix (chomp ''+++ /dev/null'') ''+++ ''" "stripDiffPathPrefix (trim_prefix (chomp ''+++ /dev/null'') ''+++ '') = []"
  by code_simp+

text \<open>What the lines of some files add.\<close>

definition grows :: "file_diff list \<Rightarrow> anchor_scan \<Rightarrow> anchor_scan \<Rightarrow> bool" where
  "grows ds st st' \<longleftrightarrow> (\<forall>g. marks (an_right (as_anchors st')) g = marks (an_right (as_anchors st)) g \<union> diff_rows False ds g \<and>
     marks (an_left (as_anchors st')) g = marks (an_left (as_anchors st)) g \<union> diff_rows True ds g)"

lemma anchor_one_file:
  assumes "anchor_file d"
  shows "grows [d] st (fold anchor_line (map chomp (file_lines d)) st)"
proof (cases d)
  case (Changed ext old f hs)
  have a: "list_all anchor_ext ext" "stripDiffPathPrefix (''b/'' @ f) = f" "f \<noteq> []" "chomp (''+++ b/'' @ f) = ''+++ b/'' @ f"
    "list_all (\<lambda>h. header_ok h \<and> fst (hk_old h) < 2 ^ 63 \<and> list_all anchor_row (hk_rows h)) hs"
    using assms by (simp_all add: Changed del: append.simps)
  define st0 where "st0 = st\<lparr>as_inHunk := False\<rparr>"
  obtain st1 where st1: "anchor_line (chomp (''+++ b/'' @ f)) st0 = st1" "as_path st1 = f" "adds f {} {} st0 st1"
    using new_name [OF a(2-4)] by blast
  obtain st2 where st2: "fold anchor_line (map chomp (concat (map hunk_lines hs))) st1 = st2"
      "adds f (hunk_rows False hs) (hunk_rows True hs) st1 st2"
    using anchor_hunks [OF st1(2) a(3,5)] by blast
  have "fold anchor_line (map chomp (file_lines d)) st = st2"
    by (simp add: Changed ext_lines [OF a(1)] old_name st0_def [symmetric] st1(1) st2(1) del: append.simps append_assoc)
  moreover have "adds f (hunk_rows False hs) (hunk_rows True hs) st st2"
    using adds_trans [OF st1(3) st2(2)] by (simp add: adds_def st0_def)
  ultimately show ?thesis by (auto simp: grows_def adds_def diff_rows_def Changed split: if_splits)
next
  case (Deleted ext old hs)
  have a: "list_all anchor_ext ext"
    "list_all (\<lambda>h. header_ok h \<and> fst (hk_old h) < 2 ^ 63 \<and> list_all anchor_row (hk_rows h)) hs"
    using assms by (simp_all add: Deleted)
  have n: "anchor_line (chomp ''+++ /dev/null'') (st\<lparr>as_inHunk := False\<rparr>) = st\<lparr>as_inHunk := False, as_path := []\<rparr>"
    by (simp add: anchor_line_def null_name Let_def)
  have "as_anchors (fold anchor_line (map chomp (file_lines d)) st) = as_anchors st"
    using hunks_outside [of "st\<lparr>as_inHunk := False, as_path := []\<rparr>", OF _ a(2)]
    by (simp add: Deleted ext_lines [OF a(1)] old_name n del: append.simps append_assoc)
  then show ?thesis by (simp add: grows_def diff_rows_def Deleted)
next
  case (NoText ext)
  then show ?thesis using assms by (simp add: ext_lines grows_def diff_rows_def)
qed

lemma anchor_files:
  "list_all anchor_file ds \<Longrightarrow> grows ds st (fold anchor_line (map chomp (diff_lines ds)) st)"
proof (induction ds arbitrary: st)
  case (Cons d ds)
  define st1 where "st1 = fold anchor_line (map chomp (file_lines d)) st"
  have "grows [d] st st1" unfolding st1_def by (rule anchor_one_file) (use Cons.prems in simp)
  moreover have "grows ds st1 (fold anchor_line (map chomp (diff_lines ds)) st1)" using Cons by simp
  ultimately show ?case by (simp add: diff_lines_def st1_def grows_def diff_rows_def Un_assoc)
qed (simp add: diff_lines_def grows_def diff_rows_def)

lemma scan_lines_unlines:
  assumes "list_all (\<lambda>l. nl \<notin> set l \<and> length l < scan_limit) ls"
  shows "scan_lines scan_limit (unlines ls) = map chomp ls"
proof -
  have n: "list_all (\<lambda>l. nl \<notin> set l) ls" and t: "takeWhile (\<lambda>l. length l < scan_limit) ls = ls"
    using assms by (auto simp: list_all_iff)
  have "split_lines (unlines ls) = ls @ [[]]" using split_unlines_append [OF n, of "[]"] by (simp add: split_lines_def)
  then show ?thesis by (simp add: scan_lines_def Let_def t)
qed

lemma anchors_of_diff:
  assumes "list_all anchor_file ds" and "list_all (\<lambda>l. nl \<notin> set l \<and> length l < scan_limit) (diff_lines ds)"
  shows "marks (an_right (parseDiffAnchors (diff_text ds))) f = diff_rows False ds f \<and>
    marks (an_left (parseDiffAnchors (diff_text ds))) f = diff_rows True ds f"
proof (cases "diff_text ds = []")
  case True
  have "parseDiffAnchors (diff_text ds) = as_anchors (fold anchor_line (map chomp (diff_lines ds))
      \<lparr>as_anchors = newDiffAnchors, as_path = [], as_old = 0, as_new = 0, as_inHunk = False\<rparr>)"
    using True by (cases "diff_lines ds") (simp_all add: parseDiffAnchors_def diff_text_def unlines_def)
  then show ?thesis using anchor_files [OF assms(1)] by (simp add: grows_def newDiffAnchors_def marks_def mget_def)
next
  case False
  then have "parseDiffAnchors (diff_text ds) = as_anchors (fold anchor_line (map chomp (diff_lines ds))
      \<lparr>as_anchors = newDiffAnchors, as_path = [], as_old = 0, as_new = 0, as_inHunk = False\<rparr>)"
    using scan_lines_unlines [OF assms(2)] by (simp add: parseDiffAnchors_def diff_text_def)
  then show ?thesis using anchor_files [OF assms(1)] by (simp add: grows_def newDiffAnchors_def marks_def mget_def)
qed

text \<open>A comment can never stand on a line of a deleted file, on neither side and under no name.\<close>

lemma deleted_file_has_no_anchor:
  assumes "anchor_file (Deleted ext old hs)"
    and "list_all (\<lambda>l. nl \<notin> set l \<and> length l < scan_limit) (diff_lines [Deleted ext old hs])"
  shows "\<not> anchor_allows (parseDiffAnchors (diff_text [Deleted ext old hs])) path line side"
  using anchors_of_diff [of "[Deleted ext old hs]" path] assms by (simp add: allows_marks diff_rows_def)

text \<open>
  C33. On the text of a unified diff the consolidator allows exactly the lines of its hunks as
  anchors, in the files that the new side names: a comment on the right side may stand on an
  added or context line under its new number, one on the left side on a removed or context line
  under its old number, and nowhere else; a deleted file has no anchors. The diff's lines are
  shorter than the scanner's 10 MB, its hunk numbers fit in 63 bits, its paths are clean (no tab,
  no surrounding blanks), and none of its removed lines begins with two dashes and a blank and
  none of its added lines with two plus signs and a blank: those print as file headers and end
  the hunk (the finding about \<open>removed_dashes_end_the_hunk\<close>).
\<close>
theorem anchors_are_the_hunk_lines:
  assumes "list_all anchor_file ds" and "list_all (\<lambda>l. nl \<notin> set l \<and> length l < scan_limit) (diff_lines ds)"
  shows "anchor_allows (parseDiffAnchors (diff_text ds)) path line side \<longleftrightarrow>
    path \<noteq> [] \<and> 0 < line \<and> line \<in> diff_rows (to_lower side = ''left'') ds path"
  using anchors_of_diff [OF assms] by (simp add: allows_marks)

theorem anchors_are_the_hunk_lines_witness:
  "anchor_allows (parseDiffAnchors (diff_text sample_diff)) ''x.go'' 5 ''RIGHT'' \<and>
   anchor_allows (parseDiffAnchors (diff_text sample_diff)) ''x.go'' 4 ''LEFT'' \<and>
   \<not> anchor_allows (parseDiffAnchors (diff_text sample_diff)) ''x.go'' 5 ''LEFT''"
proof -
  have "list_all anchor_file sample_diff" by code_simp
  moreover have "list_all (\<lambda>l. nl \<notin> set l \<and> length l < scan_limit) (diff_lines sample_diff)"
  proof -
    have "list_all (\<lambda>l. nl \<notin> set l \<and> length l < 100) (diff_lines sample_diff)" by code_simp
    then show ?thesis by (auto simp: list_all_iff scan_limit_def)
  qed
  ultimately have e: "anchor_allows (parseDiffAnchors (diff_text sample_diff)) p l s \<longleftrightarrow>
    p \<noteq> [] \<and> 0 < l \<and> l \<in> diff_rows (to_lower s = ''left'') sample_diff p" for p l s
    by (rule anchors_are_the_hunk_lines)
  have s: "to_lower ''RIGHT'' \<noteq> ''left''" "to_lower ''LEFT'' = ''left''" by code_simp+
  show ?thesis unfolding e using s by (simp add: diff_rows_def hunk_rows_def sample_diff_def)
qed

end
