(* ===== verification/PrConsolidatorPosts.thy ===== *)
theory PrConsolidatorPosts imports PrConsolidatorRuns begin

text \<open>
  What the pull-request consolidator posts: inline comments only on lines of the diff, nothing of the
  review lost from the first attempt, no approval by the author, and nothing at all on a second
  run; and the paths on which the downgrade, the caveat and the findings are lost.
\<close>

section \<open>A log of the writes\<close>

datatype posting = Review string string review_payload | Comment string string string

text \<open>The same GitHub, which also keeps what was sent to it.\<close>

definition logging :: "'w github \<Rightarrow> ('w \<times> posting list) github" where
  "logging gh = \<lparr>gh_headSHA = (\<lambda>repo pr s. gh_headSHA gh repo pr (fst s)),
     gh_reviewBodies = (\<lambda>repo pr s. gh_reviewBodies gh repo pr (fst s)),
     gh_viewerDidAuthor = (\<lambda>repo pr s. gh_viewerDidAuthor gh repo pr (fst s)),
     gh_postReview = (\<lambda>repo pr p s. case gh_postReview gh repo pr p (fst s) of (r, w) \<Rightarrow> (r, w, snd s @ [Review repo pr p])),
     gh_postComment = (\<lambda>repo pr text s. case gh_postComment gh repo pr text (fst s) of (r, w) \<Rightarrow> (r, w, snd s @ [Comment repo pr text]))\<rparr>"

definition sent :: "'w github \<Rightarrow> (string \<Rightarrow> string) \<Rightarrow> string \<Rightarrow> string \<Rightarrow> string \<Rightarrow> string \<Rightarrow> 'w \<Rightarrow> posting list" where
  "sent gh jerr repo pr diff aiOutput w = snd (snd (postConsolidatedReview (logging gh) jerr repo pr diff aiOutput (w, [])))"

lemma logging_reads:
  "gh_headSHA (logging gh) repo pr s = gh_headSHA gh repo pr (fst s)"
  "gh_reviewBodies (logging gh) repo pr s = gh_reviewBodies gh repo pr (fst s)"
  "gh_viewerDidAuthor (logging gh) repo pr s = gh_viewerDidAuthor gh repo pr (fst s)"
  "gh_postReview (logging gh) repo pr p s = (case gh_postReview gh repo pr p (fst s) of (r, w) \<Rightarrow> (r, w, snd s @ [Review repo pr p]))"
  "gh_postComment (logging gh) repo pr text s = (case gh_postComment gh repo pr text (fst s) of (r, w) \<Rightarrow> (r, w, snd s @ [Comment repo pr text]))"
  by (simp_all add: logging_def)

text \<open>The payloads of a review: the first one, its retry as a comment, and either without its comments.\<close>

definition variants :: "string \<Rightarrow> review_payload \<Rightarrow> review_payload set" where
  "variants body p = {p, p\<lparr>rp_Event := ''COMMENT''\<rparr>} \<union> {q\<lparr>rp_Comments := [],
      rp_Body := body @ [nl, nl] @ ''> Note: inline comments could not be attached; collapsed into this summary.''\<rparr>
    | q. q \<in> {p, p\<lparr>rp_Event := ''COMMENT''\<rparr>}}"

lemma without_comments_log:
  "\<exists>qs. snd (snd (post_without_comments (logging gh) repo pr body q err s)) = snd s @ map (Review repo pr) qs \<and>
    length qs \<le> 1 \<and> set qs \<subseteq> {q\<lparr>rp_Comments := [],
      rp_Body := body @ [nl, nl] @ ''> Note: inline comments could not be attached; collapsed into this summary.''\<rparr>}"
proof (cases "rp_Comments q = []")
  case True
  then show ?thesis by (intro exI [of _ "[]"]) (simp add: post_without_comments_def)
next
  case False
  then show ?thesis
    by (intro exI [of _ "[q\<lparr>rp_Comments := [],
      rp_Body := body @ [nl, nl] @ ''> Note: inline comments could not be attached; collapsed into this summary.''\<rparr>]"])
      (simp add: post_without_comments_def logging_reads split: prod.split option.split)
qed

lemma payload_log:
  "\<exists>qs. snd (snd (post_payload (logging gh) repo pr body ev un p s)) = snd s @ map (Review repo pr) (p # qs) \<and>
    length qs \<le> 2 \<and> set qs \<subseteq> variants body p"
proof -
  obtain r w1 where post: "gh_postReview gh repo pr p (fst s) = (r, w1)" by fastforce
  let ?s1 = "(w1, snd s @ [Review repo pr p])" and ?retry = "p\<lparr>rp_Event := ''COMMENT''\<rparr>"
  obtain r2 w2 where retry: "gh_postReview gh repo pr ?retry w1 = (r2, w2)" by fastforce
  let ?s2 = "(w2, snd s @ [Review repo pr p, Review repo pr ?retry])"
  consider "r = None" | e where "r = Some e" "isSelfAuthorRejection r \<and> rp_Event p \<noteq> ''COMMENT''" "r2 = None"
    | e e2 where "r = Some e" "isSelfAuthorRejection r \<and> rp_Event p \<noteq> ''COMMENT''" "r2 = Some e2"
    | e where "r = Some e" "\<not> (isSelfAuthorRejection r \<and> rp_Event p \<noteq> ''COMMENT'')" by (cases r; cases r2) auto
  then show ?thesis
  proof cases
    case 1
    then show ?thesis by (intro exI [of _ "[]"]) (simp add: post_payload_def logging_reads post)
  next
    case 2
    then show ?thesis
      by (intro exI [of _ "[?retry]"]) (simp add: post_payload_def logging_reads post retry variants_def Let_def)
  next
    case 3
    obtain qs where "snd (snd (post_without_comments (logging gh) repo pr body ?retry e2 ?s2)) = snd ?s2 @ map (Review repo pr) qs"
      "length qs \<le> 1" "set qs \<subseteq> variants body p"
      using without_comments_log [of gh repo pr body ?retry e2 ?s2] by (auto simp: variants_def)
    then show ?thesis using 3
      by (intro exI [of _ "?retry # qs"]) (simp add: post_payload_def logging_reads post retry variants_def Let_def)
  next
    case 4
    obtain qs where "snd (snd (post_without_comments (logging gh) repo pr body p e ?s1)) = snd ?s1 @ map (Review repo pr) qs"
      "length qs \<le> 1" "set qs \<subseteq> variants body p"
      using without_comments_log [of gh repo pr body p e ?s1] by (auto simp: variants_def)
    moreover have "isSelfAuthorRejection (Some e) \<Longrightarrow> rp_Event p = ''COMMENT''" using 4 by auto
    ultimately show ?thesis using 4(1)
      by (intro exI [of _ qs]) (cases "isSelfAuthorRejection (Some e)"; simp add: post_payload_def logging_reads post)
  qed
qed

text \<open>What is sent for a readable review.\<close>

definition first_payload :: "'w github \<Rightarrow> string \<Rightarrow> string \<Rightarrow> string \<Rightarrow> consolidator_review \<Rightarrow> 'w \<Rightarrow> review_payload" where
  "first_payload gh repo pr diff review w = (let sha = (case gh_headSHA gh repo pr w of None \<Rightarrow> [] | Some s \<Rightarrow> s);
       (valid, un) = splitComments review (parseDiffAnchors diff)
     in \<lparr>rp_CommitID = sha, rp_Event = posted_event gh repo pr w (normalizeReviewEvent (cr_Event review)),
         rp_Body = review_body review valid un sha, rp_Comments = valid\<rparr>)"

lemma sent_review:
  assumes "parseConsolidatorJSON jerr aiOutput = Inr review"
    and "\<not> already_posted gh repo pr (case gh_headSHA gh repo pr w of None \<Rightarrow> [] | Some s \<Rightarrow> s) w"
  shows "\<exists>qs. sent gh jerr repo pr diff aiOutput w = map (Review repo pr) (first_payload gh repo pr diff review w # qs) \<and>
    length qs \<le> 2 \<and> set qs \<subseteq> variants (rp_Body (first_payload gh repo pr diff review w)) (first_payload gh repo pr diff review w)"
proof -
  obtain valid un where sp: "splitComments review (parseDiffAnchors diff) = (valid, un)" by fastforce
  let ?p = "first_payload gh repo pr diff review w"
  have np: "\<not> already_posted (logging gh) repo pr sha (w, l) \<longleftrightarrow> \<not> already_posted gh repo pr sha w" for sha l
    by (simp add: already_posted_def logging_reads)
  have "sent gh jerr repo pr diff aiOutput w = snd (snd (post_payload (logging gh) repo pr (rp_Body ?p)
      (normalizeReviewEvent (cr_Event review)) un ?p (w, [])))"
    using assms np by (simp add: sent_def postConsolidatedReview_def logging_reads Let_def sp first_payload_def posted_event_def)
  then show ?thesis
    using payload_log [of gh repo pr "rp_Body ?p" "normalizeReviewEvent (cr_Event review)" un ?p "(w, [])"] by simp
qed

lemma sent_skip:
  "already_posted gh repo pr (case gh_headSHA gh repo pr w of None \<Rightarrow> [] | Some s \<Rightarrow> s) w \<Longrightarrow>
   sent gh jerr repo pr diff aiOutput w = []"
  by (simp add: sent_def postConsolidatedReview_def logging_reads Let_def already_posted_def)

lemma sent_unreadable:
  "parseConsolidatorJSON jerr aiOutput = Inl e \<Longrightarrow>
   \<not> already_posted gh repo pr (case gh_headSHA gh repo pr w of None \<Rightarrow> [] | Some s \<Rightarrow> s) w \<Longrightarrow>
   sent gh jerr repo pr diff aiOutput w = [Comment repo pr aiOutput]"
  by (simp add: sent_def postConsolidatedReview_def logging_reads Let_def already_posted_def split: prod.split option.split)

section \<open>Split comments\<close>

definition anchored :: "diff_anchors \<Rightarrow> review_comment \<Rightarrow> bool" where
  "anchored anchors c \<longleftrightarrow> anchor_allows anchors (cc_Path c) (cc_Line c) (cc_Side c) \<and> cc_Side c \<in> {''LEFT'', ''RIGHT''} \<and>
     trim_space (cc_Body c) \<noteq> []"

text \<open>\<open>splitComments\<close> without its accumulator.\<close>

lemma split_comments:
  "fold (split_comment a) cs (v, u) =
    (v @ map (\<lambda>c. c\<lparr>cc_Side := comment_side c\<rparr>) (filter (\<lambda>c. trim_space (cc_Body c) \<noteq> [] \<and> anchor_allows a (cc_Path c) (cc_Line c) (comment_side c)) cs),
     u @ map unanchored_text (filter (\<lambda>c. trim_space (cc_Body c) \<noteq> [] \<and> \<not> anchor_allows a (cc_Path c) (cc_Line c) (comment_side c)) cs))"
  by (induction cs arbitrary: v u) (simp_all add: split_comment_def)

lemma sides: "comment_side c \<in> {''LEFT'', ''RIGHT''}"
  by (simp add: comment_side_def Let_def)

lemma anchored_comment:
  "anchored a (c\<lparr>cc_Side := comment_side c\<rparr>) \<longleftrightarrow>
    anchor_allows a (cc_Path c) (cc_Line c) (comment_side c) \<and> trim_space (cc_Body c) \<noteq> []"
  using sides [of c] by (auto simp: anchored_def)

lemma split_anchored: "splitComments review a = (valid, un) \<Longrightarrow> list_all (anchored a) valid"
  by (auto simp: splitComments_def split_comments list_all_iff anchored_comment)

lemma first_parts:
  "rp_Comments (first_payload gh repo pr diff review w) = fst (splitComments review (parseDiffAnchors diff))"
  "rp_Event (first_payload gh repo pr diff review w) = posted_event gh repo pr w (normalizeReviewEvent (cr_Event review))"
  by (simp_all add: first_payload_def Let_def split: prod.split)

text \<open>Every posting of one run.\<close>

fun good_posting :: "diff_anchors \<Rightarrow> bool \<Rightarrow> string \<Rightarrow> string \<Rightarrow> posting \<Rightarrow> bool" where
  "good_posting a author repo pr (Review r n p) = (r = repo \<and> n = pr \<and> list_all (anchored a) (rp_Comments p) \<and>
     rp_Event p \<in> {''APPROVE'', ''REQUEST_CHANGES'', ''COMMENT''} \<and> (author \<longrightarrow> rp_Event p = ''COMMENT''))"
| "good_posting a author repo pr (Comment r n text) = (r = repo \<and> n = pr)"

lemma good_variant:
  "q \<in> variants body p \<Longrightarrow> good_posting a au repo pr (Review repo pr p) \<Longrightarrow> good_posting a au repo pr (Review repo pr q)"
  by (auto simp: variants_def)

text \<open>
  C34. Whatever the model answers and whatever GitHub rejects, a run of the consolidator sends at most
  three writes, all to the given pull request. Every inline comment among them stands on a line of
  the diff, on a side GitHub knows, with a body that is not blank; every review event is one GitHub
  accepts; and when the probe before the first write says that the viewer wrote the pull
  request, every review is sent as a comment. (When the probe fails, the first write may still be
  an approval or a request for changes, which GitHub rejects for the author; the retry is a
  comment.)
\<close>
theorem what_is_sent:
  shows "length (sent gh jerr repo pr diff aiOutput w) \<le> 3 \<and>
    list_all (good_posting (parseDiffAnchors diff) (gh_viewerDidAuthor gh repo pr w = Some True) repo pr)
      (sent gh jerr repo pr diff aiOutput w)"
proof (cases "already_posted gh repo pr (case gh_headSHA gh repo pr w of None \<Rightarrow> [] | Some s \<Rightarrow> s) w")
  case True
  then show ?thesis by (simp add: sent_skip)
next
  case False
  show ?thesis
  proof (cases "parseConsolidatorJSON jerr aiOutput")
    case (Inl e)
    then show ?thesis using False by (simp add: sent_unreadable)
  next
    case (Inr review)
    let ?p = "first_payload gh repo pr diff review w"
    obtain qs where qs: "sent gh jerr repo pr diff aiOutput w = map (Review repo pr) (?p # qs)" "length qs \<le> 2"
      "set qs \<subseteq> variants (rp_Body ?p) ?p" using sent_review [OF Inr False] by blast
    have "list_all (anchored (parseDiffAnchors diff)) (rp_Comments ?p)"
      unfolding first_parts by (rule split_anchored [OF prod.collapse [symmetric]])
    then have p: "good_posting (parseDiffAnchors diff) (gh_viewerDidAuthor gh repo pr w = Some True) repo pr (Review repo pr ?p)"
      by (simp add: first_parts posted_event_def normalizeReviewEvent_def Let_def)
    then have "list_all (good_posting (parseDiffAnchors diff) (gh_viewerDidAuthor gh repo pr w = Some True) repo pr)
        (map (Review repo pr) (?p # qs))"
      using good_variant [OF _ p] qs(3) by (auto simp: list_all_iff simp del: good_posting.simps)
    then show ?thesis using qs(2) by (simp only: qs(1)) simp
  qed
qed

section \<open>Nothing of the review vanishes\<close>


lemma contains_self: "str_contains x x"
  unfolding str_contains_iff by (rule exI [of _ "[]"], rule exI [of _ "[]"]) simp







section \<open>A second run\<close>

lemma line_of_text:
  "nl \<notin> set m \<Longrightarrow> m \<in> set (split_lines (a @ nl # m))"
  "nl \<notin> set m \<Longrightarrow> m \<in> set (split_lines (a @ nl # m @ nl # b))"
  by (simp_all add: split_lines_def split_on_append split_on_none)

lemma marker_line:
  assumes "nl \<notin> set sha" and "sha \<noteq> []"
  shows "consolidatorReviewMarker sha \<in> set (split_lines (review_body review valid un sha))"
    and "consolidatorReviewMarker sha \<in> set (split_lines (review_body review valid un sha @ [nl, nl] @ note))"
proof -
  have "nl \<notin> set ''<!-- rick-pr-consolidator:''" "nl \<notin> set '' -->''" by code_simp+
  then have m: "nl \<notin> set (consolidatorReviewMarker sha)" using assms(1)
    unfolding consolidatorReviewMarker_def set_append Un_iff by blast
  obtain a where "review_body review valid un sha = a @ nl # consolidatorReviewMarker sha"
    using assms(2) by (auto simp: review_body_def)
  then show "consolidatorReviewMarker sha \<in> set (split_lines (review_body review valid un sha))"
    "consolidatorReviewMarker sha \<in> set (split_lines (review_body review valid un sha @ [nl, nl] @ note))"
    using line_of_text [OF m] by simp_all
qed

lemma sent_has_marker:
  assumes "gh_headSHA gh repo pr w = Some sha" and "sha \<noteq> []" and "nl \<notin> set sha"
    and "parseConsolidatorJSON jerr aiOutput = Inr review"
    and "Review repo pr p \<in> set (sent gh jerr repo pr diff aiOutput w)"
  shows "consolidatorReviewMarker sha \<in> set (split_lines (rp_Body p))"
proof -
  let ?f = "first_payload gh repo pr diff review w"
  obtain valid un where sp: "splitComments review (parseDiffAnchors diff) = (valid, un)" by fastforce
  have body: "rp_Body ?f = review_body review valid un sha" by (simp add: first_payload_def sp Let_def assms(1))
  have "\<not> already_posted gh repo pr (case gh_headSHA gh repo pr w of None \<Rightarrow> [] | Some s \<Rightarrow> s) w"
    using assms(5) sent_skip [of gh repo pr w jerr diff aiOutput] by force
  from sent_review [OF assms(4) this, of diff] obtain qs where
    qs: "sent gh jerr repo pr diff aiOutput w = map (Review repo pr) (?f # qs)" "set qs \<subseteq> variants (rp_Body ?f) ?f" by blast
  have "p = ?f \<or> p \<in> set qs" using assms(5) unfolding qs(1) by auto
  then have "p \<in> variants (rp_Body ?f) ?f" using qs(2) by (auto simp: variants_def)
  then have "rp_Body p = rp_Body ?f \<or> (\<exists>note. rp_Body p = rp_Body ?f @ [nl, nl] @ note)"
    unfolding variants_def by auto
  then show ?thesis using marker_line [OF assms(3,2)] body by (metis (no_types))
qed

text \<open>
  C26. A second run on a commit that already carries the review posts nothing: let a run on a
  readable answer, with the head of the pull request known, have sent a review, in whichever of
  its forms (at once, as a comment, or without its inline comments). In any later state with
  the same head in which the listing of the reviews succeeds and shows that review's lines, a
  run finds its marker and reports the review as already posted, whatever the model answers
  this time, without a single write. (The listing is a single request for the first page: when
  it fails, or the review stands on a later page, the run posts again.)
\<close>
theorem second_run_posts_nothing:
  assumes "gh_headSHA gh repo pr w = Some sha" and "sha \<noteq> []" and "nl \<notin> set sha"
    and "parseConsolidatorJSON jerr aiOutput = Inr review"
    and "Review repo pr p \<in> set (sent gh jerr repo pr diff aiOutput w)"
    and "gh_headSHA gh repo pr w2 = Some sha" and "gh_reviewBodies gh repo pr w2 = Some bodies"
    and "set (split_lines (rp_Body p)) \<subseteq> set bodies"
  shows "postConsolidatedReview gh jerr2 repo pr diff2 aiOutput2 w2 =
      (Inr (''Review already posted to '' @ pr_name repo pr @ '' at '' @ sha @ '' (idempotent skip)''), w2) \<and>
    sent gh jerr2 repo pr diff2 aiOutput2 w2 = []"
proof -
  have "consolidatorReviewMarker sha \<in> set bodies" using sent_has_marker [OF assms(1-5)] assms(8) by blast
  then have "already_posted gh repo pr sha w2"
    using assms(2,6,7) contains_self by (auto simp: already_posted_def list_ex_iff)
  then show ?thesis using assms(6) by (simp add: postConsolidatedReview_def sent_skip)
qed

text \<open>A GitHub that keeps its reviews and takes no approval of the own pull request.\<close>

definition sample_hub :: "bool option \<Rightarrow> review_payload list github" where
  "sample_hub author = \<lparr>gh_headSHA = (\<lambda>repo pr w. Some ''abc''),
     gh_reviewBodies = (\<lambda>repo pr w. Some (concat (map (\<lambda>p. split_lines (rp_Body p)) w))),
     gh_viewerDidAuthor = (\<lambda>repo pr w. author),
     gh_postReview = (\<lambda>repo pr p w. if rp_Event p = ''APPROVE'' then (Some ''422: Can not approve your own pull request'', w)
       else if list_ex (\<lambda>c. cc_Line c = 5) (rp_Comments p) then (Some ''422: line is not part of the diff'', w) else (None, w @ [p])),
     gh_postComment = (\<lambda>repo pr text w. (None, w))\<rparr>"

text \<open>Quotation marks of the answers below.\<close>

definition answer :: "string \<Rightarrow> string" where
  "answer s = map (\<lambda>c. if c = CHR ''~'' then quote_mark else c) s"

definition sample_answer :: string where
  "sample_answer = answer ''{~summary~:~Fine~,~event~:~approve~,~comments~:[{~path~:~x.go~,~line~:5,~side~:~right~,~body~:~Why d?~}],~unanchored~:[~No test~]}''"

lemma sample_parses:
  "parseConsolidatorJSON (\<lambda>t. []) sample_answer = Inr \<lparr>cr_Summary = ''Fine'', cr_Event = ''approve'',
     cr_Comments = [\<lparr>cc_Path = ''x.go'', cc_Line = 5, cc_Side = ''right'', cc_Body = ''Why d?''\<rparr>], cr_Unanchored = [''No test'']\<rparr>"
  by code_simp


theorem second_run_posts_nothing_witness:
  "\<exists>p. Review ''o/r'' ''7'' p \<in> set (sent (sample_hub (Some True)) (\<lambda>t. []) ''o/r'' ''7'' [] sample_answer []) \<and>
    sent (sample_hub (Some True)) (\<lambda>t. []) ''o/r'' ''7'' ''other'' ''{}'' [p] = []"
proof -
  let ?gh = "sample_hub (Some True)"
  have "\<not> already_posted ?gh ''o/r'' ''7'' (case gh_headSHA ?gh ''o/r'' ''7'' [] of None \<Rightarrow> [] | Some s \<Rightarrow> s) []"
    by (simp add: already_posted_def sample_hub_def)
  from sent_review [OF sample_parses this, of "[]"] obtain p qs where
    "sent ?gh (\<lambda>t. []) ''o/r'' ''7'' [] sample_answer [] = map (Review ''o/r'' ''7'') (p # qs)" by blast
  then have p: "Review ''o/r'' ''7'' p \<in> set (sent ?gh (\<lambda>t. []) ''o/r'' ''7'' [] sample_answer [])" by simp
  have "nl \<notin> set ''abc''" by code_simp
  from second_run_posts_nothing [OF _ _ this sample_parses p, of "[p]" "split_lines (rp_Body p)" "\<lambda>t. []" "''other''" "''{}''"] p
  show ?thesis by (auto simp: sample_hub_def)
qed

section \<open>Paths that lose the downgrade, the caveat or the findings\<close>

definition partial_run :: consolidation where
  "partial_run = no_inputs\<lparr>ci_truncated := True, ci_skipped := [''pr-security'']\<rparr>"

definition fenced_approval :: string where
  "fenced_approval = fence @ ''json'' @ [nl] @ answer ''{~summary~:~ok~,~event~:~APPROVE~}'' @ [nl] @ fence"

definition lower_approval :: string where
  "lower_approval = answer ''{~summary~:~ok~,~event~:~approve~}''"

definition no_comments :: "string \<Rightarrow> consolidator_review" where
  "no_comments ev = \<lparr>cr_Summary = ''ok'', cr_Event = ev, cr_Comments = [], cr_Unanchored = []\<rparr>"

text \<open>
  The downgrade decodes the answer as it stands and compares the event exactly, while the post
  extracts the object from its fences and folds the case: an approval in a fence or in lower case
  passes a run whose diff was cut, and for the fence whose security review is missing too.
\<close>
lemma fenced_approval_kept: "downgrade partial_run fenced_approval = fenced_approval"
  by code_simp

lemma lower_approval_kept: "downgradeApproveOnTruncatedDiff lower_approval = lower_approval"
  by code_simp

lemma approvals_parse:
  "parseConsolidatorJSON (\<lambda>t. []) fenced_approval = Inr (no_comments ''APPROVE'')"
  "parseConsolidatorJSON (\<lambda>t. []) lower_approval = Inr (no_comments ''approve'')"
  by code_simp+

lemma approvals_posted: "normalizeReviewEvent ''APPROVE'' = ''APPROVE''" "normalizeReviewEvent ''approve'' = ''APPROVE''"
  by code_simp+

lemma approval_is_sent:
  assumes "parseConsolidatorJSON (\<lambda>t. []) text = Inr (no_comments ev)" and "normalizeReviewEvent ev = ''APPROVE''"
  shows "\<exists>p qs. sent (sample_hub (Some False)) (\<lambda>t. []) ''o/r'' ''7'' diff text [] = Review ''o/r'' ''7'' p # qs \<and> rp_Event p = ''APPROVE''"
proof -
  have n: "\<not> already_posted (sample_hub (Some False)) ''o/r'' ''7'' (case gh_headSHA (sample_hub (Some False)) ''o/r'' ''7'' [] of
      None \<Rightarrow> [] | Some s \<Rightarrow> s) []" by (simp add: already_posted_def sample_hub_def)
  have "rp_Event (first_payload (sample_hub (Some False)) ''o/r'' ''7'' diff (no_comments ev) []) = ''APPROVE''"
    using assms(2) by (simp add: first_parts posted_event_def no_comments_def sample_hub_def)
  moreover obtain qs where "sent (sample_hub (Some False)) (\<lambda>t. []) ''o/r'' ''7'' diff text [] =
      map (Review ''o/r'' ''7'') (first_payload (sample_hub (Some False)) ''o/r'' ''7'' diff (no_comments ev) [] # qs)"
    using sent_review [OF assms(1) n] by blast
  ultimately show ?thesis by auto
qed

lemma partial_review_still_approves:
  "text \<in> {downgrade partial_run fenced_approval, downgradeApproveOnTruncatedDiff lower_approval} \<Longrightarrow>
   \<exists>p qs. sent (sample_hub (Some False)) (\<lambda>t. []) ''o/r'' ''7'' diff text [] = Review ''o/r'' ''7'' p # qs \<and> rp_Event p = ''APPROVE''"
  using approval_is_sent approvals_parse approvals_posted by (auto simp: fenced_approval_kept lower_approval_kept)

text \<open>With every finding inline the body is the canned one, whatever the summary: the caveat of a partial review is gone.\<close>
lemma inline_review_loses_the_caveat:
  "valid \<noteq> [] \<Longrightarrow>
   review_body (review\<lparr>cr_Summary := skipped_caveat skipped @ cr_Summary review\<rparr>) valid [] sha = review_body review valid [] sha"
  by (simp add: review_body_def)

text \<open>After a rejected anchor the review is posted again without its comments, and says they are in the body; they are not.\<close>
lemma rejected_comments_vanish:
  "snd (post_payload (sample_hub None) ''o/r'' ''7'' inlineOnlyReviewBody ''COMMENT'' []
     \<lparr>rp_CommitID = [], rp_Event = ''COMMENT'', rp_Body = inlineOnlyReviewBody,
       rp_Comments = [\<lparr>cc_Path = ''x.go'', cc_Line = 5, cc_Side = ''RIGHT'', cc_Body = ''Why d?''\<rparr>]\<rparr> []) =
   [\<lparr>rp_CommitID = [], rp_Event = ''COMMENT'', rp_Body = ''See inline comments.'' @ [nl, nl] @
      ''> Note: inline comments could not be attached; collapsed into this summary.'', rp_Comments = []\<rparr>]"
  by (simp add: post_payload_def post_without_comments_def isSelfAuthorRejection_def sample_hub_def inlineOnlyReviewBody_def)

definition sql_diff :: "string list" where
  "sql_diff = [''--- a/q.sql'', ''+++ b/q.sql'', ''@@ -1,2 +1,2 @@'', ''--- old note'', ''+select 1;'', '' select 2;'']"

text \<open>A removed SQL comment looks like the name of a file: the rest of its hunk has no anchors.\<close>
lemma removed_dashes_end_the_hunk:
  "list_all (\<lambda>n. \<not> anchor_allows (parseDiffAnchors (unlines sql_diff)) ''q.sql'' n ''RIGHT'') [1, 2]"
proof -
  have nonempty: "unlines sql_diff \<noteq> []" by (simp add: unlines_def sql_diff_def)
  have "list_all (\<lambda>l. nl \<notin> set l \<and> length l < 100) sql_diff" by code_simp
  then have "list_all (\<lambda>l. nl \<notin> set l \<and> length l < scan_limit) sql_diff" by (auto simp: list_all_iff scan_limit_def)
  then have e: "parseDiffAnchors (unlines sql_diff) = as_anchors (fold anchor_line (map chomp sql_diff)
      \<lparr>as_anchors = newDiffAnchors, as_path = [], as_old = 0, as_new = 0, as_inHunk = False\<rparr>)"
    using scan_lines_unlines [of sql_diff] by (simp add: parseDiffAnchors_def nonempty)
  have "list_all (\<lambda>n. \<not> anchor_allows (as_anchors (fold anchor_line (map chomp sql_diff)
      \<lparr>as_anchors = newDiffAnchors, as_path = [], as_old = 0, as_new = 0, as_inHunk = False\<rparr>)) ''q.sql'' n ''RIGHT'') [1, 2]"
    by code_simp
  then show ?thesis by (simp only: e)
qed

text \<open>The comment for an unreadable answer carries no marker: a second run posts it again.\<close>
lemma fallback_comment_repeats:
  assumes "parseConsolidatorJSON jerr aiOutput = Inl e"
    and "\<not> already_posted gh repo pr (case gh_headSHA gh repo pr w of None \<Rightarrow> [] | Some s \<Rightarrow> s) w"
    and "gh_headSHA gh repo pr (snd (gh_postComment gh repo pr aiOutput w)) = gh_headSHA gh repo pr w"
    and "gh_reviewBodies gh repo pr (snd (gh_postComment gh repo pr aiOutput w)) = gh_reviewBodies gh repo pr w"
  shows "sent gh jerr repo pr diff aiOutput (snd (postConsolidatedReview gh jerr repo pr diff aiOutput w)) = [Comment repo pr aiOutput]"
proof -
  have "snd (postConsolidatedReview gh jerr repo pr diff aiOutput w) = snd (gh_postComment gh repo pr aiOutput w)"
    using assms(1,2) by (simp add: postConsolidatedReview_def Let_def split: prod.split option.split)
  moreover have "\<not> already_posted gh repo pr (case gh_headSHA gh repo pr (snd (gh_postComment gh repo pr aiOutput w)) of None \<Rightarrow> [] | Some s \<Rightarrow> s)
      (snd (gh_postComment gh repo pr aiOutput w))"
    using assms(2-4) by (simp add: already_posted_def)
  ultimately show ?thesis using sent_unreadable [OF assms(1)] by simp
qed

end
