(* ===== verification/PrCommentPoster.thy ===== *)
theory PrCommentPoster imports PrConsolidator Sha256 begin

text \<open>
  \<open>internal/handler/pr_comment_poster.go\<close>: the handler that posts what a composer wrote, as one comment
  and replies on review threads. GitHub is a record of functions on a state of its own, \<open>None\<close> the
  handler without a client.
\<close>

section \<open>The client and the handler\<close>

record issue_comment =
  ic_Login :: string
  ic_Body :: string

record thread_comment =
  tc_InReplyTo :: int
  tc_Login :: string
  tc_Body :: string

text \<open>A write gives the id of the comment or an error; \<open>GetAuthenticatedUser\<close> may also give no user.\<close>

record 'w pr_client =
  pc_CreatePRComment :: "string \<Rightarrow> string \<Rightarrow> int \<Rightarrow> string \<Rightarrow> 'w \<Rightarrow> (string + int) \<times> 'w"
  pc_CreateReply :: "string \<Rightarrow> string \<Rightarrow> int \<Rightarrow> int \<Rightarrow> string \<Rightarrow> 'w \<Rightarrow> (string + int) \<times> 'w"
  pc_GetIssueComments :: "string \<Rightarrow> string \<Rightarrow> int \<Rightarrow> 'w \<Rightarrow> issue_comment list option"
  pc_GetReviewComments :: "string \<Rightarrow> string \<Rightarrow> int \<Rightarrow> 'w \<Rightarrow> thread_comment list option"
  pc_GetUser :: "'w \<Rightarrow> string option option"

text \<open>\<open>po_bot\<close> is \<open>None\<close> until the login was asked for.\<close>

record poster =
  po_name :: string
  po_upstream :: string
  po_kind :: string
  po_bot :: "string option"

definition NewPRCommentPoster :: "string \<Rightarrow> string \<Rightarrow> string \<Rightarrow> poster" where
  "NewPRCommentPoster name upstream kind = \<lparr>po_name = name, po_upstream = upstream, po_kind = kind, po_bot = None\<rparr>"

definition ensureBotLogin :: "'w pr_client \<Rightarrow> 'w \<Rightarrow> poster \<Rightarrow> string \<times> poster" where
  "ensureBotLogin c w h = (case po_bot h of Some login \<Rightarrow> (login, h)
     | None \<Rightarrow> (let login = (case pc_GetUser c w of Some (Some l) \<Rightarrow> l | _ \<Rightarrow> []) in (login, h\<lparr>po_bot := Some login\<rparr>)))"

section \<open>Duplicates\<close>

definition hashBody :: "string \<Rightarrow> string" where
  "hashBody body = hex_encode (sha256 body)"

definition duplicateIssueHash :: "issue_comment list \<Rightarrow> string \<Rightarrow> bool" where
  "duplicateIssueHash comments target = list_ex (\<lambda>c. hashBody (trim_space (ic_Body c)) = target) comments"

definition duplicateReviewReplyHash :: "thread_comment list \<Rightarrow> int \<Rightarrow> string \<Rightarrow> bool" where
  "duplicateReviewReplyHash comments rootID target =
     list_ex (\<lambda>c. tc_InReplyTo c = rootID \<and> hashBody (trim_space (tc_Body c)) = target) comments"

definition authorRepliedOnThread :: "thread_comment list \<Rightarrow> int \<Rightarrow> string \<Rightarrow> bool" where
  "authorRepliedOnThread comments rootID botLogin =
     (botLogin \<noteq> [] \<and> list_ex (\<lambda>c. tc_InReplyTo c = rootID \<and> tc_Login c = botLogin) comments)"

definition authorPostedIssueComment :: "issue_comment list \<Rightarrow> string \<Rightarrow> bool" where
  "authorPostedIssueComment comments botLogin = (botLogin \<noteq> [] \<and> list_ex (\<lambda>c. ic_Login c = botLogin) comments)"

record poster_history =
  ph_summary :: bool
  ph_legacy :: bool
  ph_replies :: "int set"

definition no_history :: poster_history where
  "no_history = \<lparr>ph_summary = False, ph_legacy = False, ph_replies = {}\<rparr>"

definition poster_source :: "string \<Rightarrow> string" where
  "poster_source name = ''handler:'' @ name"

definition note_posted :: "string \<Rightarrow> envelope \<Rightarrow> poster_history \<Rightarrow> poster_history" where
  "note_posted name e h = (if e_Type e \<noteq> PRCommentPosted \<or> e_Source e \<noteq> poster_source name then h
     else case as_comment (e_Payload e) of None \<Rightarrow> h
     | Some p \<Rightarrow> if cm_Skipped p then h
         else if cm_Kind p = ''summary'' then h\<lparr>ph_summary := True\<rparr>
         else if cm_Kind p = ''inline-reply'' then
           (if cm_InReplyToID p \<noteq> 0 then h\<lparr>ph_replies := insert (cm_InReplyToID p) (ph_replies h)\<rparr> else h)
         else if cm_Kind p = ''reply'' then h\<lparr>ph_legacy := True\<rparr> else h)"

definition loadPosterHistory :: "envelope list \<Rightarrow> string \<Rightarrow> poster_history" where
  "loadPosterHistory events name = fold (note_posted name) events no_history"

section \<open>Input\<close>

record inline_reply =
  il_CommentID :: int
  il_Body :: string

record replier_payload =
  rl_Summary :: string
  rl_InlineReplies :: "inline_reply list"

definition reply_element :: "string \<times> json \<Rightarrow> inline_reply option" where
  "reply_element e = (case object_members (snd e) of None \<Rightarrow> None
     | Some ms \<Rightarrow> (case (int_field ms ''comment_id'', string_field ms ''body'') of
         (Some n, Some b) \<Rightarrow> Some \<lparr>il_CommentID = n, il_Body = b\<rparr> | _ \<Rightarrow> None))"

definition parseReplierJSON :: "string \<Rightarrow> replier_payload option" where
  "parseReplierJSON body = (let t = trim_space body in
     if \<not> has_prefix t ''{'' then None
     else case json_parse t of None \<Rightarrow> None
     | Some v \<Rightarrow> (case object_members v of None \<Rightarrow> None
       | Some ms \<Rightarrow> (case (string_field ms ''summary'', list_field reply_element ms ''inline_replies'') of
           (Some s, Some rs) \<Rightarrow> Some \<lparr>rl_Summary = s, rl_InlineReplies = (case rs of None \<Rightarrow> [] | Some l \<Rightarrow> l)\<rparr>
         | _ \<Rightarrow> None)))"

definition read_poster_input :: "string \<Rightarrow> envelope \<Rightarrow> string \<times> string \<Rightarrow> string \<times> string" where
  "read_poster_input upstream e = (\<lambda>(source, body).
     if e_Type e = WorkflowRequested then (case as_requested (e_Payload e) of None \<Rightarrow> (source, body)
         | Some p \<Rightarrow> (wr_Source p, body))
     else if e_Type e = AIResponseReceived then
       (if e_Source e \<noteq> poster_source upstream then (source, body)
        else case as_ai_response (e_Payload e) of None \<Rightarrow> (source, body)
        | Some p \<Rightarrow> (source, unmarshalOutput (ar_Output p) (ar_Structured p)))
     else (source, body))"

definition extractPosterInputs :: "envelope list \<Rightarrow> string \<Rightarrow> string + string \<times> string" where
  "extractPosterInputs events upstream = (case fold (read_poster_input upstream) events ([], []) of (source, body) \<Rightarrow>
     if source = [] then Inl ''no WorkflowRequested event found in correlation''
     else if body = [] then Inl (''no AIResponseReceived from upstream '' @ go_quote upstream)
     else Inr (source, body))"

definition splitOwnerRepo :: "string \<Rightarrow> (string \<times> string) option" where
  "splitOwnerRepo fullRepo = (case cut_at slash fullRepo of None \<Rightarrow> None
     | Some (owner, repo) \<Rightarrow> if owner = [] \<or> repo = [] then None else Some (owner, repo))"

section \<open>Posting\<close>

text \<open>The pull request: its full name, owner, repository and number.\<close>

record pull_request =
  pq_full :: string
  pq_owner :: string
  pq_repo :: string
  pq_number :: int

text \<open>\<open>k\<close> counts the events that were built before.\<close>

definition postedEvent :: "runtime \<Rightarrow> nat \<Rightarrow> poster \<Rightarrow> string \<Rightarrow> pull_request \<Rightarrow> string \<Rightarrow> int \<Rightarrow> int \<Rightarrow> bool \<Rightarrow> envelope" where
  "postedEvent rt k h kind q bodyHash commentID inReplyToID skipped =
     WithSource (poster_source (po_name h)) (NewEnv rt k PRCommentPosted 1 (PCommentPosted
       \<lparr>cm_Repo = pq_full q, cm_PRNumber = pq_number q, cm_Kind = kind, cm_CommentID = commentID,
        cm_InReplyToID = inReplyToID, cm_BodyHash = bodyHash, cm_Skipped = skipped\<rparr>))"

text \<open>
  The comment that stands for itself. \<open>postSummary\<close> and \<open>postLegacyPlain\<close> differ in the kind, in the
  part of the history they ask and in the text of the error.
\<close>

definition post_top ::
    "runtime \<Rightarrow> nat \<Rightarrow> 'w pr_client option \<Rightarrow> pull_request \<Rightarrow> string \<Rightarrow> string \<Rightarrow> bool \<Rightarrow> string \<Rightarrow> poster \<times> 'w \<Rightarrow>
     (string + envelope list) \<times> poster \<times> 'w" where
  "post_top rt k client q kind what seen body = (\<lambda>(h, w).
     let bodyHash = hashBody body; skip = Inr [postedEvent rt k h kind q bodyHash 0 0 True]
     in if seen then (skip, h, w)
        else case client of None \<Rightarrow> (skip, h, w)
        | Some c \<Rightarrow> (case ensureBotLogin c w h of (botLogin, h1) \<Rightarrow>
            let dup = (case pc_GetIssueComments c (pq_owner q) (pq_repo q) (pq_number q) w of None \<Rightarrow> False
              | Some existing \<Rightarrow> duplicateIssueHash existing bodyHash \<or> authorPostedIssueComment existing botLogin)
            in if dup then (skip, h1, w)
               else case pc_CreatePRComment c (pq_owner q) (pq_repo q) (pq_number q) body w of
                 (Inl err, w1) \<Rightarrow> (Inl (po_name h @ '': '' @ what @ '': '' @ err), h1, w1)
               | (Inr commentID, w1) \<Rightarrow> (Inr [postedEvent rt k h kind q bodyHash commentID 0 False], h1, w1)))"

definition postSummary ::
    "runtime \<Rightarrow> nat \<Rightarrow> 'w pr_client option \<Rightarrow> pull_request \<Rightarrow> poster_history \<Rightarrow> string \<Rightarrow> poster \<times> 'w \<Rightarrow>
     (string + envelope list) \<times> poster \<times> 'w" where
  "postSummary rt k client q history body = post_top rt k client q ''summary'' ''create PR summary comment'' (ph_summary history) body"

definition postLegacyPlain ::
    "runtime \<Rightarrow> 'w pr_client option \<Rightarrow> pull_request \<Rightarrow> poster_history \<Rightarrow> string \<Rightarrow> poster \<times> 'w \<Rightarrow>
     (string + envelope list) \<times> poster \<times> 'w" where
  "postLegacyPlain rt client q history body s =
     post_top rt 0 client q (po_kind (fst s)) ''create pr comment'' (ph_legacy history) body s"

definition postInlineReply ::
    "runtime \<Rightarrow> nat \<Rightarrow> 'w pr_client option \<Rightarrow> pull_request \<Rightarrow> poster_history \<Rightarrow> int \<Rightarrow> string \<Rightarrow> poster \<times> 'w \<Rightarrow>
     (string + envelope) \<times> poster \<times> 'w" where
  "postInlineReply rt k client q history rootID body = (\<lambda>(h, w).
     let bodyHash = hashBody body; skip = Inr (postedEvent rt k h ''inline-reply'' q bodyHash 0 rootID True)
     in if rootID \<in> ph_replies history then (skip, h, w)
        else case client of None \<Rightarrow> (skip, h, w)
        | Some c \<Rightarrow> (case ensureBotLogin c w h of (botLogin, h1) \<Rightarrow>
            let dup = (case pc_GetReviewComments c (pq_owner q) (pq_repo q) (pq_number q) w of None \<Rightarrow> False
              | Some existing \<Rightarrow> duplicateReviewReplyHash existing rootID bodyHash \<or> authorRepliedOnThread existing rootID botLogin)
            in if dup then (skip, h1, w)
               else case pc_CreateReply c (pq_owner q) (pq_repo q) (pq_number q) rootID body w of
                 (Inl err, w1) \<Rightarrow> (Inl (po_name h @ '': reply on comment '' @ itoa rootID @ '': '' @ err), h1, w1)
               | (Inr replyID, w1) \<Rightarrow> (Inr (postedEvent rt k h ''inline-reply'' q bodyHash replyID rootID False), h1, w1)))"

text \<open>A Go result of events and an error: both may be there.\<close>

type_synonym 'w post_state = "(envelope list \<times> string option) \<times> poster \<times> 'w"

definition keep_first :: "string option \<Rightarrow> string \<Rightarrow> string option" where
  "keep_first e err = (case e of None \<Rightarrow> Some err | Some e' \<Rightarrow> Some e')"

definition reply_step ::
    "runtime \<Rightarrow> 'w pr_client option \<Rightarrow> pull_request \<Rightarrow> poster_history \<Rightarrow> inline_reply \<Rightarrow> 'w post_state \<Rightarrow> 'w post_state" where
  "reply_step rt client q history r = (\<lambda>((out, e), s). let body = trim_space (il_Body r) in
     if il_CommentID r = 0 \<or> body = [] then ((out, e), s)
     else case postInlineReply rt (length out) client q history (il_CommentID r) body s of
       (Inr evt, s') \<Rightarrow> ((out @ [evt], e), s')
     | (Inl err, s') \<Rightarrow> ((out, keep_first e err), s'))"

definition postStructured ::
    "runtime \<Rightarrow> 'w pr_client option \<Rightarrow> pull_request \<Rightarrow> replier_payload \<Rightarrow> poster_history \<Rightarrow> poster \<times> 'w \<Rightarrow> 'w post_state" where
  "postStructured rt client q payload history s = (let summary = trim_space (rl_Summary payload) in
     if summary = [] \<and> rl_InlineReplies payload = []
     then (([postedEvent rt 0 (fst s) ''summary'' q [] 0 0 True], None), s)
     else fold (reply_step rt client q history) (rl_InlineReplies payload)
       (if summary = [] then (([], None), s)
        else case postSummary rt 0 client q history summary s of
          (Inr evts, s') \<Rightarrow> ((evts, None), s') | (Inl err, s') \<Rightarrow> (([], Some err), s')))"

definition post_body ::
    "runtime \<Rightarrow> 'w pr_client option \<Rightarrow> pull_request \<Rightarrow> string \<Rightarrow> poster_history \<Rightarrow> poster \<times> 'w \<Rightarrow> 'w post_state" where
  "post_body rt client q body history s = (case parseReplierJSON body of
      Some payload \<Rightarrow> postStructured rt client q payload history s
    | None \<Rightarrow> (case postLegacyPlain rt client q history body s of
        (Inr evts, s') \<Rightarrow> ((evts, None), s') | (Inl err, s') \<Rightarrow> (([], Some err), s')))"

definition poster_Handle ::
    "runtime \<Rightarrow> 'w pr_client option \<Rightarrow> (string + envelope list) \<Rightarrow> envelope \<Rightarrow> poster \<times> 'w \<Rightarrow> 'w post_state" where
  "poster_Handle rt client loaded env s = (let h = fst s; fail = (\<lambda>err. (([], Some (po_name h @ '': '' @ err)), s)) in
     if e_CorrelationID env = [] then fail ''missing correlation id''
     else case loaded of Inl err \<Rightarrow> fail (''load correlation chain: '' @ err)
     | Inr events \<Rightarrow> (case extractPosterInputs events (po_upstream h) of Inl err \<Rightarrow> fail err
       | Inr (source, body0) \<Rightarrow> (case parsePRSource source of Inl err \<Rightarrow> fail (''parse source '' @ go_quote source @ '': '' @ err)
         | Inr (fullRepo, number) \<Rightarrow> (case atoi number of None \<Rightarrow> fail (''invalid pr number '' @ go_quote number @ '': strconv.Atoi: parsing '' @ go_quote number @ '': value out of range'')
           | Some n \<Rightarrow> (case splitOwnerRepo fullRepo of
               None \<Rightarrow> fail (''invalid repo '' @ go_quote fullRepo @ '' (expected owner/repo)'')
             | Some (owner, repo) \<Rightarrow> (let body = trim_space body0 in
                 if body = [] then fail (''upstream '' @ po_upstream h @ '' produced empty body'')
                 else post_body rt client \<lparr>pq_full = fullRepo, pq_owner = owner, pq_repo = repo, pq_number = n\<rparr> body
                   (loadPosterHistory events (po_name h)) s))))))"

end
