(* ===== verification/PrCommentPosterRuns.thy ===== *)
theory PrCommentPosterRuns imports PrCommentPoster begin

text \<open>
  What the comment poster guarantees across the runs of one correlation: once its events are
  stored, no thread gets a second reply and the pull request no second comment of the same kind;
  and the cases in which it does.
\<close>

section \<open>A log of the writes that went through\<close>

datatype written = WTop string | WReply int string

definition note_write :: "written \<Rightarrow> (string + int) \<times> 'w \<Rightarrow> written list \<Rightarrow> (string + int) \<times> 'w \<times> written list" where
  "note_write x r ws = (case r of (Inl err, w) \<Rightarrow> (Inl err, w, ws) | (Inr n, w) \<Rightarrow> (Inr n, w, ws @ [x]))"

definition recording :: "'w pr_client \<Rightarrow> ('w \<times> written list) pr_client" where
  "recording c = \<lparr>
     pc_CreatePRComment = (\<lambda>owner repo n body s. note_write (WTop body) (pc_CreatePRComment c owner repo n body (fst s)) (snd s)),
     pc_CreateReply = (\<lambda>owner repo n t body s. note_write (WReply t body) (pc_CreateReply c owner repo n t body (fst s)) (snd s)),
     pc_GetIssueComments = (\<lambda>owner repo n s. pc_GetIssueComments c owner repo n (fst s)),
     pc_GetReviewComments = (\<lambda>owner repo n s. pc_GetReviewComments c owner repo n (fst s)),
     pc_GetUser = (\<lambda>s. pc_GetUser c (fst s))\<rparr>"

lemma recording_writes:
  "pc_CreatePRComment (recording c) owner repo n body s = note_write (WTop body) (pc_CreatePRComment c owner repo n body (fst s)) (snd s)"
  "pc_CreateReply (recording c) owner repo n t body s = note_write (WReply t body) (pc_CreateReply c owner repo n t body (fst s)) (snd s)"
  by (simp_all add: recording_def)

definition threads :: "written list \<Rightarrow> int set" where
  "threads ws = {t. \<exists>b. WReply t b \<in> set ws}"

definition tops :: "written list \<Rightarrow> nat" where
  "tops ws = length (filter (\<lambda>x. case x of WTop b \<Rightarrow> True | _ \<Rightarrow> False) ws)"

lemma log_simps [simp]:
  "threads [] = {}" "threads (a @ b) = threads a \<union> threads b" "tops [] = 0" "tops (a @ b) = tops a + tops b"
  "threads [WTop x] = {}" "threads [WReply t x] = {t}" "tops [WTop x] = 1" "tops [WReply t x] = 0"
  by (auto simp: threads_def tops_def)

section \<open>Events and history\<close>

definition posted_event_of :: "string \<Rightarrow> string \<Rightarrow> int \<Rightarrow> envelope \<Rightarrow> bool" where
  "posted_event_of name kind t e \<longleftrightarrow> e_Type e = PRCommentPosted \<and> e_Source e = poster_source name \<and>
     (case as_comment (e_Payload e) of None \<Rightarrow> False
      | Some p \<Rightarrow> \<not> cm_Skipped p \<and> cm_Kind p = kind \<and> cm_InReplyToID p = t)"

lemma postedEvent_is:
  "posted_event_of (po_name h) kind t (postedEvent rt k h kind q hash cid t False)"
  by (simp add: posted_event_of_def postedEvent_def env_builders as_comment_def)

lemma note_posted_grows:
  "ph_summary h \<Longrightarrow> ph_summary (note_posted name e h)" "ph_legacy h \<Longrightarrow> ph_legacy (note_posted name e h)"
  "t \<in> ph_replies h \<Longrightarrow> t \<in> ph_replies (note_posted name e h)"
  by (auto simp: note_posted_def split: option.splits)

lemma notes_grow:
  "ph_summary h \<Longrightarrow> ph_summary (fold (note_posted name) es h)" "ph_legacy h \<Longrightarrow> ph_legacy (fold (note_posted name) es h)"
  "t \<in> ph_replies h \<Longrightarrow> t \<in> ph_replies (fold (note_posted name) es h)"
  by (induction es arbitrary: h) (auto intro: note_posted_grows)

lemma note_posted_new:
  "posted_event_of name ''summary'' t e \<Longrightarrow> ph_summary (note_posted name e h)"
  "posted_event_of name ''reply'' t e \<Longrightarrow> ph_legacy (note_posted name e h)"
  "posted_event_of name ''inline-reply'' t e \<Longrightarrow> t \<noteq> 0 \<Longrightarrow> t \<in> ph_replies (note_posted name e h)"
  by (auto simp: posted_event_of_def note_posted_def split: option.splits)

lemma history_has:
  assumes "e \<in> set events"
  shows "posted_event_of name ''summary'' t e \<Longrightarrow> ph_summary (loadPosterHistory events name)"
    and "posted_event_of name ''reply'' t e \<Longrightarrow> ph_legacy (loadPosterHistory events name)"
    and "posted_event_of name ''inline-reply'' t e \<Longrightarrow> t \<noteq> 0 \<Longrightarrow> t \<in> ph_replies (loadPosterHistory events name)"
proof -
  obtain a b where "events = a @ e # b" using assms by (auto simp: in_set_conv_decomp)
  then have "loadPosterHistory events name = fold (note_posted name) b (note_posted name e (fold (note_posted name) a no_history))"
    by (simp add: loadPosterHistory_def)
  then show "posted_event_of name ''summary'' t e \<Longrightarrow> ph_summary (loadPosterHistory events name)"
    "posted_event_of name ''reply'' t e \<Longrightarrow> ph_legacy (loadPosterHistory events name)"
    "posted_event_of name ''inline-reply'' t e \<Longrightarrow> t \<noteq> 0 \<Longrightarrow> t \<in> ph_replies (loadPosterHistory events name)"
    using note_posted_new notes_grow by metis+
qed

section \<open>One post\<close>

lemma bot_keeps: "ensureBotLogin c w h = (login, h') \<Longrightarrow> po_name h' = po_name h \<and> po_kind h' = po_kind h"
  by (auto simp: ensureBotLogin_def Let_def split: option.splits)

lemma top_outcome:
  assumes "post_top rt k (Some (recording c)) q kind what seen body (h, w, ws) = (r, h', w', ws')"
  shows "po_name h' = po_name h \<and> po_kind h' = po_kind h \<and>
    (ws' = ws \<or> \<not> seen \<and> ws' = ws @ [WTop body] \<and> (\<exists>e. r = Inr [e] \<and> posted_event_of (po_name h) kind 0 e))"
proof -
  obtain login h1 where b: "ensureBotLogin (recording c) (w, ws) h = (login, h1)" by fastforce
  obtain x w1 where p: "pc_CreatePRComment c (pq_owner q) (pq_repo q) (pq_number q) body w = (x, w1)" by fastforce
  show ?thesis using assms bot_keeps [OF b] postedEvent_is [of h kind 0 rt k q]
    by (auto simp: post_top_def Let_def b recording_writes note_write_def p split: if_splits sum.splits option.splits)
qed

lemma reply_outcome:
  assumes "postInlineReply rt k (Some (recording c)) q history t body (h, w, ws) = (r, h', w', ws')"
  shows "po_name h' = po_name h \<and> po_kind h' = po_kind h \<and>
    (ws' = ws \<or> t \<notin> ph_replies history \<and> ws' = ws @ [WReply t body] \<and>
      (\<exists>e. r = Inr e \<and> posted_event_of (po_name h) ''inline-reply'' t e))"
proof -
  obtain login h1 where b: "ensureBotLogin (recording c) (w, ws) h = (login, h1)" by fastforce
  obtain x w1 where p: "pc_CreateReply c (pq_owner q) (pq_repo q) (pq_number q) t body w = (x, w1)" by fastforce
  show ?thesis using assms bot_keeps [OF b] postedEvent_is [of h "''inline-reply''" t rt k q]
    by (auto simp: postInlineReply_def Let_def b recording_writes note_write_def p split: if_splits sum.splits option.splits)
qed

text \<open>What a run may add to the log: replies to open threads only, each with its event.\<close>

definition replies_ok :: "string \<Rightarrow> poster_history \<Rightarrow> envelope list \<Rightarrow> written list \<Rightarrow> bool" where
  "replies_ok name history out ws \<longleftrightarrow> (\<forall>t \<in> threads ws. t \<noteq> 0 \<and> t \<notin> ph_replies history \<and>
     (\<exists>e \<in> set out. posted_event_of name ''inline-reply'' t e))"

lemma reply_step_ok:
  assumes "reply_step rt (Some (recording c)) q history r ((out, e), h, w, ws) = ((out', e'), h', w', ws')"
    and "replies_ok (po_name h) history out ws"
  shows "po_name h' = po_name h \<and> replies_ok (po_name h) history out' ws' \<and> tops ws' = tops ws \<and> set out \<subseteq> set out'"
proof -
  obtain x h1 w1 ws1 where p: "postInlineReply rt (length out) (Some (recording c)) q history (il_CommentID r)
      (trim_space (il_Body r)) (h, w, ws) = (x, h1, w1, ws1)" by (metis prod.collapse)
  show ?thesis using assms reply_outcome [OF p]
    by (auto simp: reply_step_def Let_def p replies_ok_def split: if_splits sum.splits)
qed

lemma reply_steps_ok:
  assumes "fold (reply_step rt (Some (recording c)) q history) rs ((out, e), h, w, ws) = ((out', e'), h', w', ws')"
    and "replies_ok (po_name h) history out ws"
  shows "replies_ok (po_name h) history out' ws' \<and> tops ws' = tops ws \<and> set out \<subseteq> set out'"
  using assms
proof (induction rs arbitrary: out e h w ws)
  case (Cons r rs)
  obtain out1 e1 h1 w1 ws1 where s: "reply_step rt (Some (recording c)) q history r ((out, e), h, w, ws) = ((out1, e1), h1, w1, ws1)"
    by (metis prod.collapse)
  from reply_step_ok [OF s Cons.prems(2)] Cons.IH [of out1 e1 h1 w1 ws1] Cons.prems(1) show ?case
    by (simp add: s) blast
qed simp

text \<open>What a whole run does.\<close>

definition run_ok :: "string \<Rightarrow> string \<Rightarrow> bool \<Rightarrow> poster_history \<Rightarrow> envelope list \<Rightarrow> written list \<Rightarrow> bool" where
  "run_ok name kind structured history out ws \<longleftrightarrow> replies_ok name history out ws \<and>
     (tops ws = 0 \<or> tops ws = 1 \<and> \<not> (if structured then ph_summary history else ph_legacy history) \<and>
       (\<exists>e \<in> set out. posted_event_of name (if structured then ''summary'' else kind) 0 e))"

lemma replies_ok_tops: "replies_ok name history out [WTop b]" "replies_ok name history out []"
  by (simp_all add: replies_ok_def)

lemma structured_ok:
  assumes "postStructured rt (Some (recording c)) q payload history (h, w, []) = ((out, e), h', w', ws)"
  shows "run_ok (po_name h) kind True history out ws"
proof (cases "trim_space (rl_Summary payload) = []")
  case True
  show ?thesis
  proof (cases "rl_InlineReplies payload = []")
    case True
    then show ?thesis using assms \<open>trim_space (rl_Summary payload) = []\<close>
      by (auto simp: postStructured_def run_ok_def replies_ok_def)
  next
    case False
    then have "fold (reply_step rt (Some (recording c)) q history) (rl_InlineReplies payload) (([], None), h, w, []) = ((out, e), h', w', ws)"
      using assms True by (simp add: postStructured_def Let_def)
    from reply_steps_ok [OF this replies_ok_tops(2)] show ?thesis by (simp add: run_ok_def)
  qed
next
  case False
  obtain x h1 w1 ws1 where t: "postSummary rt 0 (Some (recording c)) q history (trim_space (rl_Summary payload)) (h, w, []) = (x, h1, w1, ws1)"
    by (metis prod.collapse)
  define out1 where "out1 = (case x of Inl _ \<Rightarrow> [] | Inr evts \<Rightarrow> evts)"
  define e1 where "e1 = (case x of Inl err \<Rightarrow> Some err | Inr _ \<Rightarrow> None)"
  note to = top_outcome [OF t [unfolded postSummary_def]]
  have "fold (reply_step rt (Some (recording c)) q history) (rl_InlineReplies payload) ((out1, e1), h1, w1, ws1) = ((out, e), h', w', ws)"
    using assms False by (simp add: postStructured_def Let_def t out1_def e1_def split: sum.splits)
  from reply_steps_ok [OF this] have "replies_ok (po_name h) history out ws" "tops ws = tops ws1" "set out1 \<subseteq> set out"
    using to replies_ok_tops by (auto simp: out1_def)
  then show ?thesis using to by (auto simp: run_ok_def out1_def)
qed

lemma body_ok:
  assumes "post_body rt (Some (recording c)) q body history (h, w, []) = ((out, e), h', w', ws)"
  shows "run_ok (po_name h) (po_kind h) (parseReplierJSON body \<noteq> None) history out ws"
proof (cases "parseReplierJSON body")
  case (Some payload)
  then show ?thesis using assms structured_ok [of rt c q payload history h w out e h' w' ws "po_kind h"] by (simp add: post_body_def)
next
  case None
  obtain x h1 w1 ws1 where t: "postLegacyPlain rt (Some (recording c)) q history body (h, w, []) = (x, h1, w1, ws1)"
    by (metis prod.collapse)
  have "post_top rt 0 (Some (recording c)) q (po_kind h) ''create pr comment'' (ph_legacy history) body (h, w, []) = (x, h1, w1, ws1)"
    using t by (simp add: postLegacyPlain_def)
  from top_outcome [OF this] show ?thesis using assms None
    by (auto simp: post_body_def t run_ok_def replies_ok_tops split: sum.splits)
qed

section \<open>Two runs\<close>

definition is_structured :: "envelope list \<Rightarrow> string \<Rightarrow> bool" where
  "is_structured events upstream = (case extractPosterInputs events upstream of Inl _ \<Rightarrow> False
     | Inr (source, body) \<Rightarrow> parseReplierJSON (trim_space body) \<noteq> None)"

lemma handle_ok:
  assumes "poster_Handle rt (Some (recording c)) (Inr events) env (h, w, []) = ((out, e), h', w', ws)"
  shows "run_ok (po_name h) (po_kind h) (is_structured events (po_upstream h)) (loadPosterHistory events (po_name h)) out ws"
proof (cases "ws = []")
  case True
  then show ?thesis by (simp add: run_ok_def replies_ok_def)
next
  case False
  then obtain source body q where x: "extractPosterInputs events (po_upstream h) = Inr (source, body)"
      "post_body rt (Some (recording c)) q (trim_space body) (loadPosterHistory events (po_name h)) (h, w, []) = ((out, e), h', w', ws)"
    using assms by (auto simp: poster_Handle_def Let_def split: if_splits sum.splits option.splits prod.splits)
  then show ?thesis using body_ok [OF x(2)] by (simp add: is_structured_def)
qed

text \<open>Every event of the first run is in the log of the second: type, source and payload.\<close>

definition recorded :: "envelope list \<Rightarrow> envelope list \<Rightarrow> bool" where
  "recorded out events \<longleftrightarrow> (\<forall>e \<in> set out. \<exists>e' \<in> set events. e_Type e' = e_Type e \<and> e_Source e' = e_Source e \<and> e_Payload e' = e_Payload e)"

lemma recorded_posted:
  "recorded out events \<Longrightarrow> \<exists>e \<in> set out. posted_event_of name kind t e \<Longrightarrow> \<exists>e \<in> set events. posted_event_of name kind t e"
  by (fastforce simp: recorded_def posted_event_of_def)

text \<open>
  C27. Across two runs of the poster in one correlation nothing is said twice: when the events of the
  first run are in the log that the second one loads, no thread gets a reply from both, whatever the
  composer wrote the second time; each run writes at most one comment of its own, and two runs of the
  same shape (structured or plain) do not both write one.
\<close>
theorem nothing_is_said_twice:
  assumes "poster_Handle rt (Some (recording c)) (Inr events) env (h, w, []) = ((out, e), h', w', ws)"
    and "poster_Handle rt2 (Some (recording c2)) (Inr events2) env2 (h2, w2, []) = ((out2, e2), h2', w2', ws2)"
    and "po_name h2 = po_name h" and "po_kind h = ''reply''" and "po_kind h2 = ''reply''"
    and "recorded out events2"
  shows "threads ws \<inter> threads ws2 = {} \<and> tops ws \<le> 1 \<and> tops ws2 \<le> 1 \<and>
    (is_structured events (po_upstream h) = is_structured events2 (po_upstream h2) \<longrightarrow> tops ws + tops ws2 \<le> 1)"
proof -
  let ?h = "loadPosterHistory events2 (po_name h)"
  note one = handle_ok [OF assms(1)] and two = handle_ok [OF assms(2), unfolded assms(3)]
  have "t \<notin> threads ws2" if "t \<in> threads ws" for t
  proof -
    have "t \<noteq> 0" "\<exists>e \<in> set out. posted_event_of (po_name h) ''inline-reply'' t e"
      using one that by (auto simp: run_ok_def replies_ok_def)
    then have "t \<in> ph_replies ?h" using recorded_posted [OF assms(6)] history_has(3) by metis
    then show ?thesis using two by (auto simp: run_ok_def replies_ok_def)
  qed
  moreover have "tops ws \<le> 1" "tops ws2 \<le> 1" using one two by (auto simp: run_ok_def)
  moreover have "tops ws2 = 0" if "tops ws = 1" "is_structured events (po_upstream h) = is_structured events2 (po_upstream h2)"
  proof (cases "is_structured events (po_upstream h)")
    case True
    then have "\<exists>e \<in> set out. posted_event_of (po_name h) ''summary'' 0 e" using one that by (simp add: run_ok_def)
    then have "ph_summary ?h" using recorded_posted [OF assms(6)] history_has(1) by metis
    then show ?thesis using two True that(2) by (auto simp: run_ok_def)
  next
    case False
    then have "\<exists>e \<in> set out. posted_event_of (po_name h) ''reply'' 0 e" using one that assms(4) by (simp add: run_ok_def)
    then have "ph_legacy ?h" using recorded_posted [OF assms(6)] history_has(2) by metis
    then show ?thesis using two False that(2) by (auto simp: run_ok_def)
  qed
  ultimately show ?thesis by (auto simp: le_Suc_eq)
qed

text \<open>Two replies and a summary, on a GitHub that lists nothing and rejects replies to thread 9.\<close>

definition poster_rt :: runtime where
  "poster_rt = \<lparr>rt_uid = (\<lambda>n. itoa (int n)), rt_now = 0, rt_getenv = (\<lambda>v. [])\<rparr>"

definition sample_client :: "unit pr_client" where
  "sample_client = \<lparr>pc_CreatePRComment = (\<lambda>owner repo n body w. (Inr 11, w)),
     pc_CreateReply = (\<lambda>owner repo n t body w. if t = 9 then (Inl ''404'', w) else (Inr 12, w)),
     pc_GetIssueComments = (\<lambda>owner repo n w. None), pc_GetReviewComments = (\<lambda>owner repo n w. None),
     pc_GetUser = (\<lambda>w. None)\<rparr>"

definition reply_poster :: poster where
  "reply_poster = NewPRCommentPoster ''pr-reply-poster'' ''pr-replier'' ''reply''"

definition poster_events :: "string \<Rightarrow> envelope list" where
  "poster_events text = [NewEnv poster_rt 0 WorkflowRequested 1 (PWorkflowRequested (zero_requested\<lparr>wr_Source := ''gh:o/r#7''\<rparr>)),
     WithSource ''handler:pr-replier'' (NewEnv poster_rt 1 AIResponseReceived 1 (PAIResponse
       \<lparr>ar_Persona = ''pr-replier'', ar_Backend = [], ar_TokensUsed = 0, ar_DurationMS = 0, ar_Structured = True, ar_Output = text, ar_OutputRaw = []\<rparr>))]"

definition two_replies :: string where
  "two_replies = ''{\"summary\":\"Thanks\",\"inline_replies\":[{\"comment_id\":3,\"body\":\"Done\"},{\"comment_id\":9,\"body\":\"No\"}]}''"

definition poster_run :: "envelope list \<Rightarrow> (envelope list \<times> string option) \<times> poster \<times> unit \<times> written list" where
  "poster_run events = poster_Handle poster_rt (Some (recording sample_client)) (Inr events)
     (WithCorrelation ''c1'' (NewEnv poster_rt 2 PersonaCompleted 1 (POther []))) (reply_poster, (), [])"

lemma poster_source_ref: "parsePRSource ''gh:o/r#7'' = Inr (''o/r'', ''7'')"
  by code_simp

lemma two_replies_parse:
  "trim_space two_replies = two_replies" "two_replies \<noteq> []"
  "parseReplierJSON two_replies = Some \<lparr>rl_Summary = ''Thanks'',
     rl_InlineReplies = [\<lparr>il_CommentID = 3, il_Body = ''Done''\<rparr>, \<lparr>il_CommentID = 9, il_Body = ''No''\<rparr>]\<rparr>"
  by code_simp+

text \<open>What one run of the sample does, for any body that parses.\<close>

lemma poster_run_body:
  assumes "trim_space text = text" and "text \<noteq> []" and "list_all (\<lambda>e. e_Type e = PRCommentPosted) out"
  shows "poster_run (poster_events text @ out) = post_body poster_rt (Some (recording sample_client))
    \<lparr>pq_full = ''o/r'', pq_owner = ''o'', pq_repo = ''r'', pq_number = 7\<rparr> text
    (loadPosterHistory (poster_events text @ out) ''pr-reply-poster'') (reply_poster, (), [])"
proof -
  have out: "fold (read_poster_input u) out st = st" for u st
    using assms(3) by (induction out arbitrary: st) (auto simp: read_poster_input_def)
  have x: "extractPosterInputs (poster_events text @ out) ''pr-replier'' = Inr (''gh:o/r#7'', text)"
    using assms by (simp add: extractPosterInputs_def out) (simp add: poster_events_def read_poster_input_def env_builders as_requested_def
      as_ai_response_def zero_requested_def poster_source_def unmarshalOutput_def)
  have "atoi ''7'' = Some 7" "splitOwnerRepo ''o/r'' = Some (''o'', ''r'')" by code_simp+
  then show ?thesis using assms
    by (simp add: poster_run_def poster_Handle_def x poster_source_ref reply_poster_def NewPRCommentPoster_def env_builders)
qed

lemma reply_posts:
  "postInlineReply rt k (Some (recording sample_client)) q history t body (h, w, ws) =
     (if t \<in> ph_replies history then (Inr (postedEvent rt k h ''inline-reply'' q (hashBody body) 0 t True), h, w, ws)
      else if t = 9 then (Inl (po_name h @ '': reply on comment '' @ itoa 9 @ '': 404''), h\<lparr>po_bot := Some (case po_bot h of Some l \<Rightarrow> l | None \<Rightarrow> [])\<rparr>, w, ws)
      else (Inr (postedEvent rt k h ''inline-reply'' q (hashBody body) 12 t False),
        h\<lparr>po_bot := Some (case po_bot h of Some l \<Rightarrow> l | None \<Rightarrow> [])\<rparr>, w, ws @ [WReply t body]))"
  by (cases h) (auto simp: postInlineReply_def Let_def recording_def note_write_def sample_client_def ensureBotLogin_def split: option.split)

lemma top_posts:
  "post_top rt k (Some (recording sample_client)) q kind what seen body (h, w, ws) =
     (if seen then (Inr [postedEvent rt k h kind q (hashBody body) 0 0 True], h, w, ws)
      else (Inr [postedEvent rt k h kind q (hashBody body) 11 0 False],
        h\<lparr>po_bot := Some (case po_bot h of Some l \<Rightarrow> l | None \<Rightarrow> [])\<rparr>, w, ws @ [WTop body]))"
  by (cases h) (auto simp: post_top_def Let_def recording_def note_write_def sample_client_def ensureBotLogin_def split: option.split)

lemma no_posts_yet: "loadPosterHistory (poster_events text) name = no_history"
  by (simp add: loadPosterHistory_def poster_events_def note_posted_def env_builders)

lemma first_poster_run:
  "snd (snd (snd (poster_run (poster_events two_replies)))) = [WTop ''Thanks'', WReply 3 ''Done'']"
  "map e_Type (fst (fst (poster_run (poster_events two_replies)))) = [PRCommentPosted, PRCommentPosted]"
  "snd (fst (poster_run (poster_events two_replies))) \<noteq> None"
proof -
  have t: "trim_space ''Thanks'' = ''Thanks''" "trim_space ''Done'' = ''Done''" "trim_space ''No'' = ''No''" by code_simp+
  note run = poster_run_body [OF two_replies_parse(1,2), of "[]", simplified no_posts_yet append_Nil2 list.pred_inject(1)]
  show "snd (snd (snd (poster_run (poster_events two_replies)))) = [WTop ''Thanks'', WReply 3 ''Done'']"
    "map e_Type (fst (fst (poster_run (poster_events two_replies)))) = [PRCommentPosted, PRCommentPosted]"
    "snd (fst (poster_run (poster_events two_replies))) \<noteq> None"
    by (simp_all add: run no_posts_yet post_body_def two_replies_parse(3) postStructured_def postSummary_def Let_def t reply_step_def
      top_posts reply_posts no_history_def keep_first_def postedEvent_def env_builders)
qed

definition run_writes :: "(envelope list \<times> string option) \<times> poster \<times> unit \<times> written list \<Rightarrow> written list" where
  "run_writes r = snd (snd (snd r))"

theorem nothing_is_said_twice_witness:
  "let r = poster_run (poster_events two_replies); r2 = poster_run (poster_events two_replies @ fst (fst r))
   in 3 \<in> threads (run_writes r) \<and> 3 \<notin> threads (run_writes r2) \<and> tops (run_writes r) + tops (run_writes r2) \<le> 1"
proof -
  obtain out e h' w' ws where r: "poster_run (poster_events two_replies) = ((out, e), h', w', ws)" by (metis prod.collapse)
  obtain out2 e2 h2' w2' ws2 where r2: "poster_run (poster_events two_replies @ out) = ((out2, e2), h2', w2', ws2)"
    by (metis prod.collapse)
  have k: "po_kind reply_poster = ''reply''" by (simp add: reply_poster_def NewPRCommentPoster_def)
  have "recorded out (poster_events two_replies @ out)" by (auto simp: recorded_def)
  note t = nothing_is_said_twice [OF r [unfolded poster_run_def] r2 [unfolded poster_run_def] refl k k this]
  have "list_all (\<lambda>e. e_Type e = PRCommentPosted) out" using first_poster_run(2) by (simp add: r list_all_iff map_eq_Cons_conv) auto
  then have "fold (read_poster_input u) out st = st" for u st
    by (induction out arbitrary: st) (auto simp: read_poster_input_def)
  then have "is_structured (poster_events two_replies) u = is_structured (poster_events two_replies @ out) u" for u
    by (simp add: is_structured_def extractPosterInputs_def)
  moreover have "ws = [WTop ''Thanks'', WReply 3 ''Done'']" using first_poster_run(1) by (simp add: r)
  moreover from this have "3 \<in> threads ws" by (auto simp: threads_def)
  ultimately show ?thesis using t by (auto simp: Let_def run_writes_def r r2)
qed

section \<open>Posts that are forgotten\<close>

text \<open>
  The reply to thread 9 fails, so the handler returns an error beside its events and the dispatcher
  drops them: the next dispatch loads the same log and writes the same summary and reply again,
  unless GitHub's own lists stop it.
\<close>
lemma failed_reply_forgets_the_others:
  "snd (fst (poster_run (poster_events two_replies))) \<noteq> None \<and>
   run_writes (poster_run (poster_events two_replies)) = [WTop ''Thanks'', WReply 3 ''Done'']"
  using first_poster_run by (simp add: run_writes_def)

text \<open>The history knows the plain comment only under the kind \<open>reply\<close>, not under the configured one.\<close>
lemma other_kinds_are_forgotten:
  "po_kind h \<notin> {''summary'', ''inline-reply'', ''reply''} \<Longrightarrow>
   loadPosterHistory [postedEvent rt k h (po_kind h) q hash cid t False] name = no_history"
  by (simp add: loadPosterHistory_def note_posted_def postedEvent_def env_builders as_comment_def)

text \<open>One answer with two replies to a thread writes both when GitHub's lists cannot be read.\<close>
lemma thread_twice_in_one_answer:
  "run_writes (fold (reply_step rt (Some (recording sample_client)) q no_history)
     [\<lparr>il_CommentID = 3, il_Body = ''A''\<rparr>, \<lparr>il_CommentID = 3, il_Body = ''B''\<rparr>] (([], None), h, w, [])) =
   [WReply 3 ''A'', WReply 3 ''B'']"
proof -
  have t: "trim_space ''A'' = ''A''" "trim_space ''B'' = ''B''" by code_simp+
  show ?thesis by (simp add: run_writes_def reply_step_def Let_def t reply_posts no_history_def)
qed

end
