(* ===== verification/IssueRefs.thy ===== *)
theory IssueRefs imports DiffScope begin

text \<open>
  \<open>internal/github/depstable.go\<close>, \<open>internal/github/discovery.go\<close> and \<open>ParsePRURL\<close> of
  \<open>internal/github/fetcher.go\<close>: references to issues in Markdown text, dependency tables, task lists and
  keyword phrases.
\<close>

section \<open>References\<close>

record issue_ref =
  ir_Owner :: string
  ir_Repo :: string
  ir_Number :: int

definition ref_String :: "issue_ref \<Rightarrow> string" where
  "ref_String r = (if ir_Owner r = [] \<or> ir_Repo r = [] then ''#'' @ itoa (ir_Number r)
     else ir_Owner r @ ''/'' @ ir_Repo r @ ''#'' @ itoa (ir_Number r))"

record dependency_edge =
  de_From :: issue_ref
  de_On :: issue_ref

definition is_name :: "char \<Rightarrow> bool" where
  "is_name c = (is_alpha c \<or> is_digit c \<or> c \<in> set ''._-'')"

definition owner_repo_rx :: "nat \<Rightarrow> nat \<Rightarrow> rx" where
  "owner_repo_rx i j = ROpt (RSeqs [RGroup i (RPlus (RSet is_name)), RChar slash, RGroup j (RPlus (RSet is_name))])"

definition issueRefPattern :: rx where
  "issueRefPattern = RSeqs [owner_repo_rx 1 2, RChar CHR ''#'', RGroup 3 digits_rx]"

definition ref_of_match :: "(nat \<Rightarrow> string) \<Rightarrow> issue_ref option" where
  "ref_of_match m = (case atoi (m 3) of None \<Rightarrow> None
     | Some n \<Rightarrow> if n \<le> 0 then None else Some \<lparr>ir_Owner = m 1, ir_Repo = m 2, ir_Number = n\<rparr>)"

definition ParseIssueRefs :: "string \<Rightarrow> issue_ref list" where
  "ParseIssueRefs s = List.map_filter ref_of_match (FindAllStringSubmatch issueRefPattern s)"

definition firstIssueRef :: "string \<Rightarrow> issue_ref option" where
  "firstIssueRef s = (case ParseIssueRefs s of [] \<Rightarrow> None | r # rs \<Rightarrow> Some r)"

section \<open>Dependency tables\<close>

definition pipe :: char where "pipe = CHR ''|''"

definition splitTableRow :: "string \<Rightarrow> string list" where
  "splitTableRow line = (let t = trim_space line in
     if pipe \<notin> set t then []
     else let parts = split_on pipe (trim_suffix (trim_prefix t [pipe]) [pipe]) in
       if length parts < 2 then [] else map trim_space parts)"

definition isSeparatorRow :: "string \<Rightarrow> bool" where
  "isSeparatorRow line = (let cols = splitTableRow line in
     cols \<noteq> [] \<and> list_all (\<lambda>c. c \<noteq> [] \<and> list_all (\<lambda>r. r = CHR ''-'' \<or> r = CHR '':'' \<or> r = CHR '' '') c) cols)"

definition header_cell :: "nat \<times> string \<Rightarrow> nat option \<times> nat option \<Rightarrow> nat option \<times> nat option" where
  "header_cell = (\<lambda>(i, cell) (issueIdx, depIdx). let lc = to_lower cell in
     if issueIdx = None \<and> lc \<in> set [''issue'', ''id'', ''ticket'', ''task'', ''child''] then (Some i, depIdx)
     else if depIdx = None \<and> str_contains lc ''depends'' then (issueIdx, Some i)
     else if depIdx = None \<and> lc = ''blocked by'' then (issueIdx, Some i)
     else (issueIdx, depIdx))"

definition findIssueColumns :: "string list \<Rightarrow> nat option \<times> nat option" where
  "findIssueColumns header = fold header_cell (enumerate 0 header) (None, None)"

fun table_rows :: "nat \<Rightarrow> nat \<Rightarrow> string list \<Rightarrow> dependency_edge list" where
  "table_rows issueIdx depIdx [] = []"
| "table_rows issueIdx depIdx (line # lines) = (let row = splitTableRow line in
     if row = [] then []
     else if length row \<le> issueIdx \<or> length row \<le> depIdx then table_rows issueIdx depIdx lines
     else case firstIssueRef (row ! issueIdx) of None \<Rightarrow> table_rows issueIdx depIdx lines
     | Some from' \<Rightarrow> map (\<lambda>dep. \<lparr>de_From = from', de_On = dep\<rparr>) (ParseIssueRefs (row ! depIdx)) @ table_rows issueIdx depIdx lines)"

fun table_in :: "string list \<Rightarrow> dependency_edge list" where
  "table_in [] = []"
| "table_in (line # lines) = (let cols = splitTableRow line in
     if length cols < 2 then table_in lines
     else case findIssueColumns cols of
       (Some i, Some d) \<Rightarrow> (case lines of [] \<Rightarrow> table_in lines
         | sep # rows \<Rightarrow> if isSeparatorRow sep then table_rows i d rows else table_in lines)
     | _ \<Rightarrow> table_in lines)"

definition ParseDependencyTable :: "string \<Rightarrow> dependency_edge list" where
  "ParseDependencyTable body = (if body = [] then [] else table_in (split_lines body))"

section \<open>Task lists and bodies\<close>

fun up_to :: "nat \<Rightarrow> rx \<Rightarrow> rx" where
  "up_to 0 e = REmpty"
| "up_to (Suc n) e = ROpt (RSeq e (up_to n e))"

definition taskListPattern :: rx where
  "taskListPattern = RSeqs [RLineB, up_to 6 (RSet rx_space), RSet (\<lambda>c. c = CHR ''-'' \<or> c = CHR ''*''), RPlus (RSet rx_space),
     RChar CHR ''['', RGroup 1 (RSet (\<lambda>c. c \<in> set '' xX'')), RChar CHR '']'', RPlus (RSet rx_space),
     RLazy (RSet (\<lambda>c. c \<noteq> nl)), owner_repo_rx 2 3, RChar CHR ''#'', RGroup 4 digits_rx]"

definition wrap64 :: "int \<Rightarrow> int" where
  "wrap64 i = (i + 2 ^ 63) mod 2 ^ 64 - 2 ^ 63"

fun atoi_from :: "int \<Rightarrow> string \<Rightarrow> int" where
  "atoi_from n [] = n"
| "atoi_from n (c # s) = (case digit_val c of None \<Rightarrow> 0 | Some d \<Rightarrow> atoi_from (wrap64 (n * 10 + int d)) s)"

definition atoiOrZero :: "string \<Rightarrow> int" where
  "atoiOrZero s = atoi_from 0 s"

definition add_ref :: "issue_ref \<Rightarrow> issue_ref list \<Rightarrow> issue_ref list" where
  "add_ref r refs = (if ref_String r \<in> set (map ref_String refs) then refs else refs @ [r])"

definition task_ref :: "(nat \<Rightarrow> string) \<Rightarrow> issue_ref list \<Rightarrow> issue_ref list" where
  "task_ref m refs = (if to_lower (m 1) = ''x'' then refs
     else let n = atoiOrZero (m 4) in if n > 0 then add_ref \<lparr>ir_Owner = m 2, ir_Repo = m 3, ir_Number = n\<rparr> refs else refs)"

definition ParseTaskList :: "string \<Rightarrow> issue_ref list" where
  "ParseTaskList body = fold task_ref (FindAllStringSubmatch taskListPattern body) []"

definition ParseBodyRefs :: "string \<Rightarrow> issue_ref list" where
  "ParseBodyRefs body = fold add_ref (ParseIssueRefs body) []"

definition depKeywordPattern :: rx where
  "depKeywordPattern = RSeqs [RWordB, RGroup 1 (RAlt (RSeqs [RLit_i ''depends'', RPlus (RSet rx_space), RLit_i ''on''])
     (RAlt (RSeqs [RLit_i ''blocked'', RPlus (RSet rx_space), RLit_i ''by'']) (RLit_i ''blocks''))), RWordB,
     RGroup 2 (RStar (RSet (\<lambda>c. c \<notin> set ''.!?'' \<and> c \<noteq> nl)))]"

definition sameRepo :: "issue_ref \<Rightarrow> issue_ref \<Rightarrow> bool" where
  "sameRepo a b = (ir_Owner a = [] \<or> ir_Owner b = [] \<or> ir_Owner a = ir_Owner b \<and> ir_Repo a = ir_Repo b)"

definition keyword_edge :: "issue_ref \<Rightarrow> string \<Rightarrow> issue_ref \<Rightarrow> dependency_edge option" where
  "keyword_edge self keyword ref = (if ir_Number ref = ir_Number self \<and> sameRepo ref self then None
     else if keyword = ''depends on'' \<or> keyword = ''blocked by'' then Some \<lparr>de_From = self, de_On = ref\<rparr>
     else if keyword = ''blocks'' then Some \<lparr>de_From = ref, de_On = self\<rparr> else None)"

definition ParseBodyDependencies :: "issue_ref \<Rightarrow> string \<Rightarrow> dependency_edge list" where
  "ParseBodyDependencies self body = concat (map (\<lambda>m.
     List.map_filter (keyword_edge self (to_lower (str_join (str_fields (m 1)) '' ''))) (ParseIssueRefs (m 2)))
       (FindAllStringSubmatch depKeywordPattern body))"

section \<open>Links\<close>

definition prURLRegexp :: rx where
  "prURLRegexp = RSeqs [RLit ''http'', ROpt (RChar CHR ''s''), RLit ''://'', RStar (RSet (\<lambda>c. c \<noteq> slash)), RLit ''github'',
     RStar (RSet (\<lambda>c. c \<noteq> slash)), RChar slash, RGroup 1 (RPlus (RSet (\<lambda>c. c \<noteq> slash))), RChar slash,
     RGroup 2 (RPlus (RSet (\<lambda>c. c \<noteq> slash))), RLit ''/pull/'', RGroup 3 digits_rx]"

definition ParsePRURL :: "string \<Rightarrow> (string \<times> string \<times> int) option" where
  "ParsePRURL text = (case FindStringSubmatch prURLRegexp text of None \<Rightarrow> None
     | Some m \<Rightarrow> Some (m 1, m 2, atoi_value (m 3)))"

end
