(* ===== verification/WavePlan.thy ===== *)
theory WavePlan imports IssueRefs begin

text \<open>
  The planning half of \<open>internal/mcp/tools_wave.go\<close>: a source of issues is resolved, its children are
  discovered, their dependencies are read from a table, from bodies, labels or a project field, and
  the children are put into waves by a topological sort. GitHub and Jira are records of reads; the
  cache of \<open>GetIssue\<close> is left out since the reads of one planning are functions.
\<close>

section \<open>Sources\<close>

definition apostrophe :: char where "apostrophe = char_of (39 :: nat)"

record source_in =
  so_Type :: string
  so_Epic :: string
  so_Parent :: string
  so_ChildDiscovery :: string
  so_DependencySource :: string
  so_DAGMap :: "(string, string) gomap option"
  so_AllowCrossRepo :: bool
  so_Project :: string

record wave_source =
  ws_Kind :: string
  ws_Epic :: string
  ws_Owner :: string
  ws_Repo :: string
  ws_Number :: int
  ws_ChildDiscovery :: string
  ws_DependencySource :: string
  ws_DAGMap :: "(string, string) gomap"
  ws_AllowCrossRepo :: bool
  ws_ProjectLogin :: string
  ws_ProjectNumber :: int

definition no_source :: wave_source where
  "no_source = \<lparr>ws_Kind = [], ws_Epic = [], ws_Owner = [], ws_Repo = [], ws_Number = 0, ws_ChildDiscovery = [],
     ws_DependencySource = [], ws_DAGMap = [], ws_AllowCrossRepo = False, ws_ProjectLogin = [], ws_ProjectNumber = 0\<rparr>"

definition ghParent :: "wave_source \<Rightarrow> string" where
  "ghParent r = ws_Owner r @ ''/'' @ ws_Repo r @ ''#'' @ itoa (ws_Number r)"

definition defaultDAGForSource :: "wave_source \<Rightarrow> string" where
  "defaultDAGForSource src = (if ws_Kind src = ''github'' \<or> ws_Kind src = ''github_project'' then ''github-dev'' else ''jira-dev'')"

text \<open>\<open>strings.Index\<close> of one character.\<close>

definition index_of :: "char \<Rightarrow> string \<Rightarrow> nat option" where
  "index_of c s = (if c \<in> set s then Some (length (takeWhile (\<lambda>d. d \<noteq> c) s)) else None)"

definition positive :: "string \<Rightarrow> int option" where
  "positive s = (case atoi s of None \<Rightarrow> None | Some n \<Rightarrow> if n \<le> 0 then None else Some n)"

definition parseGHProject :: "string \<Rightarrow> string + string \<times> int" where
  "parseGHProject s = (let bad = ''invalid project ref '' @ go_quote s; no_number = Inl (bad @ '': project number must be positive integer'') in
     if str_contains s ''/projects/'' then (case split_on slash s of
         [a, b, c, d] \<Rightarrow> if (a = ''orgs'' \<or> a = ''users'') \<and> c = ''projects''
           then (case positive d of None \<Rightarrow> no_number | Some n \<Rightarrow> Inr (b, n))
           else Inl (bad @ '' (expected 'orgs/OWNER/projects/N' or 'users/OWNER/projects/N')'')
       | _ \<Rightarrow> Inl (bad @ '' (expected 'orgs/OWNER/projects/N' or 'users/OWNER/projects/N')''))
     else (case index_of slash s of
         None \<Rightarrow> Inl (bad @ '' (expected 'owner/N' or URL path form)'')
       | Some i \<Rightarrow> if i = 0 \<or> i = length s - 1 then Inl (bad @ '' (expected 'owner/N' or URL path form)'')
           else case positive (drop (i + 1) s) of None \<Rightarrow> no_number | Some n \<Rightarrow> Inr (take i s, n)))"

definition parseGHParent :: "string \<Rightarrow> string + string \<times> string \<times> int" where
  "parseGHParent s = (let bad = ''invalid github parent '' @ go_quote s in
     case (index_of slash s, index_of CHR ''#'' s) of
       (Some i, Some h) \<Rightarrow> if i = 0 \<or> h \<le> i + 1 \<or> h = length s - 1 then Inl (bad @ '' (expected 'owner/repo#N')'')
         else (case positive (drop (h + 1) s) of None \<Rightarrow> Inl (bad @ '': issue number must be positive integer'')
           | Some n \<Rightarrow> Inr (take i s, drop (i + 1) (take h s), n))
     | _ \<Rightarrow> Inl (bad @ '' (expected 'owner/repo#N')''))"

definition project_source :: "source_in \<Rightarrow> string + wave_source" where
  "project_source src = (if so_Parent src \<noteq> [] then Inl ''source.project and source.parent are mutually exclusive''
     else case parseGHProject (so_Project src) of Inl err \<Rightarrow> Inl err
     | Inr (login, num) \<Rightarrow> (let dep = (if so_DependencySource src = [] then ''project_field'' else so_DependencySource src) in
         if dep \<notin> set [''project_field'', ''body_refs'', ''labels'', ''none''] then Inl (''source.dependency_source='' @ go_quote dep @
           '' unsupported for Projects V2 (use 'project_field', 'body_refs', 'labels', or 'none')'')
         else Inr (no_source\<lparr>ws_Kind := ''github_project'', ws_ProjectLogin := login, ws_ProjectNumber := num,
           ws_DependencySource := dep, ws_DAGMap := (case so_DAGMap src of None \<Rightarrow> [] | Some m \<Rightarrow> m), ws_AllowCrossRepo := True\<rparr>)))"

definition parent_source :: "source_in \<Rightarrow> string + wave_source" where
  "parent_source src = (if so_Parent src = [] then Inl (''source.parent or source.project is required when source.type='github'' @ [apostrophe])
     else case parseGHParent (so_Parent src) of Inl err \<Rightarrow> Inl err
     | Inr (owner, repo, num) \<Rightarrow>
         (let discovery = (if so_ChildDiscovery src = [] then ''sub_issues'' else so_ChildDiscovery src);
              dep = (if so_DependencySource src = [] then ''table'' else so_DependencySource src) in
          if discovery \<notin> set [''sub_issues'', ''task_list'', ''body_refs'', ''auto''] then Inl (''source.child_discovery='' @ go_quote discovery @
            '' unsupported (use 'sub_issues', 'task_list', 'body_refs', or 'auto')'')
          else if dep \<notin> set [''table'', ''body_refs'', ''labels'', ''none''] then Inl (''source.dependency_source='' @ go_quote dep @
            '' unsupported (use 'table', 'body_refs', 'labels', or 'none')'')
          else Inr (no_source\<lparr>ws_Kind := ''github'', ws_Owner := owner, ws_Repo := repo, ws_Number := num, ws_ChildDiscovery := discovery,
            ws_DependencySource := dep, ws_DAGMap := (case so_DAGMap src of None \<Rightarrow> [] | Some m \<Rightarrow> m),
            ws_AllowCrossRepo := so_AllowCrossRepo src\<rparr>)))"

definition parseWaveSource :: "string \<Rightarrow> source_in option \<Rightarrow> string + wave_source" where
  "parseWaveSource epic source = (case source of
      None \<Rightarrow> if epic = [] then Inl ''either 'epic' or 'source' is required''
        else Inr (no_source\<lparr>ws_Kind := ''jira'', ws_Epic := epic\<rparr>)
    | Some src \<Rightarrow> if so_Type src = ''jira'' then
          (let e = (if so_Epic src = [] then epic else so_Epic src) in
           if e = [] then Inl (''source.epic is required when source.type='jira'' @ [apostrophe])
           else Inr (no_source\<lparr>ws_Kind := ''jira'', ws_Epic := e\<rparr>))
        else if so_Type src = ''github'' then (if so_Project src \<noteq> [] then project_source src else parent_source src)
        else Inl (''unknown source.type='' @ go_quote (so_Type src) @ '' (expected 'jira' or 'github')''))"

section \<open>GitHub\<close>

record gh_issue =
  gi_Number :: int
  gi_Title :: string
  gi_Body :: string
  gi_State :: string
  gi_Labels :: "string list"
  gi_PullRequest :: bool
  gi_HTMLURL :: string

record sub_issue =
  si_Number :: int
  si_Title :: string
  si_Body :: string
  si_State :: string
  si_Labels :: "string list"
  si_Repository :: "string option"
  si_PullRequest :: bool

text \<open>\<open>tl_Issue\<close> is \<open>Source.Issue\<close>, if both pointers are there.\<close>

record timeline_event =
  tl_Event :: string
  tl_Issue :: "gh_issue option"

record gh_reads =
  gr_GetIssue :: "string \<Rightarrow> string \<Rightarrow> int \<Rightarrow> string + gh_issue"
  gr_GetSubIssues :: "string \<Rightarrow> string \<Rightarrow> int \<Rightarrow> string + sub_issue list"
  gr_GetIssueTimeline :: "string \<Rightarrow> string \<Rightarrow> int \<Rightarrow> string + timeline_event list"

section \<open>Plans\<close>

record wave_node =
  wn_id :: string
  wn_repo :: string
  wn_number :: int
  wn_title :: string
  wn_body :: string
  wn_state :: string
  wn_labels :: "string list"
  wn_dag :: string
  wn_prRef :: string

type_synonym wave_nodes = "(string, wave_node) gomap"
type_synonym wave_preds = "(string, string list) gomap"

record plan_diagnostics =
  pd_DiscoveryPath :: string
  pd_DependencyPath :: string
  pd_Cycles :: "string list list"
  pd_Orphans :: "string list"
  pd_Skipped :: "(string \<times> string) list"
  pd_Reason :: string

definition no_diagnostics :: plan_diagnostics where
  "no_diagnostics = \<lparr>pd_DiscoveryPath = [], pd_DependencyPath = [], pd_Cycles = [], pd_Orphans = [], pd_Skipped = [], pd_Reason = []\<rparr>"

definition skip_entry :: "string \<Rightarrow> string \<Rightarrow> plan_diagnostics \<Rightarrow> plan_diagnostics" where
  "skip_entry i reason d = d\<lparr>pd_Skipped := pd_Skipped d @ [(i, reason)]\<rparr>"

text \<open>Story points are rationals here; the rounding of \<open>float64\<close> is left out.\<close>

record wave_ticket =
  wt_Key :: string
  wt_ID :: string
  wt_IDKind :: string
  wt_Summary :: string
  wt_Body :: string
  wt_Repo :: string
  wt_Status :: string
  wt_Points :: rat
  wt_DAGParams :: "(string, string) gomap"

record plan_wave =
  pv_Wave :: nat
  pv_Tickets :: "wave_ticket list"
  pv_Ready :: bool
  pv_BlockedBy :: "string list"

record plan_source =
  ps_Type :: string
  ps_Epic :: string
  ps_Parent :: string

record wave_plan =
  wp_Epic :: string
  wp_Source :: plan_source
  wp_Waves :: "plan_wave list"
  wp_TotalPoints :: rat
  wp_Parallelism :: nat
  wp_Diagnostics :: plan_diagnostics

definition github_plan :: "string \<Rightarrow> plan_diagnostics \<Rightarrow> wave_plan" where
  "github_plan parent d = \<lparr>wp_Epic = [], wp_Source = \<lparr>ps_Type = ''github'', ps_Epic = [], ps_Parent = parent\<rparr>, wp_Waves = [],
     wp_TotalPoints = 0, wp_Parallelism = 0, wp_Diagnostics = d\<rparr>"

section \<open>Discovery\<close>

definition node_id :: "string \<Rightarrow> int \<Rightarrow> string" where
  "node_id repo n = repo @ ''#'' @ itoa n"

definition splitRepoFullName :: "string \<Rightarrow> string \<times> string" where
  "splitRepoFullName full = (case index_of slash full of None \<Rightarrow> ([], [])
     | Some i \<Rightarrow> if i = 0 \<or> i = length full - 1 then ([], []) else (take i full, drop (i + 1) full))"

definition canonicalizeEdgeRef :: "string \<Rightarrow> issue_ref \<Rightarrow> string" where
  "canonicalizeEdgeRef parentRepo r = (if ir_Owner r \<noteq> [] \<and> ir_Repo r \<noteq> []
     then node_id (ir_Owner r @ ''/'' @ ir_Repo r) (ir_Number r) else node_id parentRepo (ir_Number r))"

definition sub_repo :: "string \<Rightarrow> sub_issue \<Rightarrow> string" where
  "sub_repo parentRepo sub = (case si_Repository sub of None \<Rightarrow> parentRepo | Some full \<Rightarrow> if full = [] then parentRepo else full)"

definition sub_step :: "string \<Rightarrow> bool \<Rightarrow> sub_issue \<Rightarrow> wave_nodes \<times> plan_diagnostics \<Rightarrow> wave_nodes \<times> plan_diagnostics" where
  "sub_step parentRepo allowCrossRepo sub = (\<lambda>(nodes, d). let repo = sub_repo parentRepo sub; i = node_id repo (si_Number sub) in
     if si_State sub = ''closed'' then (nodes, skip_entry i ''closed'' d)
     else if si_PullRequest sub then (nodes, skip_entry i ''is_pull_request'' d)
     else if repo \<noteq> parentRepo \<and> \<not> allowCrossRepo then (nodes, skip_entry i ''cross_repo_not_supported'' d)
     else (mput nodes i \<lparr>wn_id = i, wn_repo = repo, wn_number = si_Number sub, wn_title = si_Title sub, wn_body = si_Body sub,
       wn_state = si_State sub, wn_labels = si_Labels sub, wn_dag = [], wn_prRef = []\<rparr>, d))"

definition materializeFromSubIssues :: "sub_issue list \<Rightarrow> string \<Rightarrow> bool \<Rightarrow> plan_diagnostics \<Rightarrow> wave_nodes \<times> plan_diagnostics" where
  "materializeFromSubIssues subs parentRepo allowCrossRepo d = fold (sub_step parentRepo allowCrossRepo) subs ([], d)"

definition ref_repo :: "string \<Rightarrow> issue_ref \<Rightarrow> string" where
  "ref_repo parentRepo r = (if ir_Owner r \<noteq> [] \<and> ir_Repo r \<noteq> [] then ir_Owner r @ ''/'' @ ir_Repo r else parentRepo)"

definition ref_step ::
    "gh_reads \<Rightarrow> string \<Rightarrow> bool \<Rightarrow> issue_ref \<Rightarrow> (wave_nodes \<times> string list) \<times> plan_diagnostics \<Rightarrow> (wave_nodes \<times> string list) \<times> plan_diagnostics" where
  "ref_step gh parentRepo allowCrossRepo r = (\<lambda>((nodes, order), d). let repo = ref_repo parentRepo r; i = node_id repo (ir_Number r) in
     if map_of nodes i \<noteq> None then ((nodes, order), d)
     else if repo \<noteq> parentRepo \<and> \<not> allowCrossRepo then ((nodes, order), skip_entry i ''cross_repo_not_supported'' d)
     else case splitRepoFullName repo of (owner, name) \<Rightarrow> (case gr_GetIssue gh owner name (ir_Number r) of
         Inl err \<Rightarrow> ((nodes, order), skip_entry i (''fetch failed: '' @ err) d)
       | Inr iss \<Rightarrow> if gi_PullRequest iss then ((nodes, order), skip_entry i ''is_pull_request'' d)
           else if gi_State iss = ''closed'' then ((nodes, order), skip_entry i ''closed'' d)
           else ((mput nodes i \<lparr>wn_id = i, wn_repo = repo, wn_number = gi_Number iss, wn_title = gi_Title iss, wn_body = gi_Body iss,
             wn_state = gi_State iss, wn_labels = gi_Labels iss, wn_dag = [], wn_prRef = []\<rparr>, order @ [i]), d)))"

definition materializeFromRefs ::
    "gh_reads \<Rightarrow> issue_ref list \<Rightarrow> string \<Rightarrow> bool \<Rightarrow> plan_diagnostics \<Rightarrow> (wave_nodes \<times> string list) \<times> plan_diagnostics" where
  "materializeFromRefs gh refs parentRepo allowCrossRepo d = fold (ref_step gh parentRepo allowCrossRepo) refs (([], []), d)"

definition filterSelf :: "issue_ref list \<Rightarrow> issue_ref \<Rightarrow> string \<Rightarrow> issue_ref list" where
  "filterSelf refs self parentRepo = (case splitRepoFullName parentRepo of (selfOwner, selfRepo) \<Rightarrow>
     let or_else = (\<lambda>x y. if x = [] then y else x);
         so = or_else (ir_Owner self) selfOwner; sr = or_else (ir_Repo self) selfRepo
     in filter (\<lambda>r. \<not> (ir_Number r = ir_Number self \<and> or_else (ir_Owner r) selfOwner = so \<and> or_else (ir_Repo r) selfRepo = sr)) refs)"

definition discoverOnce ::
    "gh_reads \<Rightarrow> string \<Rightarrow> wave_source \<Rightarrow> gh_issue \<Rightarrow> string \<Rightarrow> plan_diagnostics \<Rightarrow> (string + wave_nodes \<times> string list) \<times> plan_diagnostics" where
  "discoverOnce gh mode src parent parentRepo d =
     (if mode = ''sub_issues'' then (case gr_GetSubIssues gh (ws_Owner src) (ws_Repo src) (ws_Number src) of
          Inl err \<Rightarrow> (Inl (''fetch sub-issues: '' @ err), d)
        | Inr subs \<Rightarrow> (case materializeFromSubIssues subs parentRepo (ws_AllowCrossRepo src) d of (nodes, d') \<Rightarrow>
            (Inr (nodes, filter (\<lambda>i. map_of nodes i \<noteq> None) (map (\<lambda>sub. node_id (sub_repo parentRepo sub) (si_Number sub)) subs)), d')))
      else if mode = ''task_list'' then (case materializeFromRefs gh (ParseTaskList (gi_Body parent)) parentRepo (ws_AllowCrossRepo src) d of
          (r, d') \<Rightarrow> (Inr r, d'))
      else if mode = ''body_refs'' then (case materializeFromRefs gh (filterSelf (ParseBodyRefs (gi_Body parent))
            \<lparr>ir_Owner = ws_Owner src, ir_Repo = ws_Repo src, ir_Number = ws_Number src\<rparr> parentRepo) parentRepo (ws_AllowCrossRepo src) d of
          (r, d') \<Rightarrow> (Inr r, d'))
      else (Inl (''unsupported discovery mode '' @ go_quote mode), d))"

fun discover_loop ::
    "gh_reads \<Rightarrow> wave_source \<Rightarrow> gh_issue \<Rightarrow> string \<Rightarrow> string \<Rightarrow> string list \<Rightarrow> string option \<Rightarrow> plan_diagnostics \<Rightarrow>
     (string + wave_nodes \<times> string list \<times> string) \<times> plan_diagnostics" where
  "discover_loop gh src parent parentRepo first [] lastErr d = (case lastErr of Some err \<Rightarrow> (Inl err, d) | None \<Rightarrow> (Inr ([], [], first), d))"
| "discover_loop gh src parent parentRepo first (mode # modes) lastErr d = (case discoverOnce gh mode src parent parentRepo d of
      (Inl err, d') \<Rightarrow> discover_loop gh src parent parentRepo first modes (Some err) d'
    | (Inr (nodes, order), d') \<Rightarrow> if nodes \<noteq> [] then (Inr (nodes, order, mode), d')
        else discover_loop gh src parent parentRepo first modes lastErr d')"

definition discoverGithubChildren ::
    "gh_reads \<Rightarrow> wave_source \<Rightarrow> gh_issue \<Rightarrow> string \<Rightarrow> plan_diagnostics \<Rightarrow> (string + wave_nodes \<times> string list \<times> string) \<times> plan_diagnostics" where
  "discoverGithubChildren gh src parent parentRepo d =
     (let tryOrder = (if ws_ChildDiscovery src = ''auto'' then [''sub_issues'', ''task_list'', ''body_refs''] else [ws_ChildDiscovery src])
      in discover_loop gh src parent parentRepo (hd tryOrder) tryOrder None d)"

section \<open>Dependencies\<close>

definition addEdge ::
    "wave_nodes \<Rightarrow> string \<Rightarrow> string \<Rightarrow> string \<Rightarrow> wave_preds \<times> plan_diagnostics \<Rightarrow> wave_preds \<times> plan_diagnostics" where
  "addEdge nodes label from' on' = (\<lambda>(preds, d). if map_of nodes from' = None then (preds, d)
     else if map_of nodes on' = None then (preds, skip_entry on' (label @ '' dep of '' @ from' @
       '' references unknown issue '' @ em_dash @ '' treated as satisfied'') d)
     else (mput preds from' (List.insert on' (mget [] preds from')), d))"

definition no_preds :: "wave_nodes \<Rightarrow> wave_preds" where
  "no_preds nodes = map (\<lambda>(i, n). (i, [])) nodes"

definition parseDependsLabel :: "string \<Rightarrow> issue_ref option" where
  "parseDependsLabel label = (if \<not> has_prefix label ''depends:'' then None
     else let rest = trim_prefix label ''depends:'' in case positive rest of
       Some n \<Rightarrow> Some \<lparr>ir_Owner = [], ir_Repo = [], ir_Number = n\<rparr>
     | None \<Rightarrow> (case index_of CHR ''-'' (rev rest) of None \<Rightarrow> None
       | Some k \<Rightarrow> (let idx = length rest - 1 - k in
           if idx = 0 then None
           else case positive (drop (idx + 1) rest) of None \<Rightarrow> None
           | Some n \<Rightarrow> (let ownerRepo = take idx rest in case index_of CHR ''-'' ownerRepo of None \<Rightarrow> None
               | Some mid \<Rightarrow> if mid = 0 \<or> mid = length ownerRepo - 1 then None
                   else Some \<lparr>ir_Owner = take mid ownerRepo, ir_Repo = drop (mid + 1) ownerRepo, ir_Number = n\<rparr>))))"

definition edge_step :: "wave_nodes \<Rightarrow> string \<Rightarrow> string \<Rightarrow> dependency_edge \<Rightarrow> wave_preds \<times> plan_diagnostics \<Rightarrow> wave_preds \<times> plan_diagnostics" where
  "edge_step nodes label parentRepo e = addEdge nodes label (canonicalizeEdgeRef parentRepo (de_From e)) (canonicalizeEdgeRef parentRepo (de_On e))"

definition body_step ::
    "gh_reads \<Rightarrow> string \<Rightarrow> string \<Rightarrow> wave_nodes \<times> wave_preds \<times> plan_diagnostics \<Rightarrow> wave_nodes \<times> wave_preds \<times> plan_diagnostics" where
  "body_step gh parentRepo i = (\<lambda>(nodes, st). case map_of nodes i of None \<Rightarrow> (nodes, st)
     | Some node \<Rightarrow> (case splitRepoFullName (wn_repo node) of (owner, name) \<Rightarrow>
         case (if wn_body node = [] then gr_GetIssue gh owner name (wn_number node) else Inr \<lparr>gi_Number = 0, gi_Title = [],
             gi_Body = wn_body node, gi_State = [], gi_Labels = [], gi_PullRequest = False, gi_HTMLURL = []\<rparr>) of
           Inl err \<Rightarrow> (nodes, fst st, skip_entry (wn_id node) (''fetch body for body_refs: '' @ err) (snd st))
         | Inr iss \<Rightarrow> (mput nodes i (node\<lparr>wn_body := gi_Body iss\<rparr>),
             fold (edge_step nodes ''body_refs'' parentRepo) (ParseBodyDependencies
               \<lparr>ir_Owner = owner, ir_Repo = (if owner = [] then [] else name), ir_Number = wn_number node\<rparr> (gi_Body iss)) st)))"

definition label_step ::
    "wave_nodes \<Rightarrow> string \<Rightarrow> wave_node \<Rightarrow> wave_preds \<times> plan_diagnostics \<Rightarrow> wave_preds \<times> plan_diagnostics" where
  "label_step nodes parentRepo node = fold (\<lambda>lab st. case parseDependsLabel lab of None \<Rightarrow> st
     | Some dep \<Rightarrow> addEdge nodes ''labels'' (wn_id node) (canonicalizeEdgeRef parentRepo dep) st) (wn_labels node)"

definition buildGithubDependencies ::
    "gh_reads \<Rightarrow> wave_source \<Rightarrow> string \<Rightarrow> string \<Rightarrow> wave_nodes \<Rightarrow> plan_diagnostics \<Rightarrow>
     (string + wave_nodes \<times> wave_preds \<times> string) \<times> plan_diagnostics" where
  "buildGithubDependencies gh src parentBody parentRepo nodes d = (let dep = ws_DependencySource src; start = no_preds nodes in
     if dep = ''table'' then (case fold (edge_step nodes ''table'' parentRepo) (ParseDependencyTable parentBody) (start, d) of
         (preds, d') \<Rightarrow> (Inr (nodes, preds, dep), d'))
     else if dep = ''body_refs'' then (case fold (body_step gh parentRepo) (mkeys nodes) (nodes, start, d) of
         (nodes', preds, d') \<Rightarrow> (Inr (nodes', preds, dep), d'))
     else if dep = ''labels'' then (case fold (label_step nodes parentRepo) (map snd nodes) (start, d) of
         (preds, d') \<Rightarrow> (Inr (nodes, preds, dep), d'))
     else if dep = ''none'' then (Inr (nodes, start, dep), d)
     else (Inl (''unsupported dependency source '' @ go_quote dep), d))"

section \<open>Waves\<close>

definition ready_ids :: "string list \<Rightarrow> wave_preds \<Rightarrow> (string, nat) gomap \<Rightarrow> string list" where
  "ready_ids order preds assigned = filter (\<lambda>i. map_of assigned i = None \<and> (case map_of preds i of None \<Rightarrow> False
     | Some ps \<Rightarrow> list_all (\<lambda>p. map_of assigned p \<noteq> None) ps)) order"

definition assign_wave :: "nat \<Rightarrow> string list \<Rightarrow> (string, nat) gomap \<Rightarrow> (string, nat) gomap" where
  "assign_wave n ids assigned = fold (\<lambda>i a. mput a i n) ids assigned"

lemma map_of_assign: "map_of (assign_wave n ids a) i = (if i \<in> set ids then Some n else map_of a i)"
  unfolding assign_wave_def by (induction ids arbitrary: a) auto

definition unassigned :: "wave_preds \<Rightarrow> (string, nat) gomap \<Rightarrow> string list" where
  "unassigned preds assigned = filter (\<lambda>i. map_of assigned i = None) (mkeys preds)"

lemma filter_shrinks:
  "x \<in> set xs \<Longrightarrow> P x \<Longrightarrow> \<not> Q x \<Longrightarrow> (\<And>y. Q y \<Longrightarrow> P y) \<Longrightarrow> length (filter Q xs) < length (filter P xs)"
proof (induction xs)
  case (Cons y ys)
  have "length (filter Q ys) \<le> length (filter P ys)" using Cons.prems(4) by (induction ys) auto
  then show ?case using Cons by (auto simp: less_Suc_eq_le)
qed simp

lemma assigning_shrinks:
  assumes "ready_ids order preds a \<noteq> []"
  shows "length (unassigned preds (assign_wave n (ready_ids order preds a) a)) < length (unassigned preds a)"
proof -
  obtain i where i: "i \<in> set (ready_ids order preds a)" using assms by (cases "ready_ids order preds a") auto
  then have "i \<in> set (mkeys preds)" "map_of a i = None" by (auto simp: ready_ids_def set_mkeys split: option.splits)
  then show ?thesis unfolding unassigned_def using i by (intro filter_shrinks) (auto simp: map_of_assign split: if_splits)
qed

function kahn_loop ::
    "string list \<Rightarrow> wave_preds \<Rightarrow> (string, nat) gomap \<Rightarrow> nat \<Rightarrow> nat \<Rightarrow> plan_diagnostics \<Rightarrow>
     (string + (string, nat) gomap \<times> nat) \<times> plan_diagnostics" where
  "kahn_loop order preds assigned waveNum maxPar d =
     (if length preds \<le> length assigned then (Inr (assigned, maxPar), d)
      else let ready = ready_ids order preds assigned in
       if ready = [] then (let remaining = filter (\<lambda>i. map_of assigned i = None) order in
         (Inl (''cycle detected in dependency graph: ['' @ str_join remaining '' '' @ '']''), d\<lparr>pd_Cycles := pd_Cycles d @ [remaining]\<rparr>))
       else kahn_loop order preds (assign_wave waveNum ready assigned) (waveNum + 1) (max maxPar (length ready)) d)"
  by pat_completeness auto

termination by (relation "measure (\<lambda>(order, preds, assigned, _). length (unassigned preds assigned))") (simp_all add: assigning_shrinks)

declare kahn_loop.simps [simp del]

definition kahnWaves ::
    "string list \<Rightarrow> wave_preds \<Rightarrow> plan_diagnostics \<Rightarrow> (string + (string, nat) gomap \<times> nat) \<times> plan_diagnostics" where
  "kahnWaves order preds d = kahn_loop (if order = [] then sort (mkeys preds) else order) preds [] 1 0 d"

section \<open>Workflows\<close>

text \<open>The labels decide first; the result is the workflow, the pull request and a reason to record.\<close>

fun label_dag :: "string list \<Rightarrow> (string, string) gomap \<Rightarrow> string \<Rightarrow> (string \<times> string) option" where
  "label_dag [] dagMap defaultDAG = None"
| "label_dag (lab # labs) dagMap defaultDAG = (if \<not> has_prefix lab ''rick:'' then label_dag labs dagMap defaultDAG
     else let key = trim_prefix lab ''rick:'' in
       if mget [] dagMap lab \<noteq> [] then Some (mget [] dagMap lab, [])
       else if mget [] dagMap (''rick:'' @ key) \<noteq> [] then Some (mget [] dagMap (''rick:'' @ key), [])
       else if key \<in> set [''develop-only'', ''ci-fix'', ''pr-feedback''] then Some (key, [])
       else Some (defaultDAG, ''unknown rick label '' @ go_quote lab @ '' '' @ em_dash @ '' falling back to '' @ defaultDAG))"

definition linked_pr :: "string \<Rightarrow> timeline_event \<Rightarrow> string option" where
  "linked_pr repo ev = (if tl_Event ev \<noteq> ''cross-referenced'' then None
     else case tl_Issue ev of None \<Rightarrow> None
     | Some src \<Rightarrow> if \<not> gi_PullRequest src \<or> gi_State src \<noteq> ''open'' then None
         else let prRepo = (if gi_HTMLURL src = [] then repo else case ParsePRURL (gi_HTMLURL src) of None \<Rightarrow> repo
           | Some (o', r, n) \<Rightarrow> o' @ ''/'' @ r) in Some (''gh:'' @ node_id prRepo (gi_Number src)))"

definition pickDAG :: "gh_reads option \<Rightarrow> wave_node \<Rightarrow> (string, string) gomap \<Rightarrow> string \<Rightarrow> string \<times> string \<times> string" where
  "pickDAG gh node dagMap defaultDAG = (case label_dag (wn_labels node) dagMap defaultDAG of
      Some (dag, reason) \<Rightarrow> (dag, [], reason)
    | None \<Rightarrow> if wn_prRef node \<noteq> [] then (''pr-feedback'', wn_prRef node, [])
        else case gh of None \<Rightarrow> (defaultDAG, [], [])
        | Some g \<Rightarrow> (case splitRepoFullName (wn_repo node) of (owner, repo) \<Rightarrow>
            case gr_GetIssueTimeline g owner repo (wn_number node) of Inl err \<Rightarrow> (defaultDAG, [], [])
            | Inr events \<Rightarrow> (case List.map_filter (linked_pr (wn_repo node)) events of [] \<Rightarrow> (defaultDAG, [], [])
                | pr # prs \<Rightarrow> (''pr-feedback'', pr, []))))"

definition dag_step ::
    "gh_reads option \<Rightarrow> (string, string) gomap \<Rightarrow> string \<Rightarrow> string \<Rightarrow> wave_nodes \<times> plan_diagnostics \<Rightarrow> wave_nodes \<times> plan_diagnostics" where
  "dag_step gh dagMap defaultDAG i = (\<lambda>(nodes, d). case map_of nodes i of None \<Rightarrow> (nodes, d)
     | Some node \<Rightarrow> (case pickDAG gh node dagMap defaultDAG of (dag, prRef, reason) \<Rightarrow>
         (mput nodes i (node\<lparr>wn_dag := dag, wn_prRef := prRef\<rparr>), if reason \<noteq> [] then skip_entry i reason d else d)))"

definition assignDAGParams :: "gh_reads option \<Rightarrow> wave_source \<Rightarrow> wave_nodes \<Rightarrow> plan_diagnostics \<Rightarrow> wave_nodes \<times> plan_diagnostics" where
  "assignDAGParams gh src nodes d = (let m = ws_DAGMap src;
       defaultDAG = (if mget [] m ''default'' \<noteq> [] then mget [] m ''default'' else defaultDAGForSource src)
     in fold (dag_step gh m defaultDAG) (mkeys nodes) (nodes, d))"

section \<open>Tickets\<close>

definition node_ticket :: "wave_node \<Rightarrow> wave_ticket" where
  "node_ticket n = \<lparr>wt_Key = wn_id n, wt_ID = wn_id n, wt_IDKind = ''github'', wt_Summary = wn_title n, wt_Body = wn_body n,
     wt_Repo = wn_repo n, wt_Status = wn_state n, wt_Points = 0, wt_DAGParams =
       (if wn_dag n \<noteq> [] then [(''dag'', wn_dag n)] else []) @ (if wn_prRef n \<noteq> [] then [(''pr_source'', wn_prRef n)] else [])\<rparr>"

text \<open>Tickets by wave: the numbers that occur, in order, each with its tickets in the order given.\<close>

definition group_waves :: "(nat \<times> wave_ticket) list \<Rightarrow> (nat \<times> wave_ticket list) list" where
  "group_waves xs = map (\<lambda>w. (w, map snd (filter (\<lambda>x. fst x = w) xs))) (sort (remdups (map fst xs)))"

definition buildWaveTickets :: "(string, nat) gomap \<Rightarrow> wave_nodes \<Rightarrow> string list \<Rightarrow> plan_wave list" where
  "buildWaveTickets assigned nodes order =
     map (\<lambda>(w, ts). \<lparr>pv_Wave = w, pv_Tickets = ts, pv_Ready = True, pv_BlockedBy = []\<rparr>)
       (group_waves (List.map_filter (\<lambda>i. map_option (\<lambda>n. (mget 0 assigned i, node_ticket n)) (map_of nodes i))
         (if order = [] then sort (mkeys nodes) else order)))"

definition orphans :: "wave_nodes \<Rightarrow> wave_preds \<Rightarrow> string list" where
  "orphans nodes preds = sort (filter (\<lambda>i. mget [] preds i = [] \<and> \<not> list_ex (\<lambda>(k, ps). i \<in> set ps) preds) (mkeys nodes))"

section \<open>Plans of GitHub issues\<close>

text \<open>What the three GitHub planners share once nodes and dependencies are there.\<close>

definition finish_plan ::
    "gh_reads option \<Rightarrow> wave_source \<Rightarrow> string \<Rightarrow> wave_nodes \<Rightarrow> string list \<Rightarrow> wave_preds \<Rightarrow> plan_diagnostics \<Rightarrow> string + wave_plan" where
  "finish_plan gh src parent nodes order preds d = (case kahnWaves order preds d of
      (Inl err, d1) \<Rightarrow> Inl err
    | (Inr (waves, maxPar), d1) \<Rightarrow> (case assignDAGParams gh src nodes d1 of (nodes', d2) \<Rightarrow>
        Inr ((github_plan parent (d2\<lparr>pd_Orphans := orphans nodes' preds\<rparr>))\<lparr>wp_Waves := buildWaveTickets waves nodes' order,
          wp_Parallelism := maxPar\<rparr>)))"

definition rest_plan :: "gh_reads \<Rightarrow> wave_source \<Rightarrow> gh_issue \<Rightarrow> string + wave_plan" where
  "rest_plan gh src parent = (let parentRepo = ws_Owner src @ ''/'' @ ws_Repo src in
     case discoverGithubChildren gh src parent parentRepo no_diagnostics of
       (Inl err, d) \<Rightarrow> Inl err
     | (Inr (nodes, order, path), d) \<Rightarrow> (let d1 = d\<lparr>pd_DiscoveryPath := path\<rparr> in
         if nodes = [] then Inr (github_plan (ghParent src) (d1\<lparr>pd_Reason := ''no_children_discovered''\<rparr>))
         else case buildGithubDependencies gh src (gi_Body parent) parentRepo nodes d1 of
           (Inl err, d2) \<Rightarrow> Inl err
         | (Inr (nodes', preds, depPath), d2) \<Rightarrow>
             finish_plan (Some gh) src (ghParent src) nodes' order preds (d2\<lparr>pd_DependencyPath := depPath\<rparr>)))"

text \<open>One sub-issue of the GraphQL answer: the issue, its repository and its open pull request, if any.\<close>

record graph_issue =
  ga_Issue :: sub_issue
  ga_PRs :: "(string \<times> string \<times> string \<times> int) list"

definition graph_pr :: "string \<Rightarrow> graph_issue \<Rightarrow> string" where
  "graph_pr parentRepo g = (case filter (\<lambda>(ty, state, repo, n). ty = ''PullRequest'' \<and> state = ''open'') (ga_PRs g) of [] \<Rightarrow> []
     | (ty, state, repo, n) # prs \<Rightarrow> ''gh:'' @ node_id (if repo = [] then parentRepo else repo) n)"

definition graph_step ::
    "string \<Rightarrow> bool \<Rightarrow> graph_issue \<Rightarrow> (wave_nodes \<times> string list) \<times> plan_diagnostics \<Rightarrow> (wave_nodes \<times> string list) \<times> plan_diagnostics" where
  "graph_step parentRepo allowCrossRepo g = (\<lambda>((nodes, order), d). let sub = ga_Issue g; repo = sub_repo parentRepo sub;
       i = node_id repo (si_Number sub) in
     if si_State sub = ''closed'' then ((nodes, order), skip_entry i ''closed'' d)
     else if repo \<noteq> parentRepo \<and> \<not> allowCrossRepo then ((nodes, order), skip_entry i ''cross_repo_not_supported'' d)
     else ((mput nodes i \<lparr>wn_id = i, wn_repo = repo, wn_number = si_Number sub, wn_title = si_Title sub, wn_body = si_Body sub,
       wn_state = si_State sub, wn_labels = si_Labels sub, wn_dag = [], wn_prRef = graph_pr parentRepo g\<rparr>, order @ [i]), d))"

text \<open>\<open>answer\<close> is \<open>FetchWaveParent\<close>: number, state and body of the parent and its sub-issues.\<close>

definition tryGraphQLWavePlan ::
    "gh_reads \<Rightarrow> (int \<times> string \<times> string \<times> graph_issue list) option \<Rightarrow> wave_source \<Rightarrow> wave_plan option" where
  "tryGraphQLWavePlan gh answer src = (case answer of None \<Rightarrow> None
     | Some (number, state, body, subs) \<Rightarrow> if number = 0 \<or> state = ''closed'' then None
       else let parentRepo = ws_Owner src @ ''/'' @ ws_Repo src in
         case fold (graph_step parentRepo (ws_AllowCrossRepo src)) subs
             (([], []), no_diagnostics\<lparr>pd_DiscoveryPath := ''sub_issues_graphql''\<rparr>) of
           ((nodes, order), d) \<Rightarrow> if nodes = [] then Some (github_plan (ghParent src) (d\<lparr>pd_Reason := ''no_children_discovered''\<rparr>))
             else case buildGithubDependencies gh src body parentRepo nodes d of
               (Inl err, d2) \<Rightarrow> None
             | (Inr (nodes', preds, depPath), d2) \<Rightarrow>
                 (case finish_plan (Some gh) src (ghParent src) nodes' order preds (d2\<lparr>pd_DependencyPath := depPath\<rparr>) of
                   Inl err \<Rightarrow> None | Inr plan \<Rightarrow> Some plan))"

definition computeGithubWavePlan ::
    "bool \<Rightarrow> gh_reads option \<Rightarrow> (int \<times> string \<times> string \<times> graph_issue list) option \<Rightarrow> wave_source \<Rightarrow> string + wave_plan" where
  "computeGithubWavePlan graphql client answer src = (case client of
      None \<Rightarrow> Inl (''GITHUB_TOKEN is not set '' @ em_dash @
        '' rick_wave_manager (action=plan) with source.type='github' requires a configured GitHub client'')
    | Some gh \<Rightarrow>
       (case (if graphql \<and> ws_ChildDiscovery src = ''sub_issues'' then tryGraphQLWavePlan gh answer src else None) of
          Some plan \<Rightarrow> Inr plan
        | None \<Rightarrow> (case gr_GetIssue gh (ws_Owner src) (ws_Repo src) (ws_Number src) of
            Inl err \<Rightarrow> Inl (''fetch parent issue: '' @ err)
          | Inr parent \<Rightarrow> if gi_PullRequest parent then Inl (''parent '' @ ghParent src @ '' is a pull request, not an issue'')
              else if gi_State parent = ''closed'' then Inl (''parent issue '' @ ghParent src @ '' is closed '' @ em_dash @
                '' cannot plan a wave on a closed epic'')
              else rest_plan gh src parent)))"

section \<open>Plans of a project board\<close>

definition splitGHID :: "string \<Rightarrow> string \<times> string \<times> int" where
  "splitGHID i = (case (index_of slash i, index_of CHR ''#'' i) of
      (Some s, Some h) \<Rightarrow> if s = 0 \<or> h \<le> s + 1 then ([], [], 0)
        else (take s i, drop (s + 1) (take h i), atoi_value (drop (h + 1) i))
    | _ \<Rightarrow> ([], [], 0))"

definition refFromNodeID :: "string \<Rightarrow> issue_ref" where
  "refFromNodeID i = (case splitGHID i of (owner, repo, n) \<Rightarrow> \<lparr>ir_Owner = owner, ir_Repo = repo, ir_Number = n\<rparr>)"

definition canonicalizeProjectEdge :: "issue_ref \<Rightarrow> issue_ref \<Rightarrow> string" where
  "canonicalizeProjectEdge r self = node_id ((if ir_Owner r = [] then ir_Owner self else ir_Owner r) @ ''/'' @
     (if ir_Repo r = [] then ir_Repo self else ir_Repo r)) (ir_Number r)"

text \<open>An item of the board; its fields are type, name and text.\<close>

record board_item =
  bi_Typename :: string
  bi_Issue :: sub_issue
  bi_Fields :: "(string \<times> string \<times> string) list"

type_synonym board_state = "(wave_nodes \<times> string list \<times> (string, string) gomap) \<times> plan_diagnostics"

definition board_step :: "board_item \<Rightarrow> board_state \<Rightarrow> board_state" where
  "board_step item = (\<lambda>((nodes, order, dependsOn), d). let iss = bi_Issue item; repo = sub_repo [] iss; i = node_id repo (si_Number iss) in
     if bi_Typename item = ''DraftIssue'' then ((nodes, order, dependsOn), skip_entry (''draft:'' @ si_Title iss) ''draft_item'' d)
     else if bi_Typename item = ''PullRequest'' then ((nodes, order, dependsOn), skip_entry i ''is_pull_request'' d)
     else if bi_Typename item \<noteq> ''Issue'' \<or> repo = [] then ((nodes, order, dependsOn), d)
     else if si_State iss = ''closed'' then ((nodes, order, dependsOn), skip_entry i ''closed'' d)
     else ((mput nodes i \<lparr>wn_id = i, wn_repo = repo, wn_number = si_Number iss, wn_title = si_Title iss, wn_body = si_Body iss,
         wn_state = si_State iss, wn_labels = si_Labels iss, wn_dag = [], wn_prRef = []\<rparr>, order @ [i],
       fold (\<lambda>(ty, name, text) m. if ty = ''ProjectV2ItemFieldTextValue'' \<and> to_lower name = ''depends on'' \<and> text \<noteq> []
         then mput m i text else m) (bi_Fields item) dependsOn), d))"

definition field_step :: "wave_nodes \<Rightarrow> string \<times> string \<Rightarrow> wave_preds \<times> plan_diagnostics \<Rightarrow> wave_preds \<times> plan_diagnostics" where
  "field_step nodes = (\<lambda>(nodeID, raw). let self = refFromNodeID nodeID in
     fold (\<lambda>r (preds, d). if ir_Number r = ir_Number self \<and> sameRepo r self then (preds, d)
       else let on' = canonicalizeProjectEdge r self in
         if map_of nodes on' = None then (preds, skip_entry on' (''project_field dep of '' @ nodeID @ '' references unknown issue '' @
           em_dash @ '' treated as satisfied'') d)
         else (mput preds nodeID (List.insert on' (mget [] preds nodeID)), d)) (ParseIssueRefs raw))"

definition project_body_step :: "wave_nodes \<Rightarrow> string \<times> wave_node \<Rightarrow> wave_preds \<times> plan_diagnostics \<Rightarrow> wave_preds \<times> plan_diagnostics" where
  "project_body_step nodes = (\<lambda>(nodeID, node). let self = refFromNodeID nodeID in
     fold (\<lambda>e. addEdge nodes ''body_refs'' (canonicalizeProjectEdge (de_From e) self) (canonicalizeProjectEdge (de_On e) self))
       (ParseBodyDependencies self (wn_body node)))"

definition project_label_step :: "wave_nodes \<Rightarrow> string \<times> wave_node \<Rightarrow> wave_preds \<Rightarrow> wave_preds" where
  "project_label_step nodes = (\<lambda>(i, node). fold (\<lambda>lab preds. case parseDependsLabel lab of None \<Rightarrow> preds
     | Some dep \<Rightarrow> (let on' = canonicalizeProjectEdge dep (refFromNodeID i) in
         if map_of nodes on' = None then preds else mput preds i (List.insert on' (mget [] preds i)))) (wn_labels node))"

definition buildProjectsV2Dependencies ::
    "wave_source \<Rightarrow> wave_nodes \<Rightarrow> (string, string) gomap \<Rightarrow> plan_diagnostics \<Rightarrow> (string + wave_preds \<times> string) \<times> plan_diagnostics" where
  "buildProjectsV2Dependencies src nodes dependsOn d = (let dep = ws_DependencySource src; start = no_preds nodes in
     if dep = ''project_field'' then (case fold (field_step nodes) dependsOn (start, d) of (preds, d') \<Rightarrow> (Inr (preds, dep), d'))
     else if dep = ''body_refs'' then (case fold (project_body_step nodes) nodes (start, d) of (preds, d') \<Rightarrow> (Inr (preds, dep), d'))
     else if dep = ''labels'' then (Inr (fold (project_label_step nodes) nodes start, dep), d)
     else if dep = ''none'' then (Inr (start, dep), d)
     else (Inl (''unsupported dependency source '' @ go_quote dep @ '' for Projects V2''), d))"

definition computeProjectsV2WavePlan ::
    "gh_reads option \<Rightarrow> (string + board_item list) \<Rightarrow> wave_source \<Rightarrow> string + wave_plan" where
  "computeProjectsV2WavePlan client board src = (case client of
      None \<Rightarrow> Inl (''GITHUB_TOKEN is not set '' @ em_dash @
        '' rick_wave_manager (action=plan) with source.project requires a configured GitHub client'')
    | Some gh \<Rightarrow> (case board of Inl err \<Rightarrow> Inl (''fetch project v2: '' @ err)
      | Inr items \<Rightarrow> (let parent = ws_ProjectLogin src @ ''/projects/'' @ itoa (ws_ProjectNumber src) in
          case fold board_step items (([], [], []), no_diagnostics\<lparr>pd_DiscoveryPath := ''projects_v2''\<rparr>) of
            ((nodes, order, dependsOn), d) \<Rightarrow> if nodes = [] then Inr (github_plan parent (d\<lparr>pd_Reason := ''no_children_discovered''\<rparr>))
              else case buildProjectsV2Dependencies src nodes dependsOn d of
                (Inl err, d2) \<Rightarrow> Inl err
              | (Inr (preds, depPath), d2) \<Rightarrow> finish_plan (Some gh) src parent nodes order preds (d2\<lparr>pd_DependencyPath := depPath\<rparr>))))"

section \<open>Plans of a Jira epic\<close>

record jira_child =
  jc_Key :: string
  jc_Summary :: string
  jc_Status :: string
  jc_Labels :: "string list"
  jc_Points :: rat

record jira_link =
  jk_Type :: string
  jk_InwardKey :: string

definition extractRepo :: "string list \<Rightarrow> string \<Rightarrow> string" where
  "extractRepo labels summary = (case filter (\<lambda>l. has_prefix l ''repo:'') labels of l # ls \<Rightarrow> trim_prefix l ''repo:''
     | [] \<Rightarrow> (case index_of CHR '':'' summary of None \<Rightarrow> []
       | Some i \<Rightarrow> if 0 < i \<and> i < 30 then trim_space (take i summary) else []))"

definition jira_deps :: "(string \<Rightarrow> jira_link list option) \<Rightarrow> jira_child list \<Rightarrow> wave_preds" where
  "jira_deps fetchLinks children = fold (\<lambda>c deps. case fetchLinks (jc_Key c) of None \<Rightarrow> deps
      | Some links \<Rightarrow> fold (\<lambda>l m. if jk_Type l \<noteq> ''Blocks'' then m
          else if jk_InwardKey l \<noteq> [] \<and> jk_InwardKey l \<in> set (map jc_Key children)
            then mput m (jc_Key c) (List.insert (jk_InwardKey l) (mget [] m (jc_Key c))) else m) links deps)
     children (fold (\<lambda>c m. mput m (jc_Key c) []) children [])"

definition jira_ready :: "string list \<Rightarrow> wave_preds \<Rightarrow> (string, nat) gomap \<Rightarrow> string list" where
  "jira_ready keys deps assigned = filter (\<lambda>k. map_of assigned k = None \<and> list_all (\<lambda>p. map_of assigned p \<noteq> None) (mget [] deps k)) keys"

lemma jira_assigning_shrinks:
  assumes "jira_ready keys deps a \<noteq> []"
  shows "length (filter (\<lambda>k. map_of (assign_wave n (jira_ready keys deps a) a) k = None) keys) < length (filter (\<lambda>k. map_of a k = None) keys)"
proof -
  obtain k where k: "k \<in> set (jira_ready keys deps a)" using assms by (cases "jira_ready keys deps a") auto
  then have "k \<in> set keys" "map_of a k = None" by (auto simp: jira_ready_def)
  then show ?thesis using k by (intro filter_shrinks) (auto simp: map_of_assign split: if_splits)
qed

function jira_loop :: "string list \<Rightarrow> wave_preds \<Rightarrow> (string, nat) gomap \<Rightarrow> nat \<Rightarrow> (string, nat) gomap" where
  "jira_loop keys deps assigned waveNum = (if length keys \<le> length assigned then assigned
     else let ready = jira_ready keys deps assigned in
       if ready = [] then assign_wave waveNum (filter (\<lambda>k. map_of assigned k = None) keys) assigned
       else jira_loop keys deps (assign_wave waveNum ready assigned) (waveNum + 1))"
  by pat_completeness auto

termination by (relation "measure (\<lambda>(keys, deps, assigned, _). length (filter (\<lambda>k. map_of assigned k = None) keys))")
  (simp_all add: jira_assigning_shrinks)

declare jira_loop.simps [simp del]

definition doneStatuses :: "string list" where
  "doneStatuses = [''Done'', ''Closed'', ''DONE'', ''Cancelled'']"

definition jira_ticket :: "jira_child \<Rightarrow> wave_ticket" where
  "jira_ticket c = \<lparr>wt_Key = jc_Key c, wt_ID = jc_Key c, wt_IDKind = ''jira'', wt_Summary = jc_Summary c, wt_Body = [],
     wt_Repo = extractRepo (jc_Labels c) (jc_Summary c), wt_Status = jc_Status c, wt_Points = jc_Points c, wt_DAGParams = []\<rparr>"

definition unique :: "string list \<Rightarrow> string list" where
  "unique xs = rev (remdups (rev xs))"

text \<open>\<open>childMap\<close>: the last child with a key wins; a missing key has the empty status.\<close>

definition child_status :: "jira_child list \<Rightarrow> string \<Rightarrow> string" where
  "child_status children k = (case map_of (rev (map (\<lambda>c. (jc_Key c, jc_Status c)) children)) k of None \<Rightarrow> [] | Some s \<Rightarrow> s)"

definition jira_wave :: "jira_child list \<Rightarrow> wave_preds \<Rightarrow> nat \<times> wave_ticket list \<Rightarrow> plan_wave" where
  "jira_wave children deps = (\<lambda>(w, tickets). let blocked = concat (map (\<lambda>t. filter (\<lambda>dep. child_status children dep \<notin> set doneStatuses)
       (mget [] deps (wt_Key t))) tickets)
     in \<lparr>pv_Wave = w, pv_Tickets = tickets, pv_Ready = (blocked = []), pv_BlockedBy = unique blocked\<rparr>)"

definition jira_groups :: "jira_child list \<Rightarrow> wave_preds \<Rightarrow> (nat \<times> wave_ticket list) list" where
  "jira_groups children deps = (let assigned = jira_loop (map jc_Key children) deps [] 1 in
     group_waves (map (\<lambda>c. (mget 0 assigned (jc_Key c), jira_ticket c)) children))"

definition computeJiraWavePlan ::
    "((string \<Rightarrow> string + jira_child list) \<times> (string \<Rightarrow> jira_link list option)) option \<Rightarrow> string \<Rightarrow> string + wave_plan" where
  "computeJiraWavePlan client epic = (case client of None \<Rightarrow> Inl ''jira client not configured (set JIRA_URL, JIRA_EMAIL, JIRA_TOKEN)''
     | Some (fetchChildren, fetchLinks) \<Rightarrow> (case fetchChildren epic of Inl err \<Rightarrow> Inl (''fetch epic children: '' @ err)
       | Inr children \<Rightarrow> (let deps = jira_deps fetchLinks children; groups = jira_groups children deps in
           Inr \<lparr>wp_Epic = epic, wp_Source = \<lparr>ps_Type = ''jira'', ps_Epic = epic, ps_Parent = []\<rparr>,
             wp_Waves = map (jira_wave children deps) groups, wp_TotalPoints = sum_list (map jc_Points children),
             wp_Parallelism = fold max (map (length \<circ> snd) groups) 0,
             wp_Diagnostics = no_diagnostics\<lparr>pd_DiscoveryPath := ''jira_epic_children'', pd_DependencyPath := ''jira_links_blocks''\<rparr>\<rparr>)))"

section \<open>All plans\<close>

record plan_deps =
  pl_graphql :: bool
  pl_jira :: "((string \<Rightarrow> string + jira_child list) \<times> (string \<Rightarrow> jira_link list option)) option"
  pl_github :: "gh_reads option"
  pl_WaveParent :: "string \<Rightarrow> string \<Rightarrow> int \<Rightarrow> (int \<times> string \<times> string \<times> graph_issue list) option"
  pl_ProjectItems :: "string \<Rightarrow> int \<Rightarrow> string + board_item list"

definition computeWavePlanForSource :: "plan_deps \<Rightarrow> wave_source \<Rightarrow> string + wave_plan" where
  "computeWavePlanForSource deps src =
     (if ws_Kind src = ''jira'' then computeJiraWavePlan (pl_jira deps) (ws_Epic src)
      else if ws_Kind src = ''github'' then computeGithubWavePlan (pl_graphql deps) (pl_github deps)
        (pl_WaveParent deps (ws_Owner src) (ws_Repo src) (ws_Number src)) src
      else if ws_Kind src = ''github_project'' then computeProjectsV2WavePlan (pl_github deps)
        (pl_ProjectItems deps (ws_ProjectLogin src) (ws_ProjectNumber src)) src
      else Inl (''unsupported source kind '' @ go_quote (ws_Kind src)))"

definition toolWavePlan :: "plan_deps \<Rightarrow> string \<Rightarrow> source_in option \<Rightarrow> string + wave_plan" where
  "toolWavePlan deps epic source = (case parseWaveSource epic source of Inl err \<Rightarrow> Inl err
     | Inr src \<Rightarrow> computeWavePlanForSource deps src)"

end
