(* ===== verification/WaveOps.thy ===== *)
theory WaveOps imports WavePlan begin

text \<open>
  The other half of \<open>internal/mcp/tools_wave.go\<close>: a wave is launched as workflows, its status and pull
  requests are looked up by tag, and its workspaces are removed (\<open>safeWorkspacePath\<close> of
  \<open>internal/mcp/tools_workspace.go\<close> guards each removal).
\<close>

section \<open>Launch\<close>

definition buildLaunchParams :: "wave_ticket \<Rightarrow> string \<Rightarrow> (string, string) gomap" where
  "buildLaunchParams t dag =
     (let own = mget [] (wt_DAGParams t) ''dag''; effective = (if own \<noteq> [] then own else dag);
          with_repo = (\<lambda>m. if wt_Repo t \<noteq> [] then mput m ''repo'' (wt_Repo t) else m)
      in if wt_IDKind t = ''github'' then (case splitGHID (wt_ID t) of (owner, repo, number) \<Rightarrow>
           let params = with_repo [(''prompt'', ''Implement GitHub issue '' @ wt_ID t @ '': '' @ wt_Summary t @
                 (if wt_Body t \<noteq> [] then [nl, nl] @ ''Full issue body below:'' @ [nl, nl] @ wt_Body t else [])),
               (''dag'', effective), (''source'', ''gh:'' @ node_id (owner @ ''/'' @ repo) number)];
               pr = mget [] (wt_DAGParams t) ''pr_source''
           in if effective = ''pr-feedback'' \<and> pr \<noteq> [] then mput params ''source'' pr else params)
         else with_repo [(''prompt'', ''Implement Jira ticket '' @ wt_ID t @ '': '' @ wt_Summary t), (''dag'', effective), (''ticket'', wt_ID t)])"

definition workspaceSuffix :: "wave_ticket \<Rightarrow> string" where
  "workspaceSuffix t = (if wt_IDKind t = ''github'' then ''gh'' @ itoa (snd (snd (splitGHID (wt_ID t)))) else wt_ID t)"

definition sanitizeRepoForWorkspace :: "string \<Rightarrow> string" where
  "sanitizeRepoForWorkspace repo = map (\<lambda>c. if c = slash then CHR ''-'' else c) repo"

record launched_ticket =
  lt_Ticket :: string
  lt_CorrelationID :: string
  lt_Workspace :: string

record launch_result =
  lr_Wave :: int
  lr_Launched :: "launched_ticket list"
  lr_Errors :: "string list"
  lr_DryRun :: bool

text \<open>The wave asked for, or the first one that is ready; the number 0 stands for none.\<close>

definition target_wave :: "wave_plan \<Rightarrow> int option \<Rightarrow> int" where
  "target_wave plan asked = (case asked of Some w \<Rightarrow> w | None \<Rightarrow> (case filter pv_Ready (wp_Waves plan) of [] \<Rightarrow> 0 | w # ws \<Rightarrow> int (pv_Wave w)))"

definition wave_tickets :: "wave_plan \<Rightarrow> int \<Rightarrow> string list \<Rightarrow> wave_ticket list" where
  "wave_tickets plan n wanted = (case filter (\<lambda>w. int (pv_Wave w) = n) (wp_Waves plan) of [] \<Rightarrow> []
     | w # ws \<Rightarrow> if wanted = [] then pv_Tickets w
         else filter (\<lambda>t. wt_ID t \<in> set wanted \<or> wt_Key t \<in> set wanted) (pv_Tickets w))"

text \<open>\<open>run\<close> is \<open>toolRunWorkflow\<close>: it gives the correlation of the new workflow.\<close>

definition launch_step ::
    "((string, string) gomap \<Rightarrow> 'w \<Rightarrow> (string + string) \<times> 'w) \<Rightarrow> bool \<Rightarrow> string \<Rightarrow> wave_ticket \<Rightarrow> launch_result \<times> 'w \<Rightarrow> launch_result \<times> 'w" where
  "launch_step run dryRun dag t = (\<lambda>(r, w). if dryRun then
       (r\<lparr>lr_Launched := lr_Launched r @ [\<lparr>lt_Ticket = wt_ID t, lt_CorrelationID = [], lt_Workspace = ''$RICK_REPOS_PATH/'' @
          sanitizeRepoForWorkspace (wt_Repo t) @ ''-rick-ws-'' @ workspaceSuffix t\<rparr>]\<rparr>, w)
     else case run (buildLaunchParams t dag) w of
       (Inl err, w') \<Rightarrow> (r\<lparr>lr_Errors := lr_Errors r @ [wt_ID t @ '': '' @ err]\<rparr>, w')
     | (Inr corr, w') \<Rightarrow> (r\<lparr>lr_Launched := lr_Launched r @ [\<lparr>lt_Ticket = wt_ID t, lt_CorrelationID = corr, lt_Workspace = []\<rparr>]\<rparr>, w'))"

definition toolWaveLaunch ::
    "plan_deps \<Rightarrow> ((string, string) gomap \<Rightarrow> 'w \<Rightarrow> (string + string) \<times> 'w) \<Rightarrow> string \<Rightarrow> source_in option \<Rightarrow> int option \<Rightarrow> string \<Rightarrow>
     string list \<Rightarrow> bool \<Rightarrow> 'w \<Rightarrow> (string + launch_result) \<times> 'w" where
  "toolWaveLaunch deps run epic source asked dag wanted dryRun w = (case parseWaveSource epic source of Inl err \<Rightarrow> (Inl err, w)
     | Inr src \<Rightarrow> (case computeWavePlanForSource deps src of Inl err \<Rightarrow> (Inl (''compute wave plan: '' @ err), w)
       | Inr plan \<Rightarrow> (let target = target_wave plan asked in
           if target = 0 then (Inl ''no ready wave found'', w)
           else case fold (launch_step run dryRun (if dag = [] then defaultDAGForSource src else dag)) (wave_tickets plan target wanted)
               (\<lparr>lr_Wave = target, lr_Launched = [], lr_Errors = [], lr_DryRun = dryRun\<rparr>, w) of
             (r, w') \<Rightarrow> (Inr r, w'))))"

section \<open>Status\<close>

record pull_info =
  pu_HTMLURL :: string
  pu_Merged :: bool

record ticket_status =
  sx_Key :: string
  sx_ID :: string
  sx_IDKind :: string
  sx_WorkflowStatus :: string
  sx_JiraStatus :: string
  sx_IssueState :: string
  sx_Done :: bool
  sx_PRURL :: string
  sx_PRState :: string

record wave_status =
  sr_Epic :: string
  sr_Source :: plan_source
  sr_Wave :: int
  sr_Tickets :: "ticket_status list"
  sr_Completed :: nat
  sr_Running :: nat
  sr_Failed :: nat

definition waveStatusTag :: "wave_ticket \<Rightarrow> string \<times> string" where
  "waveStatusTag t = (if wt_IDKind t = ''github'' then (case splitGHID (wt_ID t) of (owner, repo, n) \<Rightarrow>
       (''source'', ''gh:'' @ node_id (owner @ ''/'' @ repo) n)) else (''ticket'', wt_ID t))"

text \<open>The pull requests that a timeline mentions, in order and once each, with their issue payload.\<close>

definition event_pr :: "string \<Rightarrow> timeline_event \<Rightarrow> (string \<times> gh_issue) option" where
  "event_pr repo ev = (if tl_Event ev \<noteq> ''cross-referenced'' then None else case tl_Issue ev of None \<Rightarrow> None
     | Some src \<Rightarrow> if \<not> gi_PullRequest src then None
         else Some (if gi_HTMLURL src = [] then repo else case ParsePRURL (gi_HTMLURL src) of None \<Rightarrow> repo | Some (o', r, n) \<Rightarrow> o' @ ''/'' @ r, src))"

definition first_seen :: "string \<times> gh_issue \<Rightarrow> (string \<times> gh_issue) list \<Rightarrow> (string \<times> gh_issue) list" where
  "first_seen x xs = (if node_id (fst x) (gi_Number (snd x)) \<in> set (map (\<lambda>y. node_id (fst y) (gi_Number (snd y))) xs) then xs else xs @ [x])"

text \<open>\<open>getPR\<close> takes the full name of the repository and the number.\<close>

definition findMergedPR :: "gh_reads \<Rightarrow> (string \<Rightarrow> int \<Rightarrow> pull_info option) \<Rightarrow> string \<Rightarrow> string \<Rightarrow> int \<Rightarrow> pull_info option" where
  "findMergedPR gh getPR owner repo n = (case gr_GetIssueTimeline gh owner repo n of Inl err \<Rightarrow> None
     | Inr events \<Rightarrow> (case List.map_filter (\<lambda>(r, src). case getPR r (gi_Number src) of None \<Rightarrow> None
           | Some pr \<Rightarrow> if pu_Merged pr then Some pr else None)
         (fold first_seen (filter (\<lambda>(r, src). gi_State src = ''closed'') (List.map_filter (event_pr (owner @ ''/'' @ repo)) events)) [])
       of [] \<Rightarrow> None | pr # prs \<Rightarrow> Some pr))"

record status_deps =
  sd_store :: store
  sd_workflows :: "(string \<times> string) list option"
  sd_getPR :: "string \<Rightarrow> int \<Rightarrow> pull_info option"

text \<open>The correlation of a ticket and the status of its workflow.\<close>

definition ticket_run :: "status_deps \<Rightarrow> wave_ticket \<Rightarrow> string \<times> string" where
  "ticket_run sd t = (case waveStatusTag t of (k, v) \<Rightarrow> case LoadByTag (sd_store sd) k v of [] \<Rightarrow> ([], [])
     | c # cs \<Rightarrow> (let corr = last (c # cs) in (corr, case sd_workflows sd of None \<Rightarrow> []
         | Some all \<Rightarrow> (case map_of all corr of None \<Rightarrow> [] | Some s \<Rightarrow> s))))"

definition ticket_state :: "gh_reads option \<Rightarrow> status_deps \<Rightarrow> wave_ticket \<Rightarrow> ticket_status" where
  "ticket_state client sd t =
     (let jira = (wt_IDKind t = ''jira''); wf = snd (ticket_run sd t);
          done' = (if jira then wt_Status t \<in> set [''Done'', ''Closed'', ''DONE'', ''Cancelled''] else wt_Status t = ''closed'');
          merged = (if wt_IDKind t = ''github'' \<and> wf = ''completed'' \<and> \<not> done' then (case client of None \<Rightarrow> None
            | Some gh \<Rightarrow> (case splitGHID (wt_ID t) of (owner, repo, n) \<Rightarrow> if owner = [] then None else findMergedPR gh (sd_getPR sd) owner repo n))
            else None)
      in \<lparr>sx_Key = wt_Key t, sx_ID = wt_ID t, sx_IDKind = wt_IDKind t, sx_WorkflowStatus = wf,
        sx_JiraStatus = (if jira then wt_Status t else []), sx_IssueState = (if jira then [] else wt_Status t),
        sx_Done = (done' \<or> merged \<noteq> None), sx_PRURL = (case merged of None \<Rightarrow> [] | Some pr \<Rightarrow> pu_HTMLURL pr),
        sx_PRState = (if merged = None then [] else ''merged'')\<rparr>)"

definition count_status :: "string \<Rightarrow> ticket_status list \<Rightarrow> nat" where
  "count_status s ts = length (filter (\<lambda>t. sx_WorkflowStatus t = s) ts)"

definition toolWaveStatus :: "plan_deps \<Rightarrow> status_deps \<Rightarrow> string \<Rightarrow> source_in option \<Rightarrow> int option \<Rightarrow> string + wave_status" where
  "toolWaveStatus deps sd epic source asked = (case parseWaveSource epic source of Inl err \<Rightarrow> Inl err
     | Inr src \<Rightarrow> (case computeWavePlanForSource deps src of Inl err \<Rightarrow> Inl (''compute wave plan: '' @ err)
       | Inr plan \<Rightarrow> (let waves = (case asked of None \<Rightarrow> wp_Waves plan | Some n \<Rightarrow> take 1 (filter (\<lambda>w. int (pv_Wave w) = n) (wp_Waves plan)));
             ts = map (ticket_state (pl_github deps) sd) (concat (map pv_Tickets waves))
           in Inr \<lparr>sr_Epic = wp_Epic plan, sr_Source = wp_Source plan, sr_Wave = (case asked of None \<Rightarrow> 0 | Some n \<Rightarrow> n), sr_Tickets = ts,
             sr_Completed = count_status ''completed'' ts, sr_Running = count_status ''running'' ts, sr_Failed = count_status ''failed'' ts\<rparr>)))"

section \<open>Pull requests\<close>

record pr_link =
  pk_Repo :: string
  pk_Number :: int
  pk_URL :: string
  pk_State :: string
  pk_Title :: string

record issue_links =
  il_Issue :: string
  il_Title :: string
  il_CorrelationID :: string
  il_WorkflowStatus :: string
  il_PRs :: "pr_link list"

record links_result =
  lk_Scope :: string
  lk_Issues :: "issue_links list"
  lk_Count :: nat

text \<open>The row comes also with the error of the timeline.\<close>

definition collectIssuePRLinks :: "gh_reads \<Rightarrow> string \<Rightarrow> string \<Rightarrow> int \<Rightarrow> issue_links \<times> string option" where
  "collectIssuePRLinks gh owner repo n =
     (let i = node_id (owner @ ''/'' @ repo) n;
          row = \<lparr>il_Issue = i, il_Title = (case gr_GetIssue gh owner repo n of Inl err \<Rightarrow> [] | Inr iss \<Rightarrow> gi_Title iss),
            il_CorrelationID = [], il_WorkflowStatus = [], il_PRs = []\<rparr>
      in case gr_GetIssueTimeline gh owner repo n of Inl err \<Rightarrow> (row, Some (''fetch timeline for '' @ i @ '': '' @ err))
      | Inr events \<Rightarrow> (row\<lparr>il_PRs := map (\<lambda>(r, src). \<lparr>pk_Repo = r, pk_Number = gi_Number src, pk_URL = gi_HTMLURL src,
            pk_State = gi_State src, pk_Title = gi_Title src\<rparr>)
          (fold first_seen (List.map_filter (event_pr (owner @ ''/'' @ repo)) events) [])\<rparr>, None))"

definition links_row :: "gh_reads \<Rightarrow> status_deps \<Rightarrow> wave_ticket \<Rightarrow> issue_links option" where
  "links_row gh sd t = (if wt_IDKind t \<noteq> ''github'' then None else case splitGHID (wt_ID t) of (owner, repo, n) \<Rightarrow>
     if owner = [] then None
     else let row = (case collectIssuePRLinks gh owner repo n of (r, None) \<Rightarrow> r
           | (r, Some err) \<Rightarrow> \<lparr>il_Issue = wt_ID t, il_Title = wt_Summary t, il_CorrelationID = [], il_WorkflowStatus = [], il_PRs = []\<rparr>)
       in Some (row\<lparr>il_Title := (if il_Title row = [] then wt_Summary t else il_Title row),
         il_CorrelationID := fst (ticket_run sd t), il_WorkflowStatus := snd (ticket_run sd t)\<rparr>))"

definition toolGitHubPRLinks ::
    "plan_deps \<Rightarrow> status_deps \<Rightarrow> string \<Rightarrow> string \<Rightarrow> source_in option \<Rightarrow> int option \<Rightarrow> string + links_result" where
  "toolGitHubPRLinks deps sd issue epic source asked = (case pl_github deps of
      None \<Rightarrow> Inl (''GITHUB_TOKEN is not set '' @ em_dash @ '' rick_wave_manager action=pr_links requires a configured GitHub client'')
    | Some gh \<Rightarrow> if issue \<noteq> [] then (case parseGHParent issue of Inl err \<Rightarrow> Inl (''invalid issue ref: '' @ err)
          | Inr (owner, repo, n) \<Rightarrow> (case collectIssuePRLinks gh owner repo n of (row, Some err) \<Rightarrow> Inl err
            | (row, None) \<Rightarrow> Inr \<lparr>lk_Scope = ''issue'', lk_Issues = [row], lk_Count = 1\<rparr>))
        else (case parseWaveSource epic source of Inl err \<Rightarrow> Inl err
          | Inr src \<Rightarrow> (case computeWavePlanForSource deps src of Inl err \<Rightarrow> Inl (''compute wave plan: '' @ err)
            | Inr plan \<Rightarrow> (let waves = filter (\<lambda>w. case asked of None \<Rightarrow> True | Some n \<Rightarrow> int (pv_Wave w) = n) (wp_Waves plan);
                  rows = List.map_filter (links_row gh sd) (concat (map pv_Tickets waves))
                in Inr \<lparr>lk_Scope = ''wave'', lk_Issues = rows, lk_Count = length rows\<rparr>))))"

section \<open>Cleanup\<close>

text \<open>The directory of the repositories: its path, its entries (with a flag for directories), and the resolution of links.\<close>

record 'w repos_fs =
  rf_path :: string
  rf_entries :: "'w \<Rightarrow> string + (string \<times> bool) list"
  rf_eval :: "string \<Rightarrow> string + string"
  rf_abs :: "string \<Rightarrow> string + string"
  rf_remove :: "string \<Rightarrow> 'w \<Rightarrow> string option \<times> 'w"

definition safeWorkspacePath :: "'w repos_fs \<Rightarrow> string \<Rightarrow> string + string" where
  "safeWorkspacePath fs path = (if rf_path fs = [] then Inl ''RICK_REPOS_PATH environment variable is not set''
     else case rf_eval fs (rf_path fs) of Inl err \<Rightarrow> Inl (''resolve RICK_REPOS_PATH: '' @ err)
     | Inr repos \<Rightarrow> (case rf_abs fs path of Inl err \<Rightarrow> Inl (''resolve path: '' @ err)
       | Inr absPath \<Rightarrow> (let resolved = (case rf_eval fs absPath of Inl err \<Rightarrow> absPath | Inr p \<Rightarrow> p) in
           if \<not> has_prefix resolved (repos @ [slash]) \<and> resolved \<noteq> repos
           then Inl (''refusing to delete path outside $RICK_REPOS_PATH: '' @ resolved)
           else if \<not> str_contains (path_base resolved) ''-rick-ws-''
           then Inl (''refusing to delete path not matching *-rick-ws-* pattern: '' @ path_base resolved)
           else Inr resolved)))"

definition cleanup_token :: "wave_ticket \<Rightarrow> string" where
  "cleanup_token t = (if wt_IDKind t = ''github'' then ''-gh'' @ itoa (snd (snd (splitGHID (wt_ID t)))) @ ''-'' else wt_ID t)"

definition cleanup_step :: "'w repos_fs \<Rightarrow> string list \<Rightarrow> string \<times> bool \<Rightarrow> (string list \<times> string list) \<times> 'w \<Rightarrow> (string list \<times> string list) \<times> 'w" where
  "cleanup_step fs tokens e = (\<lambda>((cleaned, skipped), w). let name = fst e; path = rf_path fs @ [slash] @ name in
     if \<not> snd e \<or> \<not> list_ex (str_contains name) tokens then ((cleaned, skipped), w)
     else case safeWorkspacePath fs path of Inl err \<Rightarrow> ((cleaned, skipped @ [name @ '': safety check failed: '' @ err]), w)
     | Inr p \<Rightarrow> (case rf_remove fs path w of (Some err, w') \<Rightarrow> ((cleaned, skipped @ [name @ '': '' @ err]), w')
       | (None, w') \<Rightarrow> ((cleaned @ [name], skipped), w')))"

definition toolWaveCleanup ::
    "plan_deps \<Rightarrow> 'w repos_fs \<Rightarrow> string \<Rightarrow> source_in option \<Rightarrow> int option \<Rightarrow> 'w \<Rightarrow> (string + string list \<times> string list) \<times> 'w" where
  "toolWaveCleanup deps fs epic source asked w = (case parseWaveSource epic source of Inl err \<Rightarrow> (Inl err, w)
     | Inr src \<Rightarrow> (case computeWavePlanForSource deps src of Inl err \<Rightarrow> (Inl (''compute wave plan: '' @ err), w)
       | Inr plan \<Rightarrow> if rf_path fs = [] then (Inl ''RICK_REPOS_PATH environment variable is not set'', w)
           else (let waves = filter (\<lambda>v. case asked of None \<Rightarrow> True | Some n \<Rightarrow> int (pv_Wave v) = n) (wp_Waves plan);
                     tokens = map cleanup_token (concat (map pv_Tickets waves))
                 in case rf_entries fs w of Inl err \<Rightarrow> (Inl (''read RICK_REPOS_PATH: '' @ err), w)
                 | Inr entries \<Rightarrow> (case fold (cleanup_step fs tokens) entries (([], []), w) of (r, w') \<Rightarrow> (Inr r, w')))))"

end
