(* ===== verification/WaveRuns.thy ===== *)
theory WaveRuns imports WaveOps begin

text \<open>
  What wave planning guarantees: the wave of a node is the longest chain of its dependencies, a plan
  fails exactly on a cycle, every child stands in one wave after all it waits for, and a Jira wave
  is ready exactly when its blockers are done; and the inputs on which planning, status and
  cleanup go wrong.
\<close>

section \<open>The topological sort\<close>

definition deps_of :: "wave_preds \<Rightarrow> string \<Rightarrow> string set" where
  "deps_of preds i = set (mget [] preds i)"

text \<open>The wave after the last one of a set of nodes.\<close>

definition wave_after :: "(string, nat) gomap \<Rightarrow> string set \<Rightarrow> nat" where
  "wave_after a D = Suc (Max (insert 0 ((\<lambda>p. mget 0 a p) ` D)))"

definition placed :: "(string, nat) gomap \<Rightarrow> string \<Rightarrow> bool" where
  "placed a i \<longleftrightarrow> map_of a i \<noteq> None"

definition sorted_by :: "wave_preds \<Rightarrow> (string, nat) gomap \<Rightarrow> string \<Rightarrow> bool" where
  "sorted_by preds a i \<longleftrightarrow> (\<forall>p \<in> deps_of preds i. placed a p) \<and> mget 0 a i = wave_after a (deps_of preds i)"

lemma placed_assign: "placed (assign_wave n ids a) i \<longleftrightarrow> i \<in> set ids \<or> placed a i"
  by (simp add: placed_def map_of_assign)

lemma mget_assign: "mget 0 (assign_wave n ids a) i = (if i \<in> set ids then n else mget 0 a i)"
  by (simp add: mget_def map_of_assign)

lemma distinct_assign: "distinct (mkeys a) \<Longrightarrow> distinct (mkeys (assign_wave n ids a))"
  unfolding assign_wave_def by (induction ids arbitrary: a) auto

lemma wave_after_cong: "(\<And>p. p \<in> D \<Longrightarrow> mget 0 a p = mget 0 b p) \<Longrightarrow> wave_after a D = wave_after b D"
  by (simp add: wave_after_def cong: image_cong)

text \<open>The invariant of the loop before wave \<open>n\<close>; every node that is left waits for the last wave or for a node that is left.\<close>

definition wave_inv :: "wave_preds \<Rightarrow> (string, nat) gomap \<Rightarrow> nat \<Rightarrow> bool" where
  "wave_inv preds a n \<longleftrightarrow> 0 < n \<and> distinct (mkeys a) \<and> set (mkeys a) \<subseteq> set (mkeys preds) \<and>
     (\<forall>i. placed a i \<longrightarrow> sorted_by preds a i \<and> 0 < mget 0 a i \<and> mget 0 a i < n) \<and>
     (\<forall>i \<in> set (mkeys preds). \<not> placed a i \<longrightarrow>
        n = 1 \<or> (\<exists>p \<in> deps_of preds i. \<not> placed a p \<or> mget 0 a p = n - 1))"

lemma wave_inv_start: "wave_inv preds [] 1"
  by (simp add: wave_inv_def placed_def mkeys_def)

lemma in_ready:
  "i \<in> set (ready_ids order preds a) \<longleftrightarrow>
    i \<in> set order \<and> i \<in> set (mkeys preds) \<and> \<not> placed a i \<and> (\<forall>p \<in> deps_of preds i. placed a p)"
  by (auto simp: ready_ids_def set_mkeys placed_def deps_of_def mget_def list_all_iff split: option.splits)

lemma not_ready:
  "i \<in> set (mkeys preds) \<Longrightarrow> set (mkeys preds) \<subseteq> set order \<Longrightarrow> \<not> placed a i \<Longrightarrow> i \<notin> set (ready_ids order preds a) \<Longrightarrow>
   \<exists>p \<in> deps_of preds i. \<not> placed a p"
  unfolding in_ready by blast

lemma placed_keys: "placed a i \<longleftrightarrow> i \<in> set (mkeys a)"
  by (auto simp: placed_def set_mkeys)

lemma ready_wave:
  assumes inv: "wave_inv preds a n" and i: "i \<in> set (mkeys preds)" "\<not> placed a i" "\<forall>p \<in> deps_of preds i. placed a p"
  shows "wave_after a (deps_of preds i) = n"
proof -
  have fin: "finite (insert 0 ((\<lambda>p. mget 0 a p) ` deps_of preds i))" by (simp add: deps_of_def)
  have lt: "p \<in> deps_of preds i \<Longrightarrow> mget 0 a p < n" for p using inv i(3) by (auto simp: wave_inv_def)
  consider "n = 1" | p where "p \<in> deps_of preds i" "mget 0 a p = n - 1" using inv i by (auto simp: wave_inv_def)
  then have "Max (insert 0 ((\<lambda>p. mget 0 a p) ` deps_of preds i)) = n - 1"
  proof cases
    case 1
    have pos: "p \<in> deps_of preds i \<Longrightarrow> 0 < mget 0 a p" for p using inv i(3) by (auto simp: wave_inv_def)
    then have "deps_of preds i = {}" using lt 1 by fastforce
    then show ?thesis using 1 by simp
  next
    case 2
    have "n - 1 \<in> (\<lambda>p. mget 0 a p) ` deps_of preds i" using imageI [OF 2(1), of "mget 0 a"] by (simp add: 2(2))
    moreover have "y \<le> n - 1" if "y \<in> insert 0 ((\<lambda>p. mget 0 a p) ` deps_of preds i)" for y using lt that by fastforce
    ultimately show ?thesis using fin by (intro Max_eqI) auto
  qed
  then show ?thesis using inv by (simp add: wave_after_def wave_inv_def)
qed

lemma wave_inv_step:
  assumes inv: "wave_inv preds a n" and order: "set (mkeys preds) \<subseteq> set order"
  shows "wave_inv preds (assign_wave n (ready_ids order preds a) a) (n + 1)"
proof -
  let ?b = "assign_wave n (ready_ids order preds a) a"
  have same: "placed a p \<Longrightarrow> mget 0 ?b p = mget 0 a p" for p by (simp add: mget_assign in_ready)
  have "sorted_by preds ?b i \<and> 0 < mget 0 ?b i \<and> mget 0 ?b i < n + 1" if "placed ?b i" for i
  proof (cases "placed a i")
    case True
    then have "sorted_by preds a i" "0 < mget 0 a i" "mget 0 a i < n" using inv by (auto simp: wave_inv_def)
    moreover from this have "wave_after ?b (deps_of preds i) = wave_after a (deps_of preds i)"
      by (intro wave_after_cong same) (simp add: sorted_by_def)
    ultimately show ?thesis using True by (simp add: sorted_by_def same placed_assign)
  next
    case False
    then have i: "i \<in> set (mkeys preds)" "\<not> placed a i" "\<forall>p \<in> deps_of preds i. placed a p" "i \<in> set (ready_ids order preds a)"
      using that by (auto simp: placed_assign in_ready)
    have "wave_after ?b (deps_of preds i) = n"
      using ready_wave [OF inv i(1-3)] i(3) wave_after_cong [of "deps_of preds i" ?b a] same by simp
    moreover have "mget 0 ?b i = n" using i(4) by (simp add: mget_assign)
    ultimately show ?thesis using i(3) inv by (simp add: sorted_by_def placed_assign wave_inv_def)
  qed
  moreover have "\<exists>p \<in> deps_of preds i. \<not> placed ?b p \<or> mget 0 ?b p = n" if left: "i \<in> set (mkeys preds)" "\<not> placed ?b i" for i
  proof -
    have "\<not> placed a i" "i \<notin> set (ready_ids order preds a)" using left(2) by (simp_all add: placed_assign)
    then obtain p where "p \<in> deps_of preds i" "\<not> placed a p" using not_ready [OF left(1) order] by blast
    then show ?thesis by (auto simp: placed_assign mget_assign)
  qed
  moreover have "set (mkeys ?b) \<subseteq> set (mkeys preds)"
  proof
    fix x assume "x \<in> set (mkeys ?b)"
    then have "x \<in> set (ready_ids order preds a) \<or> x \<in> set (mkeys a)" by (auto simp: set_mkeys map_of_assign split: if_splits)
    then show "x \<in> set (mkeys preds)" using inv by (auto simp: in_ready wave_inv_def)
  qed
  ultimately show ?thesis using inv by (simp add: wave_inv_def distinct_assign)
qed

text \<open>How the loop ends: every node is placed, or the rest is a set of nodes that wait for each other.\<close>

definition waiting_set :: "wave_preds \<Rightarrow> string set \<Rightarrow> bool" where
  "waiting_set preds S \<longleftrightarrow> S \<noteq> {} \<and> S \<subseteq> set (mkeys preds) \<and> (\<forall>i \<in> S. deps_of preds i \<inter> S \<noteq> {})"

definition closed_preds :: "wave_preds \<Rightarrow> bool" where
  "closed_preds preds \<longleftrightarrow> distinct (mkeys preds) \<and> (\<forall>i. deps_of preds i \<subseteq> set (mkeys preds))"

lemma kahn_loop_result:
  assumes "closed_preds preds" and "set (mkeys preds) \<subseteq> set order" and "wave_inv preds a n"
  shows "case fst (kahn_loop order preds a n m d) of
      Inr (b, k) \<Rightarrow> \<exists>n'. wave_inv preds b n' \<and> set (mkeys b) = set (mkeys preds)
    | Inl err \<Rightarrow> \<exists>S. waiting_set preds S"
  using assms
proof (induction order preds a n m d rule: kahn_loop.induct)
  case (1 order preds a n m d)
  have len: "length a = card (set (mkeys a))" "length preds = card (set (mkeys preds))" "set (mkeys a) \<subseteq> set (mkeys preds)"
    using 1(2,4) length_eq_card by (auto simp: wave_inv_def closed_preds_def)
  show ?case
  proof (cases "length preds \<le> length a")
    case True
    then have "set (mkeys a) = set (mkeys preds)" using len by (intro card_seteq) auto
    then show ?thesis using True 1(4) by (subst kahn_loop.simps) auto
  next
    case more: False
    show ?thesis
    proof (cases "ready_ids order preds a = []")
      case True
      let ?S = "{i \<in> set (mkeys preds). \<not> placed a i}"
      have "set (mkeys a) \<noteq> set (mkeys preds)" using more len by auto
      then have "?S \<noteq> {}" using len(3) by (auto simp: set_mkeys placed_def)
      moreover have "deps_of preds i \<inter> ?S \<noteq> {}" if left: "i \<in> ?S" for i
      proof -
        have "i \<notin> set (ready_ids order preds a)" using True by simp
        then obtain p where "p \<in> deps_of preds i" "\<not> placed a p" using not_ready [OF _ 1(3)] left by blast
        then show ?thesis using 1(2) by (auto simp: closed_preds_def)
      qed
      ultimately have "waiting_set preds ?S" by (auto simp: waiting_set_def)
      then show ?thesis using more True by (subst kahn_loop.simps) (auto simp: Let_def)
    next
      case False
      note step = 1(1) [OF more refl False 1(2,3) wave_inv_step [OF 1(4,3)]]
      then show ?thesis using more False by (subst kahn_loop.simps) (auto simp: Let_def split: sum.splits)
    qed
  qed
qed

lemma kahn_result:
  assumes "closed_preds preds" and "set order = set (mkeys preds)"
  shows "case fst (kahnWaves order preds d) of
      Inr (b, k) \<Rightarrow> \<exists>n'. wave_inv preds b n' \<and> set (mkeys b) = set (mkeys preds)
    | Inl err \<Rightarrow> \<exists>S. waiting_set preds S"
  unfolding kahnWaves_def using assms(2) by (intro kahn_loop_result [OF assms(1) _ wave_inv_start]) simp

text \<open>
  C29. Kahn's sort gives every node its rank: when it succeeds, all nodes and only they have a wave,
  and the wave of a node is one more than the last wave among the nodes it depends on, that
  is, the length of the longest chain of dependencies that ends in it.
\<close>
theorem waves_are_longest_chains:
  assumes "closed_preds preds" and "set order = set (mkeys preds)"
    and "kahnWaves order preds d = (Inr (waves, parallelism), d')"
  shows "set (mkeys waves) = set (mkeys preds) \<and>
    (\<forall>i \<in> set (mkeys preds). mget 0 waves i = Suc (Max (insert 0 ((\<lambda>p. mget 0 waves p) ` deps_of preds i))))"
proof -
  obtain n where n: "wave_inv preds waves n" and keys: "set (mkeys waves) = set (mkeys preds)"
    using kahn_result [OF assms(1,2), of d] unfolding assms(3) by auto
  have "mget 0 waves i = wave_after waves (deps_of preds i)" if "i \<in> set (mkeys preds)" for i
    using n that unfolding keys [symmetric] placed_keys [symmetric] wave_inv_def sorted_by_def by blast
  then show ?thesis using keys by (simp add: wave_after_def)
qed

text \<open>
  C30. Kahn's sort fails exactly on a cycle: it reports an error if and only if there are nodes
  each of which depends on another one of them.
\<close>
theorem cycles_are_reported:
  assumes "closed_preds preds" and "set order = set (mkeys preds)"
  shows "(\<exists>err. fst (kahnWaves order preds d) = Inl err) \<longleftrightarrow>
    (\<exists>S. S \<noteq> {} \<and> S \<subseteq> set (mkeys preds) \<and> (\<forall>i \<in> S. deps_of preds i \<inter> S \<noteq> {}))"
proof (cases "fst (kahnWaves order preds d)")
  case (Inl err)
  then have "\<exists>S. waiting_set preds S" using kahn_result [OF assms, of d] by simp
  then show ?thesis using Inl unfolding waiting_set_def by simp
next
  case (Inr r)
  obtain a k where r: "r = (a, k)" by (cases r)
  obtain n' where inv: "wave_inv preds a n'" and keys: "set (mkeys a) = set (mkeys preds)"
    using kahn_result [OF assms, of d] unfolding Inr r by auto
  have "False" if S: "S \<noteq> {}" "S \<subseteq> set (mkeys preds)" "\<forall>i \<in> S. deps_of preds i \<inter> S \<noteq> {}" for S
  proof -
    obtain i where i: "i \<in> S" "\<And>j. j \<in> S \<Longrightarrow> mget 0 a i \<le> mget 0 a j"
      using S(1) ex_has_least_nat [of "\<lambda>i. i \<in> S" _ "mget 0 a"] by blast
    obtain p where p: "p \<in> deps_of preds i" "p \<in> S" using S(3) i(1) by blast
    have "placed a i" unfolding placed_keys keys using i(1) S(2) by blast
    then have "mget 0 a i = wave_after a (deps_of preds i)" using inv by (simp add: wave_inv_def sorted_by_def)
    moreover have "mget 0 a p < wave_after a (deps_of preds i)"
      using p(1) by (auto simp: wave_after_def less_Suc_eq_le deps_of_def intro!: Max_ge)
    ultimately show False using i(2) [OF p(2)] by simp
  qed
  then show ?thesis using Inr by (metis sum.distinct(1))
qed

section \<open>Grouping\<close>

lemma group_concat:
  "distinct ks \<Longrightarrow> set (map fst xs) \<subseteq> set ks \<Longrightarrow>
   mset (concat (map (\<lambda>w. map snd (filter (\<lambda>x. fst x = w) xs)) ks)) = mset (map snd xs)"
proof (induction ks arbitrary: xs)
  case (Cons k ks)
  let ?rest = "filter (\<lambda>x. fst x \<noteq> k) xs"
  have "filter (\<lambda>x. fst x = w) xs = filter (\<lambda>x. fst x = w) ?rest" if "w \<in> set ks" for w
    using Cons.prems(1) that by (auto intro: filter_cong)
  then have "concat (map (\<lambda>w. map snd (filter (\<lambda>x. fst x = w) xs)) ks) = concat (map (\<lambda>w. map snd (filter (\<lambda>x. fst x = w) ?rest)) ks)"
    by (intro arg_cong [of _ _ concat] map_cong) auto
  moreover have "mset (concat (map (\<lambda>w. map snd (filter (\<lambda>x. fst x = w) ?rest)) ks)) = mset (map snd ?rest)"
    using Cons.prems by (intro Cons.IH) auto
  moreover have "mset (map snd xs) = mset (map snd (filter (\<lambda>x. fst x = k) xs)) + mset (map snd ?rest)"
    by (induction xs) auto
  ultimately show ?case by simp
qed simp

lemma group_mset: "mset (concat (map snd (group_waves xs))) = mset (map snd xs)"
proof -
  have "map snd (group_waves xs) = map (\<lambda>w. map snd (filter (\<lambda>x. fst x = w) xs)) (sort (remdups (map fst xs)))"
    by (simp add: group_waves_def comp_def)
  then show ?thesis using group_concat [of "sort (remdups (map fst xs))" xs] by simp
qed

lemma group_number: "(w, ts) \<in> set (group_waves xs) \<Longrightarrow> w \<in> fst ` set xs"
  by (auto simp: group_waves_def image_iff)

lemma group_member: "(w, ts) \<in> set (group_waves xs) \<Longrightarrow> t \<in> set ts \<Longrightarrow> (w, t) \<in> set xs"
  by (auto simp: group_waves_def)

section \<open>GitHub plans\<close>

definition node_ids :: "wave_nodes \<Rightarrow> bool" where
  "node_ids nodes \<longleftrightarrow> (\<forall>i n. map_of nodes i = Some n \<longrightarrow> wn_id n = i)"

lemma mkeys_update: "i \<in> set (mkeys m) \<Longrightarrow> mkeys (mput m i v) = mkeys m"
  by (simp add: mkeys_def mput_def update_keys)







section \<open>What the planners hand to the sort\<close>

definition nodes_ok :: "wave_nodes \<Rightarrow> bool" where
  "nodes_ok nodes \<longleftrightarrow> node_ids nodes \<and> distinct (mkeys nodes)"

lemma nodes_ok_put: "nodes_ok nodes \<Longrightarrow> wn_id n = i \<Longrightarrow> nodes_ok (mput nodes i n)"
  by (simp add: nodes_ok_def node_ids_def)

lemma nodes_ok_Nil: "nodes_ok []"
  by (simp add: nodes_ok_def node_ids_def mkeys_def)

lemma subs_ok: "nodes_ok nodes \<Longrightarrow> nodes_ok (fst (fold (sub_step repo allow) subs (nodes, d)))"
proof (induction subs arbitrary: nodes d)
  case (Cons s subs)
  have "nodes_ok (fst (sub_step repo allow s (nodes, d)))"
    using Cons.prems by (simp add: sub_step_def Let_def nodes_ok_put)
  then show ?case using Cons.IH by (cases "sub_step repo allow s (nodes, d)") simp
qed simp

lemma sub_keys: "set (mkeys (fst (fold (sub_step repo allow) subs (nodes, d)))) \<subseteq>
    set (mkeys nodes) \<union> (\<lambda>s. node_id (sub_repo repo s) (si_Number s)) ` set subs"
proof (induction subs arbitrary: nodes d)
  case (Cons s subs)
  obtain n1 d1 where s: "sub_step repo allow s (nodes, d) = (n1, d1)" by fastforce
  then have "set (mkeys n1) \<subseteq> insert (node_id (sub_repo repo s) (si_Number s)) (set (mkeys nodes))"
    by (auto simp: sub_step_def Let_def split: if_splits)
  then show ?case using Cons.IH [of n1 d1] by (simp add: s) blast
qed simp

definition found_ok :: "wave_nodes \<Rightarrow> string list \<Rightarrow> bool" where
  "found_ok nodes order \<longleftrightarrow> nodes_ok nodes \<and> set order = set (mkeys nodes)"

lemma refs_ok: "found_ok nodes order \<Longrightarrow>
    case fold (ref_step gh repo allow) rs ((nodes, order), d) of ((nodes', order'), d') \<Rightarrow> found_ok nodes' order'"
proof (induction rs arbitrary: nodes order d)
  case (Cons r rs)
  obtain n1 o1 d1 where s: "ref_step gh repo allow r ((nodes, order), d) = ((n1, o1), d1)" by (metis prod.collapse)
  then have "found_ok n1 o1" using Cons.prems
    by (auto simp: ref_step_def Let_def found_ok_def nodes_ok_put split: if_splits prod.splits sum.splits)
  then show ?case using Cons.IH [of n1 o1 d1] by (simp add: s)
qed simp

lemma found_Nil: "found_ok [] []"
  by (simp add: found_ok_def nodes_ok_Nil mkeys_def)

lemma discover_once_ok: "discoverOnce gh mode src parent repo d = (Inr (nodes, order), d') \<Longrightarrow> found_ok nodes order"
proof -
  assume a: "discoverOnce gh mode src parent repo d = (Inr (nodes, order), d')"
  note refs = refs_ok [OF found_Nil, of gh repo "ws_AllowCrossRepo src" _ d]
  consider "mode = ''sub_issues''" | "mode = ''task_list''" | "mode = ''body_refs''"
    using a by (auto simp: discoverOnce_def split: if_splits)
  then show ?thesis
  proof cases
    case 1
    then obtain subs where subs: "fold (sub_step repo (ws_AllowCrossRepo src)) subs ([], d) = (nodes, d')"
        "order = filter (\<lambda>i. map_of nodes i \<noteq> None) (map (\<lambda>s. node_id (sub_repo repo s) (si_Number s)) subs)"
      using a by (auto simp: discoverOnce_def materializeFromSubIssues_def split: sum.splits prod.splits)
    have "nodes_ok nodes" using subs_ok [OF nodes_ok_Nil, of repo "ws_AllowCrossRepo src" subs d] by (simp add: subs(1))
    moreover have "set (mkeys nodes) \<subseteq> (\<lambda>s. node_id (sub_repo repo s) (si_Number s)) ` set subs"
      using sub_keys [of repo "ws_AllowCrossRepo src" subs "[]" d] by (simp add: subs(1) mkeys_def)
    ultimately show ?thesis by (auto simp: found_ok_def subs(2) set_mkeys)
  next
    case 2
    then show ?thesis using a refs [of "ParseTaskList (gi_Body parent)"] by (auto simp: discoverOnce_def materializeFromRefs_def split: prod.splits)
  next
    case 3
    then show ?thesis using a refs [of "filterSelf (ParseBodyRefs (gi_Body parent))
      \<lparr>ir_Owner = ws_Owner src, ir_Repo = ws_Repo src, ir_Number = ws_Number src\<rparr> repo"] by (auto simp: discoverOnce_def materializeFromRefs_def split: prod.splits)
  qed
qed

lemma discover_loop_ok:
  "discover_loop gh src parent repo first modes lastErr d = (Inr (nodes, order, path), d') \<Longrightarrow> found_ok nodes order"
proof (induction modes arbitrary: lastErr d)
  case Nil
  then show ?case using found_Nil by (auto split: option.splits)
next
  case (Cons mode modes)
  show ?case
  proof (cases "discoverOnce gh mode src parent repo d")
    case (Pair r d1)
    show ?thesis
    proof (cases r)
      case (Inl err)
      then show ?thesis using Cons Pair by simp
    next
      case (Inr no)
      obtain n1 o1 where no: "no = (n1, o1)" by (cases no)
      then show ?thesis using Cons Pair Inr discover_once_ok [of gh mode src parent repo d n1 o1 d1] by (auto split: if_splits)
    qed
  qed
qed

definition preds_ok :: "wave_nodes \<Rightarrow> wave_preds \<Rightarrow> bool" where
  "preds_ok nodes preds \<longleftrightarrow> mkeys preds = mkeys nodes \<and> (\<forall>i. deps_of preds i \<subseteq> set (mkeys nodes))"

lemma preds_ok_start: "preds_ok nodes (no_preds nodes)"
proof -
  have k: "mkeys (no_preds nodes) = mkeys nodes" by (simp add: mkeys_def no_preds_def comp_def case_prod_beta)
  have "mget [] (no_preds nodes) i = []" for i by (induction nodes) (auto simp: no_preds_def mget_def)
  then show ?thesis using k by (simp add: preds_ok_def deps_of_def)
qed

lemma add_edge_ok: "preds_ok nodes preds \<Longrightarrow> preds_ok nodes (fst (addEdge nodes label i j (preds, d)))"
  using mkeys_update [of i preds] by (auto simp: addEdge_def preds_ok_def deps_of_def set_mkeys [symmetric]) (auto simp: set_mkeys)

lemma fold_edges_ok:
  assumes "\<And>x st. preds_ok nodes (fst st) \<Longrightarrow> preds_ok nodes (fst (f x st))"
  shows "preds_ok nodes (fst st) \<Longrightarrow> preds_ok nodes (fst (fold f xs st))"
proof (induction xs arbitrary: st)
  case (Cons x xs)
  then show ?case using assms [of st x] by simp
qed simp

lemma add_edge_ok': "preds_ok nodes (fst st) \<Longrightarrow> preds_ok nodes (fst (addEdge nodes label i j st))"
  using add_edge_ok [of nodes "fst st" label i j "snd st"] by simp

lemma edge_steps_ok: "preds_ok nodes (fst st) \<Longrightarrow> preds_ok nodes (fst (fold (edge_step nodes label repo) es st))"
  by (rule fold_edges_ok) (simp_all add: edge_step_def add_edge_ok')

lemma label_steps_ok: "preds_ok nodes (fst st) \<Longrightarrow> preds_ok nodes (fst (fold (label_step nodes repo) ns st))"
proof (rule fold_edges_ok)
  fix n and st :: "wave_preds \<times> plan_diagnostics"
  assume "preds_ok nodes (fst st)"
  then show "preds_ok nodes (fst (label_step nodes repo n st))"
    unfolding label_step_def by (rule fold_edges_ok [rotated]) (auto simp: add_edge_ok' split: option.split)
qed

lemma preds_ok_keys: "mkeys nodes' = mkeys nodes \<Longrightarrow> preds_ok nodes' preds = preds_ok nodes preds"
  by (simp add: preds_ok_def)

lemma body_steps_ok:
  "nodes_ok nodes \<Longrightarrow> preds_ok nodes (fst st) \<Longrightarrow> case fold (body_step gh repo) xs (nodes, st) of (nodes', st') \<Rightarrow>
     nodes_ok nodes' \<and> mkeys nodes' = mkeys nodes \<and> preds_ok nodes (fst st')"
proof (induction xs arbitrary: nodes st)
  case (Cons i xs)
  obtain n1 st1 where s: "body_step gh repo i (nodes, st) = (n1, st1)" by (metis prod.collapse)
  have "nodes_ok n1 \<and> mkeys n1 = mkeys nodes \<and> preds_ok nodes (fst st1)"
  proof (cases "map_of nodes i")
    case (Some node)
    then have "i \<in> set (mkeys nodes)" "wn_id node = i" using Cons.prems(1) by (auto simp: set_mkeys nodes_ok_def node_ids_def)
    moreover obtain es where "n1 = nodes \<and> fst st1 = fst st \<or>
        (\<exists>b. n1 = mput nodes i (node\<lparr>wn_body := b\<rparr>)) \<and> st1 = fold (edge_step nodes ''body_refs'' repo) es st"
      using s Some by (auto simp: body_step_def split: prod.splits sum.splits)
    ultimately show ?thesis using Cons.prems edge_steps_ok [of nodes st "''body_refs''" repo es] mkeys_update [of i nodes]
      by (auto intro: nodes_ok_put)
  qed (use s Cons.prems in \<open>simp add: body_step_def\<close>)
  then show ?case using Cons.IH [of n1 st1] by (simp add: s preds_ok_keys [of n1 nodes] split: prod.splits)
qed simp

text \<open>
  C31. Discovery and dependency reading keep the plan closed: whatever the source, the mode and
  GitHub's answers are, the children found have their own ids as keys, the order lists exactly them, and
  the dependency map has an entry for every child and names no node outside the plan, so that the sort
  never waits for an issue that is not planned.
\<close>
theorem dependencies_stay_in_the_plan:
  assumes "discoverGithubChildren gh src parent repo d = (Inr (nodes, order, path), d1)"
    and "buildGithubDependencies gh src body repo nodes d2 = (Inr (nodes', preds, depPath), d3)"
  shows "node_ids nodes' \<and> set order = set (mkeys nodes') \<and> mkeys preds = mkeys nodes' \<and> closed_preds preds"
proof -
  have f: "nodes_ok nodes" "set order = set (mkeys nodes)"
    using assms(1) discover_loop_ok by (auto simp: discoverGithubChildren_def Let_def found_ok_def)
  have "nodes_ok nodes' \<and> mkeys nodes' = mkeys nodes \<and> preds_ok nodes preds"
  proof -
    note start = preds_ok_start [of nodes]
    consider "ws_DependencySource src = ''table''" | "ws_DependencySource src = ''body_refs''" | "ws_DependencySource src = ''labels''"
      | "ws_DependencySource src = ''none''" using assms(2) by (auto simp: buildGithubDependencies_def Let_def split: if_splits)
    then show ?thesis
    proof cases
      case 1
      then show ?thesis using assms(2) f edge_steps_ok [of nodes "(no_preds nodes, d2)" "''table''" repo "ParseDependencyTable body"] start
        by (auto simp: buildGithubDependencies_def Let_def split: prod.splits)
    next
      case 2
      then show ?thesis using assms(2) body_steps_ok [OF f(1), of "(no_preds nodes, d2)" gh repo "mkeys nodes"] start
        by (auto simp: buildGithubDependencies_def Let_def split: prod.splits)
    next
      case 3
      then show ?thesis using assms(2) f label_steps_ok [of nodes "(no_preds nodes, d2)" repo "map snd nodes"] start
        by (auto simp: buildGithubDependencies_def Let_def split: prod.splits)
    next
      case 4
      then show ?thesis using assms(2) f start by (auto simp: buildGithubDependencies_def Let_def)
    qed
  qed
  then show ?thesis using f by (auto simp: nodes_ok_def preds_ok_def closed_preds_def)
qed

section \<open>Jira plans\<close>

text \<open>
  A key whose dependencies all stand in earlier waves, or which was put into the last wave
  because nothing moved: then every key left over waits for another one.
\<close>

definition jira_placed :: "wave_preds \<Rightarrow> (string, nat) gomap \<Rightarrow> nat \<Rightarrow> string set \<Rightarrow> string \<Rightarrow> bool" where
  "jira_placed deps a n S k \<longleftrightarrow>
     (\<forall>p \<in> deps_of deps k. placed a p \<and> mget 0 a p < mget 0 a k) \<or> mget 0 a k = n \<and> k \<in> S"

definition waits_within :: "string list \<Rightarrow> wave_preds \<Rightarrow> string set \<Rightarrow> bool" where
  "waits_within keys deps S \<longleftrightarrow> S \<subseteq> set keys \<and> (\<forall>k \<in> S. \<exists>p \<in> S. p \<in> deps_of deps k)"

lemma waits_within_empty [simp]: "waits_within keys deps {}"
  by (simp add: waits_within_def)

lemma jira_ready_iff: "k \<in> set (jira_ready keys deps a) \<longleftrightarrow> k \<in> set keys \<and> \<not> placed a k \<and> (\<forall>p \<in> deps_of deps k. placed a p)"
  by (auto simp: jira_ready_def placed_def deps_of_def list_all_iff)

lemma jira_loop_order:
  "(\<And>k. placed a k \<Longrightarrow> mget 0 a k < n \<and> (\<forall>p \<in> deps_of deps k. placed a p \<and> mget 0 a p < mget 0 a k)) \<Longrightarrow>
   \<forall>k \<in> set keys. deps_of deps k \<subseteq> set keys \<Longrightarrow>
   \<exists>m S. waits_within keys deps S \<and> (\<forall>k. placed (jira_loop keys deps a n) k \<longrightarrow>
     mget 0 (jira_loop keys deps a n) k \<le> m \<and> jira_placed deps (jira_loop keys deps a n) m S k)"
proof (induction keys deps a n rule: jira_loop.induct)
  case (1 keys deps a n)
  show ?case
  proof (cases "length keys \<le> length a")
    case True
    then show ?thesis using 1(2)
      by (subst (1 2 3) jira_loop.simps) (intro exI [of _ n] exI [of _ "{}"], fastforce simp: jira_placed_def)
  next
    case more: False
    show ?thesis
    proof (cases "jira_ready keys deps a = []")
      case True
      define b where "b = assign_wave n (filter (\<lambda>k. map_of a k = None) keys) a"
      have b: "jira_loop keys deps a n = b" using more True by (subst jira_loop.simps) (simp add: b_def)
      define S where "S = {k \<in> set keys. \<not> placed a k}"
      have "\<exists>p \<in> S. p \<in> deps_of deps k" if "k \<in> S" for k
      proof -
        have "k \<in> set keys" "\<not> placed a k" "k \<notin> set (jira_ready keys deps a)" using that True by (simp_all add: S_def)
        then obtain p where "p \<in> deps_of deps k" "\<not> placed a p" by (auto simp: jira_ready_iff)
        then show ?thesis using 1(3) \<open>k \<in> set keys\<close> by (auto simp: S_def)
      qed
      then have S: "waits_within keys deps S" by (auto simp: waits_within_def S_def)
      have "mget 0 b k \<le> n \<and> jira_placed deps b n S k" if k: "placed b k" for k
      proof (cases "placed a k")
        case True
        have "placed a p \<Longrightarrow> mget 0 b p = mget 0 a p \<and> placed b p" for p
          by (auto simp: b_def mget_assign placed_assign) (simp_all add: placed_def)
        then show ?thesis using 1(2) [OF True] True by (fastforce simp: jira_placed_def)
      next
        case False
        then have "mget 0 b k = n" "k \<in> S" using k by (auto simp: b_def S_def mget_assign placed_assign)
        then show ?thesis by (simp add: jira_placed_def)
      qed
      then show ?thesis unfolding b using S by blast
    next
      case False
      let ?r = "jira_ready keys deps a"
      have "mget 0 (assign_wave n ?r a) k < n + 1 \<and> (\<forall>p \<in> deps_of deps k. placed (assign_wave n ?r a) p \<and>
          mget 0 (assign_wave n ?r a) p < mget 0 (assign_wave n ?r a) k)" if k: "placed (assign_wave n ?r a) k" for k
      proof -
        have old: "placed a p \<Longrightarrow> p \<notin> set ?r" for p by (simp add: jira_ready_iff)
        show ?thesis
        proof (cases "k \<in> set ?r")
          case True
          then have "\<forall>p \<in> deps_of deps k. placed a p" by (simp add: jira_ready_iff)
          then show ?thesis using 1(2) True old by (auto simp: mget_assign placed_assign)
        next
          case False
          then have "placed a k" using k by (simp add: placed_assign)
          from 1(2) [OF this] show ?thesis using False old by (auto simp: mget_assign placed_assign)
        qed
      qed
      from 1(1) [OF more refl False this 1(3)] show ?thesis using more False by (subst (1 2 3) jira_loop.simps) simp
    qed
  qed
qed

lemma jira_loop_all:
  "distinct (mkeys a) \<Longrightarrow> set (mkeys a) \<subseteq> set keys \<Longrightarrow> k \<in> set keys \<Longrightarrow> placed (jira_loop keys deps a n) k"
proof (induction keys deps a n rule: jira_loop.induct)
  case (1 keys deps a n)
  show ?case
  proof (cases "length keys \<le> length a")
    case True
    then have "card (set keys) \<le> card (set (mkeys a))" using length_eq_card [OF 1(2)] card_length [of keys] by simp
    then have "set (mkeys a) = set keys" using 1(3) by (intro card_seteq) auto
    then have "placed a k" using 1(4) by (simp add: placed_keys)
    then show ?thesis using True by (subst jira_loop.simps) simp
  next
    case more: False
    show ?thesis
    proof (cases "jira_ready keys deps a = []")
      case True
      have "placed (assign_wave n (filter (\<lambda>k. map_of a k = None) keys) a) k"
        unfolding placed_assign using 1(4) by (cases "map_of a k = None") (simp_all add: placed_def)
      then show ?thesis using more True by (subst jira_loop.simps) simp
    next
      case False
      have "set (mkeys (assign_wave n (jira_ready keys deps a) a)) \<subseteq> set keys"
      proof
        fix x assume "x \<in> set (mkeys (assign_wave n (jira_ready keys deps a) a))"
        then show "x \<in> set keys" using 1(3) unfolding placed_keys [symmetric] placed_assign jira_ready_iff by (auto simp: placed_keys)
      qed
      from 1(1) [OF more refl False distinct_assign [OF 1(2)] this 1(4)] show ?thesis
        using more False by (subst jira_loop.simps) simp
    qed
  qed
qed

text \<open>
  The blockers of a child, read off the answers of Jira: the other end of an inward
  \<open>Blocks\<close> link of the child, when that issue is itself a child of the epic. A child whose links
  cannot be read has none.
\<close>

definition epic_blocker :: "(string \<Rightarrow> jira_link list option) \<Rightarrow> jira_child list \<Rightarrow> string \<Rightarrow> string \<Rightarrow> bool" where
  "epic_blocker links children p k \<longleftrightarrow> p \<noteq> [] \<and> (\<exists>b \<in> set children. jc_Key b = p) \<and>
     (\<exists>ls l. links k = Some ls \<and> l \<in> set ls \<and> jk_Type l = ''Blocks'' \<and> jk_InwardKey l = p)"

lemma jira_link_deps:
  "deps_of (fold (\<lambda>l m. if jk_Type l \<noteq> ''Blocks'' then m
      else if jk_InwardKey l \<noteq> [] \<and> jk_InwardKey l \<in> set ks
        then mput m c (List.insert (jk_InwardKey l) (mget [] m c)) else m) ls m) k =
   deps_of m k \<union> (if k = c then {p. p \<noteq> [] \<and> p \<in> set ks \<and> (\<exists>l \<in> set ls. jk_Type l = ''Blocks'' \<and> jk_InwardKey l = p)} else {})"
proof (induction ls arbitrary: m)
  case (Cons l ls)
  show ?case unfolding fold_Cons comp_apply Cons.IH by (auto simp: deps_of_def mget_mput)
qed simp

lemma jira_deps_iff: "p \<in> deps_of (jira_deps links children) k \<longleftrightarrow> (\<exists>c \<in> set children. jc_Key c = k) \<and> epic_blocker links children p k"
proof -
  let ?ks = "map jc_Key children"
  let ?step = "\<lambda>c deps. case links (jc_Key c) of None \<Rightarrow> deps
      | Some ls \<Rightarrow> fold (\<lambda>l m. if jk_Type l \<noteq> ''Blocks'' then m
          else if jk_InwardKey l \<noteq> [] \<and> jk_InwardKey l \<in> set ?ks
            then mput m (jc_Key c) (List.insert (jk_InwardKey l) (mget [] m (jc_Key c))) else m) ls deps"
  have step: "p \<in> deps_of (?step c m) k \<longleftrightarrow> p \<in> deps_of m k \<or> jc_Key c = k \<and> epic_blocker links children p k" for c m
    by (cases "links (jc_Key c)") (auto simp: jira_link_deps epic_blocker_def)
  have all: "p \<in> deps_of (fold ?step cs m) k \<longleftrightarrow>
      p \<in> deps_of m k \<or> (\<exists>c \<in> set cs. jc_Key c = k) \<and> epic_blocker links children p k" for cs m
  proof (induction cs arbitrary: m)
    case (Cons c cs)
    show ?case unfolding fold_Cons comp_apply Cons.IH step by auto
  qed simp
  have "deps_of (fold (\<lambda>c m. mput m (jc_Key c) []) cs m) k \<subseteq> deps_of m k" for cs and m :: wave_preds
  proof (induction cs arbitrary: m)
    case (Cons c cs)
    show ?case unfolding fold_Cons comp_apply
      by (rule order_trans [OF Cons.IH]) (auto simp: deps_of_def mget_mput)
  qed simp
  from this [of children "[]"] show ?thesis unfolding jira_deps_def all by (auto simp: deps_of_def mget_def)
qed

lemma child_status_last:
  "child_status children p = (case last_match (\<lambda>b. jc_Key b = p) children of None \<Rightarrow> [] | Some b \<Rightarrow> jc_Status b)"
  by (induction children rule: rev_induct) (auto simp: child_status_def split: option.splits)

lemma child_done:
  assumes "\<exists>b \<in> set children. jc_Key b = p"
  shows "child_status children p \<in> set doneStatuses \<longleftrightarrow>
    (\<exists>b. last_such (\<lambda>b. jc_Key b = p) children b \<and> jc_Status b \<in> {''Done'', ''Closed'', ''DONE'', ''Cancelled''})"
  unfolding last_match_iff [symmetric] child_status_last using assms last_match_None [of "\<lambda>b. jc_Key b = p" children]
  by (auto simp: doneStatuses_def split: option.split)

text \<open>A Jira plan as groups of tickets, and what the members of a wave are.\<close>

definition jira_waves_of :: "(string \<Rightarrow> jira_link list option) \<Rightarrow> jira_child list \<Rightarrow> plan_wave list" where
  "jira_waves_of links children = (let deps = jira_deps links children; a = jira_loop (map jc_Key children) deps [] 1
     in map (jira_wave children deps) (group_waves (map (\<lambda>c. (mget 0 a (jc_Key c), jira_ticket c)) children)))"

lemma jira_wave_parts [simp]:
  "pv_Tickets (jira_wave children deps g) = snd g" "pv_Wave (jira_wave children deps g) = fst g"
  by (simp_all add: jira_wave_def Let_def split: prod.split)

lemma jira_plan_waves:
  "computeJiraWavePlan (Some (fetch, links)) epic = Inr plan \<Longrightarrow> fetch epic = Inr children \<Longrightarrow>
   wp_Waves plan = jira_waves_of links children"
  by (auto simp: computeJiraWavePlan_def jira_groups_def jira_waves_of_def Let_def)

lemma jira_plan_ids:
  "mset (concat (map (\<lambda>w. map wt_ID (pv_Tickets w)) (jira_waves_of links children))) = mset (map jc_Key children)"
proof -
  let ?a = "jira_loop (map jc_Key children) (jira_deps links children) [] 1"
  let ?gs = "group_waves (map (\<lambda>c. (mget 0 ?a (jc_Key c), jira_ticket c)) children)"
  have "concat (map (\<lambda>w. map wt_ID (pv_Tickets w)) (jira_waves_of links children)) = map wt_ID (concat (map snd ?gs))"
    by (simp add: jira_waves_of_def Let_def map_concat comp_def)
  then have "mset (concat (map (\<lambda>w. map wt_ID (pv_Tickets w)) (jira_waves_of links children))) =
      image_mset wt_ID (mset (map snd (map (\<lambda>c. (mget 0 ?a (jc_Key c), jira_ticket c)) children)))"
    by (simp only: mset_map group_mset)
  then show ?thesis by (simp add: image_mset.compositionality comp_def jira_ticket_def)
qed

lemma jira_member:
  assumes "w \<in> set (jira_waves_of links children)" and "t \<in> set (pv_Tickets w)"
  shows "\<exists>c \<in> set children. t = jira_ticket c \<and>
    pv_Wave w = mget 0 (jira_loop (map jc_Key children) (jira_deps links children) [] 1) (jc_Key c)"
proof -
  let ?a = "jira_loop (map jc_Key children) (jira_deps links children) [] 1"
  obtain g where "g \<in> set (group_waves (map (\<lambda>c. (mget 0 ?a (jc_Key c), jira_ticket c)) children))"
    "w = jira_wave children (jira_deps links children) g"
    using assms(1) unfolding jira_waves_of_def Let_def set_map by blast
  then show ?thesis using assms(2) group_member [of "fst g" "snd g"] by fastforce
qed

lemma jira_number:
  assumes "w \<in> set (jira_waves_of links children)"
  shows "\<exists>k. pv_Wave w = mget 0 (jira_loop (map jc_Key children) (jira_deps links children) [] 1) k"
proof -
  let ?a = "jira_loop (map jc_Key children) (jira_deps links children) [] 1"
  obtain g where "g \<in> set (group_waves (map (\<lambda>c. (mget 0 ?a (jc_Key c), jira_ticket c)) children))"
    "w = jira_wave children (jira_deps links children) g"
    using assms unfolding jira_waves_of_def Let_def set_map by blast
  then show ?thesis using group_number [of "fst g" "snd g"] by (fastforce simp: image_iff)
qed

lemma jira_blockers:
  assumes "w \<in> set (jira_waves_of links children)" and "t \<in> set (pv_Tickets w)"
  shows "p \<in> deps_of (jira_deps links children) (wt_ID t) \<longleftrightarrow> epic_blocker links children p (wt_ID t)"
  using jira_member [OF assms] by (auto simp: jira_deps_iff jira_ticket_def)

lemma jira_wave_ready:
  assumes w: "w \<in> set (jira_waves_of links children)"
  shows "pv_Ready w \<longleftrightarrow> (\<forall>t \<in> set (pv_Tickets w). \<forall>p. epic_blocker links children p (wt_ID t) \<longrightarrow>
    (\<exists>b. last_such (\<lambda>b. jc_Key b = p) children b \<and> jc_Status b \<in> {''Done'', ''Closed'', ''DONE'', ''Cancelled''}))"
proof -
  let ?deps = "jira_deps links children"
  obtain g where g: "w = jira_wave children ?deps g" using w unfolding jira_waves_of_def Let_def set_map by blast
  have "wt_Key t = wt_ID t" if "t \<in> set (pv_Tickets w)" for t using jira_member [OF w that] by (auto simp: jira_ticket_def)
  then have "pv_Ready w \<longleftrightarrow> (\<forall>t \<in> set (pv_Tickets w). \<forall>p \<in> deps_of ?deps (wt_ID t). child_status children p \<in> set doneStatuses)"
    unfolding g by (cases g) (auto simp: jira_wave_def Let_def deps_of_def filter_empty_conv)
  moreover have "child_status children p \<in> set doneStatuses \<longleftrightarrow>
      (\<exists>b. last_such (\<lambda>b. jc_Key b = p) children b \<and> jc_Status b \<in> {''Done'', ''Closed'', ''DONE'', ''Cancelled''})"
    if "epic_blocker links children p k" for p k
    using that by (intro child_done) (simp add: epic_blocker_def)
  ultimately show ?thesis using jira_blockers [OF w] by blast
qed

lemma jira_wave_order:
  obtains S where "\<forall>k \<in> S. \<exists>p \<in> S. epic_blocker links children p k"
    and "\<And>v w s t. v \<in> set (jira_waves_of links children) \<Longrightarrow> w \<in> set (jira_waves_of links children) \<Longrightarrow>
      s \<in> set (pv_Tickets v) \<Longrightarrow> t \<in> set (pv_Tickets w) \<Longrightarrow> epic_blocker links children (wt_ID s) (wt_ID t) \<Longrightarrow>
      pv_Wave v < pv_Wave w \<or> (\<forall>u \<in> set (jira_waves_of links children). pv_Wave u \<le> pv_Wave w) \<and> wt_ID t \<in> S"
proof -
  let ?deps = "jira_deps links children"
  let ?a = "jira_loop (map jc_Key children) ?deps [] 1"
  have closed: "\<forall>k \<in> set (map jc_Key children). deps_of ?deps k \<subseteq> set (map jc_Key children)"
    by (auto simp: jira_deps_iff epic_blocker_def)
  obtain m S where S: "waits_within (map jc_Key children) ?deps S"
    and m: "\<And>k. placed ?a k \<Longrightarrow> mget 0 ?a k \<le> m \<and> jira_placed ?deps ?a m S k"
    using jira_loop_order [OF _ closed, of "[]" 1] by (auto simp: placed_def)
  have zero: "\<not> placed ?a k \<Longrightarrow> mget 0 ?a k = 0" for k by (simp add: placed_def mget_def)
  have last: "pv_Wave u \<le> m" if "u \<in> set (jira_waves_of links children)" for u
    using jira_number [OF that] m zero by (metis le0)
  show thesis
  proof (rule that)
    show "\<forall>k \<in> S. \<exists>p \<in> S. epic_blocker links children p k" using S by (auto simp: waits_within_def jira_deps_iff)
    fix v w s t assume vw: "v \<in> set (jira_waves_of links children)" "w \<in> set (jira_waves_of links children)"
      "s \<in> set (pv_Tickets v)" "t \<in> set (pv_Tickets w)" "epic_blocker links children (wt_ID s) (wt_ID t)"
    obtain c where c: "c \<in> set children" "t = jira_ticket c" "pv_Wave w = mget 0 ?a (jc_Key c)"
      using jira_member [OF vw(2,4)] by blast
    obtain b where b: "s = jira_ticket b" "pv_Wave v = mget 0 ?a (jc_Key b)" using jira_member [OF vw(1,3)] by blast
    have "placed ?a (jc_Key c)" using c(1) jira_loop_all [of "[]"] by (simp add: mkeys_def)
    then have "mget 0 ?a (jc_Key b) < mget 0 ?a (jc_Key c) \<or> mget 0 ?a (jc_Key c) = m \<and> jc_Key c \<in> S"
      using m [of "jc_Key c"] iffD2 [OF jira_blockers [OF vw(2,4)] vw(5)]
      by (auto simp: jira_placed_def b(1) c(2) jira_ticket_def)
    then show "pv_Wave v < pv_Wave w \<or> (\<forall>u \<in> set (jira_waves_of links children). pv_Wave u \<le> pv_Wave w) \<and> wt_ID t \<in> S"
      using last by (auto simp: b(2) c(2,3) jira_ticket_def)
  qed
qed

text \<open>
  C32. A Jira plan covers its epic. Every child stands in exactly one wave. A wave is ready
  exactly when every blocker of its children is done, a blocker being another child of the epic
  at the inward end of a \<open>Blocks\<close> link that could be read (blockers outside the epic, and those of
  a child whose links cannot be read, are not seen). Each blocker stands in an earlier wave than
  the child it blocks, unless the child stands in the last wave and is caught in a circle: it is
  one of a set of children each of which is blocked by one of the set.
\<close>
theorem jira_plan_covers_the_epic:
  assumes "computeJiraWavePlan (Some (fetch, links)) epic = Inr plan" and "fetch epic = Inr children"
  shows "mset (concat (map (\<lambda>w. map wt_ID (pv_Tickets w)) (wp_Waves plan))) = mset (map jc_Key children) \<and>
    (\<forall>w \<in> set (wp_Waves plan). pv_Ready w \<longleftrightarrow> (\<forall>t \<in> set (pv_Tickets w). \<forall>p. epic_blocker links children p (wt_ID t) \<longrightarrow>
       (\<exists>b. last_such (\<lambda>b. jc_Key b = p) children b \<and> jc_Status b \<in> {''Done'', ''Closed'', ''DONE'', ''Cancelled''}))) \<and>
    (\<forall>v \<in> set (wp_Waves plan). \<forall>w \<in> set (wp_Waves plan). \<forall>s \<in> set (pv_Tickets v). \<forall>t \<in> set (pv_Tickets w).
       epic_blocker links children (wt_ID s) (wt_ID t) \<longrightarrow> pv_Wave v < pv_Wave w \<or>
       (\<forall>u \<in> set (wp_Waves plan). pv_Wave u \<le> pv_Wave w) \<and>
       (\<exists>S. wt_ID t \<in> S \<and> (\<forall>k \<in> S. \<exists>p \<in> S. epic_blocker links children p k)))"
proof -
  note w = jira_plan_waves [OF assms]
  obtain S where S: "\<forall>k \<in> S. \<exists>p \<in> S. epic_blocker links children p k"
    and order: "\<And>v w s t. v \<in> set (wp_Waves plan) \<Longrightarrow> w \<in> set (wp_Waves plan) \<Longrightarrow>
      s \<in> set (pv_Tickets v) \<Longrightarrow> t \<in> set (pv_Tickets w) \<Longrightarrow> epic_blocker links children (wt_ID s) (wt_ID t) \<Longrightarrow>
      pv_Wave v < pv_Wave w \<or> (\<forall>u \<in> set (wp_Waves plan). pv_Wave u \<le> pv_Wave w) \<and> wt_ID t \<in> S"
    using jira_wave_order [of links children] unfolding w by blast
  show ?thesis
  proof (intro conjI ballI impI)
    fix v w s t assume vw: "v \<in> set (wp_Waves plan)" "w \<in> set (wp_Waves plan)" "s \<in> set (pv_Tickets v)" "t \<in> set (pv_Tickets w)"
      "epic_blocker links children (wt_ID s) (wt_ID t)"
    show "pv_Wave v < pv_Wave w \<or> (\<forall>u \<in> set (wp_Waves plan). pv_Wave u \<le> pv_Wave w) \<and>
       (\<exists>S. wt_ID t \<in> S \<and> (\<forall>k \<in> S. \<exists>p \<in> S. epic_blocker links children p k))"
      using order [OF vw] S by auto
  qed (simp_all only: w jira_plan_ids jira_wave_ready)
qed

section \<open>Concrete plans\<close>

definition chain :: wave_preds where
  "chain = [(''a'', []), (''b'', [''a'']), (''c'', [''a'', ''b''])]"

lemma chain_closed: "closed_preds chain"
  by (auto simp: closed_preds_def chain_def deps_of_def mget_def mkeys_def)

lemma chain_keys: "set [''a'', ''b'', ''c''] = set (mkeys chain)"
  by (simp add: chain_def mkeys_def)

lemma chain_waves: "kahnWaves [''a'', ''b'', ''c''] chain no_diagnostics = (Inr ([(''a'', 1), (''b'', 2), (''c'', 3)], 1), no_diagnostics)"
  by code_simp

theorem waves_are_longest_chains_witness:
  "mget 0 [(''a'', 1), (''b'', 2), (''c'', 3)] ''c'' = Suc (Max (insert 0 ((\<lambda>p. mget 0 [(''a'', 1), (''b'', 2), (''c'', 3 :: nat)] p) ` deps_of chain ''c'')))"
  using waves_are_longest_chains [OF chain_closed chain_keys chain_waves] by (simp add: chain_def mkeys_def)

definition ring :: wave_preds where
  "ring = [(''a'', [''b'']), (''b'', [''a''])]"

theorem cycles_are_reported_witness: "\<exists>err. fst (kahnWaves [''a'', ''b''] ring no_diagnostics) = Inl err"
proof -
  have "closed_preds ring" "set [''a'', ''b''] = set (mkeys ring)"
    by (auto simp: closed_preds_def ring_def deps_of_def mget_def mkeys_def)
  then show ?thesis
    by (intro iffD2 [OF cycles_are_reported [OF \<open>closed_preds ring\<close> \<open>set [''a'', ''b''] = set (mkeys ring)\<close>]] exI [of _ "{''a'', ''b''}"]) (simp add: ring_def deps_of_def mget_def mkeys_def)
qed




definition two_src :: wave_source where
  "two_src = no_source\<lparr>ws_Kind := ''github'', ws_Owner := ''o'', ws_Repo := ''r'', ws_Number := 9, ws_DependencySource := ''none'', ws_ChildDiscovery := ''sub_issues''\<rparr>"


definition two_subs :: "sub_issue list" where
  "two_subs = map (\<lambda>n. \<lparr>si_Number = n, si_Title = ''t'', si_Body = [], si_State = ''open'', si_Labels = [], si_Repository = None, si_PullRequest = False\<rparr>) [1, 2]"

definition two_reads :: gh_reads where
  "two_reads = \<lparr>gr_GetIssue = (\<lambda>o' r n. Inl ''404''), gr_GetSubIssues = (\<lambda>o' r n. Inr two_subs), gr_GetIssueTimeline = (\<lambda>o' r n. Inr [])\<rparr>"

definition epic_issue :: gh_issue where
  "epic_issue = \<lparr>gi_Number = 9, gi_Title = ''epic'', gi_Body = [], gi_State = ''open'', gi_Labels = [], gi_PullRequest = False, gi_HTMLURL = []\<rparr>"

theorem dependencies_stay_in_the_plan_witness:
  "\<exists>nodes order path d1 nodes' preds depPath d3.
    discoverGithubChildren two_reads two_src epic_issue ''o/r'' no_diagnostics = (Inr (nodes, order, path), d1) \<and> length nodes = 2 \<and>
    buildGithubDependencies two_reads two_src [] ''o/r'' nodes d1 = (Inr (nodes', preds, depPath), d3) \<and>
    node_ids nodes' \<and> set order = set (mkeys nodes') \<and> mkeys preds = mkeys nodes' \<and> closed_preds preds"
proof -
  have "case discoverGithubChildren two_reads two_src epic_issue ''o/r'' no_diagnostics of (Inl err, d1) \<Rightarrow> False
      | (Inr (nodes, order, path), d1) \<Rightarrow> length nodes = 2"
    by code_simp
  then obtain nodes order path d1 where found: "discoverGithubChildren two_reads two_src epic_issue ''o/r'' no_diagnostics = (Inr (nodes, order, path), d1)"
    "length nodes = 2" by (auto split: prod.splits sum.splits)
  have none: "ws_DependencySource two_src = ''none''" by (simp add: two_src_def)
  have built: "buildGithubDependencies two_reads two_src [] ''o/r'' nodes d1 = (Inr (nodes, no_preds nodes, ''none''), d1)"
    by (simp add: buildGithubDependencies_def Let_def none)
  show ?thesis using dependencies_stay_in_the_plan [OF found(1) built] found built by blast
qed

definition two_children :: "jira_child list" where
  "two_children = map (\<lambda>(k, s). \<lparr>jc_Key = k, jc_Summary = ''s'', jc_Status = s, jc_Labels = [], jc_Points = 1\<rparr>) [(''P-1'', ''Done''), (''P-2'', ''Open'')]"

definition two_links :: "string \<Rightarrow> jira_link list option" where
  "two_links k = Some (if k = ''P-2'' then [\<lparr>jk_Type = ''Blocks'', jk_InwardKey = ''P-1''\<rparr>] else [])"

theorem jira_plan_covers_the_epic_witness:
  "\<exists>plan. computeJiraWavePlan (Some (\<lambda>e. Inr two_children, two_links)) ''P'' = Inr plan \<and>
    mset (concat (map (\<lambda>w. map wt_ID (pv_Tickets w)) (wp_Waves plan))) = {#''P-1'', ''P-2''#}"
proof -
  let ?fetch = "\<lambda>e :: string. Inr two_children :: string + jira_child list"
  obtain plan where plan: "computeJiraWavePlan (Some (?fetch, two_links)) ''P'' = Inr plan"
    by (simp add: computeJiraWavePlan_def Let_def)
  from jira_plan_covers_the_epic [OF plan refl] plan show ?thesis by (auto simp: two_children_def)
qed

section \<open>Where planning and cleanup go wrong\<close>

text \<open>Every wave of a GitHub plan is called ready, whatever its issues wait for.\<close>

lemma github_waves_all_ready: "w \<in> set (buildWaveTickets a nodes order) \<Longrightarrow> pv_Ready w \<and> pv_BlockedBy w = []"
  by (auto simp: buildWaveTickets_def)

text \<open>A Jira wave whose children are done stays ready, so a launch without a number takes it again.\<close>

lemma done_wave_launched_again:
  "case computeJiraWavePlan (Some (\<lambda>e. Inr two_children, two_links)) ''P'' of Inl err \<Rightarrow> False | Inr plan \<Rightarrow> target_wave plan None = 1"
  by code_simp

text \<open>A failed read of the links counts as no blockers.\<close>

lemma failed_links_unblock: "computeJiraWavePlan (Some (fetch, \<lambda>k. None)) epic = computeJiraWavePlan (Some (fetch, \<lambda>k. Some [])) epic"
proof -
  have "jira_deps (\<lambda>k. None) children = jira_deps (\<lambda>k. Some []) children" for children by (simp add: jira_deps_def)
  then show ?thesis by (simp add: computeJiraWavePlan_def split: sum.split)
qed

lemma dashed_owner_is_split: "parseDependsLabel ''depends:my-org-api-5'' = Some \<lparr>ir_Owner = ''my'', ir_Repo = ''org-api'', ir_Number = 5\<rparr>"
  by code_simp

lemma dotted_repo_is_lost: "ParseBodyDependencies \<lparr>ir_Owner = ''o'', ir_Repo = ''r'', ir_Number = 1\<rparr> ''Depends on o/my.repo#3'' = []"
  by code_simp

lemma task_takes_the_next_line:
  "map ir_Number (ParseTaskList (''- [ ]'' @ [nl] @ ''See #12'')) = [12]"
  by code_simp

text \<open>The token of \<open>PROJ-1\<close> also picks the workspace of \<open>PROJ-12\<close>, which is removed with it.\<close>

lemma cleanup_takes_another_ticket:
  assumes "wt_IDKind t = ''jira''" and "wt_ID t = ''PROJ-1''"
    and "safeWorkspacePath fs (rf_path fs @ [slash] @ ''backend-rick-ws-PROJ-12'') = Inr p"
    and "rf_remove fs (rf_path fs @ [slash] @ ''backend-rick-ws-PROJ-12'') w = (None, w')"
  shows "cleanup_step fs [cleanup_token t] (''backend-rick-ws-PROJ-12'', True) (([], []), w) = (([''backend-rick-ws-PROJ-12''], []), w')"
proof -
  have token: "cleanup_token t = ''PROJ-1''" by (simp add: cleanup_token_def assms)
  have "str_contains ''backend-rick-ws-PROJ-12'' ''PROJ-1''" by code_simp
  then show ?thesis using assms by (simp add: cleanup_step_def token Let_def)
qed

text \<open>No token picks the workspace that a launched GitHub ticket gets, neither the one announced nor the one made.\<close>

lemma cleanup_misses_github_workspaces:
  assumes "wt_IDKind t = ''github''" and "wt_ID t = ''o/r#7''"
  shows "\<not> str_contains ''r-rick-ws-gh7'' (cleanup_token t) \<and> \<not> str_contains ''r-rick-ws-0a1b2c3d'' (cleanup_token t)"
proof -
  have "splitGHID ''o/r#7'' = (''o'', ''r'', 7)" by code_simp
  then have token: "cleanup_token t = ''-gh7-''" by (simp add: cleanup_token_def assms) code_simp
  show ?thesis unfolding token by code_simp
qed

end
