(* ===== verification/Spec2Isabelle.thy ===== *)
theory Spec2Isabelle imports WorkflowCatalog FairDispatcher Recovery EventBusRuns ReviewConsolidator BackendRotation Middleware HandlerRegistry GroundingRuns PrConsolidatorPosts PrCommentPosterRuns WaveRuns begin

text \<open>
  Rick is an event-sourced orchestrator of AI workflows, written in Go. A workflow is a graph of
  personas; every state change is an event of an append-only SQLite log, an aggregate is the
  fold of its events, and the engine decides the next events from the aggregate. This library
  models that core and proves what makes it correct. File names are relative to
  \<open>src/internal\<close>.

  \<^bold>\<open>How the parts interact.\<close> \<open>Publish\<close> of the event bus hands an event to the subscribers. The
  engine (one goroutine) folds the aggregate, decides and appends (\<open>engine/engine.go\<close>,
  \<open>engine/aggregate.go\<close>); the persona runner (\<open>engine/persona_runner.go\<close>) resolves which handlers
  are due (\<open>engine/workflow_resolver.go\<close>), queues them per handler and workflow, takes a slot of
  the fair dispatcher, runs the handler and persists its result, which is published again; the
  projections (\<open>projection\<close>) fold every event into read models; after a restart the recovery scan
  (\<open>engine/recovery.go\<close>) puts the due handlers back into the queues.

  \<^bold>\<open>Theories, in the order of their imports.\<close>

  \<^item> \<^bold>\<open>Prelude\<close>: Go strings, maps with a default, decimal numbers, list lemmas and the
    collections of facts that the proofs share.
  \<^item> \<^bold>\<open>Events\<close> (\<open>event/envelope.go\<close>, \<open>event/payload.go\<close>): event types, envelopes and payloads; a
    payload is a datatype value where the program has JSON text. Decoding it as the payload of
    another event type gives nothing, where Go would fill the fields of equal names and report no
    error; the program writes every event with the payload of its own type.
  \<^item> \<^bold>\<open>WorkflowDefs\<close>, \<^bold>\<open>WorkflowCatalog\<close> (\<open>engine/workflow_def.go\<close>, \<open>cli/run.go\<close>): the definitions,
    their graph operations and every built-in workflow; downstream is reachability and every
    selectable workflow is well formed.
  \<^item> \<^bold>\<open>FailureClassify\<close> (\<open>engine/failure_classify.go\<close>, \<open>backend/backend.go\<close>): error chains and kinds.
  \<^item> \<^bold>\<open>Sha256\<close>: the hash behind the verdict fingerprints, on 32-bit words.
  \<^item> \<^bold>\<open>Aggregate\<close>, \<^bold>\<open>AggregateDecide\<close> (\<open>engine/aggregate.go\<close>): \<open>Apply\<close> and \<open>Decide\<close> with all their
    messages; completion, feedback, retries, pauses, escalation.
  \<^item> \<^bold>\<open>EventStore\<close> (\<open>eventstore/sqlite.go\<close>): the tables as lists of rows with the constraints of
    the schema; a driver failure is an argument. The locale \<open>event_log\<close> is the contract of an
    optimistic append-only log, interpreted on this store.
  \<^item> \<^bold>\<open>Throttle\<close>, \<^bold>\<open>EngineLoop\<close> (\<open>engine/throttle.go\<close>, \<open>engine/engine.go\<close>): the loop as steps of a
    state, reachability and its invariants. A run may restart any number of times: a new process
    counts the workflows found running, without a bound, and reads the queue back, with the
    failures of those reads as an argument.
  \<^item> \<^bold>\<open>FairDispatcher\<close> (\<open>engine/fair_dispatcher.go\<close>): the mutex and the condition variable as steps
    of interleaved goroutines.
  \<^item> \<^bold>\<open>DispatchQueue\<close>, \<^bold>\<open>Resolver\<close>, \<^bold>\<open>ResultPersister\<close>, \<^bold>\<open>OutputGuard\<close>, \<^bold>\<open>Runner\<close>, \<^bold>\<open>RunnerRuns\<close>,
    \<^bold>\<open>RunnerOutcomes\<close> (\<open>engine/persona_runner.go\<close> and the files it calls): the join check as a
    fold over the log, queues and drain goroutines, the result batch, pause, resume, cancel,
    retry and hints; invariants over all interleavings. A delivery is also modelled as the row of
    locked sections that it is, with arbitrary interference between them (\<open>wrap_sections\<close>).
  \<^item> \<^bold>\<open>Projections\<close>, \<^bold>\<open>ProjectionRuns\<close> (\<open>projection\<close>): the five read models as instances of one
    locale \<open>row_projection\<close>, the catch-up loop, and agreement with the aggregate.
  \<^item> \<^bold>\<open>Recovery\<close> (\<open>engine/recovery.go\<close>): the scan over engine, runner and read model;
    what it dispatches is stated over the log alone (\<open>due_work\<close>).
  \<^item> \<^bold>\<open>EventBus\<close>, \<^bold>\<open>EventBusRuns\<close> (\<open>eventbus\<close>): the channel bus and the polling bus; the locale
    \<open>pubsub\<close> is the contract of their tables. What a publication owes is computed from the acts
    of the clients (\<open>promised\<close>) and compared with the calls that the handlers log.
  \<^item> \<^bold>\<open>Middleware\<close> (\<open>eventbus/middleware.go\<close>): retry, circuit breaker and idempotency around a handler.
  \<^item> \<^bold>\<open>HandlerRegistry\<close> (\<open>handler/registry.go\<close>, \<open>engine/sentinel.go\<close>, \<open>event/registry.go\<close>,
    \<open>eventstore/upcasting.go\<close>): the index by event type, unhandled events, schema migration.
  \<^item> \<^bold>\<open>BackendRotation\<close> (\<open>backend/round_robin.go\<close>, \<open>backend/sticky.go\<close>, \<open>backend/factory.go\<close>): which
    backend a call goes to.
  \<^item> \<^bold>\<open>ReviewConsolidator\<close> (\<open>handler/review_consolidator.go\<close>): one merged feedback per round.
  \<^item> \<^bold>\<open>GoText\<close>, \<^bold>\<open>ReviewVerdict\<close>, \<^bold>\<open>DiffGrounding\<close>, \<^bold>\<open>PrDiff\<close>, \<^bold>\<open>DiffScope\<close>, \<^bold>\<open>GroundingRuns\<close>
    (\<open>handler/review.go\<close>, \<open>handler/pr_diff.go\<close>): Go text functions and regular expressions, the
    parsers of reviewer text, the filter that ties findings to changed lines, the diff it reads,
    and the round trip from the hunks of git to the filter's scope.
  \<^item> \<^bold>\<open>GoJson\<close>: Go's \<open>encoding/json\<close> as far as the handlers use it: the scanner, decoding into
    fields, compacting and quoting, with the round trip of strings.
  \<^item> \<^bold>\<open>PrConsolidator\<close>, \<^bold>\<open>PrConsolidatorRuns\<close>, \<^bold>\<open>PrConsolidatorPosts\<close>
    (\<open>handler/pr_consolidator.go\<close>): the handler that posts one review on GitHub; its anchors are
    the lines of the hunks, the postings are anchored and complete, a second run posts nothing.
  \<^item> \<^bold>\<open>PrCommentPoster\<close>, \<^bold>\<open>PrCommentPosterRuns\<close> (\<open>handler/pr_comment_poster.go\<close>): the handler that posts a
    composed summary and its replies; across the runs of a correlation nothing is said twice.
  \<^item> \<^bold>\<open>IssueRefs\<close>, \<^bold>\<open>WavePlan\<close>, \<^bold>\<open>WaveOps\<close>, \<^bold>\<open>WaveRuns\<close> (\<open>mcp/tools_wave.go\<close>,
    \<open>github/depstable.go\<close>, \<open>github/discovery.go\<close>): issue references in Markdown, the planners that put
    the children of an epic into waves, launch, status, links and cleanup; a plan is a schedule,
    the wave of a node is the longest chain of its dependencies, an error is a cycle.

  \<^bold>\<open>Correspondence.\<close> A Go struct is a record with the fields in the order of the source, a map a
  partial function or, where it is ranged over, an association list; an error return is \<open>Inl\<close> or
  \<open>None\<close>; a mutex section is one step. Random ids, the clock and environment variables are
  arguments. Logging is left out. Counters and token sums are unbounded integers; the points of a
  Jira issue are rationals. One flag stands for any driver failure of a transaction, which SQLite
  then rolls back. A snapshot holds what \<open>json.Unmarshal\<close> makes of its bytes, a function of the
  aggregate that it decodes into.

  \<^bold>\<open>Specifications.\<close> Where a property says what a scan, a filter or a merge has to find, it is
  stated without the code's own function: \<open>last_such\<close> and \<open>first_such\<close> of the prelude pick an
  element by its place in the log, and \<open>fails_required\<close>, \<open>repeats_failure\<close>, \<open>rejects\<close>,
  \<open>due_work\<close>, \<open>epic_blocker\<close>, \<open>promised\<close> and \<open>fresh_completion\<close> say what counts.

  \<^bold>\<open>Bounds.\<close> The drain of the throttle queue runs on fuel: the length of the queue plus one,
  which \<open>drain_bound_is_enough\<close> shows to be enough. \<open>catchUp\<close> terminates because each page
  advances the position. The breadth-first searches terminate on the set of unseen personas.

  \<^bold>\<open>Not modelled.\<close> Handlers that call external programs or services (AI backends, git, GitHub,
  Jira) beyond the modelled ones, the other MCP tools, gRPC and command-line glue; tickers,
  channels and process start-up. Event payloads are values; JSON text is modelled where a handler
  reads the answer of a model.
\<close>

end
